(* ===== verification/Go_Ints.thy ===== *)
theory Go_Ints
  imports Main "HOL-Library.Word" "HOL-Library.Signed_Division"
begin

text \<open>
  Go's 64-bit integers. An \<open>int\<close> of the sources is a mathematical \<open>int\<close> kept in the range of
  a 64-bit two's complement number; every arithmetic operation of the code wraps its exact
  result with \<open>wrap64\<close>, which agrees with the signed reading of a \<open>64 word\<close>
  (lemma \<open>wrap64_word\<close>). Atomic counters (\<open>atomic.Int64\<close>, \<open>atomic.Uint64\<close>) are \<open>64 word\<close>
  values, so adding one wraps by itself.
\<close>

named_theorems go_arith \<open>unfolding rules of the wrapping operations\<close>

section \<open>The range of int and int64\<close>

definition max_int64 :: int where
  "max_int64 = 9223372036854775807"

definition min_int64 :: int where
  "min_int64 = - 9223372036854775808"

definition int64_ok :: "int \<Rightarrow> bool" where
  "int64_ok x \<longleftrightarrow> min_int64 \<le> x \<and> x \<le> max_int64"

definition wrap64 :: "int \<Rightarrow> int" where
  "wrap64 x = (x + 9223372036854775808) mod 18446744073709551616 - 9223372036854775808"

lemma int64_okI [intro]: "min_int64 \<le> x \<Longrightarrow> x \<le> max_int64 \<Longrightarrow> int64_ok x"
  by (simp add: int64_ok_def)

lemma int64_ok_iff: "int64_ok x \<longleftrightarrow> - 9223372036854775808 \<le> x \<and> x \<le> 9223372036854775807"
  by (simp add: int64_ok_def min_int64_def max_int64_def)

lemma wrap64_id [simp]: "int64_ok x \<Longrightarrow> wrap64 x = x"
  by (simp add: int64_ok_iff wrap64_def)

lemma wrap64_nonneg: "0 \<le> x \<Longrightarrow> x \<le> max_int64 \<Longrightarrow> wrap64 x = x"
  by (simp add: int64_ok_iff max_int64_def)

lemma wrap64_ok [simp]: "int64_ok (wrap64 x)"
  using pos_mod_bound [of 18446744073709551616 "x + 9223372036854775808"]
    pos_mod_sign [of 18446744073709551616 "x + 9223372036854775808"]
  by (simp add: int64_ok_iff wrap64_def)

lemma wrap64_idem [simp]: "wrap64 (wrap64 x) = wrap64 x"
  by simp

text \<open>The written-out wrap-around is the signed value of the 64-bit word.\<close>

lemma wrap64_step: "wrap64 (wrap64 x + 1) = wrap64 (x + 1)"
proof -
  have "((x + 9223372036854775808) mod 18446744073709551616 + 1) mod 18446744073709551616
      = (x + 9223372036854775808 + 1) mod (18446744073709551616 :: int)"
    by (rule mod_add_left_eq)
  moreover have "wrap64 x + 1 + 9223372036854775808 = (x + 9223372036854775808) mod 18446744073709551616 + 1"
    "x + 1 + 9223372036854775808 = x + 9223372036854775808 + 1"
    by (simp_all add: wrap64_def)
  ultimately show ?thesis unfolding wrap64_def [of "wrap64 x + 1"] wrap64_def [of "x + 1"] by (simp only:)
qed

lemma wrap64_word: "wrap64 x = sint (word_of_int x :: 64 word)"
  by (simp add: wrap64_def sint_uint uint_word_of_int signed_take_bit_eq_take_bit_shift
      take_bit_eq_mod mod_simps)

lemma int64_ok_length [simp]: "length xs \<le> 9223372036854775807 \<Longrightarrow> int64_ok (int (length xs))"
  by (simp add: int64_ok_iff)

section \<open>Operations\<close>

definition add64 :: "int \<Rightarrow> int \<Rightarrow> int" where
  "add64 x y = wrap64 (x + y)"

definition sub64 :: "int \<Rightarrow> int \<Rightarrow> int" where
  "sub64 x y = wrap64 (x - y)"

definition mul64 :: "int \<Rightarrow> int \<Rightarrow> int" where
  "mul64 x y = wrap64 (x * y)"

text \<open>Go's division truncates towards zero; the code never divides by zero where it is used.\<close>

definition div64 :: "int \<Rightarrow> int \<Rightarrow> int" where
  "div64 x y = wrap64 (x sdiv y)"

text \<open>A left shift by a non-negative count: bits shifted out are lost.\<close>

definition shl64 :: "int \<Rightarrow> int \<Rightarrow> int" where
  "shl64 x n = wrap64 (x * 2 ^ nat n)"

lemmas [go_arith] = add64_def sub64_def mul64_def div64_def shl64_def

lemma sdiv_nonneg: "0 \<le> x \<Longrightarrow> 0 < y \<Longrightarrow> (x::int) sdiv y = x div y"
  by (cases "x = 0") (simp_all add: signed_divide_int_def sgn_if abs_if)

lemma div64_nonneg:
  assumes "0 \<le> x" "0 < y" "int64_ok x"
  shows "div64 x y = x div y"
proof -
  have "x div y \<le> x" using assms by (simp add: int_div_less_self zdiv_mono2 [of x 1 y, simplified])
  with assms have "int64_ok (x div y)"
    by (auto simp: int64_ok_iff pos_imp_zdiv_nonneg_iff intro: order_trans [of _ 0])
  with assms show ?thesis by (simp add: div64_def sdiv_nonneg)
qed

end
