(* ===== verification/Go_Strings.thy ===== *)
theory Go_Strings
  imports Go_Ints "HOL-Library.Sublist"
begin

text \<open>
  Go strings are byte strings, as the \<open>char list\<close>s of HOL are. This theory models what the
  sources use of the packages \<open>strings\<close>, \<open>strconv\<close> and \<open>fmt\<close>: \<open>Contains\<close>, \<open>HasPrefix\<close>,
  \<open>TrimPrefix\<close>, \<open>IndexByte\<close>, \<open>TrimSpace\<close> (with its Unicode spaces, read in UTF-8), slices
  \<open>s[i:]\<close> and \<open>s[:j]\<close> with their panics, decimal formatting (\<open>%d\<close>, \<open>%04d\<close>) and \<open>Atoi\<close>.
\<close>

section \<open>Searching and prefixes\<close>

fun contains :: "string \<Rightarrow> string \<Rightarrow> bool" where
  "contains [] p = (p = [])"
| "contains (c # s) p = (prefix p (c # s) \<or> contains s p)"

lemma contains_char [simp]: "contains s [c] \<longleftrightarrow> c \<in> set s"
  by (induction s) auto

definition trim_prefix :: "string \<Rightarrow> string \<Rightarrow> string" where
  "trim_prefix s p = (if prefix p s then drop (length p) s else s)"

lemma trim_prefix_append [simp]: "trim_prefix (p @ s) p = s"
  by (simp add: trim_prefix_def)

lemma trim_prefix_eq: "trim_prefix s p = t \<longleftrightarrow> s = p @ t \<or> (s = t \<and> \<not> prefix p s)"
  by (auto simp: trim_prefix_def prefix_def)

text \<open>\<open>strings.IndexByte\<close>: the first position of the byte, or -1.\<close>

fun index_byte :: "string \<Rightarrow> char \<Rightarrow> int" where
  "index_byte [] c = -1"
| "index_byte (x # s) c =
     (if x = c then 0
      else let i = index_byte s c in if i < 0 then -1 else i + 1)"

lemma index_byte_ge [simp]: "-1 \<le> index_byte s c"
  by (induction s) (auto simp: Let_def)

lemma index_byte_absent: "index_byte s c < 0 \<longleftrightarrow> c \<notin> set s"
  by (induction s) (auto simp: Let_def)

lemma index_byte_less: "index_byte s c < int (length s) \<or> s = []"
  by (induction s) (auto simp: Let_def)

lemma index_byte_split:
  "c \<in> set s \<Longrightarrow> \<exists>u v. s = u @ c # v \<and> c \<notin> set u \<and> index_byte s c = int (length u)"
proof (induction s)
  case Nil
  then show ?case by simp
next
  case (Cons x s)
  show ?case
  proof (cases "x = c")
    case True
    then show ?thesis by (intro exI [of _ "[]"] exI [of _ s]) simp
  next
    case False
    with Cons obtain u v where "s = u @ c # v" "c \<notin> set u" "index_byte s c = int (length u)"
      by auto
    with False show ?thesis by (intro exI [of _ "x # u"] exI [of _ v]) simp
  qed
qed

lemma index_byte_append: "c \<notin> set u \<Longrightarrow> index_byte (u @ c # v) c = int (length u)"
  by (induction u) auto

section \<open>Slices\<close>

text \<open>A slice expression panics when an index is out of range.\<close>

type_synonym panic = string

definition slice_panic :: panic where
  "slice_panic = ''slice bounds out of range''"

definition slice :: "'a list \<Rightarrow> int \<Rightarrow> int \<Rightarrow> panic + 'a list" where
  "slice s i j =
     (if 0 \<le> i \<and> i \<le> j \<and> j \<le> int (length s)
      then Inr (take (nat j - nat i) (drop (nat i) s)) else Inl slice_panic)"

definition str_from :: "string \<Rightarrow> int \<Rightarrow> panic + string" where
  "str_from s i = slice s i (int (length s))"

definition str_to :: "string \<Rightarrow> int \<Rightarrow> panic + string" where
  "str_to s j = slice s 0 j"

lemma str_from_append: "str_from (u @ v) (int (length u)) = Inr v"
  by (simp add: str_from_def slice_def)

lemma str_from_neg: "i < 0 \<Longrightarrow> str_from s i = Inl slice_panic"
  by (simp add: str_from_def slice_def)

section \<open>Spaces\<close>

text \<open>
  \<open>unicode.IsSpace\<close> in UTF-8. UTF-8 is self-synchronising, so at a rune boundary the next
  (or the last) rune is a space exactly when the bytes start (or end) with one of these
  encodings: the ASCII spaces, U+0085, U+00A0, U+1680, U+2000 to U+200A, U+2028, U+2029,
  U+202F, U+205F and U+3000.
\<close>

abbreviation bytes :: "nat list \<Rightarrow> string" where
  "bytes \<equiv> map char_of"

definition utf8_spaces :: "string list" where
  "utf8_spaces =
     map (\<lambda>b. bytes [b]) [9, 10, 11, 12, 13, 32]
     @ [bytes [194, 133], bytes [194, 160], bytes [225, 154, 128]]
     @ map (\<lambda>b. bytes [226, 128, b]) [128, 129, 130, 131, 132, 133, 134, 135, 136, 137, 138]
     @ map (\<lambda>b. bytes [226, 128, b]) [168, 169, 175]
     @ [bytes [226, 129, 159], bytes [227, 128, 128]]"

definition space_len :: "string \<Rightarrow> nat" where
  "space_len s = (case find (\<lambda>p. prefix p s) utf8_spaces of None \<Rightarrow> 0 | Some p \<Rightarrow> length p)"

definition space_len_last :: "string \<Rightarrow> nat" where
  "space_len_last s = (case find (\<lambda>p. suffix p s) utf8_spaces of None \<Rightarrow> 0 | Some p \<Rightarrow> length p)"

function trim_left_space :: "string \<Rightarrow> string" where
  "trim_left_space s =
     (let n = space_len s in if n = 0 \<or> s = [] then s else trim_left_space (drop n s))"
  by pat_completeness auto
termination
  by (relation "measure length") auto

function trim_right_space :: "string \<Rightarrow> string" where
  "trim_right_space s =
     (let n = space_len_last s
      in if n = 0 \<or> s = [] then s else trim_right_space (take (length s - n) s))"
  by pat_completeness auto
termination
  by (relation "measure length") auto

declare trim_left_space.simps [simp del] trim_right_space.simps [simp del]

definition trim_space :: "string \<Rightarrow> string" where
  "trim_space s = trim_right_space (trim_left_space s)"

lemma trim_right_space_Nil [simp]: "trim_right_space [] = []"
  by (subst trim_right_space.simps) simp

lemma trim_left_space_Nil [simp]: "trim_left_space [] = []"
  by (subst trim_left_space.simps) simp

lemma trim_space_Nil [simp]: "trim_space [] = []"
  by (simp add: trim_space_def)

lemma utf8_spaces_nonempty: "p \<in> set utf8_spaces \<Longrightarrow> p \<noteq> []"
  by (auto simp: utf8_spaces_def)

lemma find_SomeE:
  assumes "find P xs = Some x"
  obtains "x \<in> set xs" "P x"
  using assms by (auto simp: find_Some_iff)

lemma space_lenE:
  assumes "space_len s \<noteq> 0"
  obtains p where "p \<in> set utf8_spaces" "prefix p s" "space_len s = length p"
  using assms by (auto simp: space_len_def split: option.splits elim: find_SomeE)

lemma space_len_lastE:
  assumes "space_len_last s \<noteq> 0"
  obtains p where "p \<in> set utf8_spaces" "suffix p s" "space_len_last s = length p"
  using assms by (auto simp: space_len_last_def split: option.splits elim: find_SomeE)

text \<open>A printable ASCII byte at the front and the back is never trimmed.\<close>

definition graphic :: "char \<Rightarrow> bool" where
  "graphic c \<longleftrightarrow> (33 :: nat) \<le> of_char c \<and> of_char c \<le> (126 :: nat)"

lemma graphic_not_space:
  "graphic c \<Longrightarrow> p \<in> set utf8_spaces \<Longrightarrow> c \<notin> set p"
  unfolding graphic_def utf8_spaces_def by (auto simp: of_char_of)

lemma space_len_graphic: "graphic c \<Longrightarrow> space_len (c # s) = 0"
  by (rule ccontr, erule space_lenE)
     (auto simp: prefix_Cons dest: utf8_spaces_nonempty graphic_not_space)

lemma trim_left_graphic [simp]: "graphic c \<Longrightarrow> trim_left_space (c # s) = c # s"
  by (subst trim_left_space.simps) (simp add: space_len_graphic)

lemma space_len_last_graphic: "graphic c \<Longrightarrow> space_len_last (s @ [c]) = 0"
proof (rule ccontr)
  assume c: "graphic c" and "space_len_last (s @ [c]) \<noteq> 0"
  then obtain p where p: "p \<in> set utf8_spaces" "suffix p (s @ [c])"
    by (elim space_len_lastE)
  from p(1) have "p \<noteq> []" by (rule utf8_spaces_nonempty)
  with p(2) have "c \<in> set p" by (cases p rule: rev_cases) (auto simp: suffix_def)
  with c p(1) show False by (auto dest: graphic_not_space)
qed

lemma trim_right_graphic [simp]: "graphic c \<Longrightarrow> trim_right_space (s @ [c]) = s @ [c]"
  by (subst trim_right_space.simps) (simp add: space_len_last_graphic)

lemma trim_right_keeps_graphic: "graphic c \<Longrightarrow> c \<in> set s \<Longrightarrow> c \<in> set (trim_right_space s)"
proof (induction s rule: trim_right_space.induct)
  case (1 s)
  let ?n = "space_len_last s"
  show ?case
  proof (cases "?n = 0 \<or> s = []")
    case True
    with 1 show ?thesis by (subst trim_right_space.simps) auto
  next
    case False
    then have "?n \<noteq> 0" by simp
    then obtain p where p: "p \<in> set utf8_spaces" "suffix p s" "?n = length p"
      by (rule space_len_lastE)
    from p(2) obtain t where t: "s = t @ p" by (auto simp: suffix_def)
    with 1 p have "c \<in> set (take (length s - ?n) s)" by (auto dest: graphic_not_space)
    with 1 False show ?thesis by (subst trim_right_space.simps) (auto simp: Let_def)
  qed
qed

lemma trim_space_graphic: "graphic c \<Longrightarrow> trim_space (c # s) \<noteq> []"
  using trim_right_keeps_graphic [of c "c # s"] by (auto simp: trim_space_def)


section \<open>Decimal numbers\<close>

definition digit :: "nat \<Rightarrow> char" where
  "digit d = char_of (48 + d)"

fun show_nat :: "nat \<Rightarrow> string" where
  "show_nat n = (if n < 10 then [digit n] else show_nat (n div 10) @ [digit (n mod 10)])"

declare show_nat.simps [simp del]

definition is_digit :: "char \<Rightarrow> bool" where
  "is_digit c \<longleftrightarrow> (48 :: nat) \<le> of_char c \<and> of_char c \<le> (57 :: nat)"

definition digit_val :: "char \<Rightarrow> nat" where
  "digit_val c = of_char c - 48"

text \<open>The value of a string of digits.\<close>

definition dec_val :: "string \<Rightarrow> nat" where
  "dec_val s = foldl (\<lambda>a c. 10 * a + digit_val c) 0 s"

lemma is_digit_digit [simp]: "d < 10 \<Longrightarrow> is_digit (digit d)"
  by (simp add: is_digit_def digit_def of_char_of)

lemma digit_val_digit [simp]: "d < 10 \<Longrightarrow> digit_val (digit d) = d"
  by (simp add: digit_val_def digit_def of_char_of)

lemma digit_neq [simp]: "d < 10 \<Longrightarrow> digit d \<noteq> CHR ''-''" "d < 10 \<Longrightarrow> digit d \<noteq> CHR ''+''"
  by (auto simp: is_digit_def dest!: is_digit_digit)

lemma show_nat_digits: "c \<in> set (show_nat n) \<Longrightarrow> is_digit c"
proof (induction n rule: show_nat.induct)
  case (1 n)
  show ?case
  proof (cases "n < 10")
    case True
    with "1.prems" show ?thesis by (simp add: show_nat.simps)
  next
    case False
    with "1.prems" have "c \<in> set (show_nat (n div 10)) \<or> c = digit (n mod 10)"
      by (subst (asm) show_nat.simps) auto
    with "1.IH" False show ?thesis by auto
  qed
qed

lemma show_nat_not_Nil [simp]: "show_nat n \<noteq> []"
  by (subst show_nat.simps) simp

lemma dec_val_snoc [simp]: "dec_val (s @ [c]) = 10 * dec_val s + digit_val c"
  by (simp add: dec_val_def)

lemma dec_val_show_nat [simp]: "dec_val (show_nat n) = n"
proof (induction n rule: show_nat.induct)
  case (1 n)
  show ?case
  proof (cases "n < 10")
    case True
    then show ?thesis by (simp add: show_nat.simps [of n] dec_val_def)
  next
    case False
    with 1 show ?thesis by (simp add: show_nat.simps [of n])
  qed
qed

lemma show_nat_inject [simp]: "show_nat m = show_nat n \<longleftrightarrow> m = n"
  by (metis dec_val_show_nat)

definition pad_zero :: "nat \<Rightarrow> string \<Rightarrow> string" where
  "pad_zero w s = replicate (w - length s) CHR ''0'' @ s"

lemma dec_val_zeros: "dec_val (replicate k CHR ''0'' @ s) = dec_val s"
proof (induction k)
  case (Suc k)
  then show ?case by (simp add: dec_val_def digit_val_def)
qed simp

lemma dec_val_pad_zero [simp]: "dec_val (pad_zero w s) = dec_val s"
  by (simp add: pad_zero_def dec_val_zeros)

text \<open>\<open>fmt.Sprintf("%d", n)\<close> and \<open>fmt.Sprintf("%0wd", n)\<close>; the width counts the sign.\<close>

definition fmt_d :: "int \<Rightarrow> string" where
  "fmt_d n = (if n < 0 then CHR ''-'' # show_nat (nat (- n)) else show_nat (nat n))"

definition fmt_0d :: "nat \<Rightarrow> int \<Rightarrow> string" where
  "fmt_0d w n =
     (if n < 0 then CHR ''-'' # pad_zero (w - 1) (show_nat (nat (- n)))
      else pad_zero w (show_nat (nat n)))"

lemma fmt_0d_inject: "0 \<le> m \<Longrightarrow> 0 \<le> n \<Longrightarrow> fmt_0d w m = fmt_0d w n \<longleftrightarrow> m = n"
  by (auto simp: fmt_0d_def dest!: arg_cong [where f = dec_val])

section \<open>strconv.Atoi\<close>

text \<open>
  An optional sign and at least one decimal digit; a value outside the range of an \<open>int\<close> is
  an error (\<open>None\<close>), as everything else is.
\<close>

definition atoi_digits :: "string \<Rightarrow> nat option" where
  "atoi_digits s = (if s \<noteq> [] \<and> list_all is_digit s then Some (dec_val s) else None)"

definition atoi :: "string \<Rightarrow> int option" where
  "atoi s =
     (let (neg, ds) =
        (case s of
           [] \<Rightarrow> (False, s)
         | c # r \<Rightarrow> (if c = CHR ''-'' then (True, r) else if c = CHR ''+'' then (False, r)
                     else (False, s)))
      in case atoi_digits ds of
           None \<Rightarrow> None
         | Some v \<Rightarrow> (let n = (if neg then - int v else int v)
                      in if int64_ok n then Some n else None))"

lemma atoi_digits_show_nat [simp]: "atoi_digits (show_nat n) = Some n"
  by (auto simp: atoi_digits_def list_all_iff intro: show_nat_digits)

lemma show_nat_hd: "show_nat n = c # r \<Longrightarrow> c \<noteq> CHR ''-'' \<and> c \<noteq> CHR ''+''"
  using show_nat_digits [of c n] by (auto simp: is_digit_def)

lemma atoi_fmt_d:
  assumes "int64_ok n"
  shows "atoi (fmt_d n) = Some n"
proof (cases "n < 0")
  case True
  with assms show ?thesis by (simp add: atoi_def fmt_d_def)
next
  case False
  obtain c r where cr: "show_nat (nat n) = c # r"
    by (cases "show_nat (nat n)") auto
  with atoi_digits_show_nat [of "nat n"] have "atoi_digits (c # r) = Some (nat n)" by simp
  with show_nat_hd [OF cr] False assms cr show ?thesis by (simp add: atoi_def fmt_d_def)
qed

lemma atoi_range: "atoi s = Some n \<Longrightarrow> int64_ok n"
  by (auto simp: atoi_def Let_def split: prod.splits option.splits if_splits)

section \<open>encoding/hex\<close>

definition hex_digit :: "nat \<Rightarrow> char" where
  "hex_digit d = (if d < 10 then char_of (48 + d) else char_of (87 + d))"

definition hex_encode :: "nat list \<Rightarrow> string" where
  "hex_encode bs = concat (map (\<lambda>b. [hex_digit (b div 16), hex_digit (b mod 16)]) bs)"

lemma length_hex_encode [simp]: "length (hex_encode bs) = 2 * length bs"
  by (induction bs) (auto simp: hex_encode_def)

lemma hex_digit_inject: "d < 16 \<Longrightarrow> e < 16 \<Longrightarrow> hex_digit d = hex_digit e \<longleftrightarrow> d = e"
  by (auto simp: hex_digit_def split: if_splits dest!: arg_cong [where f = "of_char :: char \<Rightarrow> nat"])

text \<open>Different byte strings have different encodings.\<close>

lemma hex_encode_inject:
  "\<forall>b \<in> set bs. b < 256 \<Longrightarrow> \<forall>c \<in> set cs. c < 256 \<Longrightarrow> length bs = length cs
     \<Longrightarrow> hex_encode bs = hex_encode cs \<longleftrightarrow> bs = cs"
proof (induction bs cs rule: list_induct2')
  case (4 b bs c cs)
  then have "b div 16 < 16" "c div 16 < 16" by auto
  moreover have "b = c \<longleftrightarrow> b div 16 = c div 16 \<and> b mod 16 = c mod 16"
    by (metis div_mult_mod_eq)
  ultimately show ?case
    using 4 by (auto simp: hex_encode_def hex_digit_inject)
qed (simp_all add: hex_encode_def)

section \<open>Quoting\<close>

text \<open>
  \<open>%q\<close>: a double-quoted Go string; ASCII control bytes, the quote and the backslash are
  escaped, other bytes kept.
\<close>

definition quote_char :: "char \<Rightarrow> string" where
  "quote_char c =
     (let n = of_char c :: nat
      in if c = CHR 0x22 \<or> c = CHR 0x5C then [CHR 0x5C, c]
         else if n = 7 then CHR 0x5C # ''a'' else if n = 8 then CHR 0x5C # ''b''
         else if n = 9 then CHR 0x5C # ''t'' else if n = 10 then CHR 0x5C # ''n''
         else if n = 11 then CHR 0x5C # ''v'' else if n = 12 then CHR 0x5C # ''f''
         else if n = 13 then CHR 0x5C # ''r''
         else if n < 32 \<or> n = 127
           then CHR 0x5C # ''x'' @ [hex_digit (n div 16), hex_digit (n mod 16)]
         else [c])"

definition fmt_q :: "string \<Rightarrow> string" where
  "fmt_q s = CHR 0x22 # concat (map quote_char s) @ [CHR 0x22]"

definition nl :: string where
  "nl = [CHR 0x0A]"

end
