(* ===== verification/Go_Errors.thy ===== *)
theory Go_Errors
  imports Go_Strings
begin

text \<open>
  Go error values and what the sources use of the package \<open>errors\<close>. A nil error is \<open>None\<close>.
  \<open>ErrNew\<close> is a value of \<open>errors.New\<close> (or of \<open>fmt.Errorf\<close> without \<open>%w\<close>): its first argument is
  the identity by which \<open>errors.Is\<close> compares it, the name of the package variable that holds it,
  and the empty string for a value no variable holds. \<open>ErrValidation\<close> is a \<open>*ValidationError\<close>,
  \<open>ErrCoded\<close> a \<open>*codedError\<close>, \<open>ErrWrap\<close> a value of \<open>fmt.Errorf("prefix: %w", err)\<close>, \<open>ErrJoin\<close> a
  value of \<open>errors.Join\<close>. \<open>ErrOther\<close> is an error of another package (a database driver, gRPC),
  of the parameter type \<open>'x\<close>, with its text.
\<close>

datatype 'x go_error =
    ErrNew string string
  | ErrValidation string string
  | ErrCoded string "'x go_error"
  | ErrWrap string "'x go_error"
  | ErrJoin "'x go_error list"
  | ErrOther 'x string

section \<open>Error texts\<close>

fun join_lines :: "string list \<Rightarrow> string" where
  "join_lines [] = []"
| "join_lines [s] = s"
| "join_lines (s # t # ss) = s @ CHR 0x0A # join_lines (t # ss)"

primrec err_msg :: "'x go_error \<Rightarrow> string" where
  "err_msg (ErrNew i m) = m"
| "err_msg (ErrValidation f m) = ''validation: '' @ f @ '': '' @ m"
| "err_msg (ErrCoded c e) = c @ '': '' @ err_msg e"
| "err_msg (ErrWrap p e) = p @ '': '' @ err_msg e"
| "err_msg (ErrJoin es) = join_lines (map err_msg es)"
| "err_msg (ErrOther x m) = m"

section \<open>Walking the tree of wrapped errors\<close>

text \<open>
  \<open>errors.Is\<close> and \<open>errors.As\<close> visit the error, then what it unwraps to, in pre-order; the
  members of a joined error are visited from left to right.
\<close>

fun err_first :: "('x go_error \<Rightarrow> 'b option) \<Rightarrow> 'x go_error \<Rightarrow> 'b option"
and err_first_list :: "('x go_error \<Rightarrow> 'b option) \<Rightarrow> 'x go_error list \<Rightarrow> 'b option" where
  "err_first f e =
     (case f e of
        Some b \<Rightarrow> Some b
      | None \<Rightarrow> (case e of
            ErrCoded c e' \<Rightarrow> err_first f e'
          | ErrWrap p e' \<Rightarrow> err_first f e'
          | ErrJoin es \<Rightarrow> err_first_list f es
          | _ \<Rightarrow> None))"
| "err_first_list f [] = None"
| "err_first_list f (e # es) =
     (case err_first f e of Some b \<Rightarrow> Some b | None \<Rightarrow> err_first_list f es)"

declare err_first.simps [simp del]

lemma err_first_simps [simp]:
  "err_first f (ErrNew i m) = f (ErrNew i m)"
  "err_first f (ErrValidation fld m) = f (ErrValidation fld m)"
  "err_first f (ErrOther x m) = f (ErrOther x m)"
  "err_first f (ErrCoded c e) =
     (case f (ErrCoded c e) of Some b \<Rightarrow> Some b | None \<Rightarrow> err_first f e)"
  "err_first f (ErrWrap p e) =
     (case f (ErrWrap p e) of Some b \<Rightarrow> Some b | None \<Rightarrow> err_first f e)"
  "err_first f (ErrJoin es) =
     (case f (ErrJoin es) of Some b \<Rightarrow> Some b | None \<Rightarrow> err_first_list f es)"
  by (simp_all add: err_first.simps split: option.splits)

definition errors_as :: "('x go_error \<Rightarrow> 'b option) \<Rightarrow> 'x go_error option \<Rightarrow> 'b option" where
  "errors_as f err = (case err of None \<Rightarrow> None | Some e \<Rightarrow> err_first f e)"

definition sentinel :: "string \<Rightarrow> 'x go_error \<Rightarrow> unit option" where
  "sentinel t e = (case e of ErrNew i m \<Rightarrow> if i = t then Some () else None | _ \<Rightarrow> None)"

definition errors_is :: "'x go_error option \<Rightarrow> string \<Rightarrow> bool" where
  "errors_is err t = (errors_as (sentinel t) err \<noteq> None)"

text \<open>The targets \<open>**codedError\<close> and \<open>**ValidationError\<close> of \<open>errors.As\<close>.\<close>

definition as_coded :: "'x go_error \<Rightarrow> string option" where
  "as_coded e = (case e of ErrCoded c e' \<Rightarrow> Some c | _ \<Rightarrow> None)"

definition as_validation :: "'x go_error \<Rightarrow> (string \<times> string) option" where
  "as_validation e = (case e of ErrValidation f m \<Rightarrow> Some (f, m) | _ \<Rightarrow> None)"

definition as_other :: "('x \<Rightarrow> 'b option) \<Rightarrow> 'x go_error \<Rightarrow> 'b option" where
  "as_other f e = (case e of ErrOther x m \<Rightarrow> f x | _ \<Rightarrow> None)"

lemmas go_error_defs = errors_as_def errors_is_def sentinel_def as_coded_def
  as_validation_def as_other_def

lemma errors_is_None [simp]: "\<not> errors_is None t"
  by (simp add: errors_is_def errors_as_def)

lemma errors_is_New [simp]: "errors_is (Some (ErrNew i m)) t \<longleftrightarrow> i = t"
  by (simp add: go_error_defs)

lemma errors_is_Validation [simp]: "\<not> errors_is (Some (ErrValidation f m)) t"
  by (simp add: go_error_defs)

lemma errors_is_Other [simp]: "\<not> errors_is (Some (ErrOther x m)) t"
  by (simp add: go_error_defs)

text \<open>Wrapping hides no sentinel.\<close>

lemma errors_is_Coded [simp]: "errors_is (Some (ErrCoded c e)) t \<longleftrightarrow> errors_is (Some e) t"
  by (simp add: go_error_defs)

lemma errors_is_Wrap [simp]: "errors_is (Some (ErrWrap p e)) t \<longleftrightarrow> errors_is (Some e) t"
  by (simp add: go_error_defs)

lemma err_first_list_None: "err_first_list f es = None \<longleftrightarrow> (\<forall>e \<in> set es. err_first f e = None)"
  by (induction es) (auto split: option.splits)

lemma errors_is_Join [simp]:
  "errors_is (Some (ErrJoin es)) t \<longleftrightarrow> (\<exists>e \<in> set es. errors_is (Some e) t)"
  using err_first_list_None [of "sentinel t" es] by (auto simp: errors_is_def errors_as_def sentinel_def)

section \<open>errors.Join\<close>

text \<open>Nil members are dropped; a join of nils is nil.\<close>

definition errors_join :: "'x go_error option list \<Rightarrow> 'x go_error option" where
  "errors_join errs =
     (let es = map the (filter (\<lambda>e. e \<noteq> None) errs) in if es = [] then None else Some (ErrJoin es))"

lemma errors_join_None [simp]: "errors_join errs = None \<longleftrightarrow> (\<forall>e \<in> set errs. e = None)"
  by (auto simp: errors_join_def Let_def filter_empty_conv)

text \<open>A pair \<open>(T, error)\<close> of which the caller reads one side is a sum.\<close>

type_synonym ('x, 'a) go_result = "'x go_error + 'a"

definition res_err :: "('x, 'a) go_result \<Rightarrow> 'x go_error option" where
  "res_err r = (case r of Inl e \<Rightarrow> Some e | Inr _ \<Rightarrow> None)"

lemma res_err_simps [simp]: "res_err (Inl e) = Some e" "res_err (Inr v) = None"
  by (simp_all add: res_err_def)

end
