(* ===== verification/Go_Maps.thy ===== *)
theory Go_Maps
  imports Go_Strings "HOL-Library.AList" "HOL-Library.Multiset"
begin

text \<open>
  A Go map is an association list with distinct keys. Reading, storing and deleting are
  \<open>map_of\<close>, \<open>AList.update\<close> and \<open>AList.delete\<close>. The order in which \<open>range\<close> visits a map is
  unspecified: a loop whose result depends on it takes the order as an argument \<open>ord\<close>, a
  function that permutes the entries (\<open>range_order\<close>).
\<close>

named_theorems go_map \<open>association-list facts used by the stores and repositories\<close>

type_synonym ('k, 'v) gomap = "('k \<times> 'v) list"

definition map_wf :: "('k, 'v) gomap \<Rightarrow> bool" where
  "map_wf m = distinct (map fst m)"

abbreviation map_put :: "'k \<Rightarrow> 'v \<Rightarrow> ('k, 'v) gomap \<Rightarrow> ('k, 'v) gomap" where
  "map_put \<equiv> AList.update"

abbreviation map_del :: "'k \<Rightarrow> ('k, 'v) gomap \<Rightarrow> ('k, 'v) gomap" where
  "map_del \<equiv> AList.delete"

abbreviation has_key :: "('k, 'v) gomap \<Rightarrow> 'k \<Rightarrow> bool" where
  "has_key m k \<equiv> k \<in> fst ` set m"

definition range_order :: "(('k, 'v) gomap \<Rightarrow> ('k, 'v) gomap) \<Rightarrow> bool" where
  "range_order ord \<longleftrightarrow> (\<forall>m. mset (ord m) = mset m)"

lemma range_orderD: "range_order ord \<Longrightarrow> mset (ord m) = mset m"
  by (simp add: range_order_def)

lemma range_order_set: "range_order ord \<Longrightarrow> set (ord m) = set m"
  by (metis range_orderD set_mset_mset)

lemma range_order_length: "range_order ord \<Longrightarrow> length (ord m) = length m"
  by (metis range_orderD size_mset)

lemma range_order_id [simp]: "range_order (\<lambda>m. m)" "range_order rev"
  by (simp_all add: range_order_def)

lemma map_wf_Nil [simp]: "map_wf []"
  by (simp add: map_wf_def)

lemma map_wf_put [simp]: "map_wf m \<Longrightarrow> map_wf (map_put k v m)"
  by (simp add: map_wf_def distinct_update)

lemma map_wf_del [simp]: "map_wf m \<Longrightarrow> map_wf (map_del k m)"
  by (simp add: map_wf_def distinct_delete)

lemma put_fresh [go_map]: "\<not> has_key m k \<Longrightarrow> map_put k v m = m @ [(k, v)]"
  by (induction m) auto

lemma get_put [simp]: "map_of (map_put k v m) = (map_of m)(k \<mapsto> v)"
  by (simp add: update_conv')

lemma get_del [simp]: "map_of (map_del k m) = (map_of m)(k := None)"
  by (simp add: delete_conv')

lemma has_key_iff [go_map]: "has_key m k \<longleftrightarrow> map_of m k \<noteq> None"
  by (induction m) auto

lemma length_put: "length (map_put k v m) = (if has_key m k then length m else Suc (length m))"
  by (induction m) auto

lemma length_del: "map_wf m \<Longrightarrow> length (map_del k m) = (if has_key m k then length m - 1 else length m)"
proof (induction m)
  case Nil
  then show ?case by simp
next
  case (Cons p m)
  then show ?case
    by (cases "m = []") (auto simp: map_wf_def Suc_pred)
qed

lemma length_map_wf: "map_wf m \<Longrightarrow> length m = card (dom (map_of m))"
  by (simp add: map_wf_def dom_map_of_conv_image_fst card_image distinct_map flip: distinct_card)

end
