(* ===== verification/M00_Start.thy ===== *)
theory M00_Start
  imports Go_Errors Go_Maps
begin

text \<open>
  \<open>m00-getting-started\<close>: the greeting library, the summary statistics and their two commands.
  A command is a function of its arguments; its result is what it prints and its exit status.
\<close>

section \<open>hello and greeter\<close>

definition hello_main :: string where
  "hello_main = ''hello, Pulse'' @ [CHR 0x0A]"

definition Greet :: "string \<Rightarrow> string" where
  "Greet name = ''hello, '' @ (if name = [] then ''world'' else name)"

definition greet_main :: "string \<Rightarrow> string" where
  "greet_main name = Greet name @ [CHR 0x0A]"

lemma Greet_inject: "Greet a = Greet b \<Longrightarrow> a \<noteq> [] \<Longrightarrow> b \<noteq> [] \<Longrightarrow> a = b"
  by (simp add: Greet_def)

section \<open>stats\<close>

record Summary =
  Count :: int
  Sum :: int
  Min :: int
  Max :: int

definition ErrEmpty :: "'x go_error" where
  "ErrEmpty = ErrNew ''stats.ErrEmpty'' ''stats: no values''"

text \<open>The body of the loop over the values.\<close>

definition summarize_step :: "Summary \<Rightarrow> int \<Rightarrow> Summary" where
  "summarize_step s x =
     (let s = s\<lparr>Sum := add64 (Sum s) x\<rparr>;
          s = (if x < Min s then s\<lparr>Min := x\<rparr> else s)
      in if x > Max s then s\<lparr>Max := x\<rparr> else s)"

definition Summarize :: "int list \<Rightarrow> ('x, Summary) go_result" where
  "Summarize xs =
     (case xs of
        [] \<Rightarrow> Inl ErrEmpty
      | x # r \<Rightarrow> Inr (foldl summarize_step
                  \<lparr>Count = int (length xs), Sum = 0, Min = x, Max = x\<rparr> xs))"

lemma summarize_fields:
  "foldl summarize_step s xs =
     \<lparr>Count = Count s, Sum = foldl add64 (Sum s) xs, Min = foldl min (Min s) xs,
      Max = foldl max (Max s) xs\<rparr>"
  by (induction xs arbitrary: s) (auto simp: summarize_step_def Let_def min_def max_def)

lemma foldl_add64: "int64_ok a \<Longrightarrow> foldl add64 a xs = wrap64 (a + sum_list xs)"
proof (induction xs arbitrary: a)
  case Nil
  then show ?case by simp
next
  case (Cons x xs)
  have "foldl add64 a (x # xs) = foldl add64 (wrap64 (a + x)) xs"
    by (simp only: foldl_Cons add64_def)
  also have "... = wrap64 (wrap64 (a + x) + sum_list xs)" by (rule Cons.IH) simp
  also have "... = wrap64 (a + (x + sum_list xs))"
    by (simp add: wrap64_word add.assoc)
  finally show ?case by simp
qed

lemma foldl_min: "foldl min a xs = Lattices_Big.Min (insert a (set xs))" for a :: int
proof (induction xs arbitrary: a)
  case (Cons x xs)
  have "foldl min (min a x) xs = Lattices_Big.Min (insert (min a x) (set xs))" by (rule Cons.IH)
  also have "... = Lattices_Big.Min (insert a (insert x (set xs)))"
    by (cases "xs = []") (simp_all add: min.assoc)
  finally show ?case by simp
qed simp

lemma foldl_max: "foldl max a xs = Lattices_Big.Max (insert a (set xs))" for a :: int
proof (induction xs arbitrary: a)
  case (Cons x xs)
  have "foldl max (max a x) xs = Lattices_Big.Max (insert (max a x) (set xs))" by (rule Cons.IH)
  also have "... = Lattices_Big.Max (insert a (insert x (set xs)))"
    by (cases "xs = []") (simp_all add: max.assoc)
  finally show ?case by simp
qed simp

section \<open>The stats command\<close>

record cmd_out =
  out_stdout :: string
  out_stderr :: string
  out_exit :: int

fun parse_args :: "string list \<Rightarrow> int list \<times> string" where
  "parse_args [] = ([], [])"
| "parse_args (a # as) =
     (let (xs, err) = parse_args as
      in case atoi a of
           None \<Rightarrow> (xs, ''skipping '' @ fmt_q a @ '': not an integer'' @ [CHR 0x0A] @ err)
         | Some n \<Rightarrow> (n # xs, err))"

definition stats_main :: "string list \<Rightarrow> cmd_out" where
  "stats_main args =
     (let (xs, err) = parse_args args
      in case (Summarize xs :: (unit, Summary) go_result) of
           Inl e \<Rightarrow> \<lparr>out_stdout = [], out_stderr = err @ ''error: '' @ err_msg e @ [CHR 0x0A],
                     out_exit = 1\<rparr>
         | Inr s \<Rightarrow> \<lparr>out_stdout = ''count='' @ fmt_d (Count s) @ '' sum='' @ fmt_d (Sum s)
                       @ '' min='' @ fmt_d (Min s) @ '' max='' @ fmt_d (Max s) @ [CHR 0x0A],
                     out_stderr = err, out_exit = 0\<rparr>)"

lemma parse_args_values: "fst (parse_args as) = List.map_filter atoi as"
  by (induction as) (auto simp: List.map_filter_def Let_def split: prod.splits option.splits)

section \<open>Properties\<close>

text \<open>
  Remark (functional). On any non-empty slice \<open>Summarize\<close> counts the values, adds them up with
  64-bit wrap-around, and finds the least and the greatest of them.
\<close>

theorem Summarize_correct:
  assumes "xs \<noteq> []"
  shows "Summarize xs = Inr \<lparr>Count = int (length xs), Sum = wrap64 (sum_list xs),
           Min = Lattices_Big.Min (set xs), Max = Lattices_Big.Max (set xs)\<rparr>"
proof -
  obtain x r where xs: "xs = x # r" using assms by (cases xs) auto
  have "int64_ok 0" by (simp add: int64_ok_iff)
  then show ?thesis
    by (simp add: Summarize_def summarize_fields foldl_add64 foldl_min foldl_max xs del: foldl_Cons)
qed

theorem Summarize_correct_witness:
  "Summarize [3, 1, 4, 1, 5] = (Inr \<lparr>Count = 5, Sum = 14, Min = 1, Max = 5\<rparr> :: (unit, Summary) go_result)"
  using Summarize_correct [of "[3, 1, 4, 1, 5]"] by (simp add: wrap64_def)

text \<open>
  Remark (error). The stats command exits with status 1, printing nothing on its standard output,
  exactly when no argument is an integer in range; otherwise it exits with status 0.
\<close>

theorem stats_main_exit:
  "out_exit (stats_main args) = (if \<exists>a \<in> set args. atoi a \<noteq> None then 0 else 1)
   \<and> (out_exit (stats_main args) = 1 \<longleftrightarrow> out_stdout (stats_main args) = [])"
proof -
  obtain xs err where p: "parse_args args = (xs, err)" by (cases "parse_args args")
  then have xs: "xs = List.map_filter atoi args" by (metis fst_conv parse_args_values)
  have "xs = [] \<longleftrightarrow> \<not> (\<exists>a \<in> set args. atoi a \<noteq> None)"
    by (auto simp: xs List.map_filter_def filter_empty_conv)
  then show ?thesis
    by (cases xs) (auto simp: stats_main_def p Summarize_def)
qed

end
