(* ===== verification/Repo_Interface.thy ===== *)
theory Repo_Interface
  imports Go_Errors Go_Maps
begin

text \<open>
  The contract of a customer repository (the interfaces \<open>CustomerRepository\<close> and \<open>Repository\<close>
  of the modules M1, M4 and M10): what \<open>ByID\<close> returns after a \<open>Create\<close>, and what every
  operation keeps of the implementation's invariant. \<open>room r n\<close> says that the implementation
  can still hand out \<open>n\<close> identifiers. The locale \<open>serial_repository\<close> adds that a new customer
  gets an identifier nobody has, so that nothing created is ever overwritten.
\<close>

type_synonym ('x, 'c, 'r) create_op = "int \<Rightarrow> 'c \<Rightarrow> 'r \<Rightarrow> ('x, 'c) go_result \<times> 'r"

type_synonym ('x, 'c, 'r) by_id_op = "string \<Rightarrow> 'r \<Rightarrow> ('x, 'c) go_result"

text \<open>A sequence of \<open>Create\<close> calls, each with its clock reading; the last repository.\<close>

fun create_all :: "('x, 'c, 'r) create_op \<Rightarrow> (int \<times> 'c) list \<Rightarrow> 'r \<Rightarrow> 'r" where
  "create_all create [] r = r"
| "create_all create ((now, c) # cs) r = create_all create cs (snd (create now c r))"

locale repository =
  fixes create :: "('x, 'c, 'r) create_op"
    and by_id :: "('x, 'c, 'r) by_id_op"
    and empty_repo :: 'r
    and ident :: "'c \<Rightarrow> string"
    and inv :: "'r \<Rightarrow> bool"
    and room :: "'r \<Rightarrow> nat \<Rightarrow> bool"
    and not_found :: "'x go_error"
  assumes inv_empty: "inv empty_repo"
    and get_empty: "by_id i empty_repo = Inl not_found"
    and inv_create: "inv r \<Longrightarrow> room r (Suc n) \<Longrightarrow> inv (snd (create now c r))"
    and room_create: "inv r \<Longrightarrow> room r (Suc n) \<Longrightarrow> room (snd (create now c r)) n"
    and get_created:
      "inv r \<Longrightarrow> room r (Suc n) \<Longrightarrow> create now c r = (Inr c', r') \<Longrightarrow> by_id (ident c') r' = Inr c'"
    and get_other:
      "inv r \<Longrightarrow> room r (Suc n) \<Longrightarrow> create now c r = (Inr c', r') \<Longrightarrow> i \<noteq> ident c'
         \<Longrightarrow> by_id i r' = by_id i r"
    and get_failed:
      "inv r \<Longrightarrow> room r (Suc n) \<Longrightarrow> create now c r = (Inl e, r') \<Longrightarrow> by_id i r' = by_id i r"
begin

lemma created_inv:
  "inv r \<Longrightarrow> room r (Suc n) \<Longrightarrow> create now c r = (res, r') \<Longrightarrow> inv r' \<and> room r' n"
  by (metis inv_create room_create snd_conv)

lemma inv_create_all:
  "inv r \<Longrightarrow> room r (n + length cs) \<Longrightarrow> inv (create_all create cs r) \<and> room (create_all create cs r) n"
proof (induction cs arbitrary: r)
  case Nil
  then show ?case by simp
next
  case (Cons p cs)
  obtain now c where "p = (now, c)" by (cases p)
  with Cons show ?case by (auto intro: inv_create room_create)
qed

lemma get_after_create:
  assumes "inv r" "room r (Suc n)" "create now c r = (res, r')"
  shows "by_id i r' =
           (case res of Inl e \<Rightarrow> by_id i r | Inr c' \<Rightarrow> if i = ident c' then Inr c' else by_id i r)"
  using assms get_created [of r n now c] get_other [of r n now c] get_failed [of r n now c]
  by (cases res) auto

end

locale serial_repository = repository +
  assumes created_fresh:
    "inv r \<Longrightarrow> room r (Suc n) \<Longrightarrow> create now c r = (Inr c', r') \<Longrightarrow> by_id (ident c') r = Inl not_found"
begin

lemma create_keeps:
  assumes "inv r" "room r (Suc n)" "by_id i r = Inr c0"
  shows "by_id i (snd (create now c r)) = Inr c0"
proof -
  obtain res r' where cr: "create now c r = (res, r')" by (cases "create now c r")
  from get_after_create [OF assms(1,2) cr, of i] created_fresh [OF assms(1,2), of now c] cr assms(3)
  show ?thesis by (cases res) auto
qed

text \<open>Whatever is created later, an existing customer is found unchanged.\<close>

lemma create_all_keeps:
  "inv r \<Longrightarrow> room r (length cs) \<Longrightarrow> by_id i r = Inr c0 \<Longrightarrow> by_id i (create_all create cs r) = Inr c0"
proof (induction cs arbitrary: r)
  case Nil
  then show ?case by simp
next
  case (Cons p cs)
  obtain now c where p: "p = (now, c)" by (cases p)
  from Cons.prems have r: "inv r" "room r (Suc (length cs))" "by_id i r = Inr c0" by auto
  have "by_id i (create_all create cs (snd (create now c r))) = Inr c0"
    by (rule Cons.IH [OF inv_create [OF r(1,2)] room_create [OF r(1,2)] create_keeps [OF r]])
  then show ?case by (simp add: p)
qed

end

section \<open>Repositories with serial identifiers\<close>

text \<open>
  The in-memory repositories of M4 and M10: entries in a map under serial identifiers, a counter
  of those given out, a customer refused whose e-mail is taken. The invariant: every entry is
  under its own identifier, identifiers are serial numbers given out so far, and no two
  customers share an e-mail. There is room while the 64-bit counter does not wrap.
\<close>

definition serial_emails :: "('c \<Rightarrow> string) \<Rightarrow> (string, 'c) gomap \<Rightarrow> string set" where
  "serial_emails email m = (email \<circ> snd) ` set m"

definition serial_inv ::
  "(int \<Rightarrow> string) \<Rightarrow> ('c \<Rightarrow> string) \<Rightarrow> ('c \<Rightarrow> string) \<Rightarrow> (string, 'c) gomap \<Rightarrow> int \<Rightarrow> bool" where
  "serial_inv serial email ident m n \<longleftrightarrow> map_wf m \<and> 0 \<le> n \<and> n \<le> max_int64
     \<and> (\<forall>(k, c) \<in> set m. ident c = k \<and> (\<exists>i. 0 < i \<and> i \<le> n \<and> k = serial i))
     \<and> distinct (map (email \<circ> snd) m)"

lemma serial_inv_empty [simp]: "serial_inv serial email ident [] 0"
  by (simp add: serial_inv_def max_int64_def)

locale serial_store =
  fixes create :: "('x, 'c, 'r) create_op"
    and by_id :: "('x, 'c, 'r) by_id_op"
    and empty_repo :: 'r
    and ident :: "'c \<Rightarrow> string"
    and not_found :: "'x go_error"
    and conflict :: "'x go_error"
    and entries :: "'r \<Rightarrow> (string, 'c) gomap"
    and seq :: "'r \<Rightarrow> int"
    and put :: "'r \<Rightarrow> (string, 'c) gomap \<Rightarrow> int \<Rightarrow> 'r"
    and serial :: "int \<Rightarrow> string"
    and email :: "'c \<Rightarrow> string"
    and stamp :: "int \<Rightarrow> string \<Rightarrow> 'c \<Rightarrow> 'c"
  assumes empty_state: "entries empty_repo = []" "seq empty_repo = 0"
    and put_state: "entries (put r m n) = m" "seq (put r m n) = n"
    and serial_inject: "0 \<le> n \<Longrightarrow> 0 \<le> n' \<Longrightarrow> serial n = serial n' \<longleftrightarrow> n = n'"
    and stamped: "ident (stamp now i c) = i" "email (stamp now i c) = email c"
    and by_id_entries: "by_id i r = (case map_of (entries r) i of None \<Rightarrow> Inl not_found | Some c \<Rightarrow> Inr c)"
    and create_step: "create now c r =
      (if list_ex (\<lambda>(k, e). email e = email c) (entries r) then (Inl conflict, r)
       else (let n = add64 (seq r) 1; c = stamp now (serial n) c
             in (Inr c, put r (map_put (serial n) c (entries r)) n)))"
begin

lemma next_serial:
  assumes "serial_inv serial email ident (entries r) (seq r)" and "seq r + int (Suc n) \<le> max_int64"
  shows "add64 (seq r) 1 = seq r + 1" and "\<not> has_key (entries r) (serial (seq r + 1))"
proof -
  from assms show "add64 (seq r) 1 = seq r + 1"
    by (simp add: add64_def serial_inv_def wrap64_nonneg)
  show "\<not> has_key (entries r) (serial (seq r + 1))"
  proof
    assume "has_key (entries r) (serial (seq r + 1))"
    with assms(1) obtain k where "0 < k" "k \<le> seq r" "serial (seq r + 1) = serial k"
      by (fastforce simp: serial_inv_def)
    then show False by (simp add: serial_inject)
  qed
qed

text \<open>A successful create appends the new customer; a refused one changes nothing.\<close>

lemma create_eq:
  assumes "serial_inv serial email ident (entries r) (seq r)" and "seq r + int (Suc n) \<le> max_int64"
  shows "create now c r =
    (if email c \<in> serial_emails email (entries r) then (Inl conflict, r)
     else (Inr (stamp now (serial (seq r + 1)) c),
           put r (entries r @ [(serial (seq r + 1), stamp now (serial (seq r + 1)) c)]) (seq r + 1)))"
proof -
  have "list_ex (\<lambda>(k, e). email e = email c) (entries r) \<longleftrightarrow> email c \<in> serial_emails email (entries r)"
    by (force simp: list_ex_iff serial_emails_def)
  then show ?thesis using next_serial [OF assms] by (simp add: create_step Let_def put_fresh)
qed

lemma create_inv:
  assumes "serial_inv serial email ident (entries r) (seq r)" and "seq r + int (Suc n) \<le> max_int64"
    and "create now c r = (res, r')"
  shows "serial_inv serial email ident (entries r') (seq r')" and "seq r' + int n \<le> max_int64"
proof -
  let ?k = "serial (seq r + 1)"
  have "serial_inv serial email ident (entries r') (seq r') \<and> seq r' + int n \<le> max_int64"
  proof (cases "email c \<in> serial_emails email (entries r)")
    case True
    with assms create_eq [OF assms(1,2), of now c] show ?thesis by simp
  next
    case False
    from next_serial(2) [OF assms(1,2)] have "?k \<notin> set (map fst (entries r))" by simp
    moreover have "\<exists>i. 0 < i \<and> i \<le> seq r + 1 \<and> ?k = serial i"
      using assms(1) by (intro exI [of _ "seq r + 1"]) (simp add: serial_inv_def)
    moreover have "\<forall>(k, c) \<in> set (entries r). ident c = k \<and> (\<exists>i. 0 < i \<and> i \<le> seq r + 1 \<and> k = serial i)"
      using assms(1) unfolding serial_inv_def by fastforce
    moreover have "r' = put r (entries r @ [(?k, stamp now ?k c)]) (seq r + 1)"
      using assms(3) create_eq [OF assms(1,2), of now c] False by simp
    ultimately show ?thesis
      using assms(1,2) False by (simp add: serial_inv_def map_wf_def put_state stamped serial_emails_def)
  qed
  then show "serial_inv serial email ident (entries r') (seq r')" "seq r' + int n \<le> max_int64" by auto
qed

end

sublocale serial_store \<subseteq> serial_repository create by_id empty_repo ident
  "\<lambda>r. serial_inv serial email ident (entries r) (seq r)" "\<lambda>r n. seq r + int n \<le> max_int64" not_found
proof (unfold_locales, goal_cases)
  case 1
  show ?case by (simp add: empty_state)
next
  case (2 i)
  show ?case by (simp add: by_id_entries empty_state)
next
  case (3 r n now c)
  then show ?case by (cases "create now c r") (auto intro: create_inv(1))
next
  case (4 r n now c)
  then show ?case by (cases "create now c r") (auto intro: create_inv(2))
next
  case (5 r n now c c' r')
  from 5(3) next_serial(2) [OF 5(1,2)] show ?case
    unfolding create_eq [OF 5(1,2)]
    by (auto simp: by_id_entries put_state stamped map_add_def has_key_iff split: option.splits if_splits)
next
  case (6 r n now c c' r' i)
  from 6(3,4) show ?case
    unfolding create_eq [OF 6(1,2)]
    by (auto simp: by_id_entries put_state stamped map_add_def split: option.splits if_splits)
next
  case (7 r n now c e r' i)
  from 7(3) show ?case unfolding create_eq [OF 7(1,2)] by (auto split: if_splits)
next
  case (8 r n now c c' r')
  from 8(3) next_serial(2) [OF 8(1,2)] show ?case
    unfolding create_eq [OF 8(1,2)]
    by (auto simp: by_id_entries stamped has_key_iff split: option.splits if_splits)
qed

end
