(* ===== verification/Error_Codes.thy ===== *)
theory Error_Codes
  imports Go_Errors
begin

text \<open>
  The contract of an \<open>errorx\<close> package (modules M1 and M10): attaching a code to an error,
  reading the code back through any wrapping, and mapping it to an HTTP status.
\<close>

text \<open>\<open>fmt.Errorf("p: %w", err)\<close> for each prefix in turn, the innermost first.\<close>

fun wrap_all :: "string list \<Rightarrow> 'x go_error \<Rightarrow> 'x go_error" where
  "wrap_all [] e = e"
| "wrap_all (p # ps) e = wrap_all ps (ErrWrap p e)"

lemma errors_is_wrap_all [simp]: "errors_is (Some (wrap_all ps e)) t \<longleftrightarrow> errors_is (Some e) t"
  by (induction ps arbitrary: e) auto

lemma errors_as_wrap_all:
  "(\<And>p e. f (ErrWrap p e) = None) \<Longrightarrow> errors_as f (Some (wrap_all ps e)) = errors_as f (Some e)"
  by (induction ps arbitrary: e) (auto simp: errors_as_def)

lemma as_wrap_all [simp]:
  "errors_as as_coded (Some (wrap_all ps e)) = errors_as as_coded (Some e)"
  "errors_as as_validation (Some (wrap_all ps e)) = errors_as as_validation (Some e)"
  by (rule errors_as_wrap_all, simp add: as_coded_def as_validation_def)+

locale error_codes =
  fixes with_code :: "'x go_error option \<Rightarrow> string \<Rightarrow> 'x go_error option"
    and code :: "'x go_error option \<Rightarrow> string"
    and status :: "'x go_error option \<Rightarrow> int"
  assumes with_code_nil: "with_code err c = None \<longleftrightarrow> err = None"
    and with_code_is: "errors_is (with_code err c) t \<longleftrightarrow> errors_is err t"
    and code_nil: "code None = []"
    and code_with: "code (with_code (Some e) c) = c"
    and code_wrap: "code (Some (ErrWrap p e)) = code (Some e)"
    and code_plain: "code (Some (ErrNew i m)) = ''INTERNAL''"
    and status_code: "status err =
      (if code err = ''NOT_FOUND'' then 404 else if code err = ''VALIDATION'' then 400
       else if code err = ''CONFLICT'' then 409 else 500)"
begin

lemma code_wrap_all: "code (Some (wrap_all ps e)) = code (Some e)"
  by (induction ps arbitrary: e) (auto simp: code_wrap)

text \<open>However often a coded error is wrapped, its code, its status and its sentinel survive.\<close>

lemma coded_survives:
  assumes "with_code (Some e) c = Some e'"
  shows "code (Some (wrap_all ps e')) = c
    \<and> (errors_is (Some (wrap_all ps e')) t \<longleftrightarrow> errors_is (Some e) t)"
  using assms code_with [of e c] with_code_is [of "Some e" c t] by (simp add: code_wrap_all)

lemma status_wrap_all: "status (Some (wrap_all ps e)) = status (Some e)"
  by (simp add: status_code code_wrap_all)

lemma status_range: "status err \<in> {400, 404, 409, 500}"
  by (simp add: status_code)

end

end
