(* ===== verification/M01_Customer.thy ===== *)
theory M01_Customer
  imports Repo_Interface Error_Codes
begin

text \<open>
  \<open>m01-interfaces-and-errors\<close>: the customer domain with its validation, the in-memory
  repository, the error-code package \<open>errorx\<close> and the logging decorator of the demo. The clock
  (\<open>time.Now\<close>) is an argument; that its mutex makes every operation one step is proved in
  \<open>Guarded_Stores\<close>.
\<close>

section \<open>solution-customer: the entity\<close>

record m01_AuditFields =
  m01_CreatedAt :: int
  m01_UpdatedAt :: int

text \<open>The embedded struct is the base of the record, its fields are promoted.\<close>

record m01_Customer = m01_AuditFields +
  m01_ID :: string
  m01_Email :: string
  m01_Name :: string

definition m01_ErrNotFound :: "'x go_error" where
  "m01_ErrNotFound = ErrNew ''m01/customer.ErrNotFound'' ''customer: not found''"

section \<open>solution-customer: validation\<close>

definition m01_validateEmail :: "string \<Rightarrow> 'x go_error option" where
  "m01_validateEmail e =
     (if \<not> contains e ''@'' then Some (ErrValidation ''email'' ''must contain @'') else None)"

definition m01_validateName :: "string \<Rightarrow> 'x go_error option" where
  "m01_validateName n =
     (if trim_space n = [] then Some (ErrValidation ''name'' ''must not be empty'') else None)"

definition m01_Validate :: "m01_Customer \<Rightarrow> 'x go_error option" where
  "m01_Validate c =
     errors_join [m01_validateEmail (m01_Email c), m01_validateName (m01_Name c)]"

definition m01_ValidationError_Error :: "string \<Rightarrow> string \<Rightarrow> string" where
  "m01_ValidationError_Error fld msg = ''validation: '' @ fld @ '': '' @ msg"

lemma err_msg_validation: "err_msg (ErrValidation f m) = m01_ValidationError_Error f m"
  by (simp add: m01_ValidationError_Error_def)

lemma m01_Validate_cases:
  "m01_Validate c =
     (let bad_email = CHR ''@'' \<notin> set (m01_Email c); bad_name = trim_space (m01_Name c) = [];
          ee = ErrValidation ''email'' ''must contain @'';
          ne = ErrValidation ''name'' ''must not be empty''
      in if bad_email \<and> bad_name then Some (ErrJoin [ee, ne])
         else if bad_email then Some (ErrJoin [ee])
         else if bad_name then Some (ErrJoin [ne]) else None)"
  by (simp add: m01_Validate_def m01_validateEmail_def m01_validateName_def errors_join_def Let_def)

section \<open>solution-customer: the in-memory repository\<close>

record m01_InMemoryRepo =
  m01_m :: "(string, m01_Customer) gomap"

definition m01_NewInMemoryRepo :: m01_InMemoryRepo where
  "m01_NewInMemoryRepo = \<lparr>m01_m = []\<rparr>"

definition m01_Create ::
  "int \<Rightarrow> m01_Customer \<Rightarrow> m01_InMemoryRepo \<Rightarrow> ('x, m01_Customer) go_result \<times> m01_InMemoryRepo"
where
  "m01_Create now c r =
     (let c = c\<lparr>m01_CreatedAt := now, m01_UpdatedAt := now\<rparr>
      in (Inr c, r\<lparr>m01_m := map_put (m01_ID c) c (m01_m r)\<rparr>))"

definition m01_ByID :: "string \<Rightarrow> m01_InMemoryRepo \<Rightarrow> ('x, m01_Customer) go_result" where
  "m01_ByID i r =
     (case map_of (m01_m r) i of None \<Rightarrow> Inl m01_ErrNotFound | Some c \<Rightarrow> Inr c)"

text \<open>The invariant: one entry per identifier, each under its own identifier.\<close>

definition m01_inv :: "m01_InMemoryRepo \<Rightarrow> bool" where
  "m01_inv r \<longleftrightarrow> map_wf (m01_m r) \<and> (\<forall>(k, c) \<in> set (m01_m r). m01_ID c = k)"

lemma set_put: "p \<in> set (map_put k v m) \<Longrightarrow> p = (k, v) \<or> p \<in> set m"
  by (induction m) (auto split: if_splits)

lemma m01_inv_Create: "m01_inv r \<Longrightarrow> m01_inv (snd (m01_Create now c r))"
  by (fastforce simp: m01_inv_def m01_Create_def Let_def dest: set_put)

lemma m01_inv_empty: "m01_inv m01_NewInMemoryRepo"
  by (simp add: m01_inv_def m01_NewInMemoryRepo_def)

interpretation m01_repo: repository m01_Create m01_ByID m01_NewInMemoryRepo m01_ID m01_inv
  "\<lambda>_ _. True" m01_ErrNotFound
  by unfold_locales
     (simp_all add: m01_inv_Create m01_inv_empty,
       auto simp: m01_ByID_def m01_NewInMemoryRepo_def m01_Create_def Let_def)

section \<open>The logging decorator of the demo\<close>

text \<open>
  \<open>LoggingRepo\<close> embeds any repository; its state is the log and the repository. The two
  embedded operations are arguments.
\<close>

type_synonym log_entry = "string \<times> string \<times> (string \<times> string) list"

definition m01_Logging_Create ::
  "('c \<Rightarrow> string) \<Rightarrow> ('x, 'c, 'r) create_op \<Rightarrow> ('x, 'c, log_entry list \<times> 'r) create_op" where
  "m01_Logging_Create email_of create now c lr =
     (let (log, r) = lr;
          log = log @ [(''INFO'', ''creating customer'', [(''email'', email_of c)])];
          (res, r) = create now c r
      in (res, (log, r)))"

definition m01_Logging_ByID ::
  "('x, 'c, 'r) by_id_op \<Rightarrow> string \<Rightarrow> log_entry list \<times> 'r
     \<Rightarrow> ('x, 'c) go_result \<times> (log_entry list \<times> 'r)" where
  "m01_Logging_ByID by_id i lr =
     (let (log, r) = lr; res = by_id i r;
          log = (case res of
                   Inl e \<Rightarrow> if \<not> errors_is (Some e) ''m01/customer.ErrNotFound''
                            then log @ [(''ERROR'', ''byID failed'', [(''id'', i), (''err'', err_msg e)])]
                            else log
                 | Inr c \<Rightarrow> log)
      in (res, (log, r)))"

context repository
begin

text \<open>A decorated repository keeps the contract.\<close>

lemma logged_repository:
  "repository (m01_Logging_Create email_of create)
     (\<lambda>i lr. fst (m01_Logging_ByID by_id i lr)) ([], empty_repo) ident
     (\<lambda>(log, r). inv r) (\<lambda>(log, r). room r) not_found"
  by unfold_locales
     (auto simp: m01_Logging_Create_def m01_Logging_ByID_def inv_empty get_empty Let_def
       split: prod.splits dest: get_failed created_inv intro: get_created get_other)

end

section \<open>solution-errorx\<close>

definition m01_CodeNotFound :: string where "m01_CodeNotFound = ''NOT_FOUND''"
definition m01_CodeValidation :: string where "m01_CodeValidation = ''VALIDATION''"
definition m01_CodeConflict :: string where "m01_CodeConflict = ''CONFLICT''"
definition m01_CodeInternal :: string where "m01_CodeInternal = ''INTERNAL''"

lemmas m01_codes = m01_CodeNotFound_def m01_CodeValidation_def m01_CodeConflict_def
  m01_CodeInternal_def

text \<open>The methods of a \<open>*codedError\<close>, which \<open>err_msg\<close> and \<open>err_first\<close> follow.\<close>

definition m01_codedError_Error :: "string \<Rightarrow> 'x go_error \<Rightarrow> string" where
  "m01_codedError_Error code err = code @ '': '' @ err_msg err"

definition m01_codedError_Unwrap :: "string \<Rightarrow> 'x go_error \<Rightarrow> 'x go_error" where
  "m01_codedError_Unwrap code err = err"

lemma m01_codedError:
  "err_msg (ErrCoded code err) = m01_codedError_Error code err"
  "f (ErrCoded code err) = None \<Longrightarrow> err_first f (ErrCoded code err) = err_first f (m01_codedError_Unwrap code err)"
  by (simp_all add: m01_codedError_Error_def m01_codedError_Unwrap_def)

definition m01_WithCode :: "'x go_error option \<Rightarrow> string \<Rightarrow> 'x go_error option" where
  "m01_WithCode err code = (case err of None \<Rightarrow> None | Some e \<Rightarrow> Some (ErrCoded code e))"

definition m01_Code :: "'x go_error option \<Rightarrow> string" where
  "m01_Code err =
     (case errors_as as_coded err of
        Some c \<Rightarrow> c
      | None \<Rightarrow> if err = None then [] else m01_CodeInternal)"

definition m01_HTTPStatus :: "'x go_error option \<Rightarrow> int" where
  "m01_HTTPStatus err =
     (let c = m01_Code err
      in if c = m01_CodeNotFound then 404
         else if c = m01_CodeValidation then 400
         else if c = m01_CodeConflict then 409
         else 500)"

interpretation m01_errorx: error_codes m01_WithCode m01_Code m01_HTTPStatus
  by unfold_locales
     (auto simp: m01_WithCode_def m01_Code_def m01_HTTPStatus_def m01_codes Let_def errors_as_def
       as_coded_def split: option.splits)

interpretation m01_logged: repository "m01_Logging_Create email_of m01_Create"
  "\<lambda>i lr. fst (m01_Logging_ByID m01_ByID i lr)" "([], m01_NewInMemoryRepo)" m01_ID
  "\<lambda>(log, r). m01_inv r" "\<lambda>(log, r). (\<lambda>_. True)" m01_ErrNotFound
  by (rule m01_repo.logged_repository)

section \<open>Properties\<close>

text \<open>
  Remark (functional). \<open>Validate\<close> accepts a customer exactly when the e-mail contains an \<open>@\<close> and the
  name is not blank, and the first \<open>ValidationError\<close> that \<open>errors.As\<close> finds in what it returns
  names the e-mail when the e-mail is bad, else the name.
\<close>

theorem m01_Validate_spec:
  "(m01_Validate c = None \<longleftrightarrow> CHR ''@'' \<in> set (m01_Email c) \<and> trim_space (m01_Name c) \<noteq> [])
   \<and> map_option fst (errors_as as_validation (m01_Validate c)) =
       (if CHR ''@'' \<notin> set (m01_Email c) then Some ''email''
        else if trim_space (m01_Name c) = [] then Some ''name'' else None)"
  by (simp add: m01_Validate_cases Let_def errors_as_def as_validation_def)

lemma m01_code_through_wrapping_parts:
  assumes "m01_WithCode (Some e) c = Some e'"
  shows "m01_Code (Some (wrap_all ps e')) = c"
    and "m01_HTTPStatus (Some (wrap_all ps e')) =
           (if c = ''NOT_FOUND'' then 404 else if c = ''VALIDATION'' then 400
            else if c = ''CONFLICT'' then 409 else 500)"
    and "errors_is (Some (wrap_all ps e')) t \<longleftrightarrow> errors_is (Some e) t"
  using m01_errorx.coded_survives [OF assms] by (simp_all add: m01_errorx.status_code)

text \<open>
  Remark (functional). A code attached by \<open>WithCode\<close> is read back by \<open>Code\<close> and decides
  \<open>HTTPStatus\<close>, and the sentinel underneath is still found by \<open>errors.Is\<close>, however many times
  the coded error is wrapped with \<open>%w\<close>.
\<close>

theorem m01_code_through_wrapping:
  assumes "m01_WithCode (Some e) c = Some e'"
  shows "m01_Code (Some (wrap_all ps e')) = c
    \<and> m01_HTTPStatus (Some (wrap_all ps e')) =
         (if c = ''NOT_FOUND'' then 404 else if c = ''VALIDATION'' then 400
          else if c = ''CONFLICT'' then 409 else 500)
    \<and> (errors_is (Some (wrap_all ps e')) t \<longleftrightarrow> errors_is (Some e) t)"
  using m01_code_through_wrapping_parts [OF assms] by blast

theorem m01_code_through_wrapping_witness:
  "m01_HTTPStatus (Some (ErrWrap ''b'' (ErrWrap ''a''
     (ErrCoded ''NOT_FOUND'' (m01_ErrNotFound :: unit go_error))))) = 404"
proof -
  have h: "m01_WithCode (Some (m01_ErrNotFound :: unit go_error)) ''NOT_FOUND''
      = Some (ErrCoded ''NOT_FOUND'' m01_ErrNotFound)"
    by (simp add: m01_WithCode_def)
  show ?thesis using m01_code_through_wrapping [OF h, of "[''a'', ''b'']"] by simp
qed

text \<open>
  Remark (equivalence). The logging decorator changes no result: \<open>Create\<close> and \<open>ByID\<close> through it
  return what the repository returns and leave the same repository, \<open>Create\<close> adds exactly one
  log line, and \<open>ByID\<close> adds one exactly when it fails with something other than \<open>ErrNotFound\<close>.
\<close>

theorem m01_logging_transparent:
  "m01_Logging_Create email_of (m01_Create :: ('x, _, _) create_op) now c (log, r) =
     (fst (m01_Create now c r),
      (log @ [(''INFO'', ''creating customer'', [(''email'', email_of c)])],
       snd ((m01_Create :: ('x, _, _) create_op) now c r)))
   \<and> m01_Logging_ByID m01_ByID i (log, r) = (m01_ByID i r, (log, r))"
  by (simp add: m01_Logging_Create_def m01_Logging_ByID_def m01_ByID_def m01_ErrNotFound_def Let_def
      case_prod_beta split: option.splits)

text \<open>
  Remark (functional). After any sequence of creates through the decorated repository, a \<open>Create\<close>
  makes exactly the created customer available under its identifier, stamped with the clock,
  and leaves every other lookup as it was.
\<close>

theorem m01_get_after_create:
  assumes "lr = create_all (m01_Logging_Create m01_Email (m01_Create :: ('x, _, _) create_op)) cs
             ([], m01_NewInMemoryRepo)"
    and "m01_Logging_Create m01_Email m01_Create now c lr
           = (Inr c' :: ('x, m01_Customer) go_result, lr')"
  shows "fst (m01_Logging_ByID m01_ByID i lr') =
     (if i = m01_ID c then Inr (c\<lparr>m01_CreatedAt := now, m01_UpdatedAt := now\<rparr>)
      else (fst (m01_Logging_ByID m01_ByID i lr) :: ('x, m01_Customer) go_result))"
proof -
  have inv: "(\<lambda>(log, r). m01_inv r) lr"
    using m01_logged.inv_create_all [OF m01_logged.inv_empty, of 0 cs] assms(1) by simp
  from assms(2) have "c' = c\<lparr>m01_CreatedAt := now, m01_UpdatedAt := now\<rparr>"
    by (auto simp: m01_Logging_Create_def m01_Create_def Let_def split: prod.splits)
  with m01_logged.get_after_create [OF inv _ assms(2), of 0 i] show ?thesis
    by (simp split: prod.splits)
qed

theorem m01_get_after_create_witness:
  "\<exists>lr'. fst (m01_Logging_ByID m01_ByID ''c1'' lr') =
     (Inr \<lparr>m01_CreatedAt = 7, m01_UpdatedAt = 7, m01_ID = ''c1'', m01_Email = ''a@b'',
           m01_Name = ''Ada''\<rparr> :: (unit, m01_Customer) go_result)"
proof -
  let ?c = "\<lparr>m01_CreatedAt = 0, m01_UpdatedAt = 0, m01_ID = ''c1'', m01_Email = ''a@b'',
      m01_Name = ''Ada''\<rparr>"
  obtain c' lr' where h: "m01_Logging_Create m01_Email
      (m01_Create :: (unit, m01_Customer, m01_InMemoryRepo) create_op) 7 ?c
      ([], m01_NewInMemoryRepo) = (Inr c', lr')"
    by (simp add: m01_Logging_Create_def m01_Create_def Let_def)
  have "fst (m01_Logging_ByID m01_ByID ''c1'' lr') = (Inr (?c\<lparr>m01_CreatedAt := 7, m01_UpdatedAt := 7\<rparr>)
      :: (unit, m01_Customer) go_result)"
    using m01_get_after_create [of _ "[]", OF _ h, of "''c1''"] by simp
  then show ?thesis by (intro exI [of _ lr']) simp
qed

end
