(* ===== verification/Go_Cmd.thy ===== *)
theory Go_Cmd
  imports Go_Errors "HOL-Library.While_Combinator"
begin

text \<open>
  A \<open>main\<close> function: a sequence of calls that ends normally, by \<open>os.Exit\<close> or \<open>log.Fatal\<close>, by a
  panic, or not at all. Deferred calls run when the function returns or panics, not when the
  process exits. The state contains the two output streams; \<open>log\<close>'s time stamps are left out.
\<close>

datatype 'a outcome = Val 'a | Exit int | Panic panic | Diverges

type_synonym ('a, 's) cmd = "'s \<Rightarrow> 'a outcome \<times> 's"

definition ret :: "'a \<Rightarrow> ('a, 's) cmd" where
  "ret x s = (Val x, s)"

definition bind :: "('a, 's) cmd \<Rightarrow> ('a \<Rightarrow> ('b, 's) cmd) \<Rightarrow> ('b, 's) cmd" where
  "bind m f s =
     (case m s of
        (Val x, s) \<Rightarrow> f x s | (Exit n, s) \<Rightarrow> (Exit n, s) | (Panic p, s) \<Rightarrow> (Panic p, s) | (Diverges, s) \<Rightarrow> (Diverges, s))"

definition act :: "('s \<Rightarrow> 's) \<Rightarrow> (unit, 's) cmd" where
  "act f s = (Val (), f s)"

definition call :: "('s \<Rightarrow> 'a \<times> 's) \<Rightarrow> ('a, 's) cmd" where
  "call f s = (let (x, s) = f s in (Val x, s))"

definition panics :: "panic \<Rightarrow> ('a, 's) cmd" where
  "panics p s = (Panic p, s)"

definition deferring :: "('s \<Rightarrow> 's) \<Rightarrow> ('a, 's) cmd \<Rightarrow> ('a, 's) cmd" where
  "deferring d m s =
     (case m s of
        (Val x, s) \<Rightarrow> (Val x, d s) | (Exit n, s) \<Rightarrow> (Exit n, s) | (Panic p, s) \<Rightarrow> (Panic p, d s)
      | (Diverges, s) \<Rightarrow> (Diverges, s))"

text \<open>\<open>for b { c }\<close>.\<close>

definition loop :: "('s \<Rightarrow> bool) \<Rightarrow> ('s \<Rightarrow> 's) \<Rightarrow> (unit, 's) cmd" where
  "loop b c s = (case while_option b c s of None \<Rightarrow> (Diverges, s) | Some s' \<Rightarrow> (Val (), s'))"

fun in_order :: "(unit, 's) cmd list \<Rightarrow> (unit, 's) cmd" where
  "in_order [] = ret ()"
| "in_order (c # cs) = bind c (\<lambda>_. in_order cs)"

text \<open>\<open>os.Exit(1)\<close> after the last write of \<open>log.Fatal\<close>.\<close>

definition fatal :: "('s \<Rightarrow> 's) \<Rightarrow> ('a, 's) cmd" where
  "fatal f s = (Exit 1, f s)"

text \<open>\<open>if err != nil { log.Fatalf("what: %v", err) }\<close>, where \<open>say\<close> writes to the standard error.\<close>

definition or_fatal :: "(string \<Rightarrow> 's \<Rightarrow> 's) \<Rightarrow> string \<Rightarrow> ('x, 'a) go_result \<Rightarrow> ('a, 's) cmd" where
  "or_fatal say what res =
     (case res of Inl e \<Rightarrow> fatal (say (what @ '': '' @ err_msg e @ nl)) | Inr x \<Rightarrow> ret x)"

named_theorems cmd_run \<open>execution of commands\<close>

lemma cmd_simps [cmd_run]:
  "ret x s = (Val x, s)" "act f s = (Val (), f s)" "panics p s = (Panic p, s)" "fatal f s = (Exit 1, f s)"
  "call g s = (Val (fst (g s)), snd (g s))"
  "or_fatal say what (Inl e) s = (Exit 1, say (what @ '': '' @ err_msg e @ nl) s)"
  "or_fatal say what (Inr x) s = (Val x, s)"
  by (simp_all add: ret_def act_def panics_def fatal_def call_def or_fatal_def case_prod_beta)

lemma bind_run [cmd_run]:
  "m s = (Val x, s') \<Longrightarrow> bind m f s = f x s'"
  "m s = (Exit n, s') \<Longrightarrow> bind m f s = (Exit n, s')"
  "m s = (Panic p, s') \<Longrightarrow> bind m f s = (Panic p, s')"
  "m s = (Diverges, s') \<Longrightarrow> bind m f s = (Diverges, s')"
  by (simp_all add: bind_def)

lemma deferring_run [cmd_run]:
  "m s = (Val x, s') \<Longrightarrow> deferring d m s = (Val x, d s')"
  "m s = (Exit n, s') \<Longrightarrow> deferring d m s = (Exit n, s')"
  "m s = (Panic p, s') \<Longrightarrow> deferring d m s = (Panic p, d s')"
  by (simp_all add: deferring_def)

lemma fst_deferring [simp]: "fst (deferring d m s) = fst (m s)"
  by (simp add: deferring_def split: prod.split outcome.split)

text \<open>A loop whose condition bounds a counter that each iteration advances returns.\<close>

lemma loop_returns:
  fixes c :: "'s \<Rightarrow> 's" and t :: "'s \<Rightarrow> int"
  assumes "\<And>s. P s \<Longrightarrow> b s \<Longrightarrow> P (c s) \<and> t (c s) \<ge> t s + step" and "\<And>s. P s \<Longrightarrow> b s \<Longrightarrow> t s < limit"
    and "0 < step" and "P s"
  shows "\<exists>s'. loop b c s = (Val (), s') \<and> P s' \<and> \<not> b s'"
proof -
  have "\<exists>s'. while_option b c s = Some s'"
  proof (rule measure_while_option_Some [of P b c "\<lambda>s. nat (limit - t s)"])
    fix s assume "P s" "b s"
    then show "P (c s) \<and> nat (limit - t (c s)) < nat (limit - t s)"
      using assms(1,2) [of s] assms(3) by auto
  qed (rule assms(4))
  then obtain s' where s': "while_option b c s = Some s'" by blast
  have "P s'" by (rule while_option_rule [where P = P, OF _ s' assms(4)]) (use assms(1) in blast)
  with s' while_option_stop [OF s'] show ?thesis by (auto simp: loop_def)
qed

lemma in_order_append: "in_order (cs @ ds) = bind (in_order cs) (\<lambda>_. in_order ds)"
  by (induction cs) (auto simp: bind_def ret_def fun_eq_iff split: prod.splits outcome.splits)

text \<open>A loop none of whose iterations stops the process applies their effects in order.\<close>

lemma in_order_acts [cmd_run]: "in_order (map (\<lambda>x. act (f x)) xs) s = (Val (), fold f xs s)"
  by (induction xs arbitrary: s) (simp_all add: cmd_run)

section \<open>The process\<close>

record host =
  h_out :: string
  h_err :: string

definition stdout :: "string \<Rightarrow> 'a host_scheme \<Rightarrow> 'a host_scheme" where
  "stdout t h = h\<lparr>h_out := h_out h @ t\<rparr>"

definition stderr :: "string \<Rightarrow> 'a host_scheme \<Rightarrow> 'a host_scheme" where
  "stderr t h = h\<lparr>h_err := h_err h @ t\<rparr>"

definition println :: "string \<Rightarrow> 'a host_scheme \<Rightarrow> 'a host_scheme" where
  "println t = stdout (t @ nl)"

lemma host_simps [simp]:
  "h_out (stdout t h) = h_out h @ t" "h_err (stdout t h) = h_err h" "h_out (stderr t h) = h_out h"
  "h_err (stderr t h) = h_err h @ t" "h_out (println t h) = h_out h @ t @ nl"
  "h_err (println t h) = h_err h"
  by (simp_all add: stdout_def stderr_def println_def)

definition new_host :: host where
  "new_host = \<lparr>h_out = [], h_err = []\<rparr>"

text \<open>\<open>os.Getenv\<close> with the default a command uses for an unset or empty variable.\<close>

definition getenv_default :: "(string \<Rightarrow> string) \<Rightarrow> string \<Rightarrow> string \<Rightarrow> string" where
  "getenv_default getenv k dflt = (let v = getenv k in if v = [] then dflt else v)"

section \<open>slog's text handler\<close>

text \<open>A value is quoted when it is empty or contains a blank, an equals sign, a quote or a control
  byte. \<open>stamp\<close> is the time the handler prints.\<close>

definition text_value :: "string \<Rightarrow> string" where
  "text_value s =
     (if s = [] \<or> (\<exists>c \<in> set s. c \<in> {CHR '' '', CHR ''='', CHR 0x22} \<or> (of_char c :: nat) < 32 \<or> (of_char c :: nat) = 127)
      then fmt_q s else s)"

definition slog_text :: "string \<Rightarrow> string \<Rightarrow> string \<Rightarrow> (string \<times> string) list \<Rightarrow> string" where
  "slog_text stamp level msg attrs =
     ''time='' @ stamp @ '' level='' @ level @ '' msg='' @ text_value msg
       @ concat (map (\<lambda>(k, v). CHR '' '' # k @ CHR ''='' # text_value v) attrs) @ nl"

end
