(* ===== verification/Go_Time.thy ===== *)
theory Go_Time
  imports Go_Strings
begin

text \<open>
  What the sources use of the package \<open>time\<close>. An instant (\<open>time.Time\<close> in UTC) and a duration are
  numbers of nanoseconds, the instant counted from 1970-01-01T00:00:00Z; the clock
  (\<open>time.Now\<close>) is an argument wherever it is read. \<open>Format(time.RFC3339)\<close> is written out with the
  proleptic Gregorian calendar.
\<close>

definition second :: int where
  "second = 1000000000"

definition millisecond :: int where
  "millisecond = 1000000"

definition unix_seconds :: "int \<Rightarrow> int" where
  "unix_seconds t = t div second"

text \<open>Year, month and day of a day number; the year of the calculation starts in March.\<close>

definition civil :: "int \<Rightarrow> int \<times> int \<times> int" where
  "civil days =
     (let z = days + 719468;
          era = z div 146097;
          doe = z mod 146097;
          yoe = (doe - doe div 1460 + doe div 36524 - doe div 146096) div 365;
          doy = doe - (365 * yoe + yoe div 4 - yoe div 100);
          mp = (5 * doy + 2) div 153;
          d = doy - (153 * mp + 2) div 5 + 1;
          m = (if mp < 10 then mp + 3 else mp - 9);
          y = yoe + era * 400 + (if m \<le> 2 then 1 else 0)
      in (y, m, d))"

definition year4 :: "int \<Rightarrow> string" where
  "year4 y = (if y < 0 then CHR ''-'' # fmt_0d 4 (- y) else fmt_0d 4 y)"

definition rfc3339 :: "int \<Rightarrow> string" where
  "rfc3339 t =
     (let s = unix_seconds t; (y, m, d) = civil (s div 86400); r = s mod 86400
      in year4 y @ ''-'' @ fmt_0d 2 m @ ''-'' @ fmt_0d 2 d @ ''T''
         @ fmt_0d 2 (r div 3600) @ '':'' @ fmt_0d 2 (r div 60 mod 60) @ '':''
         @ fmt_0d 2 (r mod 60) @ ''Z'')"

text \<open>\<open>Format("15:04:05")\<close>.\<close>

definition clock_hms :: "int \<Rightarrow> string" where
  "clock_hms t =
     (let r = unix_seconds t mod 86400
      in fmt_0d 2 (r div 3600) @ '':'' @ fmt_0d 2 (r div 60 mod 60) @ '':'' @ fmt_0d 2 (r mod 60))"

text \<open>Some instants: the epoch, the end of a leap February, the zero value of \<open>time.Time\<close>.\<close>

lemma rfc3339_epoch: "rfc3339 0 = ''1970-01-01T00:00:00Z''"
  by code_simp

lemma rfc3339_leap: "rfc3339 (1709251199 * second) = ''2024-02-29T23:59:59Z''"
  by code_simp

lemma rfc3339_zero: "rfc3339 (-62135596800 * second) = ''0001-01-01T00:00:00Z''"
  by code_simp

text \<open>Formatting forgets what is finer than a second, and nothing else within a second.\<close>

lemma rfc3339_seconds: "unix_seconds t = unix_seconds u \<Longrightarrow> rfc3339 t = rfc3339 u"
  by (simp add: rfc3339_def)

text \<open>The zero value of \<open>time.Time\<close> is the first instant of year 1.\<close>

definition zero_time :: int where
  "zero_time = -62135596800 * second"

text \<open>\<open>MarshalJSON\<close> of an instant: RFC 3339 with the nanoseconds, trailing zeros removed.\<close>

definition strip_zeros :: "string \<Rightarrow> string" where
  "strip_zeros s = rev (dropWhile (\<lambda>c. c = CHR ''0'') (rev s))"

definition rfc3339_nano :: "int \<Rightarrow> string" where
  "rfc3339_nano t =
     (let frac = t mod second; base = rfc3339 t
      in if frac = 0 then base
         else take (length base - 1) base @ ''.'' @ strip_zeros (fmt_0d 9 frac) @ ''Z'')"

end
