(* ===== verification/M01_Demo.thy ===== *)
theory M01_Demo
  imports M01_Customer Go_Cmd Go_Time
begin

text \<open>
  The command of \<open>m01-interfaces-and-errors\<close>: validation, a create and a fetch through the logging
  decorator, and the code of a coded error. The text of \<open>cmd/demo\<close> and \<open>solution-cmd/demo\<close> is the same
  but for the packages they import, so the command takes the packages as an argument: the learner's,
  of which only the contract is given, or those of the \<open>solution-\<close> directories. The clock of the
  repository and the time stamps of the log lines are arguments.
\<close>

section \<open>The command, for any packages\<close>

text \<open>
  What the command uses of the packages \<open>customer\<close> and \<open>errorx\<close>. \<open>p1_Customer i e n\<close> is the composite
  literal with those values for \<open>ID\<close>, \<open>Email\<close> and \<open>Name\<close>. The sentinel \<open>customer.ErrNotFound\<close> is known by
  its name and \<open>*customer.ValidationError\<close> is the constructor of that name.
\<close>

record ('x, 'c, 'r) m01_packages =
  p1_Customer :: "string \<Rightarrow> string \<Rightarrow> string \<Rightarrow> 'c"
  p1_ID :: "'c \<Rightarrow> string"
  p1_Email :: "'c \<Rightarrow> string"
  p1_Name :: "'c \<Rightarrow> string"
  p1_CreatedAt :: "'c \<Rightarrow> int"
  p1_Validate :: "'c \<Rightarrow> 'x go_error option"
  p1_NewInMemoryRepo :: 'r
  p1_Create :: "('x, 'c, 'r) create_op"
  p1_ByID :: "('x, 'c, 'r) by_id_op"
  p1_WithCode :: "'x go_error option \<Rightarrow> string \<Rightarrow> 'x go_error option"
  p1_Code :: "'x go_error option \<Rightarrow> string"
  p1_HTTPStatus :: "'x go_error option \<Rightarrow> int"
  p1_CodeNotFound :: string

text \<open>The process: its output and the decorated repository, with the lines it has logged.\<close>

record 'r m01_host = host +
  d1_repo :: "log_entry list \<times> 'r"

definition slog_entries :: "string \<Rightarrow> log_entry list \<Rightarrow> string" where
  "slog_entries stamp ls = concat (map (\<lambda>(level, msg, attrs). slog_text stamp level msg attrs) ls)"

text \<open>An operation of the decorated repository; its log lines go to the standard output.\<close>

definition on_repo1 ::
  "string \<Rightarrow> (log_entry list \<times> 'r \<Rightarrow> 'a \<times> (log_entry list \<times> 'r)) \<Rightarrow> ('a, 'r m01_host) cmd" where
  "on_repo1 stamp f = call (\<lambda>s. let (res, lr) = f ([], snd (d1_repo s))
     in (res, stdout (slog_entries stamp (fst lr)) (s\<lparr>d1_repo := (fst (d1_repo s) @ fst lr, snd lr)\<rparr>)))"

definition fmt_bool :: "bool \<Rightarrow> string" where
  "fmt_bool b = (if b then ''true'' else ''false'')"

definition l01_validate :: "('x, 'c, 'r) m01_packages \<Rightarrow> (unit, 'r m01_host) cmd" where
  "l01_validate p =
     (case p1_Validate p (p1_Customer p ''c1'' ''nope'' []) of
        None \<Rightarrow> ret ()
      | Some err \<Rightarrow>
          bind (case errors_as as_validation (Some err) of
                  Some (fld, msg) \<Rightarrow> act (stdout (''first invalid field: '' @ fld @ '' ('' @ msg @ '')'' @ nl))
                | None \<Rightarrow> ret ()) (\<lambda>_.
          act (stdout (''all validation errors: '' @ err_msg err @ nl))))"

text \<open>The command's own decorator, around the repository of the package.\<close>

definition l01_Logging_Create ::
  "('x, 'c, 'r) m01_packages \<Rightarrow> int \<Rightarrow> 'c \<Rightarrow> log_entry list \<times> 'r \<Rightarrow> ('x, 'c) go_result \<times> (log_entry list \<times> 'r)" where
  "l01_Logging_Create p now c = m01_Logging_Create (p1_Email p) (p1_Create p) now c"

definition l01_Logging_ByID ::
  "('x, 'c, 'r) m01_packages \<Rightarrow> string \<Rightarrow> log_entry list \<times> 'r \<Rightarrow> ('x, 'c) go_result \<times> (log_entry list \<times> 'r)" where
  "l01_Logging_ByID p i = m01_Logging_ByID (p1_ByID p) i"

definition l01_demo_main :: "('x, 'c, 'r) m01_packages \<Rightarrow> int \<Rightarrow> string \<Rightarrow> (unit, 'r m01_host) cmd" where
  "l01_demo_main p now stamp =
     bind (act (\<lambda>s. s\<lparr>d1_repo := ([], p1_NewInMemoryRepo p)\<rparr>)) (\<lambda>_.
     bind (l01_validate p) (\<lambda>_.
     bind (on_repo1 stamp (l01_Logging_Create p now
       (p1_Customer p ''c1'' ''ada@pulse.dev'' ''Ada''))) (\<lambda>created.
     case created of
       Inl err \<Rightarrow> act (println (''create failed: '' @ err_msg err))
     | Inr c \<Rightarrow>
         bind (on_repo1 stamp (l01_Logging_ByID p ''c1'')) (\<lambda>got.
         let got = (case got of Inl e \<Rightarrow> p1_Customer p [] [] [] | Inr c \<Rightarrow> c) in
         bind (act (stdout (''fetched: '' @ p1_Name p got @ '' <'' @ p1_Email p got @ ''> created=''
                 @ clock_hms (p1_CreatedAt p got) @ nl))) (\<lambda>_.
         bind (on_repo1 stamp (l01_Logging_ByID p ''missing'')) (\<lambda>missing.
         let err = (case missing of Inl e \<Rightarrow> Some e | Inr c \<Rightarrow> None);
             coded = p1_WithCode p err (p1_CodeNotFound p) in
         act (stdout (''missing lookup -> code='' @ p1_Code p coded @ '' http='' @ fmt_d (p1_HTTPStatus p coded)
           @ '' isNotFound='' @ fmt_bool (errors_is coded ''m01/customer.ErrNotFound'') @ nl))))))))"

section \<open>What the exercises ask of the packages\<close>

text \<open>
  The contract the comments of the exercise files and their tests state: the repository and the codes
  are those of the locales they extend, \<open>Create\<close> stamps the audit fields and stores the rest as given,
  and \<open>Validate\<close> joins one \<open>ValidationError\<close> per failing field. The exercises leave the wording of the two
  messages open.
\<close>

locale m01_exercise =
  repository "p1_Create p" "p1_ByID p" "p1_NewInMemoryRepo p" "p1_ID p" inv room not_found
  + error_codes "p1_WithCode p" "p1_Code p" "p1_HTTPStatus p"
  for p :: "('x, 'c, 'r) m01_packages" and inv room not_found +
  fixes email_msg name_msg :: string
  assumes fields_literal: "p1_ID p (p1_Customer p i e n) = i" "p1_Email p (p1_Customer p i e n) = e"
      "p1_Name p (p1_Customer p i e n) = n"
    and validate_fields: "p1_Validate p (p1_Customer p i e n) = errors_join
      [if contains e ''@'' then None else Some (ErrValidation ''email'' email_msg),
       if trim_space n = [] then Some (ErrValidation ''name'' name_msg) else None]"
    and room_start: "room (p1_NewInMemoryRepo p) 1"
    and create_stamps: "inv r \<Longrightarrow> room r (Suc k) \<Longrightarrow> \<exists>c' r'. p1_Create p now c r = (Inr c', r')
      \<and> p1_ID p c' = p1_ID p c \<and> p1_Email p c' = p1_Email p c \<and> p1_Name p c' = p1_Name p c \<and> p1_CreatedAt p c' = now"
    and not_found_is: "errors_is (Some not_found) ''m01/customer.ErrNotFound''"
    and code_name: "p1_CodeNotFound p = ''NOT_FOUND''"
begin

lemma validate_run:
  "l01_validate p s = (Val (), stdout (''all validation errors: validation: email: '' @ email_msg @ nl
       @ ''validation: name: '' @ name_msg @ nl)
     (stdout (''first invalid field: email ('' @ email_msg @ '')'' @ nl) s))"
proof -
  have "trim_space [] = []" by code_simp
  then have "p1_Validate p (p1_Customer p ''c1'' ''nope'' [])
      = Some (ErrJoin [ErrValidation ''email'' email_msg, ErrValidation ''name'' name_msg])"
    by (simp add: validate_fields errors_join_def Let_def)
  then show ?thesis
    by (simp add: l01_validate_def cmd_run errors_as_def as_validation_def nl_def)
qed

lemma create_run:
  assumes "d1_repo s = ([], p1_NewInMemoryRepo p)"
  obtains c' r' where "on_repo1 stamp (l01_Logging_Create p now
        (p1_Customer p ''c1'' ''ada@pulse.dev'' ''Ada'')) s
      = (Val (Inr c'), stdout (''time='' @ stamp @ '' level=INFO msg='' @ fmt_q ''creating customer''
           @ '' email=ada@pulse.dev'' @ nl)
         (s\<lparr>d1_repo := ([(''INFO'', ''creating customer'', [(''email'', ''ada@pulse.dev'')])], r')\<rparr>))"
    and "p1_ByID p ''c1'' r' = Inr c'" and "p1_ByID p ''missing'' r' = Inl not_found"
    and "p1_Name p c' = ''Ada''" and "p1_Email p c' = ''ada@pulse.dev''" and "p1_CreatedAt p c' = now"
proof -
  let ?c = "p1_Customer p ''c1'' ''ada@pulse.dev'' ''Ada''"
  have room: "room (p1_NewInMemoryRepo p) (Suc 0)" using room_start by simp
  obtain c' r' where c': "p1_Create p now ?c (p1_NewInMemoryRepo p) = (Inr c', r')" "p1_ID p c' = ''c1''"
    "p1_Email p c' = ''ada@pulse.dev''" "p1_Name p c' = ''Ada''" "p1_CreatedAt p c' = now"
    using create_stamps [OF inv_empty room, of now ?c] by (auto simp: fields_literal)
  show thesis
  proof
    show "p1_ByID p ''c1'' r' = Inr c'" using get_created [OF inv_empty room c'(1)] c'(2) by simp
    show "p1_ByID p ''missing'' r' = Inl not_found"
      using get_other [OF inv_empty room c'(1), of "''missing''"] c'(2) by (simp add: get_empty)
  qed (use assms c' in \<open>simp_all add: on_repo1_def cmd_run l01_Logging_Create_def m01_Logging_Create_def fields_literal slog_entries_def
      slog_text_def text_value_def\<close>)
qed

lemma byid_run:
  assumes "d1_repo s = (log, r)" and "p1_ByID p i r = res" and "res = Inl not_found \<or> (\<exists>c. res = Inr c)"
  shows "on_repo1 stamp (l01_Logging_ByID p i) s = (Val res, s)"
  using assms not_found_is
  by (cases s) (auto simp: on_repo1_def cmd_run l01_Logging_ByID_def m01_Logging_ByID_def slog_entries_def stdout_def)

lemma coded_missing:
  "p1_Code p (p1_WithCode p (Some not_found) (p1_CodeNotFound p)) = ''NOT_FOUND''"
  "fmt_d (p1_HTTPStatus p (p1_WithCode p (Some not_found) (p1_CodeNotFound p))) = ''404''"
  "errors_is (p1_WithCode p (Some not_found) (p1_CodeNotFound p)) ''m01/customer.ErrNotFound''"
proof -
  have "fmt_d 404 = ''404''" by code_simp
  then show "fmt_d (p1_HTTPStatus p (p1_WithCode p (Some not_found) (p1_CodeNotFound p))) = ''404''"
    by (simp add: status_code code_with code_name)
qed (simp_all add: code_with code_name with_code_is not_found_is)

lemma l01_exercise_run:
  "\<exists>s'. l01_demo_main p now stamp s = (Val (), s')
     \<and> h_out s' = h_out s @ ''first invalid field: email ('' @ email_msg @ '')'' @ nl
         @ ''all validation errors: validation: email: '' @ email_msg @ nl
         @ ''validation: name: '' @ name_msg @ nl
         @ ''time='' @ stamp @ '' level=INFO msg='' @ fmt_q ''creating customer'' @ '' email=ada@pulse.dev'' @ nl
         @ ''fetched: Ada <ada@pulse.dev> created='' @ clock_hms now @ nl
         @ ''missing lookup -> code=NOT_FOUND http=404 isNotFound=true'' @ nl"
proof -
  have repo: "d1_repo (stdout t s) = d1_repo s" for t and s :: "'r m01_host" by (simp add: stdout_def)
  let ?s1 = "snd (l01_validate p (s\<lparr>d1_repo := ([], p1_NewInMemoryRepo p)\<rparr>))"
  have "d1_repo ?s1 = ([], p1_NewInMemoryRepo p)" by (simp add: validate_run repo)
  then obtain c' r' where made: "on_repo1 stamp (l01_Logging_Create p now
        (p1_Customer p ''c1'' ''ada@pulse.dev'' ''Ada'')) ?s1
      = (Val (Inr c'), stdout (''time='' @ stamp @ '' level=INFO msg='' @ fmt_q ''creating customer''
           @ '' email=ada@pulse.dev'' @ nl)
         (?s1\<lparr>d1_repo := ([(''INFO'', ''creating customer'', [(''email'', ''ada@pulse.dev'')])], r')\<rparr>))"
    and got: "p1_ByID p ''c1'' r' = Inr c'" "p1_ByID p ''missing'' r' = Inl not_found"
    and c': "p1_Name p c' = ''Ada''" "p1_Email p c' = ''ada@pulse.dev''" "p1_CreatedAt p c' = now"
    by (rule create_run)
  show ?thesis
    using made by (simp add: l01_demo_main_def cmd_run validate_run repo byid_run got c' coded_missing fmt_bool_def)
qed

end

text \<open>C37 (functional). Any packages that keep the contract of the exercises make the command print
  the same: both validation errors and the first of them alone, the logged create, the stored
  customer with the clock of the create, and the missing one as \<open>NOT_FOUND\<close>, 404, with the sentinel
  still recognisable and no log line.\<close>

theorem l01_demo_output:
  assumes "m01_exercise p ok room not_found email_msg name_msg"
  shows "\<exists>s'. l01_demo_main p now stamp s = (Val (), s')
     \<and> h_out s' = h_out s @ ''first invalid field: email ('' @ email_msg @ '')'' @ nl
         @ ''all validation errors: validation: email: '' @ email_msg @ nl
         @ ''validation: name: '' @ name_msg @ nl
         @ ''time='' @ stamp @ '' level=INFO msg='' @ fmt_q ''creating customer'' @ '' email=ada@pulse.dev'' @ nl
         @ ''fetched: Ada <ada@pulse.dev> created='' @ clock_hms now @ nl
         @ ''missing lookup -> code=NOT_FOUND http=404 isNotFound=true'' @ nl"
  using assms by (rule m01_exercise.l01_exercise_run)

section \<open>The packages of the reference\<close>

definition m01_solution :: "('x, m01_Customer, m01_InMemoryRepo) m01_packages" where
  "m01_solution = \<lparr>p1_Customer = (\<lambda>i e n. \<lparr>m01_CreatedAt = zero_time, m01_UpdatedAt = zero_time, m01_ID = i,
       m01_Email = e, m01_Name = n\<rparr>),
     p1_ID = m01_ID, p1_Email = m01_Email, p1_Name = m01_Name, p1_CreatedAt = m01_CreatedAt,
     p1_Validate = m01_Validate, p1_NewInMemoryRepo = m01_NewInMemoryRepo, p1_Create = m01_Create,
     p1_ByID = m01_ByID, p1_WithCode = m01_WithCode, p1_Code = m01_Code, p1_HTTPStatus = m01_HTTPStatus,
     p1_CodeNotFound = m01_CodeNotFound\<rparr>"

definition m01_demo_main :: "int \<Rightarrow> string \<Rightarrow> (unit, m01_InMemoryRepo m01_host) cmd" where
  "m01_demo_main = l01_demo_main (m01_solution :: (unit, _, _) m01_packages)"

interpretation m01_reference: m01_exercise m01_solution m01_inv "\<lambda>_ _. True" m01_ErrNotFound
  "''must contain @''" "''must not be empty''"
proof -
  have r: "repository (p1_Create m01_solution) (p1_ByID m01_solution) (p1_NewInMemoryRepo m01_solution)
      (p1_ID m01_solution) m01_inv (\<lambda>_ _. True) m01_ErrNotFound"
    using m01_repo.repository_axioms by (simp add: m01_solution_def)
  have e: "error_codes (p1_WithCode m01_solution) (p1_Code m01_solution) (p1_HTTPStatus m01_solution)"
    using m01_errorx.error_codes_axioms by (simp add: m01_solution_def)
  have "m01_exercise_axioms m01_solution m01_inv (\<lambda>_ _. True) m01_ErrNotFound ''must contain @'' ''must not be empty''"
    by unfold_locales
      (simp_all add: m01_solution_def m01_Validate_def m01_validateEmail_def m01_validateName_def m01_Create_def
        m01_ErrNotFound_def m01_CodeNotFound_def Let_def)
  with r e show "m01_exercise m01_solution m01_inv (\<lambda>_ _. True) m01_ErrNotFound ''must contain @'' ''must not be empty''"
    by (rule m01_exercise.intro)
qed

lemma m01_demo_output:
  "\<exists>s'. m01_demo_main now stamp s = (Val (), s')
     \<and> h_out s' = h_out s @ ''first invalid field: email (must contain @)'' @ nl
         @ ''all validation errors: validation: email: must contain @'' @ nl
         @ ''validation: name: must not be empty'' @ nl
         @ ''time='' @ stamp @ '' level=INFO msg='' @ fmt_q ''creating customer'' @ '' email=ada@pulse.dev'' @ nl
         @ ''fetched: Ada <ada@pulse.dev> created='' @ clock_hms now @ nl
         @ ''missing lookup -> code=NOT_FOUND http=404 isNotFound=true'' @ nl"
  using m01_reference.l01_exercise_run [of now stamp s] by (simp add: m01_demo_main_def)

theorem l01_demo_output_witness:
  "\<exists>s'. l01_demo_main (m01_solution :: (unit, _, _) m01_packages) 0 ''T'' \<lparr>h_out = [], h_err = [], d1_repo = ([], m01_NewInMemoryRepo)\<rparr>
     = (Val (), s')"
  using l01_demo_output [OF m01_reference.m01_exercise_axioms] by blast

end
