(* ===== verification/M02_Genx.thy ===== *)
theory M02_Genx
  imports Go_Maps
begin

text \<open>
  \<open>m02-generics-and-idioms/solution-genx\<close>: the slice helpers, the map-backed set and the
  pagination window. Loops over a slice are folds that update the result as the code does; the
  integers of \<open>Paginate\<close> wrap at 64 bits and its slice expression can panic.
\<close>

section \<open>Slices and maps\<close>

text \<open>\<open>Map\<close> writes into a slice of zero values made in advance.\<close>

definition genx_Map :: "'u \<Rightarrow> 't list \<Rightarrow> ('t \<Rightarrow> 'u) \<Rightarrow> 'u list" where
  "genx_Map zero s f =
     fold (\<lambda>(i, v) out. out[i := f v]) (enumerate 0 s) (replicate (length s) zero)"

definition genx_Filter :: "'t list \<Rightarrow> ('t \<Rightarrow> bool) \<Rightarrow> 't list" where
  "genx_Filter s keep = foldl (\<lambda>out v. if keep v then out @ [v] else out) [] s"

definition genx_Keys :: "(('k, 'v) gomap \<Rightarrow> ('k, 'v) gomap) \<Rightarrow> ('k, 'v) gomap \<Rightarrow> 'k list" where
  "genx_Keys ord m = foldl (\<lambda>out (k, v). out @ [k]) [] (ord m)"

definition genx_Values :: "(('k, 'v) gomap \<Rightarrow> ('k, 'v) gomap) \<Rightarrow> ('k, 'v) gomap \<Rightarrow> 'v list" where
  "genx_Values ord m = foldl (\<lambda>out (k, v). out @ [v]) [] (ord m)"

lemma genx_Map_loop:
  "length out = n + length s \<Longrightarrow>
     fold (\<lambda>(i, v) out. out[i := f v]) (enumerate n s) out = take n out @ map f s"
proof (induction s arbitrary: n out)
  case Nil
  then show ?case by simp
next
  case (Cons v s)
  from Cons.prems have "take (Suc n) (out[n := f v]) = take n out @ [f v]"
    by (simp add: take_Suc_conv_app_nth)
  with Cons show ?case by simp
qed

lemma genx_Map_eq: "genx_Map zero s f = map f s"
  by (simp add: genx_Map_def genx_Map_loop)

lemma filter_loop: "foldl (\<lambda>out v. if keep v then out @ [v] else out) acc s = acc @ filter keep s"
  by (induction s arbitrary: acc) auto

lemma genx_Filter_eq: "genx_Filter s keep = filter keep s"
  by (simp add: genx_Filter_def filter_loop)

lemma collect_loop: "foldl (\<lambda>out (k, v). out @ [g k v]) acc m = acc @ map (\<lambda>(k, v). g k v) m"
  by (induction m arbitrary: acc) auto

lemma genx_Keys_eq: "genx_Keys ord m = map fst (ord m)"
  using collect_loop [of "\<lambda>k v. k" "[]" "ord m"] by (simp add: genx_Keys_def case_prod_beta')

lemma genx_Values_eq: "genx_Values ord m = map snd (ord m)"
  using collect_loop [of "\<lambda>k v. v" "[]" "ord m"] by (simp add: genx_Values_def case_prod_beta')

section \<open>Set\<close>

record 't genx_Set =
  set_m :: "('t, unit) gomap"

definition Set_Add :: "'t \<Rightarrow> 't genx_Set \<Rightarrow> 't genx_Set" where
  "Set_Add v s = s\<lparr>set_m := map_put v () (set_m s)\<rparr>"

definition NewSet :: "'t list \<Rightarrow> 't genx_Set" where
  "NewSet items = fold Set_Add items \<lparr>set_m = []\<rparr>"

definition Set_Remove :: "'t \<Rightarrow> 't genx_Set \<Rightarrow> 't genx_Set" where
  "Set_Remove v s = s\<lparr>set_m := map_del v (set_m s)\<rparr>"

definition Set_Has :: "'t \<Rightarrow> 't genx_Set \<Rightarrow> bool" where
  "Set_Has v s = (map_of (set_m s) v \<noteq> None)"

definition Set_Len :: "'t genx_Set \<Rightarrow> int" where
  "Set_Len s = int (length (set_m s))"

definition Set_Items :: "(('t, unit) gomap \<Rightarrow> ('t, unit) gomap) \<Rightarrow> 't genx_Set \<Rightarrow> 't list" where
  "Set_Items ord s = foldl (\<lambda>out (v, u). out @ [v]) [] (ord (set_m s))"

text \<open>The set it stands for.\<close>

definition set_abs :: "'t genx_Set \<Rightarrow> 't set" where
  "set_abs s = dom (map_of (set_m s))"

definition set_inv :: "'t genx_Set \<Rightarrow> bool" where
  "set_inv s = map_wf (set_m s)"

text \<open>The abstract contract of a set of elements, as its clients use it.\<close>

locale element_set =
  fixes add :: "'t \<Rightarrow> 's \<Rightarrow> 's" and remove :: "'t \<Rightarrow> 's \<Rightarrow> 's" and has :: "'t \<Rightarrow> 's \<Rightarrow> bool"
    and len :: "'s \<Rightarrow> int" and empty_set :: 's and abs :: "'s \<Rightarrow> 't set" and inv :: "'s \<Rightarrow> bool"
  assumes abs_empty: "inv empty_set" "abs empty_set = {}"
    and abs_add: "inv s \<Longrightarrow> inv (add v s) \<and> abs (add v s) = insert v (abs s)"
    and abs_remove: "inv s \<Longrightarrow> inv (remove v s) \<and> abs (remove v s) = abs s - {v}"
    and has_abs: "has v s \<longleftrightarrow> v \<in> abs s"
    and len_abs: "inv s \<Longrightarrow> len s = int (card (abs s))"
begin

lemma fold_add: "inv s \<Longrightarrow> inv (fold add vs s) \<and> abs (fold add vs s) = set vs \<union> abs s"
proof (induction vs arbitrary: s)
  case (Cons v vs)
  then show ?case using abs_add [of s v] by auto
qed simp

lemma len_fold_add: "len (fold add vs empty_set) = int (card (set vs))"
  using fold_add [OF abs_empty(1), of vs] abs_empty(2) by (simp add: len_abs)

lemma has_after_remove: "inv s \<Longrightarrow> has w (remove v s) \<longleftrightarrow> w \<noteq> v \<and> has w s"
  using abs_remove [of s v] by (auto simp: has_abs)

end

interpretation genx_set: element_set Set_Add Set_Remove Set_Has Set_Len "\<lparr>set_m = []\<rparr>" set_abs set_inv
proof
  show "set_inv s \<Longrightarrow> Set_Len s = int (card (set_abs s))" for s :: "'a genx_Set"
    by (simp add: set_inv_def Set_Len_def set_abs_def length_map_wf)
qed (auto simp: set_inv_def set_abs_def Set_Add_def Set_Remove_def Set_Has_def dom_def)

section \<open>Pagination\<close>

record 't Page =
  Page_Items :: "'t list"
  Page_Page :: int
  Page_Size :: int
  Page_Total :: int
  Page_TotalPages :: int
  Page_HasNext :: bool

definition Paginate :: "'t list \<Rightarrow> int \<Rightarrow> int \<Rightarrow> panic + 't Page" where
  "Paginate items page sz =
     (let page = (if page < 1 then 1 else page);
          sz = (if sz < 1 then 20 else sz);
          total = int (length items);
          start = mul64 (sub64 page 1) sz;
          start = (if start > total then total else start);
          stop = add64 start sz;
          stop = (if stop > total then total else stop);
          totalPages = div64 (sub64 (add64 total sz) 1) sz
      in case slice items start stop of
           Inl p \<Rightarrow> Inl p
         | Inr window \<Rightarrow> Inr \<lparr>Page_Items = window, Page_Page = page, Page_Size = sz,
             Page_Total = total, Page_TotalPages = totalPages, Page_HasNext = page < totalPages\<rparr>)"

text \<open>The number of pages: the ceiling of the quotient.\<close>

definition num_pages :: "nat \<Rightarrow> nat \<Rightarrow> nat" where
  "num_pages n sz = (n + sz - 1) div sz"

text \<open>The window without machine integers: the reference the code is compared with.\<close>

definition window :: "nat \<Rightarrow> nat \<Rightarrow> 't list \<Rightarrow> 't list" where
  "window page sz items = take sz (drop ((page - 1) * sz) items)"

definition page_bounds :: "'t list \<Rightarrow> int \<Rightarrow> int \<Rightarrow> bool" where
  "page_bounds items page sz \<longleftrightarrow>
     1 \<le> page \<and> 1 \<le> sz \<and> page * sz \<le> max_int64 \<and> int (length items) + sz \<le> max_int64"

lemma slice_window:
  assumes "0 \<le> st" "0 \<le> sz" "0 \<le> n" "n = int (length items)"
  shows "slice items (if st > n then n else st) (if min n st + sz > n then n else min n st + sz)
         = Inr (take (nat sz) (drop (nat st) items))"
proof (cases "st > n")
  case True
  with assms have "drop (nat st) items = []" by simp
  with True assms show ?thesis by (simp add: slice_def)
next
  case False
  with assms show ?thesis
    by (auto simp: slice_def nat_add_distrib take_all_iff min_def)
qed

lemma add64_min:
  "0 \<le> st \<Longrightarrow> 1 \<le> sz \<Longrightarrow> 0 \<le> n \<Longrightarrow> n + sz \<le> max_int64
     \<Longrightarrow> add64 (if st > n then n else st) sz = min n st + sz"
  unfolding add64_def
  by (subst wrap64_id) (auto simp: int64_ok_def min_int64_def min_def)

lemma ceil_div: "0 < s \<Longrightarrow> (int t + int s - 1) div int s = int (num_pages t s)"
  by (simp add: num_pages_def zdiv_int of_nat_diff Suc_leI)

lemma less_num_pages: "0 < s \<Longrightarrow> p < num_pages t s \<longleftrightarrow> p * s < t"
proof -
  assume s: "0 < s"
  have "p < (t + s - 1) div s \<longleftrightarrow> Suc p \<le> (t + s - 1) div s" by (rule Suc_le_eq [symmetric])
  also have "... \<longleftrightarrow> Suc p * s \<le> t + s - 1" using s by (simp only: less_eq_div_iff_mult_less_eq)
  also have "... \<longleftrightarrow> p * s < t" using s by (cases t) (simp_all, linarith)
  finally show ?thesis by (simp add: num_pages_def)
qed

lemma Paginate_bounded:
  assumes "page_bounds items page sz"
  shows "Paginate items page sz = Inr
     \<lparr>Page_Items = window (nat page) (nat sz) items, Page_Page = page, Page_Size = sz,
      Page_Total = int (length items), Page_TotalPages = int (num_pages (length items) (nat sz)),
      Page_HasNext = (nat page * nat sz < length items)\<rparr>"
proof -
  let ?n = "int (length items)" and ?st = "(page - 1) * sz"
  from assms have b: "1 \<le> page" "1 \<le> sz" "page * sz \<le> max_int64" "?n + sz \<le> max_int64"
    by (auto simp: page_bounds_def)
  have st: "0 \<le> ?st" "?st \<le> max_int64"
    using b by (simp_all add: algebra_simps)
  have "page * 1 \<le> page * sz" using b by (intro mult_left_mono) auto
  with b have page_le: "page \<le> max_int64" by linarith
  have w1: "sub64 page 1 = page - 1"
    unfolding sub64_def using b page_le by (intro wrap64_id) (auto simp: int64_ok_def min_int64_def)
  have w2: "mul64 (page - 1) sz = ?st"
    unfolding mul64_def using st by (intro wrap64_id) (auto simp: int64_ok_def min_int64_def)
  have w3: "add64 (if ?st > ?n then ?n else ?st) sz = min ?n ?st + sz"
    using st b by (intro add64_min) auto
  have w4: "sub64 (add64 ?n sz) 1 = ?n + sz - 1"
    unfolding sub64_def add64_def using b
    by (subst wrap64_id, auto simp: int64_ok_def min_int64_def)+
  have w5: "div64 (?n + sz - 1) sz = int (num_pages (length items) (nat sz))"
    using b ceil_div [of "nat sz" "length items"]
    by (subst div64_nonneg) (auto simp: int64_ok_def min_int64_def)
  have sl: "slice items (if ?st > ?n then ?n else ?st)
      (if min ?n ?st + sz > ?n then ?n else min ?n ?st + sz)
      = Inr (take (nat sz) (drop (nat ?st) items))"
    using st b by (intro slice_window) auto
  have nst: "nat ?st = (nat page - 1) * nat sz"
    using b by (simp add: nat_mult_distrib nat_diff_distrib)
  have hn: "page < int (num_pages (length items) (nat sz)) \<longleftrightarrow> nat page * nat sz < length items"
    using b less_num_pages [of "nat sz" "nat page" "length items"] by auto
  have clamp: "(if page < 1 then 1 else page) = page" "(if sz < 1 then 20 else sz) = sz"
    using b by auto
  show ?thesis
    unfolding Paginate_def Let_def clamp w1 w2 w3 w4 w5 sl sum.case
    by (simp add: nst hn window_def)
qed

text \<open>Consecutive windows put together.\<close>

lemma concat_windows:
  "0 < sz \<Longrightarrow> concat (map (\<lambda>p. window p sz items) [1..<Suc n]) = take (n * sz) items"
proof (induction n)
  case (Suc n)
  have "concat (map (\<lambda>p. window p sz items) [1..<Suc (Suc n)])
      = take (n * sz) items @ window (Suc n) sz items"
    using Suc by simp
  also have "... = take (n * sz + sz) items" by (simp add: window_def take_add)
  finally show ?case by (simp add: add.commute)
qed simp

lemma num_pages_ge: "0 < sz \<Longrightarrow> t \<le> num_pages t sz * sz"
  using less_num_pages [of sz "num_pages t sz" t] by simp

lemma num_pages_le: "0 < sz \<Longrightarrow> p \<le> num_pages t sz \<Longrightarrow> 0 < p \<Longrightarrow> p * sz < t + sz"
  using less_num_pages [of sz "p - 1" t] by (cases p) auto

section \<open>Properties\<close>

lemma genx_reference_parts:
  assumes "range_order ord"
  shows "genx_Map zero s f = map f s" and "genx_Filter s keep = filter keep s"
    and "Set_Len (NewSet items) = int (card (set items))"
    and "set (Set_Items ord (NewSet items)) = set items"
    and "distinct (Set_Items ord (NewSet items))"
proof -
  let ?m = "set_m (NewSet items)"
  have abs: "map_wf ?m" "dom (map_of ?m) = set items"
    using genx_set.fold_add [OF genx_set.abs_empty(1), of items]
    by (simp_all add: NewSet_def set_inv_def set_abs_def)
  have it: "Set_Items ord (NewSet items) = map fst (ord ?m)"
    using collect_loop [of "\<lambda>v u. v" "[]" "ord ?m"] by (simp add: Set_Items_def case_prod_beta')
  have "mset (map fst (ord ?m)) = mset (map fst ?m)"
    using range_orderD [OF assms, of ?m] by (metis mset_map)
  with abs(1) it show "distinct (Set_Items ord (NewSet items))"
    by (metis map_wf_def mset_eq_imp_distinct_iff)
  show "set (Set_Items ord (NewSet items)) = set items"
    using abs(2) range_order_set [OF assms, of ?m] by (simp add: it dom_map_of_conv_image_fst)
qed (simp_all add: genx_Map_eq genx_Filter_eq NewSet_def genx_set.len_fold_add)

text \<open>
  Remark (equivalence). The slice helpers compute \<open>map\<close> and \<open>filter\<close>, and a set made of a slice has
  each of its elements once: its length is the number of distinct elements and \<open>Items\<close> lists
  them, in whatever order the map is visited.
\<close>

theorem genx_reference:
  assumes "range_order ord"
  shows "genx_Map zero s f = map f s \<and> genx_Filter s keep = filter keep s
    \<and> Set_Len (NewSet items) = int (card (set items))
    \<and> set (Set_Items ord (NewSet items)) = set items
    \<and> distinct (Set_Items ord (NewSet items))"
  by (intro conjI genx_reference_parts [OF assms])

theorem genx_reference_witness:
  "Set_Len (NewSet [''vip'', ''trial'', ''vip'', ''newsletter'']) = 3
   \<and> set (Set_Items rev (NewSet [''vip'', ''trial'', ''vip''])) = {''vip'', ''trial''}"
  using genx_reference [OF range_order_id(2), of "0::int" "[]::int list" "\<lambda>x. x" "\<lambda>x. True"
      "[''vip'', ''trial'', ''vip'', ''newsletter'']"]
    genx_reference [OF range_order_id(2), of "0::int" "[]::int list" "\<lambda>x. x" "\<lambda>x. True"
      "[''vip'', ''trial'', ''vip'']"]
  by (auto simp: card_insert_if)

text \<open>
  C24 (functional). With a size of at least one and no 64-bit overflow, the pages 1 to
  \<open>TotalPages\<close> cut the slice into consecutive windows: none panics, together they are the whole
  slice in order, each is at most \<open>size\<close> long, and \<open>HasNext\<close> holds on every page but the last.
\<close>

theorem Paginate_partition:
  assumes "1 \<le> sz" and "int (length items) + sz \<le> max_int64"
    and "n = num_pages (length items) (nat sz)"
  shows "\<exists>pgs. map (\<lambda>p. Paginate items (int p) sz) [1..<Suc n] = map Inr pgs
     \<and> concat (map Page_Items pgs) = items
     \<and> (\<forall>pg \<in> set pgs. length (Page_Items pg) \<le> nat sz \<and> Page_TotalPages pg = int n)
     \<and> map Page_HasNext pgs = map (\<lambda>p. p < n) [1..<Suc n]"
proof -
  let ?t = "length items" and ?s = "nat sz"
  have s: "0 < ?s" "int ?s = sz" using assms(1) by auto
  define page where "page p = \<lparr>Page_Items = window p ?s items, Page_Page = int p, Page_Size = sz,
      Page_Total = int ?t, Page_TotalPages = int n, Page_HasNext = (p * ?s < ?t)\<rparr>" for p
  have ok: "Paginate items (int p) sz = Inr (page p)" if "p \<in> set [1..<Suc n]" for p
  proof -
    from that have p: "1 \<le> p" "p \<le> n" by auto
    then have "int (p * ?s) < int (?t + ?s)"
      using num_pages_le [OF s(1), of p ?t] assms(3) by (simp only: of_nat_less_iff)
    then have "int p * sz \<le> max_int64" using assms(2) s by simp
    then have "page_bounds items (int p) sz" using p assms by (simp add: page_bounds_def)
    from Paginate_bounded [OF this] show ?thesis by (simp add: page_def assms(3))
  qed
  have "concat (map Page_Items (map page [1..<Suc n])) = take (n * ?s) items"
    using concat_windows [OF s(1), of items n] by (simp add: page_def comp_def del: upt_Suc)
  also have "... = items" using num_pages_ge [OF s(1), of ?t] assms(3) by simp
  finally have cat: "concat (map Page_Items (map page [1..<Suc n])) = items" .
  show ?thesis
  proof (intro exI [of _ "map page [1..<Suc n]"] conjI)
    show "map (\<lambda>p. Paginate items (int p) sz) [1..<Suc n] = map Inr (map page [1..<Suc n])"
      using ok by simp
    show "map Page_HasNext (map page [1..<Suc n]) = map (\<lambda>p. p < n) [1..<Suc n]"
      using less_num_pages [OF s(1), of _ ?t] by (simp add: page_def assms(3) del: upt_Suc)
  qed (use cat in \<open>auto simp: page_def window_def\<close>)
qed

theorem Paginate_partition_witness:
  "\<exists>pgs. map (\<lambda>p. Paginate [10, 20, 30, 40, 50 :: int] (int p) 2) [1..<4] = map Inr pgs
     \<and> concat (map Page_Items pgs) = [10, 20, 30, 40, 50]"
proof -
  have "num_pages 5 2 = 3" by (simp add: num_pages_def)
  then show ?thesis
    using Paginate_partition [of 2 "[10, 20, 30, 40, 50 :: int]" 3]
    by (force simp: max_int64_def numeral_eq_Suc)
qed

text \<open>
  C40 (safety). The clamping is not enough to keep the slice expression in range: for every
  slice there are 64-bit values of \<open>page\<close> and \<open>size\<close>, both positive, for which the product
  overflows to a negative start and \<open>Paginate\<close> panics.
\<close>

theorem Paginate_overflow_panics:
  "\<exists>page sz. int64_ok page \<and> int64_ok sz \<and> 1 \<le> page \<and> 1 \<le> sz
     \<and> Paginate items page sz = Inl slice_panic"
proof (intro exI conjI)
  have "sub64 4611686018427387905 1 = 4611686018427387904"
    and "mul64 4611686018427387904 2 = min_int64"
    by (simp_all add: go_arith wrap64_def min_int64_def)
  then show "Paginate items 4611686018427387905 2 = Inl slice_panic"
    by (simp add: Paginate_def Let_def slice_def min_int64_def)
qed (simp_all add: int64_ok_iff)

end
