(* ===== verification/M02_Store.thy ===== *)
theory M02_Store
  imports M02_Genx Go_Time
begin

text \<open>
  \<open>m02-generics-and-idioms\<close>: the generic key-value store and the functional options of the server
  configuration. Every store operation holds the lock from beginning to end, so concurrent calls
  are a sequence of operations (\<open>store_op\<close>); \<open>M02_Conc\<close> proves it of the interleaved accesses.
\<close>

section \<open>solution-store\<close>

record ('k, 'v) Store =
  store_m :: "('k, 'v) gomap"

definition NewStore :: "('k, 'v) Store" where
  "NewStore = \<lparr>store_m = []\<rparr>"

definition Store_Put :: "'k \<Rightarrow> 'v \<Rightarrow> ('k, 'v) Store \<Rightarrow> ('k, 'v) Store" where
  "Store_Put key val s = s\<lparr>store_m := map_put key val (store_m s)\<rparr>"

definition Store_Get :: "'k \<Rightarrow> ('k, 'v) Store \<Rightarrow> 'v option" where
  "Store_Get key s = map_of (store_m s) key"

definition Store_Delete :: "'k \<Rightarrow> ('k, 'v) Store \<Rightarrow> ('k, 'v) Store" where
  "Store_Delete key s = s\<lparr>store_m := map_del key (store_m s)\<rparr>"

definition Store_Len :: "('k, 'v) Store \<Rightarrow> int" where
  "Store_Len s = int (length (store_m s))"

definition Store_All :: "(('k, 'v) gomap \<Rightarrow> ('k, 'v) gomap) \<Rightarrow> ('k, 'v) Store \<Rightarrow> 'v list" where
  "Store_All ord s = foldl (\<lambda>out (k, v). out @ [v]) [] (ord (store_m s))"

definition store_inv :: "('k, 'v) Store \<Rightarrow> bool" where
  "store_inv s = map_wf (store_m s)"

datatype ('k, 'v) store_op = OpPut 'k 'v | OpDelete 'k

text \<open>
  A sequence of operations on any store, and the value of the last write to a key (\<open>r\<close> when
  there is none).
\<close>

fun apply_op ::
  "('k \<Rightarrow> 'v \<Rightarrow> 's \<Rightarrow> 's) \<Rightarrow> ('k \<Rightarrow> 's \<Rightarrow> 's) \<Rightarrow> ('k, 'v) store_op \<Rightarrow> 's \<Rightarrow> 's" where
  "apply_op put del (OpPut k v) s = put k v s"
| "apply_op put del (OpDelete k) s = del k s"

definition run_ops ::
  "('k \<Rightarrow> 'v \<Rightarrow> 's \<Rightarrow> 's) \<Rightarrow> ('k \<Rightarrow> 's \<Rightarrow> 's) \<Rightarrow> ('k, 'v) store_op list \<Rightarrow> 's \<Rightarrow> 's" where
  "run_ops put del ops s = fold (apply_op put del) ops s"

fun write_op :: "'k \<Rightarrow> ('k, 'v) store_op \<Rightarrow> 'v option \<Rightarrow> 'v option" where
  "write_op k (OpPut k' v) r = (if k = k' then Some v else r)"
| "write_op k (OpDelete k') r = (if k = k' then None else r)"

definition last_write :: "('k, 'v) store_op list \<Rightarrow> 'k \<Rightarrow> 'v option \<Rightarrow> 'v option" where
  "last_write ops k r = fold (write_op k) ops r"

text \<open>The contract of a key-value store, by the map it stands for.\<close>

locale kv_store =
  fixes put :: "'k \<Rightarrow> 'v \<Rightarrow> 's \<Rightarrow> 's" and get :: "'k \<Rightarrow> 's \<Rightarrow> 'v option" and del :: "'k \<Rightarrow> 's \<Rightarrow> 's"
    and len :: "'s \<Rightarrow> int" and new_store :: 's and inv :: "'s \<Rightarrow> bool"
  assumes inv_new: "inv new_store" "get k new_store = None"
    and inv_put: "inv s \<Longrightarrow> inv (put k v s)"
    and inv_del: "inv s \<Longrightarrow> inv (del k s)"
    and get_put: "get k' (put k v s) = (if k' = k then Some v else get k' s)"
    and get_del: "get k' (del k s) = (if k' = k then None else get k' s)"
    and len_dom: "inv s \<Longrightarrow> finite {k. get k s \<noteq> None} \<and> len s = int (card {k. get k s \<noteq> None})"
begin

lemma get_apply: "get k (apply_op put del op s) = write_op k op (get k s)"
  by (cases op) (auto simp: get_put get_del)

lemma get_run: "get k (run_ops put del ops s) = last_write ops k (get k s)"
  by (induction ops arbitrary: s) (auto simp: run_ops_def last_write_def get_apply)

lemma inv_apply: "inv s \<Longrightarrow> inv (apply_op put del op s)"
  by (cases op) (auto simp: inv_put inv_del)

lemma inv_run: "inv s \<Longrightarrow> inv (run_ops put del ops s)"
  by (induction ops arbitrary: s) (auto simp: run_ops_def inv_apply)

lemma last_write_other:
  "(\<forall>op \<in> set ops. case op of OpPut k' v \<Rightarrow> k' \<noteq> k | OpDelete k' \<Rightarrow> k' \<noteq> k)
     \<Longrightarrow> get k (run_ops put del ops s) = get k s"
  unfolding get_run last_write_def
  by (induction ops) (auto split: store_op.splits)

end

interpretation store: kv_store Store_Put Store_Get Store_Delete Store_Len NewStore store_inv
proof
  show "store_inv s \<Longrightarrow> finite {k. Store_Get k s \<noteq> None}
      \<and> Store_Len s = int (card {k. Store_Get k s \<noteq> None})" for s :: "('a, 'b) Store"
    using finite_dom_map_of [of "store_m s"]
    by (simp add: store_inv_def Store_Len_def Store_Get_def length_map_wf dom_def)
qed (auto simp: store_inv_def NewStore_def Store_Get_def Store_Put_def Store_Delete_def)

lemma Store_All_eq: "Store_All ord s = map snd (ord (store_m s))"
  using collect_loop [of "\<lambda>k v. v" "[]" "ord (store_m s)"] by (simp add: Store_All_def case_prod_beta')

lemma Store_All_mset:
  "range_order ord \<Longrightarrow> mset (Store_All ord s) = mset (map snd (store_m s))"
  by (simp add: Store_All_eq range_orderD flip: mset_map)
     (simp add: range_orderD)

section \<open>solution-config: functional options\<close>

text \<open>Durations are nanoseconds; a logger is a value of the type \<open>'l\<close>.\<close>

record 'l ServerConfig =
  cfg_Addr :: string
  cfg_ReadTimeout :: int
  cfg_WriteTimeout :: int
  cfg_ShutdownTimeout :: int
  cfg_Logger :: 'l

type_synonym 'l Option = "'l ServerConfig \<Rightarrow> 'l ServerConfig"

definition WithReadTimeout :: "int \<Rightarrow> 'l Option" where
  "WithReadTimeout d = (\<lambda>c. c\<lparr>cfg_ReadTimeout := d\<rparr>)"

definition WithWriteTimeout :: "int \<Rightarrow> 'l Option" where
  "WithWriteTimeout d = (\<lambda>c. c\<lparr>cfg_WriteTimeout := d\<rparr>)"

definition WithShutdownTimeout :: "int \<Rightarrow> 'l Option" where
  "WithShutdownTimeout d = (\<lambda>c. c\<lparr>cfg_ShutdownTimeout := d\<rparr>)"

definition WithLogger :: "'l \<Rightarrow> 'l Option" where
  "WithLogger l = (\<lambda>c. c\<lparr>cfg_Logger := l\<rparr>)"

text \<open>\<open>slog.Default()\<close> is the argument \<open>dflt\<close>.\<close>

definition config_New :: "'l \<Rightarrow> string \<Rightarrow> 'l Option list \<Rightarrow> 'l ServerConfig" where
  "config_New dflt addr opts =
     fold (\<lambda>opt c. opt c) opts
       \<lparr>cfg_Addr = addr, cfg_ReadTimeout = 15 * second, cfg_WriteTimeout = 15 * second,
        cfg_ShutdownTimeout = 30 * second, cfg_Logger = dflt\<rparr>"

lemmas config_opts = WithReadTimeout_def WithWriteTimeout_def WithShutdownTimeout_def WithLogger_def

text \<open>The options the package offers, as data.\<close>

datatype 'l cfg_opt = RT int | WT int | ST int | LG 'l

fun opt_fun :: "'l cfg_opt \<Rightarrow> 'l Option" where
  "opt_fun (RT d) = WithReadTimeout d"
| "opt_fun (WT d) = WithWriteTimeout d"
| "opt_fun (ST d) = WithShutdownTimeout d"
| "opt_fun (LG l) = WithLogger l"

text \<open>The value of the last option of a kind, or the default.\<close>

definition last_opt :: "('l cfg_opt \<Rightarrow> 'b option) \<Rightarrow> 'b \<Rightarrow> 'l cfg_opt list \<Rightarrow> 'b" where
  "last_opt sel d os = fold (\<lambda>o' b. case sel o' of None \<Rightarrow> b | Some x \<Rightarrow> x) os d"

definition rt_of :: "'l cfg_opt \<Rightarrow> int option" where
  "rt_of o' = (case o' of RT d \<Rightarrow> Some d | _ \<Rightarrow> None)"
definition wt_of :: "'l cfg_opt \<Rightarrow> int option" where
  "wt_of o' = (case o' of WT d \<Rightarrow> Some d | _ \<Rightarrow> None)"
definition st_of :: "'l cfg_opt \<Rightarrow> int option" where
  "st_of o' = (case o' of ST d \<Rightarrow> Some d | _ \<Rightarrow> None)"
definition lg_of :: "'l cfg_opt \<Rightarrow> 'l option" where
  "lg_of o' = (case o' of LG d \<Rightarrow> Some d | _ \<Rightarrow> None)"

lemma fold_opts:
  "fold (\<lambda>opt c. opt c) (map opt_fun os) c =
     \<lparr>cfg_Addr = cfg_Addr c, cfg_ReadTimeout = last_opt rt_of (cfg_ReadTimeout c) os,
      cfg_WriteTimeout = last_opt wt_of (cfg_WriteTimeout c) os,
      cfg_ShutdownTimeout = last_opt st_of (cfg_ShutdownTimeout c) os,
      cfg_Logger = last_opt lg_of (cfg_Logger c) os\<rparr>"
proof (induction os arbitrary: c)
  case Nil
  then show ?case by (simp add: last_opt_def)
next
  case (Cons o' os)
  then show ?case
    by (cases o')
       (simp_all add: last_opt_def config_opts rt_of_def wt_of_def st_of_def lg_of_def)
qed

section \<open>Properties\<close>

lemma store_values:
  assumes "store_inv s" and "range_order ord"
  shows "mset (Store_All ord s) = {# the (Store_Get k s). k \<in># mset_set {k. Store_Get k s \<noteq> None} #}"
proof -
  have d: "distinct (map fst (store_m s))" using assms(1) by (simp add: store_inv_def map_wf_def)
  have dm: "mset_set (dom (map_of (store_m s))) = mset (map fst (store_m s))"
    using mset_set_set [OF d] by (simp add: dom_map_of_conv_image_fst)
  have "mset (Store_All ord s) = mset (map snd (store_m s))" by (rule Store_All_mset [OF assms(2)])
  also have "... = mset (map (\<lambda>k. the (map_of (store_m s) k)) (map fst (store_m s)))"
    using d by (auto simp: comp_def intro!: image_mset_cong)
  also have "... = {# the (map_of (store_m s) k). k \<in># mset_set (dom (map_of (store_m s))) #}"
    by (simp only: dm mset_map)
  finally show ?thesis by (simp add: Store_Get_def dom_def)
qed

lemma store_refines_map_parts:
  assumes "range_order ord" and "s = run_ops Store_Put Store_Delete ops NewStore"
  shows "Store_Get k s = last_write ops k None"
    and "Store_Len s = int (card {k. last_write ops k None \<noteq> None})"
    and "mset (Store_All ord s) = {# the (Store_Get k s). k \<in># mset_set {k. Store_Get k s \<noteq> None} #}"
proof -
  have g: "Store_Get k s = last_write ops k None" for k
    using store.get_run [of k ops NewStore] assms(2)
    by (simp add: store.inv_new)
  have ok: "store_inv s"
    using store.inv_run [OF store.inv_new(1)] assms(2) by (simp add: store.inv_new)
  show "Store_Get k s = last_write ops k None" by (rule g)
  show "Store_Len s = int (card {k. last_write ops k None \<noteq> None})"
    using store.len_dom [OF ok] by (simp add: g)
  show "mset (Store_All ord s) = {# the (Store_Get k s). k \<in># mset_set {k. Store_Get k s \<noteq> None} #}"
    by (rule store_values [OF ok assms(1)])
qed

text \<open>
  C25 (refinement). In whatever order concurrent \<open>Put\<close> and \<open>Delete\<close> calls take the lock, \<open>Get\<close>
  returns the last value written to its key (nothing after a \<open>Delete\<close> or when there was no
  write), \<open>Len\<close> counts the keys that have a value, and \<open>All\<close> lists each of those values once.
\<close>

theorem store_refines_map:
  assumes "range_order ord" and "s = run_ops Store_Put Store_Delete ops NewStore"
  shows "Store_Get k s = last_write ops k None
    \<and> Store_Len s = int (card {k. last_write ops k None \<noteq> None})
    \<and> mset (Store_All ord s) = {# the (Store_Get k s). k \<in># mset_set {k. Store_Get k s \<noteq> None} #}"
  using store_refines_map_parts [OF assms] by blast

theorem store_refines_map_witness:
  "Store_Get ''a'' (run_ops Store_Put Store_Delete
       [OpPut ''a'' 1, OpPut ''b'' 2, OpPut ''a'' 3, OpDelete ''b''] NewStore) = Some (3::int)"
  using store_refines_map [OF range_order_id(2) refl, of "''a''"
      "[OpPut ''a'' 1, OpPut ''b'' 2, OpPut ''a'' (3::int), OpDelete ''b'']"]
  by (simp add: last_write_def)

text \<open>
  Remark (functional). \<open>New\<close> with any list of the package's options keeps the address and gives
  each other field the value of the last option for it, or its default.
\<close>

theorem config_New_fields:
  "config_New dflt addr (map opt_fun os) =
     \<lparr>cfg_Addr = addr, cfg_ReadTimeout = last_opt rt_of 15000000000 os,
      cfg_WriteTimeout = last_opt wt_of 15000000000 os,
      cfg_ShutdownTimeout = last_opt st_of 30000000000 os,
      cfg_Logger = last_opt lg_of dflt os\<rparr>"
  by (simp add: config_New_def fold_opts second_def)

end
