(* ===== verification/Step_System.thy ===== *)
theory Step_System
  imports Main "HOL-Library.Multiset"
begin

text \<open>
  Transition systems: a step relation, its start state, an invariant every step keeps. The
  locale \<open>terminating_system\<close> adds a measure that every step decreases. The concurrent
  components (the dispatcher, the worker pool, the merge) are instances of both.
\<close>

section \<open>Goroutines as a list of local states\<close>

text \<open>Replacing one goroutine's state changes any sum over all of them by its share.\<close>

lemma sum_list_upd:
  "i < length ws \<Longrightarrow>
     sum_list (map f (ws[i := w])) + f (ws ! i) = sum_list (map f ws) + (f w :: 'a :: comm_monoid_add)"
proof (induction ws arbitrary: i)
  case Nil
  then show ?case by simp
next
  case (Cons x ws)
  then show ?case
    by (cases i) (auto simp: ac_simps)
qed

lemma sum_list_move:
  fixes d :: "'a :: cancel_comm_monoid_add"
  assumes "i < length ws" and "f w = f (ws ! i) + d"
  shows "sum_list (map f (ws[i := w])) = sum_list (map f ws) + d"
proof -
  have "sum_list (map f (ws[i := w])) + f (ws ! i) = sum_list (map f ws) + (f (ws ! i) + d)"
    using sum_list_upd [OF assms(1), of f w] assms(2) by metis
  also have "... = sum_list (map f ws) + d + f (ws ! i)" by (simp only: ac_simps)
  finally show ?thesis by simp
qed

text \<open>The same with subtraction, for sums of integers.\<close>

lemma sum_list_upd_int:
  "i < length ws \<Longrightarrow> sum_list (map f (ws[i := w])) = sum_list (map f ws) + f w - (f (ws ! i) :: int)"
  using sum_list_upd [of i ws f w] by simp

lemma int_sum_list: "int (sum_list (map f ws)) = sum_list (map (\<lambda>w. int (f w)) ws)"
  by (induction ws) auto

lemma int_count_sum_list:
  "int (count (sum_list (map f ws)) x) = sum_list (map (\<lambda>w. int (count (f w) x)) ws)"
  by (induction ws) auto

lemma sum_list_zeros [simp]: "sum_list (replicate n (0 :: 'a :: comm_monoid_add)) = 0"
  by (induction n) auto

lemma sum_list_all_zero: "\<forall>w \<in> set ws. f w = 0 \<Longrightarrow> sum_list (map f ws) = (0 :: 'a :: comm_monoid_add)"
  by (induction ws) auto

lemma rtranclp_step: "r s t \<Longrightarrow> r\<^sup>*\<^sup>* t u \<Longrightarrow> r\<^sup>*\<^sup>* s u"
  by (rule converse_rtranclp_into_rtranclp)

lemma sum_list_zero_iff: "sum_list (map f ws) = (0::nat) \<longleftrightarrow> (\<forall>w \<in> set ws. f w = 0)"
  by (induction ws) auto

lemma set_upd: "w \<in> set (ws[i := v]) \<Longrightarrow> w = v \<or> w \<in> set ws"
  using set_update_subset_insert [of ws i v] by auto

lemma all_set_upd: "(\<forall>w \<in> set ws. P w) \<Longrightarrow> P v \<Longrightarrow> (\<forall>w \<in> set (ws[i := v]). P w)"
  by (auto dest: set_upd)

lemma nth_in_set: "i < length ws \<Longrightarrow> ws ! i = w \<Longrightarrow> w \<in> set ws"
  by (auto simp: in_set_conv_nth)

section \<open>Invariants of reachable states\<close>

locale step_system =
  fixes step :: "'s \<Rightarrow> 's \<Rightarrow> bool" and init :: 's and inv :: "'s \<Rightarrow> bool"
  assumes inv_init: "inv init"
    and inv_step: "inv s \<Longrightarrow> step s t \<Longrightarrow> inv t"
begin

lemma inv_steps: "step\<^sup>*\<^sup>* s t \<Longrightarrow> inv s \<Longrightarrow> inv t"
  by (induction rule: rtranclp_induct) (auto intro: inv_step)

lemma reach_inv: "step\<^sup>*\<^sup>* init s \<Longrightarrow> inv s"
  by (rule inv_steps) (auto intro: inv_init)

end

locale terminating_system = step_system +
  fixes meas :: "'s \<Rightarrow> nat"
  assumes meas_step: "inv s \<Longrightarrow> step s t \<Longrightarrow> meas t < meas s"
begin

lemma no_infinite_run:
  assumes "f (0::nat) = init" and "\<forall>k. step (f k) (f (Suc k))"
  shows False
proof -
  have inv: "inv (f k)" for k
    by (induction k) (use assms inv_init inv_step in auto)
  have "meas (f k) + k \<le> meas (f 0)" for k
  proof (induction k)
    case (Suc k)
    from meas_step [OF inv, of k "f (Suc k)"] assms(2) have "meas (f (Suc k)) < meas (f k)" by blast
    with Suc show ?case by simp
  qed simp
  from this [of "Suc (meas (f 0))"] show False by simp
qed

text \<open>Following only the steps that \<open>R\<close> allows, as far as they go.\<close>

lemma reaches_end: "inv s \<Longrightarrow> \<exists>t. (\<lambda>x y. step x y \<and> R x y)\<^sup>*\<^sup>* s t \<and> (\<forall>u. step t u \<longrightarrow> \<not> R t u)"
proof (induction "meas s" arbitrary: s rule: less_induct)
  case less
  show ?case
  proof (cases "\<exists>u. step s u \<and> R s u")
    case True
    then obtain u where u: "step s u" "R s u" by blast
    from less.hyps [OF meas_step [OF less.prems u(1)] inv_step [OF less.prems u(1)]]
    obtain t where "(\<lambda>x y. step x y \<and> R x y)\<^sup>*\<^sup>* u t" "\<forall>v. step t v \<longrightarrow> \<not> R t v" by blast
    moreover from u have "(\<lambda>x y. step x y \<and> R x y) s u" by simp
    ultimately show ?thesis using rtranclp_step [of "\<lambda>x y. step x y \<and> R x y" s u] by blast
  qed blast
qed

lemma reaches_end_keeping: "inv s \<Longrightarrow> \<exists>t. step\<^sup>*\<^sup>* s t \<and> f t = f s \<and> (\<forall>u. step t u \<longrightarrow> f u \<noteq> f t)"
proof -
  assume "inv s"
  from reaches_end [OF this, of "\<lambda>x y. f y = f x"]
  obtain t where t: "(\<lambda>x y. step x y \<and> f y = f x)\<^sup>*\<^sup>* s t" "\<forall>u. step t u \<longrightarrow> f u \<noteq> f t" by blast
  from t(1) have "step\<^sup>*\<^sup>* s t \<and> f t = f s"
    by (induction rule: rtranclp_induct) (auto intro: rtranclp.rtrancl_into_rtrancl)
  with t(2) show ?thesis by blast
qed

lemma reaches_stuck: "inv s \<Longrightarrow> \<exists>t. step\<^sup>*\<^sup>* s t \<and> (\<forall>u. \<not> step t u)"
  using reaches_end [of s "\<lambda>_ _. True"] by simp

end

end
