(* ===== verification/Go_Mutex.thy ===== *)
theory Go_Mutex
  imports Step_System Go_Maps
begin

text \<open>
  Objects guarded by a \<open>sync.RWMutex\<close> (or a \<open>sync.Mutex\<close>, whose users all take the write lock). The body
  of a method is a program of single accesses to the object's fields, which other goroutines'
  accesses may fall between. The locale \<open>guarded_object\<close> says what it takes for the methods to be
  atomic: what the body computes alone, and that bodies under \<open>RLock\<close> do not write. Its lemmas
  show that the goroutines then reach exactly the states of atomic operations, and never block
  each other for good.
\<close>

section \<open>Bodies\<close>

datatype ('s, 'r) body =
    Return 'r
  | Access "'s \<Rightarrow> 's \<times> ('s, 'r) body"

primrec run_body :: "('s, 'r) body \<Rightarrow> 's \<Rightarrow> 'r \<times> 's" where
  "run_body (Return r) = (\<lambda>s. (r, s))"
| "run_body (Access f) = (\<lambda>s. case map_prod id run_body (f s) of (s', k) \<Rightarrow> k s')"

lemma body_induct [case_names Return Access]:
  assumes "\<And>r. P (Return r)" and "\<And>f. (\<And>s. P (snd (f s))) \<Longrightarrow> P (Access f)"
  shows "P b"
proof (induction b)
  case (Access f)
  have "P (snd (f s))" for s
    by (rule Access [of "f s"]) (auto intro: snds.intros)
  then show ?case by (rule assms(2))
qed (rule assms(1))

lemma run_Access [simp]: "f s = (s', b) \<Longrightarrow> run_body (Access f) s = run_body b s'"
  by simp

inductive read_only :: "('s, 'r) body \<Rightarrow> bool" where
  Return: "read_only (Return r)"
| Access: "(\<And>s. fst (f s) = s \<and> read_only (snd (f s))) \<Longrightarrow> read_only (Access f)"

inductive_simps read_only_simps [simp]: "read_only (Return r)" "read_only (Access f)"

lemma read_only_run: "read_only b \<Longrightarrow> snd (run_body b s) = s"
  by (induction arbitrary: s rule: read_only.induct) (auto simp: case_prod_beta)

text \<open>Reads, writes, and a body after another.\<close>

definition reads :: "('s \<Rightarrow> ('s, 'r) body) \<Rightarrow> ('s, 'r) body" where
  "reads k = Access (\<lambda>s. (s, k s))"

definition writes :: "('s \<Rightarrow> 's) \<Rightarrow> ('s, 'r) body \<Rightarrow> ('s, 'r) body" where
  "writes f b = Access (\<lambda>s. (f s, b))"

lemma run_reads [simp]: "run_body (reads k) s = run_body (k s) s"
  by (simp add: reads_def)

lemma run_writes [simp]: "run_body (writes f b) s = run_body b (f s)"
  by (simp add: writes_def)

lemma read_only_reads [simp]: "read_only (reads k) \<longleftrightarrow> (\<forall>s. read_only (k s))"
  by (simp add: reads_def)

text \<open>A loop over a map: the order of the keys is fixed at its start, each entry is looked up when its turn
  comes; an iteration may return from the method.\<close>

primrec range_loop ::
  "('s \<Rightarrow> ('k, 'v) gomap) \<Rightarrow> ('v \<Rightarrow> 'a \<Rightarrow> 'r + 'a) \<Rightarrow> 'k list \<Rightarrow> 'a \<Rightarrow> ('a \<Rightarrow> ('s, 'r) body) \<Rightarrow> ('s, 'r) body"
where
  "range_loop m step [] a k = k a"
| "range_loop m step (key # keys) a k = reads (\<lambda>s.
     case map_of (m s) key of
       None \<Rightarrow> range_loop m step keys a k
     | Some v \<Rightarrow> (case step v a of Inl r \<Rightarrow> Return r | Inr a' \<Rightarrow> range_loop m step keys a' k))"

definition range_over ::
  "('s \<Rightarrow> ('k, 'v) gomap) \<Rightarrow> (('k, 'v) gomap \<Rightarrow> ('k, 'v) gomap) \<Rightarrow> ('v \<Rightarrow> 'a \<Rightarrow> 'r + 'a) \<Rightarrow> 'a
     \<Rightarrow> ('a \<Rightarrow> ('s, 'r) body) \<Rightarrow> ('s, 'r) body" where
  "range_over m ord step a k = reads (\<lambda>s. range_loop m step (map fst (ord (m s))) a k)"

primrec range_fold :: "('v \<Rightarrow> 'a \<Rightarrow> 'r + 'a) \<Rightarrow> 'v list \<Rightarrow> 'a \<Rightarrow> 'r + 'a" where
  "range_fold step [] a = Inr a"
| "range_fold step (v # vs) a = (case step v a of Inl r \<Rightarrow> Inl r | Inr a' \<Rightarrow> range_fold step vs a')"

lemma run_range_loop:
  "\<forall>(k, v) \<in> set es. map_of (m s) k = Some v \<Longrightarrow> run_body (range_loop m step (map fst es) a k) s
     = (case range_fold step (map snd es) a of Inl r \<Rightarrow> (r, s) | Inr a' \<Rightarrow> run_body (k a') s)"
  by (induction es arbitrary: a) (auto split: sum.split)

lemma run_range_over:
  assumes "map_wf (m s)" and "range_order ord"
  shows "run_body (range_over m ord step a k) s
     = (case range_fold step (map snd (ord (m s))) a of Inl r \<Rightarrow> (r, s) | Inr a' \<Rightarrow> run_body (k a') s)"
proof -
  have "\<forall>(k, v) \<in> set (ord (m s)). map_of (m s) k = Some v"
    using assms by (auto simp: range_order_set map_wf_def)
  then show ?thesis by (simp add: range_over_def run_range_loop)
qed

lemma read_only_range_over: "(\<And>a. read_only (k a)) \<Longrightarrow> read_only (range_over m ord step a k)"
proof -
  assume k: "\<And>a. read_only (k a)"
  have "read_only (range_loop m step keys a k)" for keys a
    by (induction keys arbitrary: a) (auto simp: k split: option.split sum.split)
  then show ?thesis by (simp add: range_over_def)
qed

text \<open>The two loops of the repositories: collecting the values, and looking for one.\<close>

lemma range_collect: "range_fold (\<lambda>v out. Inr (out @ [v])) vs out = Inr (out @ vs)"
  by (induction vs arbitrary: out) auto

lemma range_find:
  "range_fold (\<lambda>v u. if P v then Inl r else Inr u) vs u = (if \<exists>v \<in> set vs. P v then Inl r else Inr u)"
  by (induction vs) auto

section \<open>Goroutines and the lock\<close>

datatype lock_mode = RLock | Lock

text \<open>A goroutine is outside the object's methods, or inside one with the rest of its body to run;
  with it go the results of its calls.\<close>

datatype ('s, 'r) place =
    Outside
  | Inside lock_mode "('s, 'r) body"

record ('s, 'r) guarded =
  gd_gos :: "('r list \<times> ('s, 'r) place) list"
  gd_writer :: bool
  gd_readers :: nat
  gd_obj :: 's

definition gd_set :: "nat \<Rightarrow> 'r list \<times> ('s, 'r) place \<Rightarrow> ('s, 'r) guarded \<Rightarrow> ('s, 'r) guarded" where
  "gd_set i g q = q\<lparr>gd_gos := (gd_gos q)[i := g]\<rparr>"

text \<open>
  \<open>ops\<close> has the lock and the body of each call, \<open>prog i rs\<close> the next call of goroutine \<open>i\<close> after the
  results \<open>rs\<close>, if it makes one.
\<close>

inductive mutex_step ::
  "('o \<Rightarrow> lock_mode \<times> ('s, 'r) body) \<Rightarrow> (nat \<Rightarrow> 'r list \<Rightarrow> 'o option)
     \<Rightarrow> ('s, 'r) guarded \<Rightarrow> ('s, 'r) guarded \<Rightarrow> bool"
  for ops prog where
  lock: "i < length (gd_gos q) \<Longrightarrow> gd_gos q ! i = (rs, Outside) \<Longrightarrow> prog i rs = Some c \<Longrightarrow> ops c = (Lock, b)
    \<Longrightarrow> \<not> gd_writer q \<Longrightarrow> gd_readers q = 0
    \<Longrightarrow> mutex_step ops prog q (gd_set i (rs, Inside Lock b) (q\<lparr>gd_writer := True\<rparr>))"
| rlock: "i < length (gd_gos q) \<Longrightarrow> gd_gos q ! i = (rs, Outside) \<Longrightarrow> prog i rs = Some c \<Longrightarrow> ops c = (RLock, b)
    \<Longrightarrow> \<not> gd_writer q
    \<Longrightarrow> mutex_step ops prog q (gd_set i (rs, Inside RLock b) (q\<lparr>gd_readers := gd_readers q + 1\<rparr>))"
| access: "i < length (gd_gos q) \<Longrightarrow> gd_gos q ! i = (rs, Inside m (Access f)) \<Longrightarrow> f (gd_obj q) = (s, b)
    \<Longrightarrow> mutex_step ops prog q (gd_set i (rs, Inside m b) (q\<lparr>gd_obj := s\<rparr>))"
| unlock: "i < length (gd_gos q) \<Longrightarrow> gd_gos q ! i = (rs, Inside Lock (Return r))
    \<Longrightarrow> mutex_step ops prog q (gd_set i (rs @ [r], Outside) (q\<lparr>gd_writer := False\<rparr>))"
| runlock: "i < length (gd_gos q) \<Longrightarrow> gd_gos q ! i = (rs, Inside RLock (Return r))
    \<Longrightarrow> mutex_step ops prog q (gd_set i (rs @ [r], Outside) (q\<lparr>gd_readers := gd_readers q - 1\<rparr>))"

text \<open>All goroutines outside, with the results they have; and the system of atomic calls.\<close>

definition quiet :: "'r list list \<Rightarrow> 's \<Rightarrow> ('s, 'r) guarded" where
  "quiet rss s = \<lparr>gd_gos = map (\<lambda>rs. (rs, Outside)) rss, gd_writer = False, gd_readers = 0, gd_obj = s\<rparr>"

inductive atomic_step ::
  "('o \<Rightarrow> 's \<Rightarrow> 'r \<times> 's) \<Rightarrow> (nat \<Rightarrow> 'r list \<Rightarrow> 'o option)
     \<Rightarrow> 'r list list \<times> 's \<Rightarrow> 'r list list \<times> 's \<Rightarrow> bool"
  for atomic prog where
  call: "i < length rss \<Longrightarrow> prog i (rss ! i) = Some c \<Longrightarrow> atomic c s = (r, s')
    \<Longrightarrow> atomic_step atomic prog (rss, s) (rss[i := rss ! i @ [r]], s')"

lemma atomic_callI:
  "i < length rss \<Longrightarrow> prog i (rss ! i) = Some c \<Longrightarrow> atomic c s = (r, s') \<Longrightarrow> rss' = rss[i := rss ! i @ [r]]
    \<Longrightarrow> atomic_step atomic prog (rss, s) (rss', s')"
  by (simp add: atomic_step.call)

section \<open>How many hold the lock\<close>

definition holds :: "lock_mode \<Rightarrow> 'r list \<times> ('s, 'r) place \<Rightarrow> nat" where
  "holds m g = (case snd g of Inside m' b \<Rightarrow> if m' = m then 1 else 0 | Outside \<Rightarrow> 0)"

lemma holds_simps [simp]:
  "holds m (rs, Outside) = 0" "holds m (rs, Inside m' b) = (if m' = m then 1 else 0)"
  by (simp_all add: holds_def)

lemma holds_zero: "holds m g = 0 \<longleftrightarrow> (\<forall>rs b. g \<noteq> (rs, Inside m b))"
  by (cases g) (auto simp: holds_def split: place.splits)

abbreviation holders :: "lock_mode \<Rightarrow> ('r list \<times> ('s, 'r) place) list \<Rightarrow> nat" where
  "holders m gs \<equiv> sum_list (map (holds m) gs)"

lemma holders_upd:
  "i < length gs \<Longrightarrow> holders m (gs[i := g]) + holds m (gs ! i) = holders m gs + holds m g"
  by (rule sum_list_upd)

lemma outside_iff: "holders Lock gs = 0 \<and> holders RLock gs = 0 \<longleftrightarrow> (\<forall>g \<in> set gs. snd g = Outside)"
proof -
  have "holds Lock g = 0 \<and> holds RLock g = 0 \<longleftrightarrow> snd g = Outside" for g :: "'r list \<times> ('s, 'r) place"
    by (cases g) (auto simp: holds_def split: place.splits, metis lock_mode.exhaust)
  then show ?thesis unfolding sum_list_zero_iff by blast
qed

lemma others_outside:
  assumes "holders Lock gs = 1" and "holders RLock gs = 0" and "i < length gs" and "gs ! i = (rs, Inside Lock b)"
    and "j < length gs" and "j \<noteq> i"
  shows "snd (gs ! j) = Outside"
proof -
  let ?gs = "gs[i := (rs, Outside)]"
  have "holders Lock ?gs = 0" using holders_upd [OF assms(3), of Lock "(rs, Outside)"] assms(1,4) by simp
  moreover have "holders RLock ?gs = 0" using holders_upd [OF assms(3), of RLock "(rs, Outside)"] assms(2,4) by simp
  ultimately have "holders Lock ?gs = 0 \<and> holders RLock ?gs = 0" by simp
  then have "\<forall>g \<in> set ?gs. snd g = Outside" by (simp only: outside_iff)
  moreover have "?gs ! j \<in> set ?gs" using assms(5) by (intro nth_mem) simp
  ultimately show ?thesis using assms(6) by simp
qed

text \<open>The lock's fields agree with the places, and a reader's rest does not write.\<close>

definition mutex_inv :: "('s, 'r) guarded \<Rightarrow> bool" where
  "mutex_inv q \<longleftrightarrow> holders Lock (gd_gos q) = (if gd_writer q then 1 else 0)
     \<and> holders RLock (gd_gos q) = gd_readers q \<and> (gd_writer q \<longrightarrow> gd_readers q = 0)
     \<and> (\<forall>rs b. (rs, Inside RLock b) \<in> set (gd_gos q) \<longrightarrow> read_only b)"

lemma mutex_inv_step:
  assumes "mutex_inv q" and "mutex_step ops prog q q'"
    and ro: "\<And>c b. ops c = (RLock, b) \<Longrightarrow> read_only b"
  shows "mutex_inv q'"
  using assms(2,1)
proof cases
  case (lock i rs c b)
  with assms(1) holders_upd [OF lock(2), of _ "(rs, Inside Lock b)"] show ?thesis
    by (auto simp: mutex_inv_def gd_set_def dest!: set_upd)
next
  case (rlock i rs c b)
  with assms(1) holders_upd [OF rlock(2), of _ "(rs, Inside RLock b)"] ro [OF rlock(5)] show ?thesis
    by (auto simp: mutex_inv_def gd_set_def dest!: set_upd)
next
  case (access i rs m f s b)
  have "read_only b" if "m = RLock"
  proof -
    have "(rs, Inside RLock (Access f)) \<in> set (gd_gos q)" using access(2,3) that by (metis nth_mem)
    with assms(1) have "read_only (Access f)" unfolding mutex_inv_def by blast
    with access(4) show ?thesis by (metis read_only_simps(2) snd_conv)
  qed
  with access assms(1) holders_upd [OF access(2), of _ "(rs, Inside m b)"] show ?thesis
    by (auto simp: mutex_inv_def gd_set_def dest!: set_upd)
next
  case (unlock i rs r)
  have "gd_writer q" using assms(1) unlock(2,3)
    by (auto simp: mutex_inv_def sum_list_zero_iff holds_zero split: if_splits dest: nth_mem)
  with unlock assms(1) holders_upd [OF unlock(2), of Lock "(rs @ [r], Outside)"]
    holders_upd [OF unlock(2), of RLock "(rs @ [r], Outside)"] show ?thesis
    by (auto simp: mutex_inv_def gd_set_def simp del: sum_list_eq_0_iff dest!: set_upd)
next
  case (runlock i rs r)
  with assms(1) holders_upd [OF runlock(2), of Lock "(rs @ [r], Outside)"]
    holders_upd [OF runlock(2), of RLock "(rs @ [r], Outside)"] show ?thesis
    by (auto simp: mutex_inv_def gd_set_def simp del: sum_list_eq_0_iff dest!: set_upd)
qed

lemma mutex_inv_quiet: "mutex_inv (quiet rss s)"
  by (auto simp: mutex_inv_def quiet_def comp_def)

section \<open>What the calls amount to\<close>

text \<open>The results a goroutine will have when the call it is in has returned, and the object when the
  writer, if there is one, is done.\<close>

fun finish :: "'s \<Rightarrow> 'r list \<times> ('s, 'r) place \<Rightarrow> 'r list" where
  "finish s (rs, Outside) = rs"
| "finish s (rs, Inside m b) = rs @ [fst (run_body b s)]"

definition stands_for :: "('s, 'r) guarded \<Rightarrow> 'r list list \<times> 's \<Rightarrow> bool" where
  "stands_for q a \<longleftrightarrow> fst a = map (finish (gd_obj q)) (gd_gos q)
     \<and> (\<not> gd_writer q \<longrightarrow> snd a = gd_obj q)
     \<and> (\<forall>rs b. (rs, Inside Lock b) \<in> set (gd_gos q) \<longrightarrow> snd a = snd (run_body b (gd_obj q)))"

lemma stands_for_quiet: "stands_for (quiet rss s) a \<longleftrightarrow> a = (rss, s)"
  by (cases a) (auto simp: stands_for_def quiet_def comp_def)

lemma inside_is_upd:
  assumes "(rs, Inside m b) \<in> set (gs[i := g])" and "\<And>j. j < length gs \<Longrightarrow> j \<noteq> i \<Longrightarrow> snd (gs ! j) = Outside"
  shows "g = (rs, Inside m b)"
proof -
  obtain j where j: "j < length gs" "gs[i := g] ! j = (rs, Inside m b)"
    using assms(1) by (auto simp: in_set_conv_nth)
  with assms(2) [of j] show ?thesis by (cases "j = i") auto
qed

lemma finish_upd:
  assumes "i < length gs" and "finish s g = finish s (gs ! i)"
  shows "map (finish s) (gs[i := g]) = map (finish s) gs"
proof -
  have "(map (finish s) gs)[i := finish s (gs ! i)] = map (finish s) gs" using assms(1) by (simp add: list_update_same_conv)
  then show ?thesis by (simp add: map_update assms(2))
qed

lemma finish_outside: "snd g = Outside \<Longrightarrow> finish s g = finish s' g"
  by (cases g) simp

definition linked ::
  "('o \<Rightarrow> 's \<Rightarrow> 'r \<times> 's) \<Rightarrow> ('s \<Rightarrow> bool) \<Rightarrow> (nat \<Rightarrow> 'r list \<Rightarrow> 'o option) \<Rightarrow> 'r list list \<times> 's \<Rightarrow> ('s, 'r) guarded \<Rightarrow> bool"
where
  "linked atomic ok prog a0 q \<longleftrightarrow> mutex_inv q
     \<and> (\<exists>a. (atomic_step atomic prog)\<^sup>*\<^sup>* a0 a \<and> stands_for q a \<and> ok (snd a))"

locale guarded_object =
  fixes ops :: "'o \<Rightarrow> lock_mode \<times> ('s, 'r) body" and atomic :: "'o \<Rightarrow> 's \<Rightarrow> 'r \<times> 's" and inv :: "'s \<Rightarrow> bool"
  assumes run_op: "inv s \<Longrightarrow> run_body (snd (ops c)) s = atomic c s"
    and readers_read: "fst (ops c) = RLock \<Longrightarrow> read_only (snd (ops c))"
    and inv_atomic: "inv s \<Longrightarrow> inv (snd (atomic c s))"
begin

lemma linkedI:
  assumes "mutex_inv q" and "(atomic_step atomic prog)\<^sup>*\<^sup>* a0 a" and "stands_for q a" and "inv (snd a)"
  shows "linked atomic inv prog a0 q"
  unfolding linked_def using assms by blast

text \<open>Taking the lock is the atomic call: what the rest of the body computes is settled.\<close>

lemma linked_enter:
  assumes q: "mutex_inv q" "(atomic_step atomic prog)\<^sup>*\<^sup>* a0 a" "stands_for q a" "inv (snd a)"
    and i: "i < length (gd_gos q)" "gd_gos q ! i = (rs, Outside)" and c: "prog i rs = Some c" "ops c = (m, b)"
    and free: "\<not> gd_writer q"
    and q': "mutex_inv q'" "gd_gos q' = (gd_gos q)[i := (rs, Inside m b)]" "gd_obj q' = gd_obj q"
    and m: "m = RLock \<and> \<not> gd_writer q' \<or> m = Lock \<and> gd_writer q'"
  shows "linked atomic inv prog a0 q'"
proof -
  have obj: "snd a = gd_obj q" using q(3) free by (simp add: stands_for_def)
  obtain r s' where run: "run_body b (gd_obj q) = (r, s')" by (cases "run_body b (gd_obj q)")
  with run_op [of "gd_obj q" c] q(4) obj c(2) have at: "atomic c (snd a) = (r, s')" by simp
  have rss: "fst a = map (finish (gd_obj q)) (gd_gos q)" using q(3) by (simp add: stands_for_def)
  then have a: "i < length (fst a)" "fst a ! i = rs" using i by simp_all
  let ?a = "((fst a)[i := rs @ [r]], s')"
  have "atomic_step atomic prog (fst a, snd a) ?a"
    by (rule atomic_callI [where i = i]) (use a c(1) at in simp_all)
  then have "(atomic_step atomic prog)\<^sup>*\<^sup>* a0 ?a" using q(2) by simp
  moreover have "inv (snd ?a)" using inv_atomic [OF q(4), of c] at by simp
  moreover have "stands_for q' ?a"
  proof -
    have "(rs', Inside Lock b') \<notin> set (gd_gos q)" for rs' b'
      using q(1) free by (auto simp: mutex_inv_def sum_list_zero_iff holds_zero)
    moreover have "s' = gd_obj q" if "m = RLock"
      using read_only_run [of b "gd_obj q"] readers_read [of c] c(2) run that by simp
    ultimately show ?thesis
      using rss run q'(2,3) m by (auto simp: stands_for_def map_update dest!: set_upd)
  qed
  ultimately show ?thesis using q'(1) by (intro linkedI)
qed

text \<open>An access changes neither the results to come nor the object to be.\<close>

lemma stands_for_access:
  assumes "mutex_inv q" and "stands_for q a"
    and i: "i < length (gd_gos q)" "gd_gos q ! i = (rs, Inside m (Access f))" and f: "f (gd_obj q) = (s, b)"
  shows "stands_for (gd_set i (rs, Inside m b) (q\<lparr>gd_obj := s\<rparr>)) a"
proof -
  note counts = assms(1) [unfolded mutex_inv_def]
  have mem: "(rs, Inside m (Access f)) \<in> set (gd_gos q)" using i by (metis nth_mem)
  show ?thesis
  proof (cases m)
    case RLock
    then have "read_only (Access f)" using counts mem by blast
    then have s: "s = gd_obj q" using f by (metis fst_conv read_only_simps(2))
    with i(2) f have "finish (gd_obj q) (rs, Inside m b) = finish (gd_obj q) (gd_gos q ! i)" by simp
    from finish_upd [OF i(1) this] assms(2) RLock s show ?thesis
      by (auto simp: stands_for_def gd_set_def dest!: set_upd)
  next
    case Lock
    then have w: "gd_writer q" "gd_readers q = 0"
      using counts mem by (auto simp: sum_list_zero_iff holds_zero split: if_splits)
    have out: "snd (gd_gos q ! j) = Outside" if "j < length (gd_gos q)" "j \<noteq> i" for j
      using others_outside [OF _ _ i(1), of rs "Access f" j] counts w i(2) Lock that by auto
    have "map (finish s) ((gd_gos q)[i := (rs, Inside m b)]) = map (finish (gd_obj q)) (gd_gos q)"
    proof (rule nth_equalityI)
      fix j assume "j < length (map (finish s) ((gd_gos q)[i := (rs, Inside m b)]))"
      with out [of j] i(2) f show "map (finish s) ((gd_gos q)[i := (rs, Inside m b)]) ! j
          = map (finish (gd_obj q)) (gd_gos q) ! j"
        by (cases "j = i") (simp_all add: finish_outside [of _ s "gd_obj q"])
    qed simp
    moreover have "snd a = snd (run_body (Access f) (gd_obj q))"
      using assms(2) mem Lock unfolding stands_for_def by blast
    moreover have "rs' = rs \<and> b' = b" if "(rs', Inside Lock b') \<in> set ((gd_gos q)[i := (rs, Inside m b)])" for rs' b'
      using inside_is_upd [OF that out] by simp
    ultimately show ?thesis
      using assms(2) f w by (auto simp: stands_for_def gd_set_def)
  qed
qed

text \<open>Nor does giving the lock back.\<close>

lemma stands_for_return:
  assumes "mutex_inv q" and "stands_for q a"
    and i: "i < length (gd_gos q)" "gd_gos q ! i = (rs, Inside m (Return r))"
    and q': "gd_gos q' = (gd_gos q)[i := (rs @ [r], Outside)]" "gd_obj q' = gd_obj q"
  shows "stands_for q' a"
proof -
  note counts = assms(1) [unfolded mutex_inv_def]
  have mem: "(rs, Inside m (Return r)) \<in> set (gd_gos q)" using i by (metis nth_mem)
  have gos: "map (finish (gd_obj q)) (gd_gos q') = map (finish (gd_obj q)) (gd_gos q)"
    unfolding q'(1) by (rule finish_upd [OF i(1)]) (simp add: i(2))
  have "snd a = gd_obj q \<and> (\<forall>rs' b'. (rs', Inside Lock b') \<notin> set (gd_gos q'))"
  proof (cases m)
    case RLock
    then have w: "\<not> gd_writer q" using counts mem by (auto simp: sum_list_zero_iff holds_zero) blast
    then have "(rs', Inside Lock b') \<notin> set (gd_gos q)" for rs' b'
      using counts by (auto simp: sum_list_zero_iff holds_zero)
    with w assms(2) q'(1) show ?thesis by (auto simp: stands_for_def dest!: set_upd)
  next
    case Lock
    then have w: "gd_writer q" "gd_readers q = 0"
      using counts mem by (auto simp: sum_list_zero_iff holds_zero split: if_splits)
    have out: "snd (gd_gos q ! j) = Outside" if "j < length (gd_gos q)" "j \<noteq> i" for j
      using others_outside [OF _ _ i(1), of rs "Return r" j] counts w i(2) Lock that by auto
    have "snd a = gd_obj q" using assms(2) mem Lock unfolding stands_for_def by fastforce
    moreover have "(rs', Inside Lock b') \<notin> set (gd_gos q')" for rs' b'
      unfolding q'(1) using inside_is_upd [OF _ out] by blast
    ultimately show ?thesis by blast
  qed
  with assms(2) gos q'(2) show ?thesis by (simp add: stands_for_def)
qed

lemma linked_step:
  assumes "linked atomic inv prog a0 q" and "mutex_step ops prog q q'"
  shows "linked atomic inv prog a0 q'"
proof -
  obtain a where a: "mutex_inv q" "(atomic_step atomic prog)\<^sup>*\<^sup>* a0 a" "stands_for q a" "inv (snd a)"
    using assms(1) by (auto simp: linked_def)
  have ro: "read_only b" if "ops c = (RLock, b)" for c b using readers_read [of c] that by simp
  have inv': "mutex_inv q'" by (rule mutex_inv_step [OF a(1) assms(2) ro])
  note keep = linkedI [OF inv' a(2) _ a(4)]
  from assms(2) show ?thesis
  proof cases
    case (lock i rs c b)
    show ?thesis
      by (rule linked_enter [OF a lock(2,3) _ _ lock(6) inv', where c = c and b = b])
        (use lock in \<open>auto simp: gd_set_def\<close>)
  next
    case (rlock i rs c b)
    show ?thesis
      by (rule linked_enter [OF a rlock(2,3) _ _ rlock(6) inv', where c = c and b = b])
        (use rlock in \<open>auto simp: gd_set_def\<close>)
  next
    case (access i rs m f s b)
    from stands_for_access [OF a(1,3) access(2-4)] show ?thesis unfolding access(1) [symmetric] by (rule keep)
  next
    case (unlock i rs r)
    then show ?thesis by (intro keep stands_for_return [OF a(1,3) unlock(2,3)]) (simp_all add: gd_set_def)
  next
    case (runlock i rs r)
    then show ?thesis by (intro keep stands_for_return [OF a(1,3) runlock(2,3)]) (simp_all add: gd_set_def)
  qed
qed

lemma linked_reach:
  assumes "inv s0" and "(mutex_step ops prog)\<^sup>*\<^sup>* (quiet rss0 s0) q"
  shows "linked atomic inv prog (rss0, s0) q"
  using assms(2)
proof (induction rule: rtranclp_induct)
  case base
  have "stands_for (quiet rss0 s0) (rss0, s0)" by (simp add: stands_for_quiet)
  with assms(1) mutex_inv_quiet show ?case unfolding linked_def by fastforce
qed (rule linked_step)

text \<open>One call from outside, without anyone else.\<close>

lemma run_accesses:
  "i < length (gd_gos q) \<Longrightarrow> gd_gos q ! i = (rs, Inside m b) \<Longrightarrow> run_body b (gd_obj q) = (r, s)
    \<Longrightarrow> (mutex_step ops prog)\<^sup>*\<^sup>* q (gd_set i (rs, Inside m (Return r)) (q\<lparr>gd_obj := s\<rparr>))"
proof (induction b arbitrary: q rule: body_induct)
  case (Return r')
  then have "gd_set i (rs, Inside m (Return r)) (q\<lparr>gd_obj := s\<rparr>) = q"
    by (cases q) (auto simp: gd_set_def list_update_same_conv)
  then show ?case by simp
next
  case (Access f)
  obtain s' b' where f: "f (gd_obj q) = (s', b')" by (cases "f (gd_obj q)")
  let ?q = "gd_set i (rs, Inside m b') (q\<lparr>gd_obj := s'\<rparr>)"
  have "mutex_step ops prog q ?q" by (rule mutex_step.access [OF Access.prems(1,2) f])
  moreover have "(mutex_step ops prog)\<^sup>*\<^sup>* ?q (gd_set i (rs, Inside m (Return r)) (?q\<lparr>gd_obj := s\<rparr>))"
    using Access.IH [of ?q "gd_obj q"] Access.prems f by (simp add: gd_set_def)
  ultimately show ?case by (simp add: gd_set_def converse_rtranclp_into_rtranclp)
qed

lemma quiet_call:
  assumes "inv s" and "atomic_step atomic prog (rss, s) (rss', s')"
  shows "(mutex_step ops prog)\<^sup>*\<^sup>* (quiet rss s) (quiet rss' s')"
  using assms(2)
proof cases
  case (call i c r)
  obtain m b where c: "ops c = (m, b)" by (cases "ops c")
  have run: "run_body b s = (r, s')" using run_op [OF assms(1), of c] c call(4) by simp
  let ?go = "\<lambda>p. (map (\<lambda>rs. (rs, Outside)) rss)[i := p]" and ?rs = "rss ! i"
  define q where "q b s = \<lparr>gd_gos = ?go (?rs, Inside m b), gd_writer = (m = Lock),
    gd_readers = (if m = RLock then 1 else 0), gd_obj = s\<rparr>" for b and s :: 's
  have i: "i < length (gd_gos (quiet rss s))" "gd_gos (quiet rss s) ! i = (?rs, Outside)"
    using call(2) by (simp_all add: quiet_def)
  have "mutex_step ops prog (quiet rss s) (q b s)"
  proof (cases m)
    case RLock
    show ?thesis
      using mutex_step.rlock [where ops = ops and prog = prog, OF i call(3) c [unfolded RLock]]
      by (simp add: q_def RLock gd_set_def quiet_def)
  next
    case Lock
    show ?thesis
      using mutex_step.lock [where ops = ops and prog = prog, OF i call(3) c [unfolded Lock]]
      by (simp add: q_def Lock gd_set_def quiet_def)
  qed
  also have "(mutex_step ops prog)\<^sup>*\<^sup>* (q b s) (q (Return r) s')"
    using run_accesses [where q = "q b s" and i = i and m = m and rs = ?rs, OF _ _ , of b r s'] call(2) run
    by (simp add: q_def gd_set_def)
  also have "mutex_step ops prog (q (Return r) s') (quiet rss' s')"
  proof (cases m)
    case RLock
    show ?thesis
      using mutex_step.runlock [where ops = ops and prog = prog and q = "q (Return r) s'" and i = i and rs = ?rs and r = r]
        call(1,2) by (simp add: q_def RLock gd_set_def quiet_def map_update)
  next
    case Lock
    show ?thesis
      using mutex_step.unlock [where ops = ops and prog = prog and q = "q (Return r) s'" and i = i and rs = ?rs and r = r]
        call(1,2) by (simp add: q_def Lock gd_set_def quiet_def map_update)
  qed
  finally show ?thesis .
qed

text \<open>The states between calls are exactly those of atomic calls.\<close>

lemma quiet_iff:
  assumes "inv s0"
  shows "(mutex_step ops prog)\<^sup>*\<^sup>* (quiet rss0 s0) (quiet rss s) \<longleftrightarrow> (atomic_step atomic prog)\<^sup>*\<^sup>* (rss0, s0) (rss, s)"
proof
  assume "(mutex_step ops prog)\<^sup>*\<^sup>* (quiet rss0 s0) (quiet rss s)"
  from linked_reach [OF assms this] show "(atomic_step atomic prog)\<^sup>*\<^sup>* (rss0, s0) (rss, s)"
    by (auto simp: linked_def stands_for_quiet)
next
  have "(atomic_step atomic prog)\<^sup>*\<^sup>* (rss0, s0) a
    \<Longrightarrow> inv (snd a) \<and> (mutex_step ops prog)\<^sup>*\<^sup>* (quiet rss0 s0) (quiet (fst a) (snd a))" for a
  proof (induction rule: rtranclp_induct)
    case (step a b)
    have "inv (snd b)" using step.hyps(2) step.IH inv_atomic by (cases) (metis snd_conv)
    with step.IH quiet_call [of "snd a" prog "fst a" "fst b" "snd b"] step.hyps(2) show ?case
      by (auto intro: rtranclp_trans)
  qed (simp add: assms)
  then show "(mutex_step ops prog)\<^sup>*\<^sup>* (quiet rss0 s0) (quiet rss s)"
    if "(atomic_step atomic prog)\<^sup>*\<^sup>* (rss0, s0) (rss, s)" using that by fastforce
qed

text \<open>No goroutine blocks for good: as long as one is inside or has a call to make, a step is possible.\<close>

lemma never_stuck:
  assumes "inv s0" and "(mutex_step ops prog)\<^sup>*\<^sup>* (quiet rss0 s0) q"
    and "i < length (gd_gos q)" and "snd (gd_gos q ! i) \<noteq> Outside \<or> prog i (fst (gd_gos q ! i)) \<noteq> None"
  shows "\<exists>q'. mutex_step ops prog q q'"
proof (cases "\<forall>g \<in> set (gd_gos q). snd g = Outside")
  case True
  have "mutex_inv q" using linked_reach [OF assms(1,2)] by (simp add: linked_def)
  with True have free: "\<not> gd_writer q" "gd_readers q = 0"
    unfolding outside_iff [symmetric] by (auto simp: mutex_inv_def simp del: sum_list_eq_0_iff split: if_splits)
  from True assms(3) have out: "gd_gos q ! i = (fst (gd_gos q ! i), Outside)" by (metis nth_mem prod.collapse)
  then obtain c where c: "prog i (fst (gd_gos q ! i)) = Some c" using assms(4) by (metis option.exhaust snd_conv)
  obtain m b where "ops c = (m, b)" by (cases "ops c")
  with free show ?thesis
    using mutex_step.lock [where prog = prog and ops = ops, OF assms(3) out c]
      mutex_step.rlock [where prog = prog and ops = ops, OF assms(3) out c] by (cases m) blast+
next
  case False
  then obtain j rs m b where j: "j < length (gd_gos q)" "gd_gos q ! j = (rs, Inside m b)"
    by (metis in_set_conv_nth place.exhaust prod.collapse)
  show ?thesis
  proof (cases b)
    case (Return r)
    with j show ?thesis by (cases m) (auto intro: mutex_step.unlock mutex_step.runlock)
  next
    case (Access f)
    obtain s' b' where "f (gd_obj q) = (s', b')" by (cases "f (gd_obj q)")
    with j Access show ?thesis by (blast intro: mutex_step.access)
  qed
qed

end

end
