(* ===== verification/M02_Conc.thy ===== *)
theory M02_Conc
  imports M02_Store Go_Mutex
begin

text \<open>
  The store of \<open>m02-generics-and-idioms/solution-store\<close> used by many goroutines at once: the bodies
  of its methods access by access, under the locks they take. The operations of \<open>M02_Store\<close> are what
  they amount to.
\<close>

section \<open>The methods, access by access\<close>

text \<open>A call; \<open>CAll j\<close> ranges over the map in the \<open>j\<close>th of the orders the runtime may choose.\<close>

datatype ('k, 'v) store_call = CPut 'k 'v | CGet 'k | CDelete 'k | CLen | CAll nat

datatype 'v store_ret = RDone | RGet "'v option" | RLen int | RAll "'v list"

definition Put_body :: "'k \<Rightarrow> 'v \<Rightarrow> lock_mode \<times> (('k, 'v) Store, 'v store_ret) body" where
  "Put_body key val = (Lock, writes (\<lambda>s. s\<lparr>store_m := map_put key val (store_m s)\<rparr>) (Return RDone))"

definition Get_body :: "'k \<Rightarrow> lock_mode \<times> (('k, 'v) Store, 'v store_ret) body" where
  "Get_body key = (RLock, reads (\<lambda>s. Return (RGet (map_of (store_m s) key))))"

definition Delete_body :: "'k \<Rightarrow> lock_mode \<times> (('k, 'v) Store, 'v store_ret) body" where
  "Delete_body key = (Lock, writes (\<lambda>s. s\<lparr>store_m := map_del key (store_m s)\<rparr>) (Return RDone))"

definition Len_body :: "lock_mode \<times> (('k, 'v) Store, 'v store_ret) body" where
  "Len_body = (RLock, reads (\<lambda>s. Return (RLen (int (length (store_m s))))))"

definition All_body :: "(('k, 'v) gomap \<Rightarrow> ('k, 'v) gomap) \<Rightarrow> lock_mode \<times> (('k, 'v) Store, 'v store_ret) body" where
  "All_body ord = (RLock, range_over store_m ord (\<lambda>v out. Inr (out @ [v])) [] (\<lambda>out. Return (RAll out)))"

fun store_method ::
  "(nat \<Rightarrow> ('k, 'v) gomap \<Rightarrow> ('k, 'v) gomap) \<Rightarrow> ('k, 'v) store_call \<Rightarrow> lock_mode \<times> (('k, 'v) Store, 'v store_ret) body"
where
  "store_method ord (CPut k v) = Put_body k v"
| "store_method ord (CGet k) = Get_body k"
| "store_method ord (CDelete k) = Delete_body k"
| "store_method ord CLen = Len_body"
| "store_method ord (CAll j) = All_body (ord j)"

section \<open>The methods as one step\<close>

fun store_atomic ::
  "(nat \<Rightarrow> ('k, 'v) gomap \<Rightarrow> ('k, 'v) gomap) \<Rightarrow> ('k, 'v) store_call \<Rightarrow> ('k, 'v) Store \<Rightarrow> 'v store_ret \<times> ('k, 'v) Store"
where
  "store_atomic ord (CPut k v) s = (RDone, Store_Put k v s)"
| "store_atomic ord (CGet k) s = (RGet (Store_Get k s), s)"
| "store_atomic ord (CDelete k) s = (RDone, Store_Delete k s)"
| "store_atomic ord CLen s = (RLen (Store_Len s), s)"
| "store_atomic ord (CAll j) s = (RAll (Store_All (ord j) s), s)"

lemmas method_bodies = Put_body_def Get_body_def Delete_body_def Len_body_def All_body_def

lemma store_method_run:
  assumes "store_inv s" and "\<forall>j. range_order (ord j)"
  shows "run_body (snd (store_method ord c)) s = store_atomic ord c s"
proof (cases c)
  case (CAll j)
  have "range_order (ord j)" using assms(2) by blast
  with assms(1) CAll show ?thesis
    by (simp add: method_bodies run_range_over store_inv_def range_collect Store_All_eq)
qed (simp_all add: method_bodies Store_Put_def Store_Get_def Store_Delete_def Store_Len_def)

interpretation store_conc: guarded_object "store_method ord" "store_atomic ord"
  "\<lambda>s. store_inv s \<and> (\<forall>j. range_order (ord j))" for ord :: "nat \<Rightarrow> ('k, 'v) gomap \<Rightarrow> ('k, 'v) gomap"
proof
  fix c :: "('k, 'v) store_call" and s
  show "fst (store_method ord c) = RLock \<Longrightarrow> read_only (snd (store_method ord c))"
    by (cases c) (simp_all add: method_bodies read_only_range_over)
  show "store_inv s \<and> (\<forall>j. range_order (ord j)) \<Longrightarrow> run_body (snd (store_method ord c)) s = store_atomic ord c s"
    by (blast intro: store_method_run)
  show "store_inv s \<and> (\<forall>j. range_order (ord j))
      \<Longrightarrow> store_inv (snd (store_atomic ord c s)) \<and> (\<forall>j. range_order (ord j))"
    by (cases c) (auto intro: store.inv_put store.inv_del)
qed

text \<open>C18 (equivalence). The store is atomic. Any number of goroutines call its methods, each choosing its
  next call by the results so far, their accesses to the map interleaved as the lock allows:
  the results and contents they can reach between calls are exactly those of a store whose methods
  are one step each; and as long as one of them is in a method or has a call to make, some
  goroutine can go on.\<close>

theorem store_calls_atomic:
  assumes "\<forall>j. range_order (ord j)"
  shows "((mutex_step (store_method ord) prog)\<^sup>*\<^sup>* (quiet (replicate n []) NewStore) (quiet rss s)
      \<longleftrightarrow> (atomic_step (store_atomic ord) prog)\<^sup>*\<^sup>* (replicate n [], NewStore) (rss, s))
    \<and> ((mutex_step (store_method ord) prog)\<^sup>*\<^sup>* (quiet (replicate n []) NewStore) q \<and> i < length (gd_gos q)
        \<and> (snd (gd_gos q ! i) \<noteq> Outside \<or> prog i (fst (gd_gos q ! i)) \<noteq> None)
      \<longrightarrow> (\<exists>q'. mutex_step (store_method ord) prog q q'))"
proof -
  have "store_inv NewStore \<and> (\<forall>j. range_order (ord j))" using assms store.inv_new by blast
  then show ?thesis using store_conc.quiet_iff store_conc.never_stuck by blast
qed

text \<open>A writer and a reader.\<close>

definition demo_prog :: "nat \<Rightarrow> nat store_ret list \<Rightarrow> (string, nat) store_call option" where
  "demo_prog i rs = (if rs \<noteq> [] then None else if i = 0 then Some (CPut ''a'' 1) else Some (CAll 0))"

theorem store_calls_atomic_witness:
  "(mutex_step (store_method (\<lambda>_ m. m)) demo_prog)\<^sup>*\<^sup>* (quiet [[], []] NewStore)
     (quiet [[RDone], [RAll [1]]] \<lparr>store_m = [(''a'', 1)]\<rparr>)"
proof -
  let ?ord = "\<lambda>(_::nat) (m :: (string, nat) gomap). m"
  have put: "atomic_step (store_atomic ?ord) demo_prog ([[], []], NewStore) ([[RDone], []], \<lparr>store_m = [(''a'', 1)]\<rparr>)"
    by (rule atomic_callI [where i = 0 and c = "CPut ''a'' 1"]) (simp_all add: demo_prog_def Store_Put_def NewStore_def)
  have all: "atomic_step (store_atomic ?ord) demo_prog ([[RDone], []], \<lparr>store_m = [(''a'', 1)]\<rparr>)
      ([[RDone], [RAll [1]]], \<lparr>store_m = [(''a'', 1)]\<rparr>)"
    by (rule atomic_callI [where i = 1 and c = "CAll 0"]) (simp_all add: demo_prog_def Store_All_def)
  have "(atomic_step (store_atomic ?ord) demo_prog)\<^sup>*\<^sup>* (replicate 2 [], NewStore)
      ([[RDone], [RAll [1]]], \<lparr>store_m = [(''a'', 1)]\<rparr>)"
    using put all by (simp add: numeral_2_eq_2)
  moreover have "\<forall>j. range_order (?ord j)" by simp
  ultimately have "(mutex_step (store_method ?ord) demo_prog)\<^sup>*\<^sup>* (quiet (replicate 2 []) NewStore)
     (quiet [[RDone], [RAll [1]]] \<lparr>store_m = [(''a'', 1)]\<rparr>)"
    using store_calls_atomic [of ?ord demo_prog 2] by blast
  then show ?thesis by (simp add: numeral_2_eq_2)
qed

end
