(* ===== verification/M02_Demo.thy ===== *)
theory M02_Demo
  imports M02_Store
begin

text \<open>
  The command of \<open>m02-generics-and-idioms\<close>. The text of \<open>cmd/demo\<close> and \<open>solution-cmd/demo\<close> is the same but
  for the packages they import, which are an argument of the model: the learner's, of which only the
  contract is given, or the reference's.
\<close>

section \<open>The command, for any packages\<close>

record m02_Customer =
  m02_ID :: string
  m02_Name :: string

text \<open>
  What the command uses of \<open>store\<close>, \<open>genx\<close> and \<open>config\<close>, at the types it uses them with, and the rest
  of the store's methods. The value of type \<open>'o\<close> is the order in which the runtime visits the map.
  \<open>Page\<close> and \<open>ServerConfig\<close> are the structs the exercises prescribe.
\<close>

record ('s, 't, 'o, 'l) m02_packages =
  p2_NewStore :: 's
  p2_Put :: "string \<Rightarrow> m02_Customer \<Rightarrow> 's \<Rightarrow> 's"
  p2_Get :: "string \<Rightarrow> 's \<Rightarrow> m02_Customer option"
  p2_Delete :: "string \<Rightarrow> 's \<Rightarrow> 's"
  p2_Len :: "'s \<Rightarrow> int"
  p2_All :: "'o \<Rightarrow> 's \<Rightarrow> m02_Customer list"
  p2_Map :: "m02_Customer list \<Rightarrow> (m02_Customer \<Rightarrow> string) \<Rightarrow> string list"
  p2_Paginate :: "m02_Customer list \<Rightarrow> int \<Rightarrow> int \<Rightarrow> panic + m02_Customer Page"
  p2_NewSet :: "string list \<Rightarrow> 't"
  p2_Set_Len :: "'t \<Rightarrow> int"
  p2_config_New :: "string \<Rightarrow> 'l Option list \<Rightarrow> 'l ServerConfig"
  p2_WithReadTimeout :: "int \<Rightarrow> 'l Option"

definition l02_put :: "('s, 't, 'o, 'l) m02_packages \<Rightarrow> int \<Rightarrow> 's \<Rightarrow> 's" where
  "l02_put p i s = (let cid = ''c'' @ fmt_0d 2 i in p2_Put p cid \<lparr>m02_ID = cid, m02_Name = ''Customer '' @ fmt_d i\<rparr> s)"

text \<open>
  The lines the demo prints; the map orders of the two \<open>All\<close> calls and the text of a duration
  (\<open>Duration.String\<close>) are arguments.
\<close>

definition l02_demo_main ::
  "('s, 't, 'o, 'l) m02_packages \<Rightarrow> 'o \<Rightarrow> 'o \<Rightarrow> (int \<Rightarrow> string) \<Rightarrow> panic + string list" where
  "l02_demo_main p ord_a ord_b dur_string =
     (let repo = fold (l02_put p) [1..25] (p2_NewStore p);
          names = p2_Map p (p2_All p ord_a repo) m02_Name;
          line1 = ''total customers: '' @ fmt_d (int (length names))
      in case p2_Paginate p (p2_All p ord_b repo) 2 10 of
           Inl e \<Rightarrow> Inl e
         | Inr page \<Rightarrow>
             (let line2 = ''page '' @ fmt_d (Page_Page page) @ ''/'' @ fmt_d (Page_TotalPages page)
                    @ '', items='' @ fmt_d (int (length (Page_Items page))) @ '', hasNext=''
                    @ (if Page_HasNext page then ''true'' else ''false'');
                  tags = p2_NewSet p [''vip'', ''trial'', ''vip'', ''newsletter''];
                  line3 = ''distinct tags: '' @ fmt_d (p2_Set_Len p tags);
                  cfg = p2_config_New p '':8080'' [p2_WithReadTimeout p (5 * second)];
                  line4 = ''server addr='' @ cfg_Addr cfg @ '' read='' @ dur_string (cfg_ReadTimeout cfg)
                    @ '' shutdown='' @ dur_string (cfg_ShutdownTimeout cfg)
              in Inr [line1, line2, line3, line4]))"

section \<open>What the exercises ask of the packages\<close>

text \<open>
  The store keeps the contract \<open>kv_store\<close>, and \<open>All\<close> is a snapshot of all values; the set has as
  many elements as there are different ones; a page is the window of the slice; an option overrides
  its own field and leaves the defaults.
\<close>

locale m02_exercise =
  kv_store "p2_Put p" "p2_Get p" "p2_Delete p" "p2_Len p" "p2_NewStore p" ok
  for p :: "('s, 't, 'o, 'l) m02_packages" and ok +
  fixes order :: "'o \<Rightarrow> bool"
  assumes all_values: "ok s \<Longrightarrow> order j
      \<Longrightarrow> mset (p2_All p j s) = {# the (p2_Get p k s). k \<in># mset_set {k. p2_Get p k s \<noteq> None} #}"
    and map_each: "p2_Map p items f = map f items"
    and page_window: "page_bounds items page sz \<Longrightarrow> p2_Paginate p items page sz = Inr
      \<lparr>Page_Items = window (nat page) (nat sz) items, Page_Page = page, Page_Size = sz,
       Page_Total = int (length items), Page_TotalPages = int (num_pages (length items) (nat sz)),
       Page_HasNext = (nat page * nat sz < length items)\<rparr>"
    and set_size: "p2_Set_Len p (p2_NewSet p tags) = int (card (set tags))"
    and read_option: "cfg_ReadTimeout (p2_config_New p addr [p2_WithReadTimeout p d]) = d"
      "cfg_Addr (p2_config_New p addr [p2_WithReadTimeout p d]) = addr"
      "cfg_ShutdownTimeout (p2_config_New p addr [p2_WithReadTimeout p d]) = 30 * second"
begin

text \<open>The store after the loop: one customer under each of the 25 identifiers.\<close>

lemma stored: "ok (fold (l02_put p) [1..25] (p2_NewStore p))
  \<and> {k. p2_Get p k (fold (l02_put p) [1..25] (p2_NewStore p)) \<noteq> None} = (\<lambda>i. ''c'' @ fmt_0d 2 i) ` set [1..25]"
proof -
  have "ok (fold (l02_put p) is s) \<and> {k. p2_Get p k (fold (l02_put p) is s) \<noteq> None}
      = (\<lambda>i. ''c'' @ fmt_0d 2 i) ` set is \<union> {k. p2_Get p k s \<noteq> None}" if "ok s" for "is" s
    using that
  proof (induction "is" arbitrary: s)
    case (Cons i "is")
    have "ok (l02_put p i s)" using Cons.prems by (simp add: l02_put_def inv_put Let_def)
    from Cons.IH [OF this] show ?case by (auto simp: l02_put_def get_put Let_def)
  qed simp
  from this [OF inv_new(1)] show ?thesis by (simp add: inv_new(2))
qed

lemma count_customers:
  assumes "order j"
  shows "length (p2_All p j (fold (l02_put p) [1..25] (p2_NewStore p))) = 25"
proof -
  let ?s = "fold (l02_put p) [1..25] (p2_NewStore p)"
  have ids: "card ((\<lambda>i. ''c'' @ fmt_0d 2 i) ` set [1..25]) = 25" by code_simp
  have "mset (p2_All p j ?s) = {# the (p2_Get p k ?s). k \<in># mset_set ((\<lambda>i. ''c'' @ fmt_0d 2 i) ` set [1..25]) #}"
    using all_values [OF conjunct1 [OF stored] assms] unfolding conjunct2 [OF stored] .
  from arg_cong [OF this, of size] show ?thesis unfolding size_mset size_image_mset size_mset_set ids .
qed

lemma demo_lines:
  assumes "order ord_a" and "order ord_b"
  shows "l02_demo_main p ord_a ord_b dur_string =
    Inr [''total customers: 25'', ''page 2/3, items=10, hasNext=true'', ''distinct tags: 3'',
         ''server addr=:8080 read='' @ dur_string 5000000000 @ '' shutdown='' @ dur_string 30000000000]"
proof -
  let ?xs = "p2_All p ord_b (fold (l02_put p) [1..25] (p2_NewStore p))"
  have "page_bounds ?xs 2 10"
    using count_customers [OF assms(2)] by (simp add: page_bounds_def max_int64_def)
  from page_window [OF this] count_customers [OF assms(2)]
  have pg: "p2_Paginate p ?xs 2 10 = Inr \<lparr>Page_Items = window 2 10 ?xs, Page_Page = 2, Page_Size = 10,
      Page_Total = 25, Page_TotalPages = 3, Page_HasNext = True\<rparr>"
    by (simp add: num_pages_def)
  have "fmt_d 25 = ''25''" "fmt_d 3 = ''3''" "fmt_d 2 = ''2''" "fmt_d 10 = ''10''"
    by code_simp+
  moreover have "card (set [''vip'', ''trial'', ''vip'', ''newsletter'']) = 3" by code_simp
  ultimately show ?thesis
    using count_customers [OF assms(1)] count_customers [OF assms(2)]
    by (simp add: l02_demo_main_def Let_def pg map_each window_def read_option set_size second_def
        del: upto_rec_numeral list.set)
qed

end

text \<open>Remark (functional). Whatever packages keep the contract, and whatever order the runtime visits the
  map in, the demo does not panic and prints 25 customers, the second of three pages with ten items
  and a next page, three tags, and the one timeout the option changed.\<close>

theorem l02_demo_output:
  assumes "m02_exercise p ok order" and "order ord_a" and "order ord_b"
  shows "l02_demo_main p ord_a ord_b dur_string =
    Inr [''total customers: 25'', ''page 2/3, items=10, hasNext=true'', ''distinct tags: 3'',
         ''server addr=:8080 read='' @ dur_string 5000000000 @ '' shutdown='' @ dur_string 30000000000]"
  using assms by (rule m02_exercise.demo_lines)

section \<open>The packages of the reference\<close>

definition m02_solution ::
  "'l \<Rightarrow> ((string, m02_Customer) Store, string genx_Set, (string, m02_Customer) gomap \<Rightarrow> (string, m02_Customer) gomap, 'l)
    m02_packages" where
  "m02_solution dflt = \<lparr>p2_NewStore = NewStore, p2_Put = Store_Put, p2_Get = Store_Get, p2_Delete = Store_Delete,
     p2_Len = Store_Len, p2_All = Store_All, p2_Map = genx_Map [], p2_Paginate = Paginate, p2_NewSet = NewSet,
     p2_Set_Len = Set_Len, p2_config_New = config_New dflt, p2_WithReadTimeout = WithReadTimeout\<rparr>"

definition m02_demo_main ::
  "((string, m02_Customer) gomap \<Rightarrow> (string, m02_Customer) gomap)
   \<Rightarrow> ((string, m02_Customer) gomap \<Rightarrow> (string, m02_Customer) gomap)
   \<Rightarrow> (int \<Rightarrow> string) \<Rightarrow> 'l \<Rightarrow> panic + string list" where
  "m02_demo_main ord_a ord_b dur_string dflt = l02_demo_main (m02_solution dflt) ord_a ord_b dur_string"

interpretation m02_reference: m02_exercise "m02_solution dflt" store_inv range_order for dflt :: 'l
proof -
  have k: "kv_store (p2_Put (m02_solution dflt)) (p2_Get (m02_solution dflt)) (p2_Delete (m02_solution dflt))
      (p2_Len (m02_solution dflt)) (p2_NewStore (m02_solution dflt)) store_inv"
    using store.kv_store_axioms by (simp add: m02_solution_def)
  have "m02_exercise_axioms (m02_solution dflt) store_inv range_order"
    by unfold_locales
      (simp_all add: m02_solution_def store_values genx_Map_eq Paginate_bounded genx_reference_parts(3) [OF range_order_id(1)]
        config_New_def config_opts)
  with k show "m02_exercise (m02_solution dflt) store_inv range_order" by (rule m02_exercise.intro)
qed

lemma m02_demo_output:
  assumes "range_order ord_a" and "range_order ord_b"
  shows "m02_demo_main ord_a ord_b dur_string dflt =
    Inr [''total customers: 25'', ''page 2/3, items=10, hasNext=true'', ''distinct tags: 3'',
         ''server addr=:8080 read='' @ dur_string 5000000000 @ '' shutdown='' @ dur_string 30000000000]"
  unfolding m02_demo_main_def using assms by (rule m02_reference.demo_lines)

theorem l02_demo_output_witness:
  "\<exists>l. l02_demo_main (m02_solution ()) rev (\<lambda>m. m) (\<lambda>d. ''?'') =
     Inr [''total customers: 25'', ''page 2/3, items=10, hasNext=true'', ''distinct tags: 3'', l]"
  using l02_demo_output [OF m02_reference.m02_exercise_axioms [of "()"],
      where ord_a = rev and ord_b = "\<lambda>m. m" and dur_string = "\<lambda>d. ''?''"]
  by simp

end
