(* ===== verification/M03_Dispatcher.thy ===== *)
theory M03_Dispatcher
  imports Go_Strings Step_System
begin

text \<open>
  \<open>m03-concurrency/solution-dispatcher\<close>: the notification dispatcher, a pool of worker
  goroutines that take notifications from the input channel, send them with retries and
  exponential backoff, and put the ones that exhaust their attempts on the dead-letter channel.
  The goroutines are a list of local states, one per worker, and a step of the system is one
  step of one worker, of \<open>Run\<close>, or of the environment (cancellation, the reader of the
  dead-letter channel). Which ready case a \<open>select\<close> takes is left open, as in Go. What a \<open>Send\<close>
  returns is the argument \<open>outcome n a r\<close>: attempt \<open>a\<close> of \<open>n\<close> may succeed (\<open>r\<close>) or fail.
\<close>

section \<open>Notifications, options, New\<close>

record Notification =
  n_ID :: string
  n_CustomerID :: string
  n_Channel :: string
  n_Body :: string

record 'l Dispatcher =
  dp_workers :: int
  dp_maxAttempts :: int
  dp_baseBackoff :: int
  dp_log :: 'l
  dp_dead_cap :: nat

type_synonym 'l DispOption = "'l Dispatcher \<Rightarrow> 'l Dispatcher"

definition WithWorkers :: "int \<Rightarrow> 'l DispOption" where
  "WithWorkers n = (\<lambda>d. d\<lparr>dp_workers := n\<rparr>)"

definition WithMaxAttempts :: "int \<Rightarrow> 'l DispOption" where
  "WithMaxAttempts n = (\<lambda>d. d\<lparr>dp_maxAttempts := n\<rparr>)"

definition WithBackoff :: "int \<Rightarrow> 'l DispOption" where
  "WithBackoff d2 = (\<lambda>d. d\<lparr>dp_baseBackoff := d2\<rparr>)"

definition DispWithLogger :: "'l \<Rightarrow> 'l DispOption" where
  "DispWithLogger l = (\<lambda>d. d\<lparr>dp_log := l\<rparr>)"

definition dispatcher_New :: "'l \<Rightarrow> 'l DispOption list \<Rightarrow> 'l Dispatcher" where
  "dispatcher_New dflt opts =
     fold (\<lambda>opt d. opt d) opts
       \<lparr>dp_workers = 4, dp_maxAttempts = 3, dp_baseBackoff = 10000000, dp_log = dflt,
        dp_dead_cap = 64\<rparr>"

text \<open>The wait before the attempt with the given index: \<open>base * (1 << (attempt-1))\<close> in 64 bits.\<close>

definition backoff :: "'l Dispatcher \<Rightarrow> int \<Rightarrow> int" where
  "backoff d attempt = mul64 (dp_baseBackoff d) (shl64 1 (sub64 attempt 1))"

section \<open>The state of a running dispatcher\<close>

text \<open>
  A worker is at the \<open>select\<close> of its loop, at the head of the retry loop with the index of the
  next attempt, waiting for the backoff, calling \<open>Send\<close>, putting a notification on the
  dead-letter channel, or has returned.
\<close>

datatype wstate =
    WSelect
  | WLoop Notification int
  | WBackoff Notification int
  | WSend Notification int
  | WEnqueue Notification
  | WExit

text \<open>
  \<open>d_in\<close> is what the producer still has to offer, \<open>d_dead\<close> the buffer of the dead-letter
  channel, \<open>d_drained\<close> what its reader took. The fields \<open>g_...\<close> record history the code does not
  keep: successful sends with the index of the attempt, notifications given up on when
  cancelled during a backoff, and dead letters dropped when cancelled while enqueuing.
\<close>

record disp =
  d_in :: "Notification list"
  d_ctx_done :: bool
  d_workers :: "wstate list"
  d_dead :: "Notification list"
  d_drained :: "Notification list"
  d_dead_closed :: bool
  m_Sent :: "64 word"
  m_Failed :: "64 word"
  m_DeadLettered :: "64 word"
  g_sent :: "(Notification \<times> int) list"
  g_dropped :: "(Notification \<times> int) list"
  g_lost :: "Notification list"

definition disp_init :: "'l Dispatcher \<Rightarrow> Notification list \<Rightarrow> disp" where
  "disp_init cfg ns =
     \<lparr>d_in = ns, d_ctx_done = False, d_workers = replicate (nat (dp_workers cfg)) WSelect,
      d_dead = [], d_drained = [], d_dead_closed = False,
      m_Sent = 0, m_Failed = 0, m_DeadLettered = 0,
      g_sent = [], g_dropped = [], g_lost = []\<rparr>"

definition setw :: "nat \<Rightarrow> wstate \<Rightarrow> disp \<Rightarrow> disp" where
  "setw i w s = s\<lparr>d_workers := (d_workers s)[i := w]\<rparr>"

definition at :: "disp \<Rightarrow> nat \<Rightarrow> wstate \<Rightarrow> bool" where
  "at s i w \<longleftrightarrow> i < length (d_workers s) \<and> d_workers s ! i = w"

section \<open>Steps\<close>

text \<open>
  \<open>closes\<close> says whether the producer closes the input channel once everything is offered,
  \<open>drains\<close> whether somebody reads the dead-letter channel.
\<close>

inductive disp_step ::
  "'l Dispatcher \<Rightarrow> (Notification \<Rightarrow> int \<Rightarrow> bool \<Rightarrow> bool) \<Rightarrow> bool \<Rightarrow> bool \<Rightarrow> disp \<Rightarrow> disp \<Rightarrow> bool"
  for cfg outcome closes drains where
  worker_cancel: "at s i WSelect \<Longrightarrow> d_ctx_done s \<Longrightarrow>
    disp_step cfg outcome closes drains s (setw i WExit s)"
| worker_recv: "at s i WSelect \<Longrightarrow> d_in s = n # ns \<Longrightarrow>
    disp_step cfg outcome closes drains s (setw i (WLoop n 0) (s\<lparr>d_in := ns\<rparr>))"
| worker_closed: "at s i WSelect \<Longrightarrow> d_in s = [] \<Longrightarrow> closes \<Longrightarrow>
    disp_step cfg outcome closes drains s (setw i WExit s)"
| loop_first: "at s i (WLoop n a) \<Longrightarrow> a < dp_maxAttempts cfg \<Longrightarrow> \<not> a > 0 \<Longrightarrow>
    disp_step cfg outcome closes drains s (setw i (WSend n a) s)"
| loop_retry: "at s i (WLoop n a) \<Longrightarrow> a < dp_maxAttempts cfg \<Longrightarrow> a > 0 \<Longrightarrow>
    disp_step cfg outcome closes drains s (setw i (WBackoff n a) s)"
| backoff_cancel: "at s i (WBackoff n a) \<Longrightarrow> d_ctx_done s \<Longrightarrow>
    disp_step cfg outcome closes drains s
      (setw i WSelect (s\<lparr>g_dropped := g_dropped s @ [(n, a)]\<rparr>))"
| backoff_fire: "at s i (WBackoff n a) \<Longrightarrow>
    disp_step cfg outcome closes drains s (setw i (WSend n a) s)"
| send_ok: "at s i (WSend n a) \<Longrightarrow> outcome n a True \<Longrightarrow>
    disp_step cfg outcome closes drains s
      (setw i WSelect (s\<lparr>m_Sent := m_Sent s + 1, g_sent := g_sent s @ [(n, a)]\<rparr>))"
| send_err: "at s i (WSend n a) \<Longrightarrow> outcome n a False \<Longrightarrow>
    disp_step cfg outcome closes drains s
      (setw i (WLoop n (a + 1)) (s\<lparr>m_Failed := m_Failed s + 1\<rparr>))"
| loop_exhausted: "at s i (WLoop n a) \<Longrightarrow> \<not> a < dp_maxAttempts cfg \<Longrightarrow>
    disp_step cfg outcome closes drains s
      (setw i (WEnqueue n) (s\<lparr>m_DeadLettered := m_DeadLettered s + 1\<rparr>))"
| enqueue: "at s i (WEnqueue n) \<Longrightarrow> length (d_dead s) < dp_dead_cap cfg \<Longrightarrow>
    disp_step cfg outcome closes drains s (setw i WSelect (s\<lparr>d_dead := d_dead s @ [n]\<rparr>))"
| enqueue_cancel: "at s i (WEnqueue n) \<Longrightarrow> d_ctx_done s \<Longrightarrow>
    disp_step cfg outcome closes drains s (setw i WSelect (s\<lparr>g_lost := g_lost s @ [n]\<rparr>))"
| run_close: "\<forall>w \<in> set (d_workers s). w = WExit \<Longrightarrow> \<not> d_dead_closed s \<Longrightarrow>
    disp_step cfg outcome closes drains s (s\<lparr>d_dead_closed := True\<rparr>)"
| env_cancel: "\<not> d_ctx_done s \<Longrightarrow>
    disp_step cfg outcome closes drains s (s\<lparr>d_ctx_done := True\<rparr>)"
| env_drain: "drains \<Longrightarrow> d_dead s = n # ns \<Longrightarrow>
    disp_step cfg outcome closes drains s (s\<lparr>d_dead := ns, d_drained := d_drained s @ [n]\<rparr>)"

section \<open>The invariant\<close>

text \<open>What a worker holds, how many failed attempts it has behind it, dead letters in its hands.\<close>

fun held :: "wstate \<Rightarrow> Notification multiset" where
  "held (WLoop n a) = {#n#}"
| "held (WBackoff n a) = {#n#}"
| "held (WSend n a) = {#n#}"
| "held (WEnqueue n) = {#n#}"
| "held _ = {#}"

fun fails :: "'l Dispatcher \<Rightarrow> wstate \<Rightarrow> nat" where
  "fails cfg (WLoop n a) = nat a"
| "fails cfg (WBackoff n a) = nat a"
| "fails cfg (WSend n a) = nat a"
| "fails cfg (WEnqueue n) = nat (dp_maxAttempts cfg)"
| "fails cfg _ = 0"

fun dying :: "wstate \<Rightarrow> nat" where
  "dying (WEnqueue n) = 1"
| "dying _ = 0"

fun wstate_ok :: "'l Dispatcher \<Rightarrow> wstate \<Rightarrow> bool" where
  "wstate_ok cfg (WLoop n a) = (0 \<le> a \<and> a \<le> max 0 (dp_maxAttempts cfg))"
| "wstate_ok cfg (WBackoff n a) = (0 < a \<and> a < dp_maxAttempts cfg)"
| "wstate_ok cfg (WSend n a) = (0 \<le> a \<and> a < dp_maxAttempts cfg)"
| "wstate_ok cfg _ = True"

definition gone :: "disp \<Rightarrow> Notification list" where
  "gone s = d_drained s @ d_dead s @ g_lost s"

definition accounted :: "disp \<Rightarrow> Notification multiset" where
  "accounted s = mset (d_in s) + sum_list (map held (d_workers s)) + mset (map fst (g_sent s))
     + mset (gone s) + mset (map fst (g_dropped s))"

definition failures :: "'l Dispatcher \<Rightarrow> disp \<Rightarrow> nat" where
  "failures cfg s = sum_list (map (fails cfg) (d_workers s))
     + sum_list (map (nat \<circ> snd) (g_sent s)) + nat (dp_maxAttempts cfg) * length (gone s)
     + sum_list (map (nat \<circ> snd) (g_dropped s))"

definition deaths :: "disp \<Rightarrow> nat" where
  "deaths s = sum_list (map dying (d_workers s)) + length (gone s)"

definition disp_inv :: "'l Dispatcher \<Rightarrow> bool \<Rightarrow> Notification list \<Rightarrow> disp \<Rightarrow> bool" where
  "disp_inv cfg closes ns s \<longleftrightarrow>
     (\<forall>w \<in> set (d_workers s). wstate_ok cfg w)
     \<and> length (d_workers s) = nat (dp_workers cfg)
     \<and> accounted s = mset ns
     \<and> m_Sent s = of_nat (length (g_sent s))
     \<and> m_Failed s = of_nat (failures cfg s)
     \<and> m_DeadLettered s = of_nat (deaths s)
     \<and> (\<not> d_ctx_done s \<longrightarrow> g_dropped s = [] \<and> g_lost s = [])
     \<and> (d_dead_closed s \<longrightarrow> (\<forall>w \<in> set (d_workers s). w = WExit))
     \<and> (\<not> d_ctx_done s \<and> WExit \<in> set (d_workers s) \<longrightarrow> d_in s = [] \<and> closes)
     \<and> length (d_dead s) \<le> dp_dead_cap cfg"

lemma disp_init_inv: "disp_inv cfg closes ns (disp_init cfg ns)"
  by (auto simp: disp_inv_def disp_init_def accounted_def failures_def deaths_def gone_def
      sum_list_replicate)

text \<open>How a sum over the workers moves when one of them changes.\<close>

lemma at_mem: "at s i w \<Longrightarrow> w \<in> set (d_workers s)"
  by (auto simp: at_def in_set_conv_nth)

lemma sum_upd:
  "at s i w0 \<Longrightarrow> sum_list (map f ((d_workers s)[i := w])) = sum_list (map f (d_workers s)) + f w - (f w0 :: int)"
  by (auto simp: at_def sum_list_upd_int)

lemma count_accounted:
  "int (count (accounted s) x) = int (count (mset (d_in s)) x)
     + sum_list (map (\<lambda>w. int (count (held w) x)) (d_workers s))
     + int (count (mset (map fst (g_sent s))) x) + int (count (mset (gone s)) x)
     + int (count (mset (map fst (g_dropped s))) x)"
  by (simp add: accounted_def int_count_sum_list)

lemma int_failures:
  "int (failures cfg s) = sum_list (map (\<lambda>w. int (fails cfg w)) (d_workers s))
     + int (sum_list (map (nat \<circ> snd) (g_sent s))) + int (nat (dp_maxAttempts cfg)) * int (length (gone s))
     + int (sum_list (map (nat \<circ> snd) (g_dropped s)))"
  by (simp add: failures_def int_sum_list)

lemma int_deaths:
  "int (deaths s) = sum_list (map (\<lambda>w. int (dying w)) (d_workers s)) + int (length (gone s))"
  by (simp add: deaths_def int_sum_list)

lemma accounted_step:
  assumes "disp_step cfg outcome closes drains s t"
  shows "accounted t = accounted s"
proof (rule multiset_eqI)
  fix x
  from assms have "int (count (accounted t) x) = int (count (accounted s) x)"
    unfolding count_accounted
    by (cases rule: disp_step.cases) (auto simp: setw_def gone_def sum_upd)
  then show "count (accounted t) x = count (accounted s) x" by simp
qed

lemma exI3: "P a b c \<Longrightarrow> \<exists>x y z. P x y z"
  by blast

text \<open>The counters move together with the history.\<close>

lemma counters_step:
  assumes "disp_step cfg outcome closes drains s t" "\<forall>w \<in> set (d_workers s). wstate_ok cfg w"
  shows "\<exists>f d r. m_Failed t = m_Failed s + of_nat f \<and> failures cfg t = failures cfg s + f
     \<and> m_DeadLettered t = m_DeadLettered s + of_nat d \<and> deaths t = deaths s + d
     \<and> m_Sent t = m_Sent s + of_nat r \<and> length (g_sent t) = length (g_sent s) + r"
proof -
  have "\<exists>f d r. m_Failed t = m_Failed s + of_nat f \<and> int (failures cfg t) = int (failures cfg s) + int f
     \<and> m_DeadLettered t = m_DeadLettered s + of_nat d \<and> int (deaths t) = int (deaths s) + int d
     \<and> m_Sent t = m_Sent s + of_nat r \<and> length (g_sent t) = length (g_sent s) + r"
    using assms(1)
  proof (cases rule: disp_step.cases)
    case (send_ok i n a)
    show ?thesis
      by (rule exI3 [of _ 0 0 1])
        (use send_ok in \<open>auto simp: setw_def gone_def int_failures int_deaths sum_upd\<close>)
  next
    case (send_err i n a)
    from at_mem [OF send_err(2)] assms(2) have "0 \<le> a" by auto
    with send_err have "nat (a + 1) = Suc (nat a)" by simp
    show ?thesis
      by (rule exI3 [of _ 1 0 0])
        (use send_err \<open>nat (a + 1) = _\<close> in \<open>auto simp: setw_def gone_def int_failures int_deaths sum_upd\<close>)
  next
    case (loop_exhausted i n a)
    from at_mem [OF loop_exhausted(2)] assms(2) loop_exhausted(3)
    have "nat a = nat (dp_maxAttempts cfg)" by fastforce
    show ?thesis
      by (rule exI3 [of _ 0 1 0])
        (use loop_exhausted \<open>nat a = _\<close> in \<open>auto simp: setw_def gone_def int_failures int_deaths sum_upd\<close>)
  qed (rule exI3 [of _ 0 0 0], insert assms(2),
       fastforce simp: setw_def gone_def int_failures int_deaths sum_upd algebra_simps dest: at_mem)+
  then show ?thesis by (simp flip: of_nat_add add: of_nat_eq_iff)
qed

lemma at_ok: "at s i w \<Longrightarrow> \<forall>w \<in> set (d_workers s). wstate_ok cfg w \<Longrightarrow> wstate_ok cfg w"
  by (auto dest: at_mem)

lemma wstate_ok_step:
  assumes "disp_step cfg outcome closes drains s t" "\<forall>w \<in> set (d_workers s). wstate_ok cfg w"
  shows "\<forall>w \<in> set (d_workers t). wstate_ok cfg w"
  using assms
  by (cases rule: disp_step.cases)
    (auto simp: setw_def dest!: set_upd at_ok)

lemma control_step:
  assumes step: "disp_step cfg outcome closes drains s t" and inv: "disp_inv cfg closes ns s"
  shows "(\<not> d_ctx_done t \<longrightarrow> g_dropped t = [] \<and> g_lost t = [])
     \<and> (d_dead_closed t \<longrightarrow> (\<forall>w \<in> set (d_workers t). w = WExit))
     \<and> (\<not> d_ctx_done t \<and> WExit \<in> set (d_workers t) \<longrightarrow> d_in t = [] \<and> closes)
     \<and> length (d_dead t) \<le> dp_dead_cap cfg \<and> length (d_workers t) = nat (dp_workers cfg)"
  using step
proof (cases rule: disp_step.cases)
  case (worker_recv i n ns)
  from worker_recv(2,3) inv have "WExit \<in> set (d_workers s) \<longrightarrow> d_ctx_done s"
    by (auto simp: disp_inv_def)
  with worker_recv inv show ?thesis
    by (auto simp: setw_def disp_inv_def dest!: set_upd dest: at_mem)
qed (use inv in \<open>auto simp: setw_def disp_inv_def dest!: set_upd dest: at_mem\<close>)

lemma disp_inv_step:
  assumes "disp_inv cfg closes ns s" "disp_step cfg outcome closes drains s t"
  shows "disp_inv cfg closes ns t"
proof -
  from assms(1) have ok: "\<forall>w \<in> set (d_workers s). wstate_ok cfg w" by (simp add: disp_inv_def)
  from counters_step [OF assms(2) ok]
  have "m_Sent t = of_nat (length (g_sent t))" "m_Failed t = of_nat (failures cfg t)"
    "m_DeadLettered t = of_nat (deaths t)"
    using assms(1) by (auto simp: disp_inv_def)
  with wstate_ok_step [OF assms(2) ok] control_step [OF assms(2,1)] accounted_step [OF assms(2)]
    assms(1)
  show ?thesis by (simp add: disp_inv_def)
qed

section \<open>Termination and progress\<close>

text \<open>Every step uses up work: an attempt, an item, a place in a channel, a worker, a signal.\<close>

fun wwork :: "'l Dispatcher \<Rightarrow> wstate \<Rightarrow> int" where
  "wwork cfg WSelect = 1"
| "wwork cfg (WLoop n a) = 4 + 3 * (max 0 (dp_maxAttempts cfg) - a)"
| "wwork cfg (WBackoff n a) = 3 + 3 * (max 0 (dp_maxAttempts cfg) - a)"
| "wwork cfg (WSend n a) = 2 + 3 * (max 0 (dp_maxAttempts cfg) - a)"
| "wwork cfg (WEnqueue n) = 3"
| "wwork cfg WExit = 0"

definition disp_work :: "'l Dispatcher \<Rightarrow> disp \<Rightarrow> int" where
  "disp_work cfg s = sum_list (map (wwork cfg) (d_workers s))
     + (4 + 3 * max 0 (dp_maxAttempts cfg)) * int (length (d_in s)) + int (length (d_dead s))
     + (if d_ctx_done s then 0 else 1) + (if d_dead_closed s then 0 else 1)"

lemma wwork_nonneg: "wstate_ok cfg w \<Longrightarrow> 0 \<le> wwork cfg w"
  by (cases w) auto

lemma disp_work_nonneg: "\<forall>w \<in> set (d_workers s). wstate_ok cfg w \<Longrightarrow> 0 \<le> disp_work cfg s"
  by (auto simp: disp_work_def intro!: add_nonneg_nonneg sum_list_nonneg wwork_nonneg)

lemma disp_work_step:
  assumes "disp_step cfg outcome closes drains s t" "\<forall>w \<in> set (d_workers s). wstate_ok cfg w"
  shows "disp_work cfg t < disp_work cfg s"
  using assms
  by (cases rule: disp_step.cases)
    (auto simp: setw_def disp_work_def sum_upd algebra_simps split: if_splits dest: at_ok)

text \<open>
  The worker system as a transition system: \<open>disp_inv\<close> is its invariant and the remaining
  work its measure.
\<close>

abbreviation disp_run where
  "disp_run cfg outcome closes drains \<equiv> (disp_step cfg outcome closes drains)\<^sup>*\<^sup>*"

interpretation dispatch: terminating_system "disp_step cfg outcome closes drains"
    "disp_init cfg ns" "disp_inv cfg closes ns" "\<lambda>s. nat (disp_work cfg s)"
  for cfg outcome closes drains ns
proof (unfold_locales, goal_cases)
  case 1
  show ?case by (rule disp_init_inv)
next
  case (2 s t)
  then show ?case by (rule disp_inv_step)
next
  case (3 s t)
  then have "\<forall>w \<in> set (d_workers s). wstate_ok cfg w" by (simp add: disp_inv_def)
  with 3 disp_inv_step [OF 3] show ?case
    using disp_work_step [of cfg outcome closes drains s t] disp_work_nonneg [of t cfg]
    by (simp add: disp_inv_def)
qed

text \<open>
  A worker that has not returned can move, unless it waits for room on the dead-letter channel
  or for the producer; no cancellation is needed for that.
\<close>

lemma setw_ctx [simp]: "d_ctx_done (setw i w s) = d_ctx_done s"
  by (simp add: setw_def)

lemma worker_moves:
  assumes "at s i w" "w \<noteq> WExit"
    and "\<forall>n a. \<exists>r. outcome n a r"
    and "closes \<or> d_ctx_done s \<or> d_in s \<noteq> []"
    and "(\<exists>n. w = WEnqueue n) \<Longrightarrow> d_ctx_done s \<or> length (d_dead s) < dp_dead_cap cfg"
  shows "\<exists>t. disp_step cfg outcome closes drains s t \<and> d_ctx_done t = d_ctx_done s"
proof -
  have moves: ?thesis if "disp_step cfg outcome closes drains s t" "d_ctx_done t = d_ctx_done s" for t
    using that by blast
  show ?thesis
  proof (cases w)
    case WSelect
    note w = assms(1) [unfolded WSelect]
    show ?thesis
    proof (cases "d_in s")
      case Nil
      with assms(4) consider "closes" | "d_ctx_done s" by blast
      then show ?thesis
        by cases (rule moves [OF disp_step.worker_closed [OF w Nil]], assumption, simp,
            rule moves [OF disp_step.worker_cancel [OF w]], assumption, simp)
    next
      case (Cons n ns)
      show ?thesis by (rule moves [OF disp_step.worker_recv [OF w Cons]]) simp
    qed
  next
    case (WLoop n a)
    note w = assms(1) [unfolded WLoop]
    consider "a < dp_maxAttempts cfg" "\<not> a > 0" | "a < dp_maxAttempts cfg" "a > 0" | "\<not> a < dp_maxAttempts cfg"
      by blast
    then show ?thesis
      by cases (rule moves [OF disp_step.loop_first [OF w]], assumption+, simp,
          rule moves [OF disp_step.loop_retry [OF w]], assumption+, simp,
          rule moves [OF disp_step.loop_exhausted [OF w]], assumption+, simp)
  next
    case (WBackoff n a)
    show ?thesis by (rule moves [OF disp_step.backoff_fire [OF assms(1) [unfolded WBackoff]]]) simp
  next
    case (WSend n a)
    note w = assms(1) [unfolded WSend]
    obtain r where "outcome n a r" using assms(3) by blast
    then show ?thesis
      by (cases r) (simp, rule moves [OF disp_step.send_ok [OF w]], assumption, simp,
          simp, rule moves [OF disp_step.send_err [OF w]], assumption, simp)
  next
    case (WEnqueue n)
    note w = assms(1) [unfolded WEnqueue]
    consider "length (d_dead s) < dp_dead_cap cfg" | "d_ctx_done s" using assms(5) WEnqueue by blast
    then show ?thesis
      by cases (rule moves [OF disp_step.enqueue [OF w]], assumption, simp,
          rule moves [OF disp_step.enqueue_cancel [OF w]], assumption, simp)
  qed (use assms(2) in simp)
qed

text \<open>When nothing but a cancellation can happen any more, the dead-letter channel has been closed.\<close>

lemma stuck_is_closed:
  assumes "\<forall>u. disp_step cfg outcome closes drains s u \<longrightarrow> d_ctx_done u \<noteq> d_ctx_done s"
    and "\<forall>n a. \<exists>r. outcome n a r" and "closes \<or> d_ctx_done s"
    and "d_ctx_done s \<or> (drains \<and> 0 < dp_dead_cap cfg)"
  shows "d_dead_closed s"
proof -
  have room: "d_ctx_done s \<or> length (d_dead s) < dp_dead_cap cfg"
  proof (cases "d_dead s")
    case (Cons n ns)
    with assms(1,4) disp_step.env_drain [of drains s n ns cfg outcome closes]
    show ?thesis by auto
  qed (use assms(4) in auto)
  have "w = WExit" if "w \<in> set (d_workers s)" for w
  proof (rule ccontr)
    assume "w \<noteq> WExit"
    from that obtain i where "at s i w" by (auto simp: at_def in_set_conv_nth)
    then have "\<exists>t. disp_step cfg outcome closes drains s t \<and> d_ctx_done t = d_ctx_done s"
      by (rule worker_moves) (use \<open>w \<noteq> WExit\<close> assms(2,3) room in auto)
    with assms(1) show False by blast
  qed
  with disp_step.run_close [of s cfg outcome closes drains] spec [OF assms(1), of "s\<lparr>d_dead_closed := True\<rparr>"]
  show ?thesis by auto
qed

text \<open>Left alone, a run gets there.\<close>

lemma reaches_closed:
  assumes "disp_inv cfg closes ns s" and "\<forall>n a. \<exists>r. outcome n a r"
    and "closes \<and> drains \<and> 0 < dp_dead_cap cfg \<or> d_ctx_done s"
  shows "\<exists>t. disp_run cfg outcome closes drains s t \<and> d_dead_closed t \<and> d_ctx_done t = d_ctx_done s"
proof -
  from dispatch.reaches_end_keeping [OF assms(1), of outcome drains d_ctx_done]
  obtain t where t: "disp_run cfg outcome closes drains s t" "d_ctx_done t = d_ctx_done s"
    "\<forall>u. disp_step cfg outcome closes drains t u \<longrightarrow> d_ctx_done u \<noteq> d_ctx_done t" by blast
  have "d_dead_closed t" by (rule stuck_is_closed [OF t(3) assms(2)]) (use assms(3) t(2) in auto)
  with t show ?thesis by blast
qed

text \<open>An open input keeps a run that is not cancelled from its end.\<close>

lemma open_not_closed:
  assumes "disp_inv cfg False ns s" and "\<not> d_ctx_done s" and "0 < dp_workers cfg"
  shows "\<not> d_dead_closed s"
proof
  assume "d_dead_closed s"
  with assms(1) have "\<forall>w \<in> set (d_workers s). w = WExit" by (simp add: disp_inv_def)
  moreover have "d_workers s \<noteq> []" using assms(1,3) by (auto simp: disp_inv_def)
  ultimately have "WExit \<in> set (d_workers s)" by (metis last_in_set)
  with assms(1,2) show False by (simp add: disp_inv_def)
qed

section \<open>Properties\<close>

text \<open>C1. Conservation and exact metrics: in every reachable state of the dispatcher, with any
  interleaving, scheduler, sender and cancellation, each notification of the input is in exactly
  one place (still offered, held by one worker, sent, dead-lettered, or given up because of the
  cancellation), none is duplicated or lost, and the three counters are exactly the number of
  successful sends, of failed attempts and of exhausted notifications.\<close>

theorem dispatcher_accounting:
  assumes "disp_run cfg outcome closes drains (disp_init cfg ns) s"
  shows "mset (d_in s) + sum_list (map held (d_workers s)) + mset (map fst (g_sent s))
           + mset (d_drained s @ d_dead s @ g_lost s) + mset (map fst (g_dropped s)) = mset ns
         \<and> m_Sent s = of_nat (length (g_sent s))
         \<and> m_Failed s = of_nat (sum_list (map (fails cfg) (d_workers s))
             + sum_list (map (nat \<circ> snd) (g_sent s))
             + nat (dp_maxAttempts cfg) * length (d_drained s @ d_dead s @ g_lost s)
             + sum_list (map (nat \<circ> snd) (g_dropped s)))
         \<and> m_DeadLettered s = of_nat (sum_list (map dying (d_workers s))
             + length (d_drained s @ d_dead s @ g_lost s))
         \<and> (\<not> d_ctx_done s \<longrightarrow> g_dropped s = [] \<and> g_lost s = [])"
  using dispatch.reach_inv [OF assms]
  by (simp add: disp_inv_def accounted_def failures_def deaths_def gone_def)

lemma sum_held_exit: "\<forall>w \<in> set ws. w = WExit \<Longrightarrow> sum_list (map held ws) = {#}"
  by (induction ws) auto

lemma sum_fails_exit: "\<forall>w \<in> set ws. w = WExit \<Longrightarrow> sum_list (map (fails cfg) ws) = 0"
  by (induction ws) auto

lemma sum_dying_exit: "\<forall>w \<in> set ws. w = WExit \<Longrightarrow> sum_list (map dying ws) = 0"
  by (induction ws) auto

lemma closed_run_accounts:
  assumes "disp_run cfg outcome closes drains (disp_init cfg ns) s"
    and "d_dead_closed s" and "\<not> d_ctx_done s" and "0 < dp_workers cfg"
  shows "mset (map fst (g_sent s)) + mset (d_drained s @ d_dead s) = mset ns
         \<and> m_Sent s = of_nat (length (g_sent s))
         \<and> m_DeadLettered s = of_nat (length (d_drained s @ d_dead s))
         \<and> m_Sent s + m_DeadLettered s = of_nat (length ns)
         \<and> m_Failed s = of_nat (sum_list (map (nat \<circ> snd) (g_sent s))
             + nat (dp_maxAttempts cfg) * length (d_drained s @ d_dead s))"
proof -
  have inv: "disp_inv cfg closes ns s" by (rule dispatch.reach_inv [OF assms(1)])
  then have exits: "\<forall>w \<in> set (d_workers s). w = WExit" using assms(2) by (simp add: disp_inv_def)
  moreover from inv assms(4) have "d_workers s \<noteq> []" by (auto simp: disp_inv_def)
  ultimately have "WExit \<in> set (d_workers s)" by (metis last_in_set)
  with inv assms(3) have "d_in s = []" "g_dropped s = []" "g_lost s = []"
    by (auto simp: disp_inv_def)
  with inv have all: "mset (map fst (g_sent s)) + mset (d_drained s @ d_dead s) = mset ns"
    by (simp add: disp_inv_def accounted_def gone_def sum_held_exit [OF exits])
  then have "size (mset (map fst (g_sent s)) + mset (d_drained s @ d_dead s)) = length ns"
    by (metis size_mset)
  then have "length ns = length (g_sent s) + length (d_drained s @ d_dead s)" by simp
  with inv all show ?thesis using \<open>g_dropped s = []\<close> \<open>g_lost s = []\<close>
    by (simp add: disp_inv_def failures_def deaths_def gone_def sum_fails_exit [OF exits]
        sum_dying_exit [OF exits])
qed

text \<open>C7. A run that was not cancelled handles everything: once \<open>Run\<close> has returned (it has closed
  the dead-letter channel), every notification was either sent or dead-lettered, exactly once,
  \<open>Sent + DeadLettered\<close> is the number of notifications, and a dead letter stands for exactly
  \<open>maxAttempts\<close> failed attempts.\<close>

theorem dispatcher_drains:
  assumes "disp_run cfg outcome closes drains (disp_init cfg ns) s"
    and "d_dead_closed s" and "\<not> d_ctx_done s" and "0 < dp_workers cfg"
  shows "mset (map fst (g_sent s)) + mset (d_drained s @ d_dead s) = mset ns
         \<and> m_Sent s = of_nat (length (g_sent s))
         \<and> m_DeadLettered s = of_nat (length (d_drained s @ d_dead s))
         \<and> m_Sent s + m_DeadLettered s = of_nat (length ns)
         \<and> m_Failed s = of_nat (sum_list (map (nat \<circ> snd) (g_sent s))
             + nat (dp_maxAttempts cfg) * length (d_drained s @ d_dead s))"
  by (rule closed_run_accounts [OF assms])

text \<open>C15 (liveness). When \<open>Run\<close> finishes, provided every send returns. No schedule runs for ever. If the input
  channel gets closed and the dead-letter channel has room and a reader, or if the context has been cancelled,
  then from the state reached the end, with the dead-letter channel closed, can be reached without a
  (further) cancellation, and a schedule that can do nothing but be cancelled is there (no deadlock). While the
  input channel stays open and there is no cancellation, a dispatcher with a worker does not finish.\<close>

theorem dispatcher_terminates:
  assumes "disp_run cfg outcome closes drains (disp_init cfg ns) s" and "\<forall>n a. \<exists>r. outcome n a r"
  shows "(closes \<and> drains \<and> 0 < dp_dead_cap cfg \<or> d_ctx_done s \<longrightarrow>
        (\<exists>t. disp_run cfg outcome closes drains s t \<and> d_dead_closed t \<and> d_ctx_done t = d_ctx_done s)
        \<and> ((\<forall>t. disp_step cfg outcome closes drains s t \<longrightarrow> d_ctx_done t \<noteq> d_ctx_done s) \<longrightarrow> d_dead_closed s))
    \<and> (\<not> closes \<and> \<not> d_ctx_done s \<and> 0 < dp_workers cfg \<longrightarrow> \<not> d_dead_closed s)
    \<and> \<not> (\<exists>f. f 0 = disp_init cfg ns
          \<and> (\<forall>k. disp_step cfg outcome closes drains (f k) (f (Suc k))))"
proof (intro conjI impI)
  have inv: "disp_inv cfg closes ns s" by (rule dispatch.reach_inv [OF assms(1)])
  show "\<exists>t. disp_run cfg outcome closes drains s t \<and> d_dead_closed t \<and> d_ctx_done t = d_ctx_done s"
    if "closes \<and> drains \<and> 0 < dp_dead_cap cfg \<or> d_ctx_done s"
    by (rule reaches_closed [OF inv assms(2) that])
  show "d_dead_closed s" if "closes \<and> drains \<and> 0 < dp_dead_cap cfg \<or> d_ctx_done s"
    and "\<forall>t. disp_step cfg outcome closes drains s t \<longrightarrow> d_ctx_done t \<noteq> d_ctx_done s"
    by (rule stuck_is_closed [OF that(2) assms(2)]) (use that(1) in auto)
  show "\<not> d_dead_closed s" if "\<not> closes \<and> \<not> d_ctx_done s \<and> 0 < dp_workers cfg"
    by (rule open_not_closed) (use inv that in auto)
  show "\<not> (\<exists>f. f 0 = disp_init cfg ns \<and> (\<forall>k. disp_step cfg outcome closes drains (f k) (f (Suc k))))"
    using dispatch.no_infinite_run by blast
qed

section \<open>A concrete run\<close>

text \<open>One worker, two attempts, a sender that always fails: the notification is dead-lettered.\<close>

definition demo_cfg :: "unit Dispatcher" where
  "demo_cfg = dispatcher_New () [WithWorkers 1, WithMaxAttempts 2]"

definition demo_note :: Notification where
  "demo_note = \<lparr>n_ID = ''n1'', n_CustomerID = ''cus_0001'', n_Channel = ''email'', n_Body = ''hi''\<rparr>"

definition demo_end :: disp where
  "demo_end = \<lparr>d_in = [], d_ctx_done = False, d_workers = [WExit], d_dead = [demo_note],
     d_drained = [], d_dead_closed = True, m_Sent = 0, m_Failed = 2, m_DeadLettered = 1,
     g_sent = [], g_dropped = [], g_lost = []\<rparr>"

lemma demo_run:
  "disp_run demo_cfg (\<lambda>n a r. \<not> r) True True (disp_init demo_cfg [demo_note]) demo_end"
proof -
  let ?st = "disp_step demo_cfg (\<lambda>n a r. \<not> r) True True"
  let ?s0 = "disp_init demo_cfg [demo_note]"
  let ?s1 = "setw 0 (WLoop demo_note 0) (?s0\<lparr>d_in := []\<rparr>)"
  let ?s2 = "setw 0 (WSend demo_note 0) ?s1"
  let ?s3 = "setw 0 (WLoop demo_note (0 + 1)) (?s2\<lparr>m_Failed := m_Failed ?s2 + 1\<rparr>)"
  let ?s4 = "setw 0 (WBackoff demo_note (0 + 1)) ?s3"
  let ?s5 = "setw 0 (WSend demo_note (0 + 1)) ?s4"
  let ?s6 = "setw 0 (WLoop demo_note (0 + 1 + 1)) (?s5\<lparr>m_Failed := m_Failed ?s5 + 1\<rparr>)"
  let ?s7 = "setw 0 (WEnqueue demo_note) (?s6\<lparr>m_DeadLettered := m_DeadLettered ?s6 + 1\<rparr>)"
  let ?s8 = "setw 0 WSelect (?s7\<lparr>d_dead := d_dead ?s7 @ [demo_note]\<rparr>)"
  let ?s9 = "setw 0 WExit ?s8"
  let ?s10 = "?s9\<lparr>d_dead_closed := True\<rparr>"
  note more = rtranclp_step [where r = ?st]
  note eval = at_def setw_def disp_init_def demo_cfg_def dispatcher_New_def WithWorkers_def
    WithMaxAttempts_def
  have a0: "?st ?s0 ?s1" by (rule disp_step.worker_recv) (simp_all add: eval)
  have a1: "?st ?s1 ?s2" by (rule disp_step.loop_first) (simp_all add: eval)
  have a2: "?st ?s2 ?s3" by (rule disp_step.send_err) (simp_all add: eval)
  have a3: "?st ?s3 ?s4" by (rule disp_step.loop_retry) (simp_all add: eval)
  have a4: "?st ?s4 ?s5" by (rule disp_step.backoff_fire) (simp_all add: eval)
  have a5: "?st ?s5 ?s6" by (rule disp_step.send_err) (simp_all add: eval)
  have a6: "?st ?s6 ?s7" by (rule disp_step.loop_exhausted) (auto simp: eval)
  have a7: "?st ?s7 ?s8" by (rule disp_step.enqueue) (simp_all add: eval)
  have a8: "?st ?s8 ?s9" by (rule disp_step.worker_closed) (simp_all add: eval)
  have a9: "?st ?s9 ?s10" by (rule disp_step.run_close) (simp_all add: eval)
  have "(?st)\<^sup>*\<^sup>* ?s0 ?s10"
    by (rule a0 [THEN more], rule a1 [THEN more], rule a2 [THEN more],
        rule a3 [THEN more], rule a4 [THEN more], rule a5 [THEN more],
        rule a6 [THEN more], rule a7 [THEN more], rule a8 [THEN more],
        rule a9 [THEN more], rule rtranclp.rtrancl_refl)
  moreover have "?s10 = demo_end" by (simp add: eval demo_end_def)
  ultimately show ?thesis by (simp only:)
qed

theorem dispatcher_accounting_witness:
  "m_Failed demo_end = of_nat (sum_list (map (fails demo_cfg) [WExit]) + 0
     + nat (dp_maxAttempts demo_cfg) * length [demo_note] + 0)"
  using dispatcher_accounting [OF demo_run] by (simp add: demo_end_def)

theorem dispatcher_drains_witness:
  "mset (d_dead demo_end) = {#demo_note#} \<and> m_Failed demo_end = 2
     \<and> m_Sent demo_end + m_DeadLettered demo_end = of_nat (length [demo_note])"
  using dispatcher_drains [OF demo_run]
  by (simp add: demo_end_def demo_cfg_def dispatcher_New_def WithWorkers_def WithMaxAttempts_def)

text \<open>The same dispatcher at its start, with the input open and nobody to read the dead letters, is not finished;
  once cancelled, it gets to its end; the run above, with both, has got there.\<close>

theorem dispatcher_terminates_witness:
  "\<not> d_dead_closed (disp_init demo_cfg [demo_note])
    \<and> (\<exists>t. disp_run demo_cfg (\<lambda>n a r. \<not> r) False False ((disp_init demo_cfg [demo_note])\<lparr>d_ctx_done := True\<rparr>) t
          \<and> d_dead_closed t)
    \<and> (\<exists>t. disp_run demo_cfg (\<lambda>n a r. \<not> r) True True demo_end t \<and> d_dead_closed t)"
proof (intro conjI)
  let ?s = "disp_init demo_cfg [demo_note]"
  have outcome: "\<forall>n a. \<exists>r. (\<lambda>n a r. \<not> r) n a r" by auto
  have "disp_run demo_cfg (\<lambda>n a r. \<not> r) False False ?s ?s" by simp
  from dispatcher_terminates [OF this outcome] show "\<not> d_dead_closed ?s"
    by (simp add: disp_init_def demo_cfg_def dispatcher_New_def WithWorkers_def WithMaxAttempts_def)
  have "disp_step demo_cfg (\<lambda>n a r. \<not> r) False False ?s (?s\<lparr>d_ctx_done := True\<rparr>)"
    by (rule disp_step.env_cancel) (simp add: disp_init_def)
  then have "disp_run demo_cfg (\<lambda>n a r. \<not> r) False False ?s (?s\<lparr>d_ctx_done := True\<rparr>)" by simp
  from dispatcher_terminates [OF this outcome]
  show "\<exists>t. disp_run demo_cfg (\<lambda>n a r. \<not> r) False False (?s\<lparr>d_ctx_done := True\<rparr>) t \<and> d_dead_closed t" by auto
  have "0 < dp_dead_cap demo_cfg"
    by (simp add: demo_cfg_def dispatcher_New_def WithWorkers_def WithMaxAttempts_def)
  with dispatcher_terminates [OF demo_run outcome]
  show "\<exists>t. disp_run demo_cfg (\<lambda>n a r. \<not> r) True True demo_end t \<and> d_dead_closed t" by auto
qed

section \<open>The backoff\<close>

text \<open>Remark. The waits grow exponentially: before attempt \<open>a\<close> (from 1) a worker waits
  \<open>baseBackoff * 2^(a-1)\<close>, twice the wait before, as long as that fits 64 bits; with the default
  10 ms base it does for the first 40 retries, and the 41st wait has wrapped to a negative
  duration, which is no wait at all.\<close>

theorem backoff_doubles:
  assumes "0 < a" and "0 \<le> dp_baseBackoff d" and "dp_baseBackoff d * 2 ^ nat a \<le> max_int64"
    and "a \<le> 61"
  shows "backoff d a = dp_baseBackoff d * 2 ^ nat (a - 1)
    \<and> backoff d (a + 1) = 2 * backoff d a
    \<and> backoff (dispatcher_New l []) 40 = 10000000 * 2 ^ 39
    \<and> backoff (dispatcher_New l []) 41 < 0"
proof -
  have p: "(2::int) ^ nat a \<le> 2 ^ 61" using assms(4) by (intro power_increasing) auto
  have half: "(2::int) ^ nat a = 2 * 2 ^ nat (a - 1)"
    using assms(1) by (metis Suc_nat_eq_nat_zadd1 add.commute diff_add_cancel power_Suc zle_diff1_eq)
  have le: "dp_baseBackoff d * 2 ^ nat (a - 1) \<le> dp_baseBackoff d * 2 ^ nat a"
    using assms(2) half by (simp add: mult_left_mono)
  have shift: "shl64 1 (a - 1) = 2 ^ nat (a - 1)" "shl64 1 a = 2 ^ nat a"
    using p half by (auto simp: shl64_def max_int64_def intro!: wrap64_nonneg)
  have sub: "sub64 a 1 = a - 1" "sub64 (a + 1) 1 = a"
    using assms(1,4) by (auto simp: sub64_def int64_ok_iff)
  have "backoff d a = dp_baseBackoff d * 2 ^ nat (a - 1)"
    using le assms(2,3) by (simp add: backoff_def sub shift mul64_def wrap64_nonneg)
  moreover have "backoff d (a + 1) = dp_baseBackoff d * 2 ^ nat a"
    using assms(2,3) by (simp add: backoff_def sub shift mul64_def wrap64_nonneg)
  moreover have "backoff (dispatcher_New l []) 40 = 10000000 * 2 ^ 39"
    "backoff (dispatcher_New l []) 41 < 0"
    by (simp_all add: backoff_def dispatcher_New_def go_arith wrap64_def)
  ultimately show ?thesis by (simp only: half) simp
qed

theorem backoff_doubles_witness:
  "backoff demo_cfg 1 = 10000000 \<and> backoff demo_cfg 2 = 20000000"
  using backoff_doubles [of 1 demo_cfg "()"]
  by (simp add: demo_cfg_def dispatcher_New_def WithWorkers_def WithMaxAttempts_def max_int64_def)

end
