(* ===== verification/Go_Fmt.thy ===== *)
theory Go_Fmt
  imports Go_Maps Go_Strings "HOL-Library.Char_ord" "HOL-Library.List_Lexorder"
begin

text \<open>
  \<open>%v\<close> of a map: \<open>map[k:v ...]\<close> in the order of the keys, which is bytewise for strings.
\<close>

fun join_with :: "string \<Rightarrow> string list \<Rightarrow> string" where
  "join_with sep [] = []"
| "join_with sep [s] = s"
| "join_with sep (s # t # ss) = s @ sep @ join_with sep (t # ss)"

definition fmt_map :: "('k :: linorder \<Rightarrow> string) \<Rightarrow> ('v \<Rightarrow> string) \<Rightarrow> ('k, 'v) gomap \<Rightarrow> string" where
  "fmt_map key val m = ''map['' @ join_with '' ''
     (map (\<lambda>k. key k @ '':'' @ val (the (map_of m k))) (sort (map fst m))) @ '']''"

text \<open>What is printed depends on the map's entries only.\<close>

lemma fmt_map_cong:
  assumes "map_wf m" and "map_wf m'" and "map_of m = map_of m'"
  shows "fmt_map key val m = fmt_map key val m'"
proof -
  have "set (map fst m) = set (map fst m')" using assms(3) by (metis dom_map_of_conv_image_fst list.set_map)
  then have "sort (map fst m) = sort (map fst m')"
    using assms(1,2) by (metis sorted_list_of_set_sort_remdups distinct_remdups_id map_wf_def)
  with assms(3) show ?thesis by (simp add: fmt_map_def)
qed

end
