(* ===== verification/M03_Demo.thy ===== *)
theory M03_Demo
  imports M03_Dispatcher Go_Fmt
begin

text \<open>
  The command of \<open>m03-concurrency\<close>: fifty notifications, six workers and a sender that fails when the
  context is done or at random. The text of \<open>cmd/demo\<close> and \<open>solution-cmd/demo\<close> is the same but for the
  package \<open>dispatcher\<close> it imports, which is an argument of the model.
\<close>

section \<open>The command, for any package\<close>

text \<open>\<open>roll\<close> is the draw of the random number, in percent.\<close>

definition sim_Send :: "bool \<Rightarrow> string \<Rightarrow> int \<Rightarrow> string option" where
  "sim_Send ctx_done ctx_err roll =
     (if ctx_done then Some ctx_err
      else if roll < 25 then Some ''simulated transient failure''
      else None)"

definition sim_outcome :: "Notification \<Rightarrow> int \<Rightarrow> bool \<Rightarrow> bool" where
  "sim_outcome n a r \<longleftrightarrow> (\<exists>ctx_done ctx_err roll. r = (sim_Send ctx_done ctx_err roll = None))"

definition m03_demo_items :: "Notification list" where
  "m03_demo_items =
     map (\<lambda>i. \<lparr>n_ID = ''n'' @ fmt_0d 3 (int i), n_CustomerID = ''c'' @ fmt_0d 3 (int i mod 10),
               n_Channel = ''email'', n_Body = ''Welcome to Pulse!''\<rparr>) [0..<50]"

text \<open>
  What the command uses of the package. A sender is given by the results its calls may have.
  \<open>p3_Run d ns dl m\<close>: a run of \<open>d\<close> on the input \<open>ns\<close>, which is then closed, may return with the
  metrics \<open>m\<close> after \<open>dl\<close> has been read from \<open>DeadLetters()\<close>.
\<close>

type_synonym m03_sender = "Notification \<Rightarrow> int \<Rightarrow> bool \<Rightarrow> bool"

record m03_metrics =
  r3_Sent :: int
  r3_Failed :: int
  r3_DeadLettered :: int

record ('l, 'o, 'd) m03_packages =
  p3_WithWorkers :: "int \<Rightarrow> 'o"
  p3_WithMaxAttempts :: "int \<Rightarrow> 'o"
  p3_WithBackoff :: "int \<Rightarrow> 'o"
  p3_WithLogger :: "'l \<Rightarrow> 'o"
  p3_New :: "m03_sender \<Rightarrow> 'o list \<Rightarrow> 'd"
  p3_Run :: "'d \<Rightarrow> Notification list \<Rightarrow> Notification list \<Rightarrow> m03_metrics \<Rightarrow> bool"

definition l03_dispatcher :: "('l, 'o, 'd) m03_packages \<Rightarrow> 'l \<Rightarrow> 'd" where
  "l03_dispatcher p log =
     p3_New p sim_outcome [p3_WithWorkers p 6, p3_WithMaxAttempts p 4, p3_WithBackoff p 5000000, p3_WithLogger p log]"

text \<open>A line of the goroutine that drains the dead letters, and what \<open>main\<close> prints at the end.\<close>

definition m03_dead_line :: "Notification \<Rightarrow> string \<times> (string \<times> string) list" where
  "m03_dead_line n = (''dead-lettered'', [(''id'', n_ID n), (''customer'', n_CustomerID n)])"

definition m03_demo_metrics :: "string \<Rightarrow> m03_metrics \<Rightarrow> string" where
  "m03_demo_metrics elapsed m =
     nl @ ''=== dispatch complete in '' @ elapsed @ '' ==='' @ nl
     @ ''sent='' @ fmt_d (r3_Sent m) @ ''  failed_attempts='' @ fmt_d (r3_Failed m)
     @ ''  dead_lettered='' @ fmt_d (r3_DeadLettered m) @ nl"

inductive l03_demo_main ::
  "('l, 'o, 'd) m03_packages \<Rightarrow> 'l \<Rightarrow> string \<Rightarrow> (string \<times> (string \<times> string) list) list \<Rightarrow> string \<Rightarrow> bool"
  for p log elapsed where
  "p3_Run p (l03_dispatcher p log) m03_demo_items dl m
    \<Longrightarrow> l03_demo_main p log elapsed (map m03_dead_line dl) (m03_demo_metrics elapsed m)"

inductive_simps l03_demo_main_iff: "l03_demo_main p log elapsed lines out"

section \<open>What the exercise asks of the package\<close>

text \<open>
  A run that is not cancelled and whose dead letters are read returns when every send does, and
  then each notification was either sent or is a dead letter, for which it took all its
  attempts; the counters fit 64 bits.
\<close>

definition m03_accounts :: "int \<Rightarrow> Notification list \<Rightarrow> Notification list \<Rightarrow> m03_metrics \<Rightarrow> bool" where
  "m03_accounts attempts ns dl m \<longleftrightarrow>
     (\<exists>sent dead. mset sent + mset dead = mset ns \<and> mset dl \<subseteq># mset dead
        \<and> r3_Sent m = int (length sent) \<and> r3_DeadLettered m = int (length dead)
        \<and> attempts * int (length dead) \<le> r3_Failed m
        \<and> r3_Failed m \<le> attempts * int (length dead) + (attempts - 1) * int (length sent))"

locale m03_exercise =
  fixes p :: "('l, 'o, 'd) m03_packages"
  assumes accounts: "0 < w \<Longrightarrow> 0 < a \<Longrightarrow> a * int (length ns) < 2 ^ 63
      \<Longrightarrow> p3_Run p (p3_New p sender [p3_WithWorkers p w, p3_WithMaxAttempts p a, p3_WithBackoff p b, p3_WithLogger p l]) ns dl m
      \<Longrightarrow> m03_accounts a ns dl m"
    and returns: "0 < w \<Longrightarrow> 0 < a \<Longrightarrow> \<forall>n k. \<exists>r. sender n k r
      \<Longrightarrow> \<exists>dl m. p3_Run p (p3_New p sender [p3_WithWorkers p w, p3_WithMaxAttempts p a, p3_WithBackoff p b, p3_WithLogger p l]) ns dl m"

lemma distinct_mset_sub: "mset xs \<subseteq># mset ys \<Longrightarrow> distinct ys \<Longrightarrow> distinct xs"
  by (metis distinct_append ex_mset mset_append mset_eq_imp_distinct_iff mset_subset_eq_exists_conv)

lemma m03_demo_ids_distinct: "distinct (map n_ID m03_demo_items)"
  by (auto simp: m03_demo_items_def o_def distinct_map fmt_0d_inject intro!: inj_onI)

lemma sim_outcome_total: "\<exists>r. sim_outcome n k r"
  by (auto simp: sim_outcome_def)

context m03_exercise
begin

lemma dispatch_demo_accounts:
  assumes "l03_demo_main p log elapsed lines out"
  obtains dl m where "lines = map m03_dead_line dl" "out = m03_demo_metrics elapsed m"
    "m03_accounts 4 m03_demo_items dl m"
proof -
  from assms obtain dl m where "p3_Run p (l03_dispatcher p log) m03_demo_items dl m"
    "lines = map m03_dead_line dl" "out = m03_demo_metrics elapsed m"
    by (auto simp: l03_demo_main_iff)
  moreover from this(1) have "m03_accounts 4 m03_demo_items dl m"
    unfolding l03_dispatcher_def by (intro accounts [of 6 4]) (simp_all add: m03_demo_items_def)
  ultimately show thesis by (intro that)
qed

lemma dispatch_demo_returns: "\<exists>lines out. l03_demo_main p log elapsed lines out"
  using returns [of 6 4 sim_outcome 5000000 log m03_demo_items] sim_outcome_total
  by (auto simp: l03_demo_main_iff l03_dispatcher_def)

lemma dispatch_demo_output:
  assumes "l03_demo_main p log elapsed lines out"
  shows "\<exists>dl a f b. lines = map m03_dead_line dl \<and> a + b = 50 \<and> 4 * b \<le> f \<and> f \<le> 4 * b + 3 * a
    \<and> distinct (map n_ID dl) \<and> set dl \<subseteq> set m03_demo_items \<and> int (length dl) \<le> b
    \<and> out = nl @ ''=== dispatch complete in '' @ elapsed @ '' ==='' @ nl
        @ ''sent='' @ fmt_d a @ ''  failed_attempts='' @ fmt_d f @ ''  dead_lettered='' @ fmt_d b @ nl"
proof -
  obtain dl m where dl: "lines = map m03_dead_line dl" "out = m03_demo_metrics elapsed m"
    "m03_accounts 4 m03_demo_items dl m"
    by (rule dispatch_demo_accounts [OF assms])
  then obtain sent dead where all: "mset sent + mset dead = mset m03_demo_items" "mset dl \<subseteq># mset dead"
    and m: "r3_Sent m = int (length sent)" "r3_DeadLettered m = int (length dead)"
      "4 * r3_DeadLettered m \<le> r3_Failed m" "r3_Failed m \<le> 4 * r3_DeadLettered m + 3 * r3_Sent m"
    by (auto simp: m03_accounts_def)
  have "length sent + length dead = length m03_demo_items"
    using all(1) by (metis size_mset size_union)
  then have sum: "r3_Sent m + r3_DeadLettered m = 50" using m(1,2) by (simp add: m03_demo_items_def)
  have sub: "mset dl \<subseteq># mset m03_demo_items"
    unfolding all(1) [symmetric] using all(2) by (simp add: subset_mset.add_increasing)
  then have "mset (map n_ID dl) \<subseteq># mset (map n_ID m03_demo_items)" by (simp add: image_mset_subseteq_mono)
  then have "distinct (map n_ID dl)" by (rule distinct_mset_sub [OF _ m03_demo_ids_distinct])
  moreover have "int (length dl) \<le> r3_DeadLettered m"
    using size_mset_mono [OF all(2)] m(2) by simp
  ultimately show ?thesis
    using dl(1,2) sum m(3,4) set_mset_mono [OF sub]
    by (intro exI [of _ dl] exI [of _ "r3_Sent m"] exI [of _ "r3_Failed m"] exI [of _ "r3_DeadLettered m"])
      (simp add: m03_demo_metrics_def)
qed

end

text \<open>Remark (functional). With any package that keeps the contract the demo ends, and however it ends, its
  report adds up: all fifty notifications were sent or dead-lettered, each dead letter stands for
  four failed attempts and each success for at most three, and the lines of dead letters name
  different notifications of the input.\<close>

theorem l03_demo_output:
  assumes "m03_exercise p"
  shows "(\<exists>lines out. l03_demo_main p log elapsed lines out)
    \<and> (\<forall>lines out. l03_demo_main p log elapsed lines out \<longrightarrow>
        (\<exists>dl a f b. lines = map m03_dead_line dl \<and> a + b = 50 \<and> 4 * b \<le> f \<and> f \<le> 4 * b + 3 * a
          \<and> distinct (map n_ID dl) \<and> set dl \<subseteq> set m03_demo_items \<and> int (length dl) \<le> b
          \<and> out = nl @ ''=== dispatch complete in '' @ elapsed @ '' ==='' @ nl
              @ ''sent='' @ fmt_d a @ ''  failed_attempts='' @ fmt_d f @ ''  dead_lettered='' @ fmt_d b @ nl))"
  using m03_exercise.dispatch_demo_returns [OF assms] m03_exercise.dispatch_demo_output [OF assms]
  by blast

section \<open>The package of the reference\<close>

definition m03_metrics_of :: "disp \<Rightarrow> m03_metrics" where
  "m03_metrics_of s = \<lparr>r3_Sent = sint (m_Sent s), r3_Failed = sint (m_Failed s), r3_DeadLettered = sint (m_DeadLettered s)\<rparr>"

text \<open>\<open>Run\<close> with \<open>context.Background()\<close>, which is never cancelled.\<close>

inductive m03_Run :: "'l Dispatcher \<times> m03_sender \<Rightarrow> Notification list \<Rightarrow> Notification list \<Rightarrow> m03_metrics \<Rightarrow> bool" where
  "disp_run cfg sender True True (disp_init cfg ns) s \<Longrightarrow> d_dead_closed s \<Longrightarrow> \<not> d_ctx_done s
    \<Longrightarrow> m03_Run (cfg, sender) ns (d_drained s) (m03_metrics_of s)"

inductive_cases m03_RunE: "m03_Run (cfg, sender) ns dl m"

definition m03_solution :: "'l \<Rightarrow> ('l, 'l DispOption, 'l Dispatcher \<times> m03_sender) m03_packages" where
  "m03_solution dflt = \<lparr>p3_WithWorkers = WithWorkers, p3_WithMaxAttempts = WithMaxAttempts,
     p3_WithBackoff = WithBackoff, p3_WithLogger = DispWithLogger,
     p3_New = (\<lambda>sender opts. (dispatcher_New dflt opts, sender)), p3_Run = m03_Run\<rparr>"

definition m03_demo_main ::
  "'l \<Rightarrow> 'l \<Rightarrow> string \<Rightarrow> (string \<times> (string \<times> string) list) list \<Rightarrow> string \<Rightarrow> bool" where
  "m03_demo_main dflt = l03_demo_main (m03_solution dflt)"

lemma sint_small: "int n < 2 ^ 63 \<Longrightarrow> sint (of_nat n :: 64 word) = int n"
  by (simp add: sint_uint unsigned_of_nat take_bit_nat_eq_self signed_take_bit_int_eq_self)

text \<open>A success came at an attempt within the bound.\<close>

lemma sent_attempts:
  assumes "disp_run cfg outcome closes drains (disp_init cfg ns) s"
  shows "\<forall>(n, a) \<in> set (g_sent s). 0 \<le> a \<and> a < dp_maxAttempts cfg"
  using assms
proof (induction rule: rtranclp_induct)
  case (step s t)
  have "\<forall>w \<in> set (d_workers s). wstate_ok cfg w"
    using dispatch.reach_inv [OF step.hyps(1)] by (simp add: disp_inv_def)
  with step.hyps(2) step.IH show ?case
    by (cases rule: disp_step.cases) (auto simp: setw_def dest!: at_ok)
qed (simp add: disp_init_def)

lemma sum_attempts:
  "\<forall>(n, a) \<in> set xs. 0 \<le> a \<and> a < m \<Longrightarrow> int (sum_list (map (nat \<circ> snd) xs)) \<le> (m - 1) * int (length xs)"
  by (induction xs) (auto simp: algebra_simps)

lemma m03_Run_accounts:
  assumes "m03_Run (cfg, sender) ns dl m" and "0 < dp_workers cfg" and "0 < dp_maxAttempts cfg"
    and "dp_maxAttempts cfg * int (length ns) < 2 ^ 63"
  shows "m03_accounts (dp_maxAttempts cfg) ns dl m"
  using assms(1)
proof (rule m03_RunE)
  fix s :: disp
  let ?a = "dp_maxAttempts cfg" and ?sent = "map fst (g_sent s)" and ?dead = "d_drained s @ d_dead s"
  assume dl: "dl = d_drained s" and m: "m = m03_metrics_of s"
    and run: "disp_run cfg sender True True (disp_init cfg ns) s" "d_dead_closed s" "\<not> d_ctx_done s"
  let ?f = "sum_list (map (nat \<circ> snd) (g_sent s))"
  from closed_run_accounts [OF run assms(2)]
  have all: "mset ?sent + mset ?dead = mset ns" and c: "m_Sent s = of_nat (length ?sent)"
    "m_DeadLettered s = of_nat (length ?dead)" "m_Failed s = of_nat (?f + nat ?a * length ?dead)"
    by auto
  have len: "length ?sent + length ?dead = length ns" using all by (metis size_mset size_union)
  have f: "int ?f \<le> (?a - 1) * int (length ?sent)" using sum_attempts [OF sent_attempts [OF run(1)]] by simp
  have "int (length ns) \<le> ?a * int (length ns)" using assms(3) by (simp add: mult_le_cancel_right1)
  moreover have "?a * int (length ns) = ?a * int (length ?sent) + ?a * int (length ?dead)"
    unfolding len [symmetric] by (simp add: algebra_simps)
  moreover have "(?a - 1) * int (length ?sent) \<le> ?a * int (length ?sent)"
    by (intro mult_right_mono) simp_all
  moreover have "int (?f + nat ?a * length ?dead) = int ?f + ?a * int (length ?dead)"
    using assms(3) by simp
  ultimately have small: "int (length ns) < 2 ^ 63" "int (?f + nat ?a * length ?dead) < 2 ^ 63"
    using assms(4) f by linarith+
  then have "int (length ?sent) < 2 ^ 63" "int (length ?dead) < 2 ^ 63"
    using len by linarith+
  with small(2) have "sint (m_Sent s) = int (length ?sent)" "sint (m_DeadLettered s) = int (length ?dead)"
    "sint (m_Failed s) = int ?f + ?a * int (length ?dead)"
    unfolding c using assms(3) by (subst sint_small; simp)+
  with all f show "m03_accounts ?a ns dl m"
    unfolding m03_accounts_def m dl m03_metrics_of_def
    by (intro exI [of _ ?sent] exI [of _ ?dead]) simp
qed

lemma m03_options:
  "dp_workers (dispatcher_New dflt [WithWorkers w, WithMaxAttempts a, WithBackoff b, DispWithLogger l]) = w"
  "dp_maxAttempts (dispatcher_New dflt [WithWorkers w, WithMaxAttempts a, WithBackoff b, DispWithLogger l]) = a"
  "dp_dead_cap (dispatcher_New dflt [WithWorkers w, WithMaxAttempts a, WithBackoff b, DispWithLogger l]) = 64"
  by (simp_all add: dispatcher_New_def WithWorkers_def WithMaxAttempts_def WithBackoff_def DispWithLogger_def)

interpretation m03_reference: m03_exercise "m03_solution dflt" for dflt
proof (unfold_locales, goal_cases)
  case (1 w a ns sender b l dl m)
  then show ?case
    using m03_Run_accounts [of "dispatcher_New dflt [WithWorkers w, WithMaxAttempts a, WithBackoff b, DispWithLogger l]"
        sender ns dl m]
    by (simp add: m03_solution_def m03_options)
next
  case (2 w a sender b l ns)
  let ?cfg = "dispatcher_New dflt [WithWorkers w, WithMaxAttempts a, WithBackoff b, DispWithLogger l]"
  obtain s where "disp_run ?cfg sender True True (disp_init ?cfg ns) s" "d_dead_closed s" "\<not> d_ctx_done s"
    using reaches_closed [OF disp_init_inv 2(3), of True True ?cfg ns] by (auto simp: m03_options disp_init_def)
  then show ?case by (auto simp: m03_solution_def intro: m03_Run.intros)
qed

text \<open>The reference's demo.\<close>

lemma m03_demo_output:
  "(\<exists>lines out. m03_demo_main dflt log elapsed lines out)
    \<and> (\<forall>lines out. m03_demo_main dflt log elapsed lines out \<longrightarrow>
        (\<exists>dl a f b. lines = map m03_dead_line dl \<and> a + b = 50 \<and> 4 * b \<le> f \<and> f \<le> 4 * b + 3 * a
          \<and> distinct (map n_ID dl) \<and> set dl \<subseteq> set m03_demo_items \<and> int (length dl) \<le> b
          \<and> out = nl @ ''=== dispatch complete in '' @ elapsed @ '' ==='' @ nl
              @ ''sent='' @ fmt_d a @ ''  failed_attempts='' @ fmt_d f @ ''  dead_lettered='' @ fmt_d b @ nl))"
  unfolding m03_demo_main_def
  by (intro conjI allI impI) (rule m03_reference.dispatch_demo_returns, rule m03_reference.dispatch_demo_output)

theorem l03_demo_output_witness:
  "\<exists>lines out. l03_demo_main (m03_solution ()) () ''2s'' lines out"
  using l03_demo_output [OF m03_reference.m03_exercise_axioms, of "()" "()" "''2s''"] by blast

end
