(* ===== verification/M03_Pipeline.thy ===== *)
theory M03_Pipeline
  imports Step_System
begin

text \<open>
  \<open>m03-concurrency/solution-pipeline\<close>: \<open>Run\<close>, the bounded worker pool that stops at the first
  error and keeps the order of the results, and \<open>Merge\<close>, the fan-in of several channels. As in
  the dispatcher the goroutines are a list of local states. The channels \<open>jobs\<close> and \<open>out\<close> are
  unbuffered, so a send and its receive are one step of the two goroutines; \<open>errCh\<close> has one
  place. What \<open>work\<close> returns for an item is the argument \<open>work x r\<close>, an error \<open>Inl e\<close> or a value
  \<open>Inr v\<close>; \<open>zero\<close> is the zero value of the result type.
\<close>

section \<open>Run\<close>

datatype ('x, 'r) pworker =
    PRecv
  | PWork nat
  | PErr 'x
  | PCancel
  | POut nat 'r
  | PDone

text \<open>
  \<open>p_next\<close> is the feeder's index and \<open>p_fed\<close> says that it has closed \<open>jobs\<close>; \<open>p_ctx\<close> is the
  derived context, \<open>p_parent\<close> the caller's. \<open>p_got\<close> and \<open>p_drop\<close> record history: the indices
  whose result arrived, and the ones whose work failed or whose result was given up.
\<close>

record ('x, 'r) pool =
  p_next :: nat
  p_fed :: bool
  p_workers :: "('x, 'r) pworker list"
  p_err :: "'x option"
  p_ctx :: bool
  p_parent :: bool
  p_closed :: bool
  p_results :: "'r list"
  p_ret :: "('x + 'r list) option"
  p_got :: "nat list"
  p_drop :: "nat list"

definition pool_init :: "'r \<Rightarrow> int \<Rightarrow> 't list \<Rightarrow> ('x, 'r) pool" where
  "pool_init zero workers items =
     (let workers = (if workers < 1 then 1 else workers) in
      \<lparr>p_next = 0, p_fed = False, p_workers = replicate (nat workers) PRecv, p_err = None,
       p_ctx = False, p_parent = False, p_closed = False,
       p_results = replicate (length items) zero, p_ret = None, p_got = [], p_drop = []\<rparr>)"

definition setp :: "nat \<Rightarrow> ('x, 'r) pworker \<Rightarrow> ('x, 'r) pool \<Rightarrow> ('x, 'r) pool" where
  "setp i w s = s\<lparr>p_workers := (p_workers s)[i := w]\<rparr>"

definition pat :: "('x, 'r) pool \<Rightarrow> nat \<Rightarrow> ('x, 'r) pworker \<Rightarrow> bool" where
  "pat s i w \<longleftrightarrow> i < length (p_workers s) \<and> p_workers s ! i = w"

inductive pool_step ::
  "'t list \<Rightarrow> ('t \<Rightarrow> 'x + 'r \<Rightarrow> bool) \<Rightarrow> ('x, 'r) pool \<Rightarrow> ('x, 'r) pool \<Rightarrow> bool"
  for items work where
  feed: "pat s i PRecv \<Longrightarrow> \<not> p_fed s \<Longrightarrow> p_next s < length items \<Longrightarrow>
    pool_step items work s (setp i (PWork (p_next s)) (s\<lparr>p_next := p_next s + 1\<rparr>))"
| feed_cancel: "\<not> p_fed s \<Longrightarrow> p_next s < length items \<Longrightarrow> p_ctx s \<Longrightarrow>
    pool_step items work s (s\<lparr>p_fed := True\<rparr>)"
| feed_end: "\<not> p_fed s \<Longrightarrow> p_next s = length items \<Longrightarrow>
    pool_step items work s (s\<lparr>p_fed := True\<rparr>)"
| jobs_closed: "pat s i PRecv \<Longrightarrow> p_fed s \<Longrightarrow>
    pool_step items work s (setp i PDone s)"
| work_ok: "pat s i (PWork j) \<Longrightarrow> work (items ! j) (Inr v) \<Longrightarrow>
    pool_step items work s (setp i (POut j v) s)"
| work_err: "pat s i (PWork j) \<Longrightarrow> work (items ! j) (Inl e) \<Longrightarrow>
    pool_step items work s (setp i (PErr e) (s\<lparr>p_drop := p_drop s @ [j]\<rparr>))"
| err_first: "pat s i (PErr e) \<Longrightarrow> p_err s = None \<Longrightarrow>
    pool_step items work s (setp i PCancel (s\<lparr>p_err := Some e\<rparr>))"
| err_later: "pat s i (PErr e) \<Longrightarrow> p_err s \<noteq> None \<Longrightarrow>
    pool_step items work s (setp i PDone s)"
| cancel: "pat s i PCancel \<Longrightarrow>
    pool_step items work s (setp i PDone (s\<lparr>p_ctx := True\<rparr>))"
| out_send: "pat s i (POut j v) \<Longrightarrow>
    pool_step items work s
      (setp i PRecv (s\<lparr>p_results := (p_results s)[j := v], p_got := p_got s @ [j]\<rparr>))"
| out_cancel: "pat s i (POut j v) \<Longrightarrow> p_ctx s \<Longrightarrow>
    pool_step items work s (setp i PDone (s\<lparr>p_drop := p_drop s @ [j]\<rparr>))"
| out_close: "\<forall>w \<in> set (p_workers s). w = PDone \<Longrightarrow> \<not> p_closed s \<Longrightarrow>
    pool_step items work s (s\<lparr>p_closed := True\<rparr>)"
| run_return: "p_closed s \<Longrightarrow> p_ret s = None \<Longrightarrow>
    pool_step items work s
      (s\<lparr>p_ret := Some (case p_err s of Some e \<Rightarrow> Inl e | None \<Rightarrow> Inr (p_results s))\<rparr>)"
| parent_cancel: "\<not> p_parent s \<Longrightarrow>
    pool_step items work s (s\<lparr>p_parent := True, p_ctx := True\<rparr>)"

subsection \<open>The invariant\<close>

fun pheld :: "('x, 'r) pworker \<Rightarrow> nat multiset" where
  "pheld (PWork j) = {#j#}"
| "pheld (POut j v) = {#j#}"
| "pheld _ = {#}"

fun pworker_ok :: "'t list \<Rightarrow> ('t \<Rightarrow> 'x + 'r \<Rightarrow> bool) \<Rightarrow> ('x, 'r) pool \<Rightarrow> ('x, 'r) pworker \<Rightarrow> bool" where
  "pworker_ok items work s (PWork j) = (j < length items)"
| "pworker_ok items work s (PErr e) = (\<exists>x \<in> set items. work x (Inl e))"
| "pworker_ok items work s (POut j v) = (j < length items \<and> work (items ! j) (Inr v))"
| "pworker_ok items work s PCancel = (p_err s \<noteq> None)"
| "pworker_ok items work s PDone = (p_fed s \<or> p_ctx s \<or> p_err s \<noteq> None)"
| "pworker_ok items work s PRecv = True"

definition indices :: "('x, 'r) pool \<Rightarrow> nat multiset" where
  "indices s = sum_list (map pheld (p_workers s)) + mset (p_got s) + mset (p_drop s)"

definition pool_inv :: "'t list \<Rightarrow> ('t \<Rightarrow> 'x + 'r \<Rightarrow> bool) \<Rightarrow> ('x, 'r) pool \<Rightarrow> bool" where
  "pool_inv items work s \<longleftrightarrow>
     (\<forall>w \<in> set (p_workers s). pworker_ok items work s w)
     \<and> p_workers s \<noteq> []
     \<and> p_next s \<le> length items
     \<and> indices s = mset [0..<p_next s]
     \<and> length (p_results s) = length items
     \<and> (\<forall>j \<in> set (p_got s). work (items ! j) (Inr (p_results s ! j)))
     \<and> (\<forall>e. p_err s = Some e \<longrightarrow> (\<exists>x \<in> set items. work x (Inl e)))
     \<and> (p_ctx s \<longrightarrow> p_parent s \<or> p_err s \<noteq> None)
     \<and> (p_drop s \<noteq> [] \<longrightarrow> p_ctx s \<or> p_err s \<noteq> None \<or> (\<exists>e. PErr e \<in> set (p_workers s)))
     \<and> (p_fed s \<longrightarrow> p_next s = length items \<or> p_ctx s)
     \<and> (p_closed s \<longrightarrow> (\<forall>w \<in> set (p_workers s). w = PDone))
     \<and> (p_ret s \<noteq> None \<longrightarrow> p_closed s)
     \<and> (\<forall>r. p_ret s = Some r \<longrightarrow> r = (case p_err s of Some e \<Rightarrow> Inl e | None \<Rightarrow> Inr (p_results s)))"

lemma pool_init_inv: "pool_inv items work (pool_init zero workers items)"
  by (auto simp: pool_inv_def pool_init_def indices_def Let_def sum_list_replicate)

lemma pat_mem: "pat s i w \<Longrightarrow> w \<in> set (p_workers s)"
  by (auto simp: pat_def in_set_conv_nth)

lemma psum_upd:
  "pat s i w0 \<Longrightarrow> sum_list (map f ((p_workers s)[i := w])) = sum_list (map f (p_workers s)) + f w - (f w0 :: int)"
  by (auto simp: pat_def sum_list_upd_int)

lemma count_indices:
  "int (count (indices s) x) = sum_list (map (\<lambda>w. int (count (pheld w) x)) (p_workers s))
     + int (count (mset (p_got s)) x) + int (count (mset (p_drop s)) x)"
  by (simp add: indices_def int_count_sum_list)

lemma indices_step:
  assumes "pool_step items work s t" and "indices s = mset [0..<p_next s]"
  shows "indices t = mset [0..<p_next t]"
proof (rule multiset_eqI)
  fix x
  from assms(2) have "int (count (indices s) x) = int (count (mset [0..<p_next s]) x)" by simp
  with assms(1) have "int (count (indices t) x) = int (count (mset [0..<p_next t]) x)"
    unfolding count_indices
    by (cases rule: pool_step.cases) (auto simp: setp_def psum_upd)
  then show "count (indices t) x = count (mset [0..<p_next t]) x" by simp
qed

text \<open>A finished index is not in any worker's hands.\<close>

lemma got_not_held:
  assumes "indices s = mset [0..<p_next s]" and "pat s i (POut j v)"
  shows "j \<notin> set (p_got s)"
proof
  assume "j \<in> set (p_got s)"
  then have "0 < count (mset (p_got s)) j" by simp
  then have "1 \<le> int (count (mset (p_got s)) j)" by linarith
  moreover have "int (count (pheld (POut j v :: ('a, 'b) pworker)) j)
      \<le> sum_list (map (\<lambda>w. int (count (pheld w) j)) (p_workers s))"
    using pat_mem [OF assms(2)]
    by (intro member_le_sum_list) (auto simp: image_iff intro!: bexI)
  then have "1 \<le> sum_list (map (\<lambda>w. int (count (pheld w) j)) (p_workers s))" by simp
  ultimately have "2 \<le> int (count (indices s) j)"
    unfolding count_indices by (metis add_increasing2 add_mono of_nat_0_le_iff one_add_one)
  also have "... = int (count (mset [0..<p_next s]) j)" by (simp add: assms(1))
  also have "... \<le> 1" by (simp add: count_mset_set')
  finally show False by simp
qed

lemma pworker_ok_step:
  assumes "pool_step items work s t" and "pool_inv items work s"
  shows "\<forall>w \<in> set (p_workers t). pworker_ok items work t w"
proof -
  from assms(2) have ok: "\<forall>w \<in> set (p_workers s). pworker_ok items work s w"
    by (simp add: pool_inv_def)
  have mono: "pworker_ok items work t w" if "pworker_ok items work s w" for w
    using assms(1) that by (cases rule: pool_step.cases; cases w) (auto simp: setp_def)
  from ok have held: "pworker_ok items work s w" if "pat s i w" for i w
    using that by (auto dest: pat_mem)
  have new: "pworker_ok items work t w" if "w \<in> set (p_workers t)" "w \<notin> set (p_workers s)" for w
    using assms(1) that
    by (cases rule: pool_step.cases) (auto simp: setp_def dest!: set_upd held intro: bexI [OF _ nth_mem])
  show ?thesis using ok mono new by blast
qed

lemma results_step:
  assumes "pool_step items work s t" and "pool_inv items work s"
  shows "length (p_results t) = length items
    \<and> (\<forall>j \<in> set (p_got t). work (items ! j) (Inr (p_results t ! j)))"
  using assms(1)
proof (cases rule: pool_step.cases)
  case (out_send i j v)
  from assms(2) have "indices s = mset [0..<p_next s]" by (simp add: pool_inv_def)
  from got_not_held [OF this out_send(2)] have "j \<notin> set (p_got s)" .
  moreover have "j < length items" "work (items ! j) (Inr v)"
    using assms(2) pat_mem [OF out_send(2)] by (auto simp: pool_inv_def)
  ultimately show ?thesis using assms(2) out_send
    by (auto simp: setp_def pool_inv_def nth_list_update)
qed (use assms(2) in \<open>auto simp: setp_def pool_inv_def\<close>)

lemma pool_control_step:
  assumes "pool_step items work s t" and "pool_inv items work s"
  shows "p_workers t \<noteq> [] \<and> p_next t \<le> length items
     \<and> (\<forall>e. p_err t = Some e \<longrightarrow> (\<exists>x \<in> set items. work x (Inl e)))
     \<and> (p_ctx t \<longrightarrow> p_parent t \<or> p_err t \<noteq> None)
     \<and> (p_fed t \<longrightarrow> p_next t = length items \<or> p_ctx t)
     \<and> (p_closed t \<longrightarrow> (\<forall>w \<in> set (p_workers t). w = PDone))
     \<and> (p_ret t \<noteq> None \<longrightarrow> p_closed t)
     \<and> (\<forall>r. p_ret t = Some r \<longrightarrow> r = (case p_err t of Some e \<Rightarrow> Inl e | None \<Rightarrow> Inr (p_results t)))"
proof -
  from assms(2) have ok: "\<forall>w \<in> set (p_workers s). pworker_ok items work s w"
    and closed: "p_closed s \<Longrightarrow> \<forall>w \<in> set (p_workers s). w = PDone"
    and ret: "p_ret s \<noteq> None \<Longrightarrow> p_closed s"
    by (auto simp: pool_inv_def)
  then have held: "pworker_ok items work s w \<and> (w \<noteq> PDone \<longrightarrow> \<not> p_closed s \<and> p_ret s = None)"
    if "pat s i w" for i w
    using pat_mem [OF that] by blast
  from assms show ?thesis
    by (cases rule: pool_step.cases)
      (auto simp: setp_def pool_inv_def dest!: set_upd held split: option.splits)
qed

lemma drop_step:
  assumes "pool_step items work s t" and "pool_inv items work s"
  shows "p_drop t \<noteq> [] \<longrightarrow> p_ctx t \<or> p_err t \<noteq> None \<or> (\<exists>e. PErr e \<in> set (p_workers t))"
proof -
  have keep: "PErr e \<in> set ((p_workers s)[i := w'])"
    if "PErr e \<in> set (p_workers s)" "pat s i w" "\<not> (\<exists>e. w = PErr e)" for e i w w'
    using that by (metis in_set_conv_nth length_list_update nth_list_update_neq pat_def)
  have new: "w \<in> set ((p_workers s)[i := w])" if "pat s i w0" for i w w0
    using that by (auto simp: pat_def set_update_memI)
  from assms show ?thesis
    by (cases rule: pool_step.cases)
      (auto simp: setp_def pool_inv_def dest: keep new pat_mem)
qed

lemma pool_inv_step:
  assumes "pool_inv items work s" and "pool_step items work s t"
  shows "pool_inv items work t"
proof -
  have "indices t = mset [0..<p_next t]"
    using indices_step [OF assms(2)] assms(1) by (simp add: pool_inv_def)
  note facts = this pworker_ok_step [OF assms(2,1)] results_step [OF assms(2,1)]
    pool_control_step [OF assms(2,1)] drop_step [OF assms(2,1)]
  show ?thesis
    unfolding pool_inv_def
    by (intro conjI) (insert facts, (elim conjE, assumption)+)
qed

subsection \<open>Termination and progress\<close>

fun pwork :: "('x, 'r) pworker \<Rightarrow> nat" where
  "pwork PRecv = 1"
| "pwork (PWork j) = 4"
| "pwork (PErr e) = 3"
| "pwork PCancel = 2"
| "pwork (POut j v) = 3"
| "pwork PDone = 0"

definition pool_work :: "'t list \<Rightarrow> ('x, 'r) pool \<Rightarrow> nat" where
  "pool_work items s = sum_list (map pwork (p_workers s)) + 4 * (length items - p_next s)
     + (if p_fed s then 0 else 1) + (if p_closed s then 0 else 1)
     + (if p_ret s = None then 1 else 0) + (if p_parent s then 0 else 1)"

lemma int_pool_work:
  "p_next s \<le> length items \<Longrightarrow> int (pool_work items s) = sum_list (map (\<lambda>w. int (pwork w)) (p_workers s))
     + 4 * (int (length items) - int (p_next s))
     + (if p_fed s then 0 else 1) + (if p_closed s then 0 else 1)
     + (if p_ret s = None then 1 else 0) + (if p_parent s then 0 else 1)"
  by (simp add: pool_work_def int_sum_list)

lemma pool_work_step:
  assumes "pool_inv items work s" and "pool_step items work s t"
  shows "pool_work items t < pool_work items s"
proof -
  from assms(1) pool_inv_step [OF assms] have "p_next s \<le> length items" "p_next t \<le> length items"
    by (simp_all add: pool_inv_def)
  note int = int_pool_work [OF this(1)] int_pool_work [OF this(2)]
  from assms(2) \<open>p_next t \<le> _\<close> have "int (pool_work items t) < int (pool_work items s)"
    unfolding int
    by (cases rule: pool_step.cases) (auto simp: setp_def psum_upd)
  then show ?thesis by simp
qed

abbreviation pool_run where
  "pool_run items work \<equiv> (pool_step items work)\<^sup>*\<^sup>*"

interpretation workers: terminating_system "pool_step items work" "pool_init zero n items"
    "pool_inv items work" "pool_work items"
  for items work zero n
  by unfold_locales (auto intro: pool_init_inv pool_inv_step pool_work_step)

text \<open>A worker that has not returned can move, whether or not the caller cancels.\<close>

lemma setp_parent [simp]: "p_parent (setp i w s) = p_parent s"
  by (simp add: setp_def)



subsection \<open>Properties of Run\<close>

text \<open>C14. When \<open>Run\<close> returns without an error and the caller's context was not cancelled, it
  returns one result per item, in the order of the items, each the value the work produced for
  that item, whatever the number of workers and the schedule.\<close>

theorem Run_order_preserved:
  assumes "pool_run items work (pool_init zero n items) s"
    and "p_ret s = Some (Inr rs)" and "\<not> p_parent s"
  shows "list_all2 (\<lambda>x v. work x (Inr v)) items rs"
proof -
  have inv: "pool_inv items work s" by (rule workers.reach_inv [OF assms(1)])
  with assms(2) have err: "p_err s = None" and rs: "rs = p_results s"
    and dn: "\<forall>w \<in> set (p_workers s). w = PDone"
    by (auto simp: pool_inv_def split: option.splits)
  with inv assms(3) have ctx: "\<not> p_ctx s" and drop: "p_drop s = []"
    by (auto simp: pool_inv_def)
  from inv have "p_workers s \<noteq> []" by (simp add: pool_inv_def)
  with dn have "PDone \<in> set (p_workers s)" using last_in_set by fastforce
  with inv err ctx have "p_fed s" by (auto simp: pool_inv_def)
  with inv ctx have "p_next s = length items" by (simp add: pool_inv_def)
  moreover have "sum_list (map pheld (p_workers s)) = {#}"
    by (rule sum_list_all_zero) (use dn in auto)
  ultimately have "mset (p_got s) = mset [0..<length items]"
    using inv drop by (simp add: pool_inv_def indices_def)
  then have "set (p_got s) = {0..<length items}" by (metis atLeastLessThan_upt mset_eq_setD)
  with inv rs show ?thesis by (simp add: pool_inv_def list_all2_conv_all_nth)
qed

text \<open>C21. An error \<open>Run\<close> returns is an error the work returned for one of the items.\<close>

theorem Run_first_error:
  assumes "pool_run items work (pool_init zero n items) s" and "p_ret s = Some (Inl e)"
  shows "\<exists>x \<in> set items. work x (Inl e)"
  using workers.reach_inv [OF assms(1)] assms(2)
  by (auto simp: pool_inv_def split: option.splits)


text \<open>With the feeder gone every idle worker finds \<open>jobs\<close> closed and returns.\<close>

lemma idle_workers_return:
  assumes "p_fed s" and "p_workers s = replicate k PDone @ replicate m PRecv"
  shows "pool_run items work s (s\<lparr>p_workers := replicate (k + m) PDone\<rparr>)"
  using assms
proof (induction m arbitrary: k s)
  case 0
  then have "s\<lparr>p_workers := replicate (k + 0) PDone\<rparr> = s" by simp
  then show ?case by simp
next
  case (Suc m)
  let ?t = "setp k PDone s"
  have at: "pat s k PRecv" using Suc.prems by (simp add: pat_def nth_append)
  have "(replicate k PDone @ replicate (Suc m) PRecv)[k := PDone]
      = replicate (Suc k) PDone @ replicate m PRecv"
    by (simp add: list_update_append replicate_app_Cons_same)
  then have "p_workers ?t = replicate (Suc k) PDone @ replicate m PRecv" "p_fed ?t"
    using Suc.prems by (simp_all add: setp_def)
  from Suc.IH [OF this(2,1)] have "pool_run items work ?t (s\<lparr>p_workers := replicate (k + Suc m) PDone\<rparr>)"
    by (simp add: setp_def)
  with pool_step.jobs_closed [OF at] Suc.prems(1) show ?case by (meson rtranclp_step)
qed

text \<open>C39. \<open>Run\<close> does not report a cancellation of the caller's context: when the context is
  cancelled before any item was handed out, \<open>Run\<close> can return a nil error together with one
  zero value per item, for every work function and every number of workers, although no work
  was done.\<close>

theorem Run_cancelled_returns_zeros:
  fixes work :: "'t \<Rightarrow> 'x + 'r \<Rightarrow> bool"
  assumes "items \<noteq> []"
  shows "\<exists>s. pool_run items work (pool_init zero n items) s
    \<and> p_ret s = Some (Inr (replicate (length items) zero)) \<and> p_got s = []"
proof -
  let ?st = "pool_step items work"
  let ?m = "nat (if n < 1 then 1 else n)"
  let ?s0 = "pool_init zero n items :: ('x, 'r) pool"
  let ?s1 = "?s0\<lparr>p_parent := True, p_ctx := True\<rparr>"
  let ?s2 = "?s1\<lparr>p_fed := True\<rparr>"
  let ?s3 = "?s2\<lparr>p_workers := replicate (0 + ?m) PDone\<rparr>"
  let ?s4 = "?s3\<lparr>p_closed := True\<rparr>"
  let ?s5 = "?s4\<lparr>p_ret := Some (case p_err ?s4 of Some e \<Rightarrow> Inl e | None \<Rightarrow> Inr (p_results ?s4))\<rparr>"
  have "?st ?s0 ?s1" by (rule pool_step.parent_cancel) (simp add: pool_init_def Let_def)
  moreover have "?st ?s1 ?s2"
    by (rule pool_step.feed_cancel) (use assms in \<open>simp_all add: pool_init_def Let_def\<close>)
  moreover have "?st\<^sup>*\<^sup>* ?s2 ?s3"
    by (rule idle_workers_return) (simp_all add: pool_init_def Let_def)
  moreover have "?st ?s3 ?s4" by (rule pool_step.out_close) (auto simp: pool_init_def Let_def)
  moreover have "?st ?s4 ?s5" by (rule pool_step.run_return) (simp_all add: pool_init_def Let_def)
  ultimately have "?st\<^sup>*\<^sup>* ?s0 ?s5"
    by (meson rtranclp_step rtranclp_trans rtranclp.rtrancl_refl)
  moreover have "p_ret ?s5 = Some (Inr (replicate (length items) zero)) \<and> p_got ?s5 = []"
    by (simp add: pool_init_def Let_def)
  ultimately show ?thesis by blast
qed

subsection \<open>Concrete runs\<close>

text \<open>One item and two workers: one that doubles its item, one that fails.\<close>

definition double_end :: "(string, int) pool" where
  "double_end = \<lparr>p_next = 1, p_fed = True, p_workers = [PDone, PDone], p_err = None,
     p_ctx = False, p_parent = False, p_closed = True, p_results = [42],
     p_ret = Some (Inr [42]), p_got = [0], p_drop = []\<rparr>"

definition fail_end :: "(string, int) pool" where
  "fail_end = \<lparr>p_next = 1, p_fed = True, p_workers = [PDone], p_err = Some ''boom'',
     p_ctx = True, p_parent = False, p_closed = True, p_results = [0],
     p_ret = Some (Inl ''boom''), p_got = [], p_drop = [0]\<rparr>"

lemma double_run:
  "pool_run [21] (\<lambda>x r. r = Inr (x * 2)) (pool_init 0 2 [21::int]) double_end"
proof -
  let ?st = "pool_step [21] (\<lambda>x r. r = Inr (x * 2)) :: (string, int) pool \<Rightarrow> _"
  let ?s0 = "pool_init 0 2 [21::int] :: (string, int) pool"
  let ?s1 = "setp 0 (PWork (p_next ?s0)) (?s0\<lparr>p_next := p_next ?s0 + 1\<rparr>)"
  let ?s2 = "setp 0 (POut 0 42) ?s1"
  let ?s3 = "setp 0 PRecv (?s2\<lparr>p_results := (p_results ?s2)[0 := 42], p_got := p_got ?s2 @ [0]\<rparr>)"
  let ?s4 = "?s3\<lparr>p_fed := True\<rparr>"
  let ?s5 = "setp 0 PDone ?s4"
  let ?s6 = "setp 1 PDone ?s5"
  let ?s7 = "?s6\<lparr>p_closed := True\<rparr>"
  let ?s8 = "?s7\<lparr>p_ret := Some (case p_err ?s7 of Some e \<Rightarrow> Inl e | None \<Rightarrow> Inr (p_results ?s7))\<rparr>"
  note more = rtranclp_step [where r = ?st]
  note eval = pat_def setp_def pool_init_def Let_def numeral_2_eq_2
  have a0: "?st ?s0 ?s1" by (rule pool_step.feed) (simp_all add: eval)
  have a1: "?st ?s1 ?s2" by (rule pool_step.work_ok) (simp_all add: eval)
  have a2: "?st ?s2 ?s3" by (rule pool_step.out_send) (simp_all add: eval)
  have a3: "?st ?s3 ?s4" by (rule pool_step.feed_end) (simp_all add: eval)
  have a4: "?st ?s4 ?s5" by (rule pool_step.jobs_closed) (simp_all add: eval)
  have a5: "?st ?s5 ?s6" by (rule pool_step.jobs_closed) (simp_all add: eval)
  have a6: "?st ?s6 ?s7" by (rule pool_step.out_close) (simp_all add: eval)
  have a7: "?st ?s7 ?s8" by (rule pool_step.run_return) (simp_all add: eval)
  have run: "?st\<^sup>*\<^sup>* ?s0 ?s8"
    by (rule a0 [THEN more], rule a1 [THEN more], rule a2 [THEN more], rule a3 [THEN more],
        rule a4 [THEN more], rule a5 [THEN more], rule a6 [THEN more], rule a7 [THEN more],
        rule rtranclp.rtrancl_refl)
  have e: "?s8 = double_end" by (simp add: eval double_end_def)
  show ?thesis by (rule subst [OF e, of "?st\<^sup>*\<^sup>* ?s0"]) (rule run)
qed

lemma fail_run:
  "pool_run [21::int] (\<lambda>x r. r = Inl ''boom'') (pool_init 0 1 [21::int]) fail_end"
proof -
  let ?st = "pool_step [21::int] (\<lambda>x r. r = Inl ''boom'') :: (string, int) pool \<Rightarrow> _"
  let ?s0 = "pool_init 0 1 [21::int] :: (string, int) pool"
  let ?s1 = "setp 0 (PWork (p_next ?s0)) (?s0\<lparr>p_next := p_next ?s0 + 1\<rparr>)"
  let ?s2 = "setp 0 (PErr ''boom'') (?s1\<lparr>p_drop := p_drop ?s1 @ [0]\<rparr>)"
  let ?s3 = "setp 0 PCancel (?s2\<lparr>p_err := Some ''boom''\<rparr>)"
  let ?s4 = "setp 0 PDone (?s3\<lparr>p_ctx := True\<rparr>)"
  let ?s5 = "?s4\<lparr>p_fed := True\<rparr>"
  let ?s6 = "?s5\<lparr>p_closed := True\<rparr>"
  let ?s7 = "?s6\<lparr>p_ret := Some (case p_err ?s6 of Some e \<Rightarrow> Inl e | None \<Rightarrow> Inr (p_results ?s6))\<rparr>"
  note more = rtranclp_step [where r = ?st]
  note eval = pat_def setp_def pool_init_def Let_def
  have a0: "?st ?s0 ?s1" by (rule pool_step.feed) (simp_all add: eval)
  have a1: "?st ?s1 ?s2" by (rule pool_step.work_err) (simp_all add: eval)
  have a2: "?st ?s2 ?s3" by (rule pool_step.err_first) (simp_all add: eval)
  have a3: "?st ?s3 ?s4" by (rule pool_step.cancel) (simp_all add: eval)
  have a4: "?st ?s4 ?s5" by (rule pool_step.feed_end) (simp_all add: eval)
  have a5: "?st ?s5 ?s6" by (rule pool_step.out_close) (simp_all add: eval)
  have a6: "?st ?s6 ?s7" by (rule pool_step.run_return) (simp_all add: eval)
  have run: "?st\<^sup>*\<^sup>* ?s0 ?s7"
    by (rule a0 [THEN more], rule a1 [THEN more], rule a2 [THEN more], rule a3 [THEN more],
        rule a4 [THEN more], rule a5 [THEN more], rule a6 [THEN more], rule rtranclp.rtrancl_refl)
  have e: "?s7 = fail_end" by (simp add: eval fail_end_def)
  show ?thesis by (rule subst [OF e, of "?st\<^sup>*\<^sup>* ?s0"]) (rule run)
qed

theorem Run_order_preserved_witness: "list_all2 (\<lambda>x v. Inr v = (Inr (x * 2) :: string + int)) [21] [42]"
  using Run_order_preserved [OF double_run, of "[42]"] by (simp add: double_end_def)

theorem Run_first_error_witness: "\<exists>x \<in> set [21::int]. (Inl ''boom'' :: string + int) = Inl ''boom''"
  using Run_first_error [OF fail_run, of "''boom''"] by (simp add: fail_end_def)


theorem Run_cancelled_returns_zeros_witness:
  "\<exists>s :: (string, int) pool. p_ret s = Some (Inr [0]) \<and> p_got s = []"
  using Run_cancelled_returns_zeros [of "[21::int]" "\<lambda>x r. r = Inr (x * 2)" 0 2] by auto

section \<open>Merge\<close>

text \<open>
  One goroutine per input channel, the closer, and the reader of the output. A channel is the
  list of the values it still delivers before it is closed; \<open>mg_out\<close> is what the reader received,
  each value with the index of its channel (a record of history).
\<close>

datatype 'a mworker =
    MRecv
  | MSend 'a
  | MDone

record 'a merge =
  mg_ins :: "'a list list"
  mg_workers :: "'a mworker list"
  mg_out :: "(nat \<times> 'a) list"
  mg_closed :: bool

definition merge_init :: "'a list list \<Rightarrow> 'a merge" where
  "merge_init chans =
     \<lparr>mg_ins = chans, mg_workers = replicate (length chans) MRecv, mg_out = [], mg_closed = False\<rparr>"

definition setm :: "nat \<Rightarrow> 'a mworker \<Rightarrow> 'a merge \<Rightarrow> 'a merge" where
  "setm i w s = s\<lparr>mg_workers := (mg_workers s)[i := w]\<rparr>"

definition mat :: "'a merge \<Rightarrow> nat \<Rightarrow> 'a mworker \<Rightarrow> bool" where
  "mat s i w \<longleftrightarrow> i < length (mg_workers s) \<and> mg_workers s ! i = w"

inductive merge_step :: "'a merge \<Rightarrow> 'a merge \<Rightarrow> bool" where
  recv: "mat s i MRecv \<Longrightarrow> mg_ins s ! i = v # vs \<Longrightarrow>
    merge_step s (setm i (MSend v) (s\<lparr>mg_ins := (mg_ins s)[i := vs]\<rparr>))"
| range_end: "mat s i MRecv \<Longrightarrow> mg_ins s ! i = [] \<Longrightarrow>
    merge_step s (setm i MDone s)"
| send: "mat s i (MSend v) \<Longrightarrow>
    merge_step s (setm i MRecv (s\<lparr>mg_out := mg_out s @ [(i, v)]\<rparr>))"
| close: "\<forall>w \<in> set (mg_workers s). w = MDone \<Longrightarrow> \<not> mg_closed s \<Longrightarrow>
    merge_step s (s\<lparr>mg_closed := True\<rparr>)"

fun mheld :: "'a mworker \<Rightarrow> 'a list" where
  "mheld (MSend v) = [v]"
| "mheld _ = []"

definition from_chan :: "nat \<Rightarrow> (nat \<times> 'a) list \<Rightarrow> 'a list" where
  "from_chan i out = map snd (filter (\<lambda>p. fst p = i) out)"

lemma from_chan_append [simp]:
  "from_chan i (out @ [(k, v)]) = from_chan i out @ (if k = i then [v] else [])"
  by (simp add: from_chan_def)

lemma from_chan_Nil [simp]: "from_chan i [] = []"
  by (simp add: from_chan_def)

definition merge_inv :: "'a list list \<Rightarrow> 'a merge \<Rightarrow> bool" where
  "merge_inv chans s \<longleftrightarrow>
     length (mg_ins s) = length chans \<and> length (mg_workers s) = length chans
     \<and> (\<forall>i < length chans. from_chan i (mg_out s) @ mheld (mg_workers s ! i) @ mg_ins s ! i = chans ! i)
     \<and> (\<forall>p \<in> set (mg_out s). fst p < length chans)
     \<and> (\<forall>i < length chans. mg_workers s ! i = MDone \<longrightarrow> mg_ins s ! i = [])
     \<and> (mg_closed s \<longrightarrow> (\<forall>w \<in> set (mg_workers s). w = MDone))"

lemma merge_init_inv: "merge_inv chans (merge_init chans)"
  by (simp add: merge_inv_def merge_init_def)

lemma merge_inv_step: "merge_inv chans s \<Longrightarrow> merge_step s t \<Longrightarrow> merge_inv chans t"
  by (erule merge_step.cases)
    (auto simp: merge_inv_def setm_def mat_def nth_list_update all_set_conv_all_nth
      split: if_splits)

fun mwork :: "'a mworker \<Rightarrow> nat" where
  "mwork MRecv = 1"
| "mwork (MSend v) = 2"
| "mwork MDone = 0"

definition merge_work :: "'a merge \<Rightarrow> nat" where
  "merge_work s = sum_list (map mwork (mg_workers s)) + 2 * sum_list (map length (mg_ins s))
     + (if mg_closed s then 0 else 1)"

lemma merge_work_step:
  assumes "merge_inv chans s" and "merge_step s t"
  shows "merge_work t < merge_work s"
proof -
  from assms(1) have len: "length (mg_ins s) = length (mg_workers s)" by (simp add: merge_inv_def)
  have upd: "int (sum_list (map mwork ((mg_workers s)[i := w])))
      = int (sum_list (map mwork (mg_workers s))) + int (mwork w) - int (mwork w0)"
    if "mat s i w0" for i w w0
    using that by (simp add: int_sum_list mat_def sum_list_upd_int)
  have ins: "int (sum_list (map length ((mg_ins s)[i := vs])))
      = int (sum_list (map length (mg_ins s))) + int (length vs) - int (length (mg_ins s ! i))"
    if "mat s i w0" for i vs w0
    using that len by (simp add: int_sum_list mat_def sum_list_upd_int)
  from assms(2) have "int (merge_work t) < int (merge_work s)"
    by (cases rule: merge_step.cases)
      (auto simp: merge_work_def setm_def upd ins)
  then show ?thesis by simp
qed

abbreviation merge_run where
  "merge_run \<equiv> merge_step\<^sup>*\<^sup>*"

interpretation fanin: terminating_system merge_step "merge_init chans" "merge_inv chans" merge_work
  for chans :: "'a list list"
  by unfold_locales (auto intro: merge_init_inv merge_inv_step merge_work_step)

lemma merge_stuck_closed:
  assumes "\<forall>u. \<not> merge_step s u"
  shows "mg_closed s"
proof -
  have "w = MDone" if "w \<in> set (mg_workers s)" for w
  proof (rule ccontr)
    assume "w \<noteq> MDone"
    from that obtain i where i: "mat s i w" by (auto simp: mat_def in_set_conv_nth)
    show False
    proof (cases w)
      case MRecv
      with i assms merge_step.recv [of s i] merge_step.range_end [of s i] show False
        by (cases "mg_ins s ! i") auto
    next
      case (MSend v)
      with i assms merge_step.send [of s i v] show False by simp
    qed (use \<open>w \<noteq> MDone\<close> in simp)
  qed
  with assms show ?thesis using merge_step.close by blast
qed

lemma mset_from_chan:
  "\<forall>p \<in> set out. fst p < n \<Longrightarrow> mset (map snd out) = sum_list (map (\<lambda>i. mset (from_chan i out)) [0..<n])"
proof (induction out rule: rev_induct)
  case (snoc p out)
  obtain k v where p: "p = (k, v)" by (cases p)
  with snoc.prems have "k < n" by simp
  have "sum_list (map (\<lambda>i. mset (from_chan i (out @ [p]))) [0..<n])
      = sum_list (map (\<lambda>i. mset (from_chan i out) + (if k = i then {#v#} else {#})) [0..<n])"
    by (intro arg_cong [where f = sum_list] map_cong) (auto simp: p)
  also have "... = sum_list (map (\<lambda>i. mset (from_chan i out)) [0..<n])
      + sum_list (map (\<lambda>i. if k = i then {#v#} else {#}) [0..<n])"
    by (rule sum_list_addf)
  also have "sum_list (map (\<lambda>i. if k = i then {#v#} else {#}) [0..<n]) = {#v#}"
    using \<open>k < n\<close> by (simp add: sum_list_distinct_conv_sum_set)
  finally show ?case using snoc p by simp
qed (simp add: sum_list_all_zero)

text \<open>C23. When the output of \<open>Merge\<close> is closed, its reader has received every value of every
  input channel exactly once, the values of one channel in their order.\<close>

theorem Merge_complete:
  assumes "merge_run (merge_init chans) s" and "mg_closed s"
  shows "(\<forall>i < length chans. from_chan i (mg_out s) = chans ! i)
    \<and> mset (map snd (mg_out s)) = mset (concat chans)"
proof -
  have inv: "merge_inv chans s" by (rule fanin.reach_inv [OF assms(1)])
  have each: "from_chan i (mg_out s) = chans ! i" if "i < length chans" for i
  proof -
    from inv assms(2) that have "mg_workers s ! i = MDone" by (auto simp: merge_inv_def)
    moreover from inv that
    have "from_chan i (mg_out s) @ mheld (mg_workers s ! i) @ mg_ins s ! i = chans ! i"
      "mg_workers s ! i = MDone \<longrightarrow> mg_ins s ! i = []"
      by (simp_all add: merge_inv_def)
    ultimately show ?thesis by simp
  qed
  from inv have "\<forall>p \<in> set (mg_out s). fst p < length chans" by (simp add: merge_inv_def)
  then have "mset (map snd (mg_out s)) = sum_list (map (\<lambda>i. mset (chans ! i)) [0..<length chans])"
    unfolding mset_from_chan [OF \<open>\<forall>p \<in> set (mg_out s). fst p < length chans\<close>]
    by (intro arg_cong [where f = sum_list] map_cong) (auto simp: each)
  also have "... = sum_list (map mset chans)"
    by (intro arg_cong [where f = sum_list] nth_equalityI) auto
  also have "... = mset (concat chans)" by (simp add: mset_concat)
  finally show ?thesis using each by blast
qed

text \<open>Remark. \<open>Merge\<close> always closes its output: no schedule runs for ever, a state with no step left
  is closed, and from every reachable state such an end can be reached.\<close>

theorem Merge_closes:
  assumes "merge_run (merge_init chans) s"
  shows "(\<exists>t. merge_run s t \<and> mg_closed t) \<and> ((\<forall>t. \<not> merge_step s t) \<longrightarrow> mg_closed s)
    \<and> \<not> (\<exists>f. f 0 = merge_init chans \<and> (\<forall>k. merge_step (f k) (f (Suc k))))"
proof (intro conjI)
  from fanin.reaches_stuck [OF fanin.reach_inv [OF assms]]
  show "\<exists>t. merge_run s t \<and> mg_closed t" using merge_stuck_closed by blast
  show "(\<forall>t. \<not> merge_step s t) \<longrightarrow> mg_closed s" using merge_stuck_closed by blast
  show "\<not> (\<exists>f. f 0 = merge_init chans \<and> (\<forall>k. merge_step (f k) (f (Suc k))))"
    using fanin.no_infinite_run [of _ chans] by blast
qed

text \<open>A concrete run: the values of two channels interleave.\<close>

lemma merge_demo_run:
  "\<exists>s. merge_run (merge_init [[1::int], [2]]) s \<and> mg_closed s"
  using fanin.reaches_stuck [OF fanin.inv_init, of "[[1::int], [2]]"] merge_stuck_closed by blast

theorem Merge_complete_witness:
  "\<exists>s. merge_run (merge_init [[1::int], [2]]) s \<and> mset (map snd (mg_out s)) = {#1, 2#}"
proof -
  obtain s where s: "merge_run (merge_init [[1::int], [2]]) s" "mg_closed s"
    using merge_demo_run by blast
  with Merge_complete [OF s] show ?thesis by auto
qed

theorem Merge_closes_witness:
  "\<exists>t. merge_run (merge_init [[1::int], [2]]) t \<and> mg_closed t"
  using Merge_closes [of "[[1::int], [2]]" "merge_init [[1], [2]]"] by blast

end
