(* ===== verification/Repo_Conc.thy ===== *)
theory Repo_Conc
  imports Repo_Interface Go_Mutex
begin

text \<open>
  Repositories with serial identifiers under concurrent calls: what goroutines that create
  customers at the same time can count on.
\<close>

text \<open>A call of \<open>Create\<close>, at a time and ranging over the map in the \<open>j\<close>th order, or of a method that reads.\<close>

datatype ('c, 'q) repo_call = CallCreate int 'c nat | CallRead 'q

datatype ('x, 'c, 'v) repo_ret = RetCreate "('x, 'c) go_result" | RetRead 'v

fun repo_atomic ::
  "('x, 'c, 'r) create_op \<Rightarrow> ('q \<Rightarrow> 'r \<Rightarrow> 'v) \<Rightarrow> ('c, 'q) repo_call \<Rightarrow> 'r \<Rightarrow> ('x, 'c, 'v) repo_ret \<times> 'r" where
  "repo_atomic create read (CallCreate now c j) r = (let (res, r') = create now c r in (RetCreate res, r'))"
| "repo_atomic create read (CallRead q) r = (RetRead (read q r), r)"

text \<open>The customers the calls of all goroutines have created.\<close>

primrec created_by :: "('x, 'c, 'v) repo_ret \<Rightarrow> 'c list" where
  "created_by (RetCreate res) = (case res of Inl e \<Rightarrow> [] | Inr c \<Rightarrow> [c])"
| "created_by (RetRead v) = []"

definition created_all :: "('x, 'c, 'v) repo_ret list list \<Rightarrow> 'c list" where
  "created_all rss = concat (map created_by (concat rss))"

definition calls_made :: "'r list list \<Rightarrow> nat" where
  "calls_made rss = sum_list (map length rss)"

lemma calls_made_snoc: "i < length rss \<Longrightarrow> calls_made (rss[i := rss ! i @ [r]]) = Suc (calls_made rss)"
  using sum_list_upd [of i rss length "rss ! i @ [r]"] by (simp add: calls_made_def)

lemma created_all_snoc:
  fixes rss :: "('x, 'c, 'v) repo_ret list list"
  assumes "i < length rss"
  shows "mset (created_all (rss[i := rss ! i @ [r]])) = mset (created_all rss) + mset (created_by r)"
proof -
  have parts: "mset (created_all rss) = sum_list (map (\<lambda>rs. mset (concat (map created_by rs))) rss)" for rss :: "('x, 'c, 'v) repo_ret list list"
    by (induction rss) (auto simp: created_all_def)
  show ?thesis unfolding parts by (rule sum_list_move [OF assms]) simp
qed

lemma created_all_start [simp]: "created_all (replicate n []) = []" "calls_made (replicate n []) = 0"
  by (simp_all add: created_all_def calls_made_def)

context serial_store begin

text \<open>The entries are the customers the calls report as created, whoever made them.\<close>

lemma concurrent_creates:
  assumes "(atomic_step (repo_atomic create read) prog)\<^sup>*\<^sup>* (replicate n [], empty_repo) a"
    and "int (calls_made (fst a)) \<le> max_int64"
  shows "serial_inv serial email ident (entries (snd a)) (seq (snd a)) \<and> seq (snd a) \<le> int (calls_made (fst a))
    \<and> mset (created_all (fst a)) = mset (map snd (entries (snd a)))"
  using assms
proof (induction rule: rtranclp_induct)
  case (step a b)
  from step.hyps(2) show ?case
  proof cases
    case (call i rss c s r s')
    with step.prems have room: "int (calls_made rss) + 1 \<le> max_int64" by (simp add: calls_made_snoc)
    with step.IH call(1) have IH: "serial_inv serial email ident (entries s) (seq s)" "seq s \<le> int (calls_made rss)"
      "mset (created_all rss) = mset (map snd (entries s))" by auto
    show ?thesis
    proof (cases c)
      case (CallRead q)
      with call(5) have "r = RetRead (read q s)" "s' = s" by auto
      with call(1-3) IH show ?thesis by (simp add: calls_made_snoc created_all_snoc)
    next
      case (CallCreate now cu j)
      have room': "seq s + int (Suc 0) \<le> max_int64" using IH(2) room by simp
      obtain res r' where cr: "create now cu s = (res, r')" by (cases "create now cu s")
      with CallCreate call(5) have r: "r = RetCreate res" "s' = r'" by auto
      from create_inv(1) [OF IH(1) room' cr] have "serial_inv serial email ident (entries r') (seq r')" .
      moreover have "seq r' \<le> seq s + 1
          \<and> mset (map snd (entries r')) = mset (map snd (entries s)) + mset (created_by (RetCreate res))"
        using cr unfolding create_eq [OF IH(1) room'] by (auto simp: put_state split: if_splits)
      ultimately show ?thesis
        using IH(2,3) call(1,2,3) r by (simp add: calls_made_snoc created_all_snoc)
    qed
  qed
qed (simp add: empty_state)

text \<open>So no two of them share an identifier or an e-mail, and each is found under its identifier.\<close>

lemma concurrent_creates_distinct:
  assumes "(atomic_step (repo_atomic create read) prog)\<^sup>*\<^sup>* (replicate n [], empty_repo) (rss, r)"
    and "int (calls_made rss) \<le> max_int64"
  shows "distinct (map ident (created_all rss)) \<and> distinct (map email (created_all rss))
    \<and> (\<forall>c \<in> set (created_all rss). by_id (ident c) r = Inr c)"
proof -
  from concurrent_creates [OF assms(1)] assms(2)
  have inv: "serial_inv serial email ident (entries r) (seq r)"
    and m: "mset (created_all rss) = mset (map snd (entries r))" by auto
  have ids: "map (ident \<circ> snd) (entries r) = map fst (entries r)"
    using inv by (auto simp: serial_inv_def)
  have "mset (map f (created_all rss)) = mset (map (f \<circ> snd) (entries r))" for f :: "'c \<Rightarrow> string"
    using m by (metis map_map mset_map)
  then have "distinct (map f (created_all rss)) = distinct (map (f \<circ> snd) (entries r))" for f :: "'c \<Rightarrow> string"
    by (rule mset_eq_imp_distinct_iff)
  then have "distinct (map ident (created_all rss))" "distinct (map email (created_all rss))"
    unfolding ids using inv by (simp_all only: ids serial_inv_def map_wf_def)
  moreover have "by_id (ident c) r = Inr c" if "c \<in> set (created_all rss)" for c
  proof -
    from that m have "c \<in> set (map snd (entries r))" by (metis set_mset_mset)
    then obtain k where "(k, c) \<in> set (entries r)" by auto
    moreover from this have "ident c = k" using inv by (auto simp: serial_inv_def)
    ultimately have "map_of (entries r) (ident c) = Some c" using inv by (simp add: serial_inv_def map_wf_def)
    then show ?thesis by (simp add: by_id_entries)
  qed
  ultimately show ?thesis by blast
qed

end

end
