(* ===== verification/M04_Customer.thy ===== *)
theory M04_Customer
  imports Repo_Conc Go_Time
begin

text \<open>
  \<open>m04-rest-api/solution-customer\<close>: the trimmed customer domain, the in-memory repository with
  serial identifiers and unique e-mails, and the service in front of it. An operation
  under the mutex is one step, which \<open>M04_Conc\<close> justifies; the clock is an argument.
\<close>

section \<open>The domain\<close>

record m04_AuditFields =
  m04_CreatedAt :: int
  m04_UpdatedAt :: int

record m04_Customer = m04_AuditFields +
  m04_ID :: string
  m04_Email :: string
  m04_Name :: string

definition m04_ErrNotFound :: "unit go_error" where
  "m04_ErrNotFound = ErrNew ''m04/customer.ErrNotFound'' ''customer: not found''"

definition m04_ErrConflict :: "unit go_error" where
  "m04_ErrConflict = ErrNew ''m04/customer.ErrConflict'' ''customer: already exists''"

definition m04_validateEmail :: "string \<Rightarrow> unit go_error option" where
  "m04_validateEmail e =
     (if \<not> contains e ''@'' then Some (ErrValidation ''email'' ''must contain @'') else None)"

definition m04_validateName :: "string \<Rightarrow> unit go_error option" where
  "m04_validateName n =
     (if trim_space n = [] then Some (ErrValidation ''name'' ''must not be empty'') else None)"

definition m04_ValidationError_Error :: "string \<Rightarrow> string \<Rightarrow> string" where
  "m04_ValidationError_Error fld msg = ''validation: '' @ fld @ '': '' @ msg"

lemma m04_err_msg_validation: "err_msg (ErrValidation f m) = m04_ValidationError_Error f m"
  by (simp add: m04_ValidationError_Error_def)

definition m04_Validate :: "m04_Customer \<Rightarrow> unit go_error option" where
  "m04_Validate c =
     errors_join [m04_validateEmail (m04_Email c), m04_validateName (m04_Name c)]"

lemma m04_Validate_None:
  "m04_Validate c = None \<longleftrightarrow> CHR ''@'' \<in> set (m04_Email c) \<and> trim_space (m04_Name c) \<noteq> []"
  by (simp add: m04_Validate_def m04_validateEmail_def m04_validateName_def)

section \<open>The repository\<close>

record m04_InMemoryRepo =
  m04_m :: "(string, m04_Customer) gomap"
  m04_seq :: int

definition m04_NewInMemoryRepo :: m04_InMemoryRepo where
  "m04_NewInMemoryRepo = \<lparr>m04_m = [], m04_seq = 0\<rparr>"

definition m04_Create ::
  "int \<Rightarrow> m04_Customer \<Rightarrow> m04_InMemoryRepo \<Rightarrow> (unit, m04_Customer) go_result \<times> m04_InMemoryRepo"
where
  "m04_Create now c r =
     (if list_ex (\<lambda>(k, existing). m04_Email existing = m04_Email c) (m04_m r)
      then (Inl m04_ErrConflict, r)
      else
        let r = r\<lparr>m04_seq := add64 (m04_seq r) 1\<rparr>;
            c = c\<lparr>m04_ID := ''cus_'' @ fmt_0d 4 (m04_seq r)\<rparr>;
            c = c\<lparr>m04_CreatedAt := now, m04_UpdatedAt := now\<rparr>
        in (Inr c, r\<lparr>m04_m := map_put (m04_ID c) c (m04_m r)\<rparr>))"

definition m04_ByID :: "string \<Rightarrow> m04_InMemoryRepo \<Rightarrow> (unit, m04_Customer) go_result" where
  "m04_ByID i r =
     (case map_of (m04_m r) i of None \<Rightarrow> Inl m04_ErrNotFound | Some c \<Rightarrow> Inr c)"

definition m04_List ::
  "((string, m04_Customer) gomap \<Rightarrow> (string, m04_Customer) gomap) \<Rightarrow> m04_InMemoryRepo
     \<Rightarrow> (unit, m04_Customer list) go_result" where
  "m04_List ord r = Inr (foldl (\<lambda>out (k, c). out @ [c]) [] (ord (m04_m r)))"

text \<open>The service delegates to the repository.\<close>

definition m04_Service_Create where
  "m04_Service_Create now c r = m04_Create now c r"

definition m04_Service_Get where
  "m04_Service_Get i r = m04_ByID i r"

definition m04_Service_List where
  "m04_Service_List ord r = m04_List ord r"

lemmas m04_service_defs = m04_Service_Create_def m04_Service_Get_def m04_Service_List_def

subsection \<open>The invariant\<close>

text \<open>The repository is one with serial identifiers; the rest is proved in its contract.\<close>

definition m04_serial :: "int \<Rightarrow> string" where
  "m04_serial n = ''cus_'' @ fmt_0d 4 n"

lemma m04_serial_inject: "0 \<le> m \<Longrightarrow> 0 \<le> n \<Longrightarrow> m04_serial m = m04_serial n \<longleftrightarrow> m = n"
  by (simp add: m04_serial_def fmt_0d_inject)

abbreviation m04_inv :: "m04_InMemoryRepo \<Rightarrow> bool" where
  "m04_inv r \<equiv> serial_inv m04_serial m04_Email m04_ID (m04_m r) (m04_seq r)"

abbreviation m04_room :: "m04_InMemoryRepo \<Rightarrow> nat \<Rightarrow> bool" where
  "m04_room r n \<equiv> m04_seq r + int n \<le> max_int64"

abbreviation m04_emails :: "m04_InMemoryRepo \<Rightarrow> string set" where
  "m04_emails r \<equiv> serial_emails m04_Email (m04_m r)"

definition m04_created :: "int \<Rightarrow> m04_Customer \<Rightarrow> m04_InMemoryRepo \<Rightarrow> m04_Customer" where
  "m04_created now c r = c\<lparr>m04_ID := m04_serial (m04_seq r + 1), m04_CreatedAt := now, m04_UpdatedAt := now\<rparr>"

interpretation m04_repo: serial_store m04_Create m04_ByID m04_NewInMemoryRepo m04_ID m04_ErrNotFound
  m04_ErrConflict m04_m m04_seq "\<lambda>r m n. r\<lparr>m04_m := m, m04_seq := n\<rparr>" m04_serial m04_Email
  "(\<lambda>now i c. c\<lparr>m04_ID := i, m04_CreatedAt := now, m04_UpdatedAt := now\<rparr>)"
  by unfold_locales
    (simp_all add: fmt_0d_inject m04_NewInMemoryRepo_def m04_ByID_def m04_Create_def m04_serial_def Let_def)

lemma m04_inv_empty: "m04_inv m04_NewInMemoryRepo"
  by (simp add: m04_NewInMemoryRepo_def)

lemma m04_Create_eq:
  assumes "m04_inv r" "m04_room r (Suc n)"
  shows "m04_Create now c r =
    (if m04_Email c \<in> m04_emails r then (Inl m04_ErrConflict, r)
     else (Inr (m04_created now c r),
           r\<lparr>m04_m := m04_m r @ [(m04_serial (m04_seq r + 1), m04_created now c r)], m04_seq := m04_seq r + 1\<rparr>))"
  unfolding m04_repo.create_eq [OF assms] by (simp add: m04_created_def)

lemma m04_inv_Create:
  assumes "m04_inv r" "m04_room r (Suc n)"
  shows "m04_inv (snd (m04_Create now c r)) \<and> m04_room (snd (m04_Create now c r)) n"
  using m04_repo.create_inv [OF assms, of now c] by (cases "m04_Create now c r") auto

end
