(* ===== verification/Go_Json.thy ===== *)
theory Go_Json
  imports Go_Errors Go_Maps
begin

text \<open>
  What the sources use of \<open>encoding/json\<close>, over syntax trees: \<open>json\<close> is a parsed value, a
  request body is its first value with the offset where it ends and the bytes after it
  (\<open>BodyJson\<close>), or input from which no value can be read (\<open>BodyBad\<close>, with the decoder's error
  text). Decoding a tree into a struct of string fields follows the package: fields match
  exactly or up to ASCII case, \<open>null\<close> leaves a field alone, a later duplicate wins, the first
  error is kept, and unknown fields are an error only after \<open>DisallowUnknownFields\<close>. The lexer
  (bytes to trees) and the printer (trees to bytes) are not modelled.
\<close>

datatype json =
    JNull
  | JBool bool
  | JNum string
  | JStr string
  | JArr "json list"
  | JObj "(string \<times> json) list"

datatype body =
    BodyJson json nat string
  | BodyBad string

section \<open>Decoding into a struct of strings\<close>

definition lower :: "char \<Rightarrow> char" where
  "lower c =
     (let n = of_char c :: nat in if 65 \<le> n \<and> n \<le> 90 then char_of (n + 32) else c)"

definition match_field :: "string list \<Rightarrow> string \<Rightarrow> string option" where
  "match_field fields k =
     (if k \<in> set fields then Some k else find (\<lambda>f. map lower f = map lower k) fields)"

definition quoted :: "string \<Rightarrow> string" where
  "quoted s = CHR 0x22 # s @ [CHR 0x22]"

fun json_kind :: "json \<Rightarrow> string" where
  "json_kind JNull = ''null''"
| "json_kind (JBool b) = ''bool''"
| "json_kind (JNum n) = ''number''"
| "json_kind (JStr s) = ''string''"
| "json_kind (JArr a) = ''array''"
| "json_kind (JObj kvs) = ''object''"

definition unknown_field_err :: "string \<Rightarrow> 'x go_error" where
  "unknown_field_err k = ErrNew [] (''json: unknown field '' @ quoted k)"

definition type_err :: "string \<Rightarrow> string \<Rightarrow> json \<Rightarrow> 'x go_error" where
  "type_err struct f v = ErrNew []
     (''json: cannot unmarshal '' @ json_kind v @ '' into Go struct field '' @ struct @ ''.''
       @ f @ '' of type string'')"

text \<open>The decoder's state: the fields stored so far and the first error.\<close>

type_synonym 'x dec_state = "(string \<times> string) list \<times> 'x go_error option"

definition save_err :: "'x go_error \<Rightarrow> 'x go_error option \<Rightarrow> 'x go_error option" where
  "save_err e err = (case err of None \<Rightarrow> Some e | Some e' \<Rightarrow> Some e')"

definition decode_field ::
  "bool \<Rightarrow> string \<Rightarrow> string list \<Rightarrow> string \<times> json \<Rightarrow> 'x dec_state \<Rightarrow> 'x dec_state" where
  "decode_field strict struct fields kv st =
     (let (k, v) = kv; (vals, err) = st
      in case match_field fields k of
           None \<Rightarrow> (vals, if strict then save_err (unknown_field_err k) err else err)
         | Some f \<Rightarrow>
             (case v of
                JStr s \<Rightarrow> (AList.update f s vals, err)
              | JNull \<Rightarrow> (vals, err)
              | _ \<Rightarrow> (vals, save_err (type_err struct f v) err)))"

definition decode_struct ::
  "bool \<Rightarrow> string \<Rightarrow> string list \<Rightarrow> json \<Rightarrow> ('x, (string \<times> string) list) go_result" where
  "decode_struct strict struct fields v =
     (case v of
        JNull \<Rightarrow> Inr []
      | JObj kvs \<Rightarrow>
          (let (vals, err) = fold (decode_field strict struct fields) kvs ([], None)
           in case err of None \<Rightarrow> Inr vals | Some e \<Rightarrow> Inl e)
      | _ \<Rightarrow> Inl (ErrNew [] (''json: cannot unmarshal '' @ json_kind v
                 @ '' into Go value of type '' @ struct)))"

text \<open>A field no key set has the zero value of its type.\<close>

definition field :: "(string \<times> string) list \<Rightarrow> string \<Rightarrow> string" where
  "field vals f = (case map_of vals f of None \<Rightarrow> [] | Some s \<Rightarrow> s)"

text \<open>
  \<open>Decoder.Decode\<close>: with a limit on the bytes the reader yields, a value that ends beyond the
  limit cannot be read.
\<close>

definition body_too_large :: "'x go_error" where
  "body_too_large = ErrNew ''http.MaxBytesError'' ''http: request body too large''"

definition decoder_decode ::
  "nat option \<Rightarrow> bool \<Rightarrow> string \<Rightarrow> string list \<Rightarrow> body \<Rightarrow> ('x, (string \<times> string) list) go_result"
where
  "decoder_decode limit strict struct fields b =
     (case b of
        BodyBad m \<Rightarrow> Inl (ErrNew [] m)
      | BodyJson v stop rest \<Rightarrow>
          (case limit of
             None \<Rightarrow> decode_struct strict struct fields v
           | Some n \<Rightarrow> if n < stop then Inl body_too_large
                      else decode_struct strict struct fields v))"

definition json_space :: "char \<Rightarrow> bool" where
  "json_space c \<longleftrightarrow> c \<in> {CHR '' '', CHR 0x09, CHR 0x0A, CHR 0x0D}"

text \<open>
  \<open>Decoder.More\<close> at top level: the next byte that is not a space can be read and is not a
  closing bracket.
\<close>

definition decoder_more :: "nat \<Rightarrow> body \<Rightarrow> bool" where
  "decoder_more limit b =
     (case b of
        BodyBad m \<Rightarrow> False
      | BodyJson v stop rest \<Rightarrow>
          (case dropWhile json_space rest of
             [] \<Rightarrow> False
           | c # r \<Rightarrow> stop + length (takeWhile json_space rest) < limit
                      \<and> c \<noteq> CHR '']'' \<and> c \<noteq> CHR ''}''))"

lemma decode_fold_err:
  "snd (fold (decode_field strict struct fields) kvs (vals, Some e)) = Some e"
  by (induction kvs arbitrary: vals)
     (auto simp: decode_field_def save_err_def Let_def split: prod.splits option.splits json.splits)

text \<open>An object with an unknown key is never decoded when unknown fields are refused.\<close>

lemma decode_unknown_field:
  "(k, v) \<in> set kvs \<Longrightarrow> match_field fields k = None
     \<Longrightarrow> snd (fold (decode_field True struct fields) kvs st) \<noteq> None"
proof (induction kvs arbitrary: st)
  case Nil
  then show ?case by simp
next
  case (Cons kv kvs)
  show ?case
  proof (cases "kv = (k, v)")
    case True
    obtain vals err where st: "st = (vals, err)" by (cases st)
    from True Cons.prems(2) obtain e where
      "decode_field True struct fields kv st = (vals, Some e)"
      by (cases err) (auto simp: st decode_field_def save_err_def)
    then show ?thesis by (simp add: decode_fold_err)
  next
    case False
    with Cons show ?thesis by simp
  qed
qed

section \<open>Schemas\<close>

text \<open>The type of a JSON value: the names of an object's fields and their order, and the type of each.\<close>

datatype schema = SStr | SNum | SBool | SArr schema | SObj "(string \<times> schema) list"

fun conforms :: "schema \<Rightarrow> json \<Rightarrow> bool"
and conforms_fields :: "(string \<times> schema) list \<Rightarrow> (string \<times> json) list \<Rightarrow> bool" where
  "conforms SStr (JStr s) = True"
| "conforms SNum (JNum n) = True"
| "conforms SBool (JBool b) = True"
| "conforms (SArr t) (JArr vs) = list_all (conforms t) vs"
| "conforms (SObj fs) (JObj kvs) = conforms_fields fs kvs"
| "conforms _ _ = False"
| "conforms_fields [] [] = True"
| "conforms_fields ((k, t) # fs) ((k', v) # kvs) = (k = k' \<and> conforms t v \<and> conforms_fields fs kvs)"
| "conforms_fields _ _ = False"

end
