(* ===== verification/Go_Http.thy ===== *)
theory Go_Http
  imports Go_Json
begin

text \<open>
  What the sources use of \<open>net/http\<close>. A request carries its method, path, headers, query
  values, body and the request ID its context holds. A response writer records the headers,
  the status of the first \<open>WriteHeader\<close> (later ones are superfluous) and what was written; a
  \<open>statusRecorder\<close> around it is an entry of the stack \<open>rw_rec\<close>: its own status, set by every
  \<open>WriteHeader\<close> that passes through it. A handler maps a request and the server's state to the
  new state and to the panic it ended with, if any. \<open>mux\<close> is the pattern dispatch of
  \<open>http.ServeMux\<close> for paths that are already clean.
\<close>

record http_req =
  rq_method :: string
  rq_path :: string
  rq_header :: "(string \<times> string) list"
  rq_query :: "(string \<times> string) list"
  rq_body :: body
  rq_rid :: "string option"

datatype chunk = CJson json | CText string

record http_rw =
  rw_hdr :: "(string \<times> string) list"
  rw_status :: "int option"
  rw_body :: "chunk list"
  rw_rec :: "int list"

text \<open>\<open>log/slog\<close>: a handler with a minimum level emits the records of that level and above.\<close>

datatype slog_level = LevelDebug | LevelInfo | LevelWarn | LevelError

primrec slog_rank :: "slog_level \<Rightarrow> int" where
  "slog_rank LevelDebug = -4"
| "slog_rank LevelInfo = 0"
| "slog_rank LevelWarn = 4"
| "slog_rank LevelError = 8"

lemma slog_rank_inject [simp]: "slog_rank a = slog_rank b \<longleftrightarrow> a = b"
  by (cases a; cases b) simp_all

instantiation slog_level :: linorder
begin

definition less_eq_slog_level :: "slog_level \<Rightarrow> slog_level \<Rightarrow> bool" where
  "less_eq_slog_level a b \<longleftrightarrow> slog_rank a \<le> slog_rank b"

definition less_slog_level :: "slog_level \<Rightarrow> slog_level \<Rightarrow> bool" where
  "less_slog_level a b \<longleftrightarrow> slog_rank a < slog_rank b"

instance
  by standard (auto simp: less_eq_slog_level_def less_slog_level_def)

end

definition slog_enabled :: "slog_level \<Rightarrow> slog_level \<Rightarrow> bool" where
  "slog_enabled lvl record_level \<longleftrightarrow> lvl \<le> record_level"

text \<open>A log line: its message and the attributes the code gives (durations left out).\<close>

type_synonym log_line = "string \<times> (string \<times> string) list"

record 's srv =
  sv_rw :: http_rw
  sv_log :: "log_line list"
  sv_rid :: "64 word"
  sv_st :: 's

type_synonym 's handler = "http_req \<Rightarrow> 's srv \<Rightarrow> panic option \<times> 's srv"

definition new_rw :: http_rw where
  "new_rw = \<lparr>rw_hdr = [], rw_status = None, rw_body = [], rw_rec = []\<rparr>"

text \<open>\<open>Header.Get\<close> and \<open>URL.Query().Get\<close>: the empty string when the name is absent.\<close>

definition get_default :: "(string \<times> string) list \<Rightarrow> string \<Rightarrow> string" where
  "get_default h k = (case map_of h k of None \<Rightarrow> [] | Some v \<Rightarrow> v)"

definition header_set :: "string \<Rightarrow> string \<Rightarrow> http_rw \<Rightarrow> http_rw" where
  "header_set k v w =
     (if rw_status w = None then w\<lparr>rw_hdr := AList.update k v (rw_hdr w)\<rparr> else w)"

definition write_header :: "int \<Rightarrow> http_rw \<Rightarrow> http_rw" where
  "write_header code w =
     w\<lparr>rw_rec := map (\<lambda>_. code) (rw_rec w),
       rw_status := (case rw_status w of None \<Rightarrow> Some code | Some c \<Rightarrow> Some c)\<rparr>"

text \<open>A \<open>Write\<close> before any \<open>WriteHeader\<close> sends status 200 from the underlying writer.\<close>

definition write_chunk :: "chunk \<Rightarrow> http_rw \<Rightarrow> http_rw" where
  "write_chunk c w =
     w\<lparr>rw_status := (case rw_status w of None \<Rightarrow> Some 200 | Some s \<Rightarrow> Some s),
       rw_body := rw_body w @ [c]\<rparr>"

definition push_rec :: "int \<Rightarrow> http_rw \<Rightarrow> http_rw" where
  "push_rec c w = w\<lparr>rw_rec := c # rw_rec w\<rparr>"

definition pop_rec :: "http_rw \<Rightarrow> int \<times> http_rw" where
  "pop_rec w =
     (case rw_rec w of [] \<Rightarrow> (200, w) | c # cs \<Rightarrow> (c, w\<lparr>rw_rec := cs\<rparr>))"

definition on_rw :: "(http_rw \<Rightarrow> http_rw) \<Rightarrow> 's srv \<Rightarrow> 's srv" where
  "on_rw f s = s\<lparr>sv_rw := f (sv_rw s)\<rparr>"

definition add_log :: "log_line \<Rightarrow> 's srv \<Rightarrow> 's srv" where
  "add_log l s = s\<lparr>sv_log := sv_log s @ [l]\<rparr>"

lemmas http_defs = header_set_def write_header_def write_chunk_def on_rw_def add_log_def
  push_rec_def pop_rec_def get_default_def

text \<open>The status and the chunks of a finished response.\<close>

definition answer :: "'s srv \<Rightarrow> int option \<times> chunk list" where
  "answer s = (rw_status (sv_rw s), rw_body (sv_rw s))"

lemma answer_st [simp]: "answer (s\<lparr>sv_st := r\<rparr>) = answer s"
  by (simp add: answer_def)

section \<open>http.ServeMux\<close>

datatype seg = Lit string | Wild string

type_synonym 's route = "string \<times> seg list \<times> ((string \<Rightarrow> string) \<Rightarrow> 's handler)"

text \<open>The segments of a path: the parts between slashes.\<close>

fun split_on :: "char \<Rightarrow> string \<Rightarrow> string list" where
  "split_on c [] = [[]]"
| "split_on c (x # s) =
     (if x = c then [] # split_on c s
      else (case split_on c s of [] \<Rightarrow> [[x]] | p # ps \<Rightarrow> (x # p) # ps))"

lemma split_on_single [simp]: "c \<notin> set s \<Longrightarrow> split_on c s = [s]"
  by (induction s) auto

fun match_segs :: "seg list \<Rightarrow> string list \<Rightarrow> (string \<times> string) list option" where
  "match_segs [] [] = Some []"
| "match_segs (Lit l # ps) (s # ss) = (if l = s then match_segs ps ss else None)"
| "match_segs (Wild n # ps) (s # ss) =
     (if s = [] then None else map_option ((#) (n, s)) (match_segs ps ss))"
| "match_segs _ _ = None"

text \<open>A pattern without a method matches all of them; GET matches HEAD too.\<close>

definition method_ok :: "string \<Rightarrow> string \<Rightarrow> bool" where
  "method_ok pat m \<longleftrightarrow> pat = [] \<or> pat = m \<or> (pat = ''GET'' \<and> m = ''HEAD'')"

definition http_error :: "string \<Rightarrow> int \<Rightarrow> http_rw \<Rightarrow> http_rw" where
  "http_error msg code w =
     write_chunk (CText (msg @ [CHR 0x0A])) (write_header code
       (header_set ''Content-Type'' ''text/plain; charset=utf-8'' w))"

text \<open>
  The patterns of the sources differ in a literal segment or in the method, so at most one
  matches; a path known under other methods only is answered 405, an unknown one 404.
\<close>

fun mux_find :: "(string \<times> seg list \<times> ((string \<Rightarrow> string) \<Rightarrow> 'h)) list \<Rightarrow> string \<Rightarrow> string list \<Rightarrow> 'h option" where
  "mux_find [] m ss = None"
| "mux_find ((pm, segs, h) # rs) m ss =
     (case match_segs segs ss of
        Some b \<Rightarrow> (if method_ok pm m then Some (h (get_default b)) else mux_find rs m ss)
      | None \<Rightarrow> mux_find rs m ss)"

definition mux :: "'s route list \<Rightarrow> 's handler" where
  "mux routes r s =
     (let ss = split_on CHR ''/'' (rq_path r)
      in case mux_find routes (rq_method r) ss of
           Some h \<Rightarrow> h r s
         | None \<Rightarrow>
             (if \<exists>(pm, segs, h) \<in> set routes. match_segs segs ss \<noteq> None
              then (None, on_rw (http_error ''Method Not Allowed'' 405) s)
              else (None, on_rw (http_error ''404 page not found'' 404) s)))"

end
