(* ===== verification/M04_Api.thy ===== *)
theory M04_Api
  imports M02_Genx M04_Customer Go_Http Error_Codes
begin

text \<open>
  \<open>m04-rest-api/solution-httpapi\<close>: the REST layer over the customer service. Handlers and
  middlewares are functions on the server's state (\<open>srv\<close>: the response being written, the log,
  the request-ID counter, the repository). chi's router is a parameter: \<open>chi_route\<close> says which
  registered route a method and a path select, \<open>chi_miss\<close> answers the rest. The clock and the
  order in which maps are ranged over are arguments.
\<close>

type_synonym m04_srv = "m04_InMemoryRepo srv"
type_synonym m04_handler = "m04_InMemoryRepo handler"
type_synonym m04_error = "unit go_error"
type_synonym m04_order = "(string, m04_Customer) gomap \<Rightarrow> (string, m04_Customer) gomap"

section \<open>errors.go\<close>

definition m04_CodeNotFound :: string where "m04_CodeNotFound = ''NOT_FOUND''"
definition m04_CodeValidation :: string where "m04_CodeValidation = ''VALIDATION''"
definition m04_CodeConflict :: string where "m04_CodeConflict = ''CONFLICT''"
definition m04_CodeUnauthorized :: string where "m04_CodeUnauthorized = ''UNAUTHORIZED''"
definition m04_CodeInternal :: string where "m04_CodeInternal = ''INTERNAL''"

lemmas m04_codes = m04_CodeNotFound_def m04_CodeValidation_def m04_CodeConflict_def
  m04_CodeUnauthorized_def m04_CodeInternal_def

text \<open>The methods of a \<open>*codedError\<close>, which \<open>err_msg\<close> and \<open>err_first\<close> follow.\<close>

definition m04_codedError_Error :: "string \<Rightarrow> 'x go_error \<Rightarrow> string" where
  "m04_codedError_Error code err = code @ '': '' @ err_msg err"

definition m04_codedError_Unwrap :: "string \<Rightarrow> 'x go_error \<Rightarrow> 'x go_error" where
  "m04_codedError_Unwrap code err = err"

lemma m04_codedError:
  "err_msg (ErrCoded code err) = m04_codedError_Error code err"
  "f (ErrCoded code err) = None \<Longrightarrow> err_first f (ErrCoded code err) = err_first f (m04_codedError_Unwrap code err)"
  by (simp_all add: m04_codedError_Error_def m04_codedError_Unwrap_def)

definition m04_withCode :: "'x go_error option \<Rightarrow> string \<Rightarrow> 'x go_error option" where
  "m04_withCode err code = (case err of None \<Rightarrow> None | Some e \<Rightarrow> Some (ErrCoded code e))"

definition m04_codeOf :: "'x go_error option \<Rightarrow> string" where
  "m04_codeOf err =
     (case errors_as as_coded err of
        Some c \<Rightarrow> c
      | None \<Rightarrow>
          if errors_is err ''m04/customer.ErrNotFound'' then m04_CodeNotFound
          else if errors_is err ''m04/customer.ErrConflict'' then m04_CodeConflict
          else case errors_as as_validation err of
                 Some ve \<Rightarrow> m04_CodeValidation
               | None \<Rightarrow> m04_CodeInternal)"

definition m04_httpStatus :: "string \<Rightarrow> int" where
  "m04_httpStatus code =
     (if code = m04_CodeNotFound then 404
      else if code = m04_CodeValidation then 400
      else if code = m04_CodeConflict then 409
      else if code = m04_CodeUnauthorized then 401
      else 500)"

definition m04_errorBody :: "string \<Rightarrow> string \<Rightarrow> json" where
  "m04_errorBody code msg =
     JObj [(''error'', JObj [(''code'', JStr code), (''message'', JStr msg)])]"

section \<open>json.go\<close>

definition m04_maxBodyBytes :: nat where
  "m04_maxBodyBytes = 1048576"

definition m04_writeJSON :: "int \<Rightarrow> json \<Rightarrow> 's srv \<Rightarrow> 's srv" where
  "m04_writeJSON status v =
     on_rw (\<lambda>w. write_chunk (CJson v)
       (write_header status (header_set ''Content-Type'' ''application/json'' w)))"

definition m04_respondError :: "'x go_error \<Rightarrow> 's srv \<Rightarrow> 's srv" where
  "m04_respondError err s =
     (let code = m04_codeOf (Some err);
          status = m04_httpStatus code;
          msg = err_msg err;
          msg = (if status = 500 then ''internal server error'' else msg)
      in m04_writeJSON status (m04_errorBody code msg) s)"

definition m04_decodeJSON ::
  "string \<Rightarrow> string list \<Rightarrow> http_req \<Rightarrow> ('x, (string \<times> string) list) go_result" where
  "m04_decodeJSON struct flds r =
     (case decoder_decode (Some m04_maxBodyBytes) True struct flds (rq_body r) of
        Inl e \<Rightarrow> Inl (ErrWrap ''decode body'' e)
      | Inr v \<Rightarrow>
          (if decoder_more m04_maxBodyBytes (rq_body r)
           then Inl (ErrNew [] ''body must contain a single JSON object'')
           else Inr v))"

section \<open>middleware.go\<close>

definition m04_newRequestID :: "'s srv \<Rightarrow> string \<times> 's srv" where
  "m04_newRequestID s =
     (let n = sv_rid s + 1 in (''req_'' @ fmt_0d 8 (uint n), s\<lparr>sv_rid := n\<rparr>))"

definition m04_RequestIDFrom :: "http_req \<Rightarrow> string" where
  "m04_RequestIDFrom r = (case rq_rid r of Some v \<Rightarrow> v | None \<Rightarrow> [])"

definition m04_RequestID :: "'s handler \<Rightarrow> 's handler" where
  "m04_RequestID next r s =
     (let i = get_default (rq_header r) ''X-Request-ID'';
          (i, s) = (if i = [] then m04_newRequestID s else (i, s));
          s = on_rw (header_set ''X-Request-ID'' i) s
      in next (r\<lparr>rq_rid := Some i\<rparr>) s)"

definition m04_Logging :: "'s handler \<Rightarrow> 's handler" where
  "m04_Logging next r s =
     (let (p, s) = next r (on_rw (push_rec 200) s);
          (status, w) = pop_rec (sv_rw s);
          s = s\<lparr>sv_rw := w\<rparr>
      in case p of
           Some e \<Rightarrow> (Some e, s)
         | None \<Rightarrow> (None, add_log (''http request'',
             [(''method'', rq_method r), (''path'', rq_path r), (''status'', fmt_d status),
              (''request_id'', m04_RequestIDFrom r)]) s))"

definition m04_Recover :: "'s handler \<Rightarrow> 's handler" where
  "m04_Recover next r s =
     (let (p, s) = next r s
      in case p of
           None \<Rightarrow> (None, s)
         | Some rec \<Rightarrow>
             (let s = add_log (''panic recovered'',
                [(''err'', rec), (''request_id'', m04_RequestIDFrom r)]) s
              in (None, m04_respondError
                    (ErrCoded m04_CodeInternal (ErrNew [] ''panic'') :: m04_error) s)))"

definition m04_BearerAuth :: "string \<Rightarrow> 's handler \<Rightarrow> 's handler" where
  "m04_BearerAuth token next r s =
     (let got = trim_prefix (get_default (rq_header r) ''Authorization'') ''Bearer ''
      in if got = [] \<or> got \<noteq> token
         then (None, m04_respondError
                 (ErrCoded m04_CodeUnauthorized (ErrNew [] ''unauthorized'') :: m04_error) s)
         else next r s)"

section \<open>handler.go\<close>

definition m04_redactEmail :: "string \<Rightarrow> panic + string" where
  "m04_redactEmail e =
     (let at = index_byte e CHR ''@''
      in if at \<le> 1
         then (case str_from e at of Inl p \<Rightarrow> Inl p | Inr t \<Rightarrow> Inr (''***'' @ t))
         else (case str_to e 1 of Inl p \<Rightarrow> Inl p
               | Inr h \<Rightarrow> (case str_from e at of Inl p \<Rightarrow> Inl p | Inr t \<Rightarrow> Inr (h @ ''***'' @ t))))"

record m04_customerResponse =
  rsp_ID :: string
  rsp_Email :: string
  rsp_Name :: string
  rsp_CreatedAt :: string

definition m04_toResponse :: "m04_Customer \<Rightarrow> bool \<Rightarrow> panic + m04_customerResponse" where
  "m04_toResponse c redactPII =
     (case (if redactPII then m04_redactEmail (m04_Email c) else Inr (m04_Email c)) of
        Inl p \<Rightarrow> Inl p
      | Inr email \<Rightarrow> Inr \<lparr>rsp_ID = m04_ID c, rsp_Email = email, rsp_Name = m04_Name c,
                          rsp_CreatedAt = rfc3339 (m04_CreatedAt c)\<rparr>)"

definition m04_responseJSON :: "m04_customerResponse \<Rightarrow> json" where
  "m04_responseJSON v =
     JObj [(''id'', JStr (rsp_ID v)), (''email'', JStr (rsp_Email v)),
           (''name'', JStr (rsp_Name v)), (''created_at'', JStr (rsp_CreatedAt v))]"

definition m04_pii :: "http_req \<Rightarrow> bool" where
  "m04_pii r \<longleftrightarrow> get_default (rq_header r) ''X-Scope'' \<noteq> ''pii''"

definition m04_atoiDefault :: "string \<Rightarrow> int \<Rightarrow> int" where
  "m04_atoiDefault s dflt = (case atoi s of Some n \<Rightarrow> n | None \<Rightarrow> dflt)"

record m04_pageView =
  pv_items :: "m04_Customer list"
  pv_page :: int
  pv_size :: int
  pv_total :: int
  pv_totalPages :: int
  pv_hasNext :: bool

definition m04_paginate :: "m04_Customer list \<Rightarrow> int \<Rightarrow> int \<Rightarrow> panic + m04_pageView" where
  "m04_paginate items page sz =
     (let page = (if page < 1 then 1 else page);
          sz = (if sz < 1 then 20 else sz);
          total = int (length items);
          start = mul64 (sub64 page 1) sz;
          start = (if start > total then total else start);
          stop = add64 start sz;
          stop = (if stop > total then total else stop);
          totalPages = div64 (sub64 (add64 total sz) 1) sz
      in case slice items start stop of
           Inl p \<Rightarrow> Inl p
         | Inr its \<Rightarrow> Inr \<lparr>pv_items = its, pv_page = page, pv_size = sz, pv_total = total,
                           pv_totalPages = totalPages, pv_hasNext = page < totalPages\<rparr>)"

definition m04_listResponse :: "m04_customerResponse list \<Rightarrow> m04_pageView \<Rightarrow> json" where
  "m04_listResponse items p =
     JObj [(''items'', JArr (map m04_responseJSON items)), (''page'', JNum (fmt_d (pv_page p))),
           (''total_pages'', JNum (fmt_d (pv_totalPages p))), (''total'', JNum (fmt_d (pv_total p))),
           (''has_next'', JBool (pv_hasNext p))]"

text \<open>The loop over the page; the first item that panics ends it.\<close>

fun m04_toResponses :: "m04_Customer list \<Rightarrow> bool \<Rightarrow> panic + m04_customerResponse list" where
  "m04_toResponses [] redact = Inr []"
| "m04_toResponses (c # cs) redact =
     (case m04_toResponse c redact of
        Inl p \<Rightarrow> Inl p
      | Inr v \<Rightarrow> (case m04_toResponses cs redact of Inl p \<Rightarrow> Inl p | Inr vs \<Rightarrow> Inr (v # vs)))"

definition m04_health :: "m04_handler" where
  "m04_health r s = (None, m04_writeJSON 200 (JObj [(''status'', JStr ''ok'')]) s)"

definition m04_createCustomer :: "int \<Rightarrow> m04_handler" where
  "m04_createCustomer now r s =
     (case m04_decodeJSON ''createCustomerRequest'' [''email'', ''name''] r of
        Inl e \<Rightarrow> (None, m04_respondError (ErrCoded m04_CodeValidation e :: m04_error) s)
      | Inr req \<Rightarrow>
          (let c = \<lparr>m04_CreatedAt = zero_time, m04_UpdatedAt = zero_time, m04_ID = [],
                    m04_Email = field req ''email'', m04_Name = field req ''name''\<rparr>
           in case (m04_Validate c :: m04_error option) of
                Some e \<Rightarrow> (None, m04_respondError e s)
              | None \<Rightarrow>
                  (let (res, repo) = m04_Service_Create now c (sv_st s); s = s\<lparr>sv_st := repo\<rparr>
                   in case (res :: (unit, m04_Customer) go_result) of
                        Inl e \<Rightarrow> (None, m04_respondError e s)
                      | Inr created \<Rightarrow>
                          (case m04_toResponse created (m04_pii r) of
                             Inl p \<Rightarrow> (Some p, s)
                           | Inr v \<Rightarrow> (None, m04_writeJSON 201 (m04_responseJSON v) s)))))"

definition m04_getCustomer :: "string \<Rightarrow> m04_handler" where
  "m04_getCustomer i r s =
     (case (m04_Service_Get i (sv_st s) :: (unit, m04_Customer) go_result) of
        Inl e \<Rightarrow> (None, m04_respondError e s)
      | Inr c \<Rightarrow>
          (case m04_toResponse c (m04_pii r) of
             Inl p \<Rightarrow> (Some p, s)
           | Inr v \<Rightarrow> (None, m04_writeJSON 200 (m04_responseJSON v) s)))"

definition m04_listCustomers :: "m04_order \<Rightarrow> m04_handler" where
  "m04_listCustomers ord r s =
     (case (m04_Service_List ord (sv_st s) :: (unit, m04_Customer list) go_result) of
        Inl e \<Rightarrow> (None, m04_respondError e s)
      | Inr cs \<Rightarrow>
          (let page = m04_atoiDefault (get_default (rq_query r) ''page'') 1;
               sz = m04_atoiDefault (get_default (rq_query r) ''size'') 20
           in case m04_paginate cs page sz of
                Inl p \<Rightarrow> (Some p, s)
              | Inr p \<Rightarrow>
                  (case m04_toResponses (pv_items p) (m04_pii r) of
                     Inl q \<Rightarrow> (Some q, s)
                   | Inr items \<Rightarrow> (None, m04_writeJSON 200 (m04_listResponse items p) s))))"

text \<open>The registered routes; \<open>V1Miss\<close> is a path under \<open>/v1\<close> that no route of the group matches.\<close>

datatype m04_route = Health | V1Create | V1List | V1Get string | V1Miss | Miss

definition m04_v1 :: "m04_handler \<Rightarrow> m04_order \<Rightarrow> int \<Rightarrow> m04_route \<Rightarrow> m04_handler" where
  "m04_v1 chi_miss ord now rt r s =
     (case rt of
        V1Create \<Rightarrow> m04_createCustomer now r s
      | V1List \<Rightarrow> m04_listCustomers ord r s
      | V1Get i \<Rightarrow> m04_getCustomer i r s
      | _ \<Rightarrow> chi_miss r s)"

definition m04_Routes ::
  "(string \<Rightarrow> string \<Rightarrow> m04_route) \<Rightarrow> m04_handler \<Rightarrow> m04_order \<Rightarrow> int \<Rightarrow> string \<Rightarrow> m04_handler" where
  "m04_Routes chi_route chi_miss ord now token =
     m04_Recover (m04_RequestID (m04_Logging (\<lambda>r s.
       case chi_route (rq_method r) (rq_path r) of
         Health \<Rightarrow> m04_health r s
       | Miss \<Rightarrow> chi_miss r s
       | rt \<Rightarrow> m04_BearerAuth token (m04_v1 chi_miss ord now rt) r s)))"

section \<open>What a client sees\<close>

lemma answer_writeJSON [simp]:
  "answer s = (None, []) \<Longrightarrow> answer (m04_writeJSON status v s) = (Some status, [CJson v])"
  by (simp add: answer_def m04_writeJSON_def http_defs)

lemma st_writeJSON [simp]: "sv_st (m04_writeJSON status v s) = sv_st s"
  by (simp add: m04_writeJSON_def http_defs)

lemma st_respondError [simp]: "sv_st (m04_respondError e s) = sv_st s"
  by (simp add: m04_respondError_def Let_def)

definition m04_envelope :: "'x go_error \<Rightarrow> int \<times> json" where
  "m04_envelope e =
     (let code = m04_codeOf (Some e); status = m04_httpStatus code
      in (status, m04_errorBody code (if status = 500 then ''internal server error'' else err_msg e)))"

lemma answer_respondError [simp]:
  "answer s = (None, []) \<Longrightarrow> answer (m04_respondError e s) =
     (Some (fst (m04_envelope e)), [CJson (snd (m04_envelope e))])"
  by (simp add: m04_respondError_def m04_envelope_def Let_def)

text \<open>
  The three outer middlewares: what the inner handler is given, and what becomes of its result.
\<close>

definition m04_enter :: "http_req \<Rightarrow> 's srv \<Rightarrow> http_req \<times> 's srv" where
  "m04_enter r s =
     (let i = get_default (rq_header r) ''X-Request-ID'';
          (i, s) = (if i = [] then m04_newRequestID s else (i, s))
      in (r\<lparr>rq_rid := Some i\<rparr>, on_rw (push_rec 200) (on_rw (header_set ''X-Request-ID'' i) s)))"

lemma m04_enter_req [simp]:
  "rq_method (fst (m04_enter r s)) = rq_method r" "rq_path (fst (m04_enter r s)) = rq_path r"
  "rq_header (fst (m04_enter r s)) = rq_header r" "rq_query (fst (m04_enter r s)) = rq_query r"
  "rq_body (fst (m04_enter r s)) = rq_body r"
  by (simp_all add: m04_enter_def m04_newRequestID_def Let_def split: if_splits prod.splits)

lemma m04_enter_srv [simp]:
  "sv_st (snd (m04_enter r s)) = sv_st s" "answer (snd (m04_enter r s)) = answer s"
  by (simp_all add: m04_enter_def m04_newRequestID_def Let_def answer_def http_defs)

definition m04_chain :: "'s handler \<Rightarrow> 's handler" where
  "m04_chain h = m04_Recover (m04_RequestID (m04_Logging h))"

lemma m04_panic_envelope:
  "m04_envelope (ErrCoded m04_CodeInternal (ErrNew [] ''panic''))
     = (500, m04_errorBody ''INTERNAL'' ''internal server error'')"
  by (simp add: m04_envelope_def m04_codeOf_def errors_as_def as_coded_def m04_codes
      m04_httpStatus_def Let_def)

lemma m04_unauthorized_envelope:
  "m04_envelope (ErrCoded m04_CodeUnauthorized (ErrNew [] ''unauthorized'') :: m04_error)
     = (401, m04_errorBody ''UNAUTHORIZED'' ''UNAUTHORIZED: unauthorized'')"
  by (simp add: m04_envelope_def m04_codeOf_def errors_as_def as_coded_def m04_codes
      m04_httpStatus_def Let_def)

lemma m04_chain_result:
  assumes "h (fst (m04_enter r s)) (snd (m04_enter r s)) = (p, s2)"
  shows "fst (m04_chain h r s) = None" and "sv_st (snd (m04_chain h r s)) = sv_st s2"
    and "p = None \<Longrightarrow> answer (snd (m04_chain h r s)) = answer s2"
    and "p \<noteq> None \<Longrightarrow> answer s2 = (None, []) \<Longrightarrow> answer (snd (m04_chain h r s)) =
           (Some 500, [CJson (m04_errorBody ''INTERNAL'' ''internal server error'')])"
proof -
  have ans: "answer (s\<lparr>sv_rw := snd (pop_rec (sv_rw s))\<rparr>) = answer s" for s :: "'a srv"
    by (simp add: answer_def pop_rec_def split: list.splits)
  have add: "answer (add_log l s) = answer s" "sv_st (add_log l s) = sv_st s" for l and s :: "'a srv"
    by (simp_all add: answer_def add_log_def)
  have res: "m04_chain h r s = (case p of
        None \<Rightarrow> (None, add_log (''http request'', [(''method'', rq_method r), (''path'', rq_path r),
              (''status'', fmt_d (fst (pop_rec (sv_rw s2)))),
              (''request_id'', m04_RequestIDFrom (fst (m04_enter r s)))])
            (s2\<lparr>sv_rw := snd (pop_rec (sv_rw s2))\<rparr>))
      | Some e \<Rightarrow> (None, m04_respondError (ErrCoded m04_CodeInternal (ErrNew [] ''panic'') :: m04_error)
            (add_log (''panic recovered'', [(''err'', e), (''request_id'', m04_RequestIDFrom r)])
              (s2\<lparr>sv_rw := snd (pop_rec (sv_rw s2))\<rparr>))))"
    using assms
    by (cases "get_default (rq_header r) ''X-Request-ID'' = []"; cases p)
      (simp_all add: m04_chain_def m04_Recover_def m04_RequestID_def m04_Logging_def m04_enter_def
        Let_def case_prod_beta)
  show "fst (m04_chain h r s) = None" "sv_st (snd (m04_chain h r s)) = sv_st s2"
    by (simp_all add: res add split: option.splits)
  show "p = None \<Longrightarrow> answer (snd (m04_chain h r s)) = answer s2"
    by (simp add: res add ans)
  show "p \<noteq> None \<Longrightarrow> answer s2 = (None, []) \<Longrightarrow> answer (snd (m04_chain h r s)) =
      (Some 500, [CJson (m04_errorBody ''INTERNAL'' ''internal server error'')])"
    by (auto simp: res add ans m04_panic_envelope)
qed

section \<open>Redaction and pagination\<close>

definition m04_masked :: "string \<Rightarrow> string" where
  "m04_masked e =
     (let u = takeWhile (\<lambda>c. c \<noteq> CHR ''@'') e
      in (if length u \<le> 1 then [] else [hd u]) @ ''***'' @ dropWhile (\<lambda>c. c \<noteq> CHR ''@'') e)"

lemma m04_redact_masked:
  assumes "CHR ''@'' \<in> set e"
  shows "m04_redactEmail e = Inr (m04_masked e)"
proof -
  from index_byte_split [OF assms] obtain u v where
    e: "e = u @ CHR ''@'' # v" "CHR ''@'' \<notin> set u" "index_byte e CHR ''@'' = int (length u)"
    by blast
  have "takeWhile (\<lambda>c. c \<noteq> CHR ''@'') e = u" "dropWhile (\<lambda>c. c \<noteq> CHR ''@'') e = CHR ''@'' # v"
    using e(2) by (auto simp: e(1) takeWhile_append dropWhile_append)
  moreover have "str_from e (int (length u)) = Inr (CHR ''@'' # v)"
    unfolding e(1) by (rule str_from_append)
  moreover have "str_to e 1 = Inr [hd u]" if "\<not> length u \<le> 1"
    using that by (cases u) (auto simp: e(1) str_to_def slice_def)
  ultimately show ?thesis
    by (simp add: m04_redactEmail_def m04_masked_def e(3) Let_def)
qed

lemma m04_redact_panics: "CHR ''@'' \<notin> set e \<Longrightarrow> m04_redactEmail e = Inl slice_panic"
  using index_byte_absent [of e "CHR ''@''"]
  by (simp add: m04_redactEmail_def Let_def str_from_neg)

definition m04_view :: "bool \<Rightarrow> m04_Customer \<Rightarrow> m04_customerResponse" where
  "m04_view redact c =
     \<lparr>rsp_ID = m04_ID c, rsp_Email = (if redact then m04_masked (m04_Email c) else m04_Email c),
      rsp_Name = m04_Name c, rsp_CreatedAt = rfc3339 (m04_CreatedAt c)\<rparr>"

lemma m04_toResponse_view:
  "CHR ''@'' \<in> set (m04_Email c) \<Longrightarrow> m04_toResponse c redact = Inr (m04_view redact c)"
  by (simp add: m04_toResponse_def m04_view_def m04_redact_masked)

lemma m04_toResponses_view:
  "\<forall>c \<in> set cs. CHR ''@'' \<in> set (m04_Email c) \<Longrightarrow> m04_toResponses cs redact = Inr (map (m04_view redact) cs)"
  by (induction cs) (auto simp: m04_toResponse_view)

text \<open>The local pagination is the one of module M2.\<close>

lemma case_map_sum:
  "(\<And>w. f w = g (h w)) \<Longrightarrow>
     (case x of Inl p \<Rightarrow> Inl p | Inr w \<Rightarrow> Inr (f w))
       = map_sum id g (case x of Inl p \<Rightarrow> Inl p | Inr w \<Rightarrow> Inr (h w))"
  by (cases x) auto

lemma m04_paginate_eq:
  "m04_paginate items page sz = map_sum id (\<lambda>p. \<lparr>pv_items = Page_Items p, pv_page = Page_Page p,
      pv_size = Page_Size p, pv_total = Page_Total p, pv_totalPages = Page_TotalPages p,
      pv_hasNext = Page_HasNext p\<rparr>) (Paginate items page sz)"
  unfolding m04_paginate_def Paginate_def Let_def by (rule case_map_sum) simp

section \<open>The handlers behind the router\<close>

definition m04_authorized :: "string \<Rightarrow> http_req \<Rightarrow> bool" where
  "m04_authorized token r \<longleftrightarrow>
     (let got = trim_prefix (get_default (rq_header r) ''Authorization'') ''Bearer ''
      in got \<noteq> [] \<and> got = token)"

lemma m04_authorized_enter [simp]: "m04_authorized token (fst (m04_enter r s)) = m04_authorized token r"
  by (simp add: m04_authorized_def)

lemma m04_BearerAuth_eq:
  "m04_BearerAuth token next r s =
     (if m04_authorized token r then next r s
      else (None, m04_respondError
              (ErrCoded m04_CodeUnauthorized (ErrNew [] ''unauthorized'') :: m04_error) s))"
  by (simp add: m04_BearerAuth_def m04_authorized_def Let_def)

definition m04_inner where
  "m04_inner chi_route chi_miss ord now token r s =
     (case chi_route (rq_method r) (rq_path r) of
         Health \<Rightarrow> m04_health r s
       | Miss \<Rightarrow> chi_miss r s
       | rt \<Rightarrow> m04_BearerAuth token (m04_v1 chi_miss ord now rt) r s)"

lemma m04_Routes_chain:
  "m04_Routes chi_route chi_miss ord now token
     = m04_chain (m04_inner chi_route chi_miss ord now token)"
  by (simp add: m04_Routes_def m04_chain_def m04_inner_def [abs_def])

text \<open>The response to a request whose inner handler is known.\<close>

lemma m04_Routes_answer:
  assumes "m04_inner chi_route chi_miss ord now token (fst (m04_enter r s)) (snd (m04_enter r s)) = (None, s2)"
  shows "answer (snd (m04_Routes chi_route chi_miss ord now token r s)) = answer s2
       \<and> sv_st (snd (m04_Routes chi_route chi_miss ord now token r s)) = sv_st s2"
  using m04_chain_result [where h = "m04_inner chi_route chi_miss ord now token", OF assms]
  by (simp add: m04_Routes_chain)

lemma m04_Routes_panic:
  assumes "m04_inner chi_route chi_miss ord now token (fst (m04_enter r s)) (snd (m04_enter r s))
      = (Some e, s2)" "answer s2 = (None, [])"
  shows "answer (snd (m04_Routes chi_route chi_miss ord now token r s))
        = (Some 500, [CJson (m04_errorBody ''INTERNAL'' ''internal server error'')])
      \<and> sv_st (snd (m04_Routes chi_route chi_miss ord now token r s)) = sv_st s2"
  using m04_chain_result [where h = "m04_inner chi_route chi_miss ord now token", OF assms(1)] assms(2)
  by (simp add: m04_Routes_chain)

text \<open>Every stored e-mail has an \<open>@\<close>: the API creates no other, and redaction relies on it.\<close>

definition m04_ok :: "m04_InMemoryRepo \<Rightarrow> bool" where
  "m04_ok r \<longleftrightarrow> m04_inv r \<and> (\<forall>e \<in> m04_emails r. CHR ''@'' \<in> set e)"

lemma m04_Create_ok:
  assumes "m04_ok r" "m04_room r (Suc n)" "CHR ''@'' \<in> set (m04_Email c)"
  shows "m04_ok (snd (m04_Create now c r)) \<and> m04_room (snd (m04_Create now c r)) n"
proof -
  from assms(1) have inv: "m04_inv r" by (simp add: m04_ok_def)
  have "\<forall>e \<in> m04_emails (snd (m04_Create now c r)). CHR ''@'' \<in> set e"
    using assms(1,3) unfolding m04_Create_eq [OF inv assms(2)]
    by (auto simp: m04_ok_def serial_emails_def m04_created_def)
  with m04_inv_Create [OF inv assms(2), of now c] show ?thesis by (simp add: m04_ok_def)
qed

lemma m04_create_all_ok:
  "m04_ok r \<Longrightarrow> m04_room r (n + length cs) \<Longrightarrow> (\<forall>(now, c) \<in> set cs. CHR ''@'' \<in> set (m04_Email c))
     \<Longrightarrow> m04_ok (create_all m04_Create cs r) \<and> m04_room (create_all m04_Create cs r) n"
proof (induction cs arbitrary: r)
  case (Cons p cs)
  obtain now c where p: "p = (now, c)" by (cases p)
  from Cons.prems p have "m04_ok r" "m04_room r (Suc (n + length cs))" "CHR ''@'' \<in> set (m04_Email c)"
    by auto
  from m04_Create_ok [OF this, of now] Cons.IH [of "snd (m04_Create now c r)"] Cons.prems p
  show ?case by simp
qed simp

lemma m04_decode_ok:
  assumes "rq_body r = BodyJson (JObj [(''email'', JStr e), (''name'', JStr n)]) stop []"
    and "stop \<le> m04_maxBodyBytes"
  shows "m04_decodeJSON ''createCustomerRequest'' [''email'', ''name''] r
      = (Inr [(''email'', e), (''name'', n)] :: (unit, _) go_result)"
  using assms
  by (simp add: m04_decodeJSON_def decoder_decode_def decode_struct_def decode_field_def
      match_field_def decoder_more_def)

definition m04_new :: "string \<Rightarrow> string \<Rightarrow> m04_Customer" where
  "m04_new e n = \<lparr>m04_CreatedAt = zero_time, m04_UpdatedAt = zero_time, m04_ID = [],
     m04_Email = e, m04_Name = n\<rparr>"

lemma m04_createCustomer_created:
  assumes "rq_body r = BodyJson (JObj [(''email'', JStr e), (''name'', JStr n)]) stop []"
    and "stop \<le> m04_maxBodyBytes" and "CHR ''@'' \<in> set e" and "trim_space n \<noteq> []"
    and "m04_ok (sv_st s)" and "m04_room (sv_st s) (Suc k)" and "e \<notin> m04_emails (sv_st s)"
  shows "m04_createCustomer now r s =
    (None, m04_writeJSON 201
       (m04_responseJSON (m04_view (m04_pii r) (m04_created now (m04_new e n) (sv_st s))))
       (s\<lparr>sv_st := snd (m04_Create now (m04_new e n) (sv_st s))\<rparr>))"
proof -
  have "m04_inv (sv_st s)" using assms(5) by (simp add: m04_ok_def)
  note create = m04_Create_eq [OF this assms(6)]
  have "m04_Validate (m04_new e n) = None"
    using assms(3,4) by (simp add: m04_Validate_None m04_new_def)
  moreover have "CHR ''@'' \<in> set (m04_Email (m04_created now (m04_new e n) (sv_st s)))"
    using assms(3) by (simp add: m04_created_def m04_new_def)
  moreover have "m04_Email (m04_new e n) = e" by (simp add: m04_new_def)
  ultimately show ?thesis
    using assms(7)
    by (simp add: m04_createCustomer_def m04_decode_ok [OF assms(1,2)] field_def
        m04_new_def [symmetric] m04_service_defs create m04_toResponse_view Let_def)
qed

lemma m04_ok_member: "m04_ok r \<Longrightarrow> map_of (m04_m r) i = Some c \<Longrightarrow> CHR ''@'' \<in> set (m04_Email c)"
  by (force simp: m04_ok_def serial_emails_def dest: map_of_SomeD)

lemma m04_getCustomer_found:
  assumes "m04_ByID i (sv_st s) = Inr c" and "m04_ok (sv_st s)"
  shows "m04_getCustomer i r s =
    (None, m04_writeJSON 200 (m04_responseJSON (m04_view (m04_pii r) c)) s)"
proof -
  from assms have "CHR ''@'' \<in> set (m04_Email c)"
    by (auto simp: m04_ByID_def split: option.splits dest: m04_ok_member)
  with assms(1) show ?thesis
    by (simp add: m04_getCustomer_def m04_service_defs m04_toResponse_view)
qed

section \<open>Properties\<close>

text \<open>C29 (safety). The bearer middleware: a request to a route of the \<open>/v1\<close> group whose
  \<open>Authorization\<close> header is neither \<open>Bearer <token>\<close> nor the bare token gets 401 with the error envelope
  and reaches no handler, so the repository is untouched. Whatever handler the middleware is put around,
  it passes a request with the header \<open>Bearer <token>\<close> on unchanged, and one with the bare token too, as
  long as the token does not itself start with \<open>Bearer \<close>; with an empty token it passes nothing.\<close>

theorem m04_auth_guard:
  assumes "chi_route (rq_method r) (rq_path r) \<notin> {Health, Miss}" and "answer s = (None, [])"
    and "get_default (rq_header r) ''Authorization'' \<noteq> ''Bearer '' @ token"
    and "get_default (rq_header r) ''Authorization'' \<noteq> token \<or> token = [] \<or> prefix ''Bearer '' token"
  shows "answer (snd (m04_Routes chi_route chi_miss ord now token r s))
        = (Some 401, [CJson (m04_errorBody ''UNAUTHORIZED'' ''UNAUTHORIZED: unauthorized'')])
    \<and> sv_st (snd (m04_Routes chi_route chi_miss ord now token r s)) = sv_st s
    \<and> (token \<noteq> [] \<and> get_default (rq_header r') ''Authorization'' = ''Bearer '' @ token \<longrightarrow>
         m04_BearerAuth token h r' s' = h r' s')
    \<and> (token \<noteq> [] \<and> \<not> prefix ''Bearer '' token \<and> get_default (rq_header r') ''Authorization'' = token \<longrightarrow>
         m04_BearerAuth token h r' s' = h r' s')
    \<and> (answer s' = (None, []) \<longrightarrow> fst (answer (snd (m04_BearerAuth [] h r' s'))) = Some 401)"
proof -
  let ?s = "snd (m04_enter r s)"
  have refused: "\<not> m04_authorized token r"
    using assms(3,4) by (auto simp: m04_authorized_def Let_def trim_prefix_eq trim_prefix_def prefix_def)
  then have "m04_inner chi_route chi_miss ord now token (fst (m04_enter r s)) ?s = (None,
      m04_respondError (ErrCoded m04_CodeUnauthorized (ErrNew [] ''unauthorized'') :: m04_error) ?s)"
    using assms(1) by (cases "chi_route (rq_method r) (rq_path r)")
      (simp_all add: m04_inner_def m04_BearerAuth_eq)
  from m04_Routes_answer [OF this] assms(2)
  have "answer (snd (m04_Routes chi_route chi_miss ord now token r s))
        = (Some 401, [CJson (m04_errorBody ''UNAUTHORIZED'' ''UNAUTHORIZED: unauthorized'')])
    \<and> sv_st (snd (m04_Routes chi_route chi_miss ord now token r s)) = sv_st s"
    by (simp add: m04_unauthorized_envelope)
  moreover have "m04_authorized token r'"
    if "token \<noteq> []" "get_default (rq_header r') ''Authorization'' = ''Bearer '' @ token"
    using that by (simp add: m04_authorized_def Let_def trim_prefix_def)
  moreover have "m04_authorized token r'"
    if "token \<noteq> []" "\<not> prefix ''Bearer '' token" "get_default (rq_header r') ''Authorization'' = token"
    using that by (simp add: m04_authorized_def Let_def trim_prefix_def)
  moreover have "\<not> m04_authorized [] r'" by (simp add: m04_authorized_def Let_def)
  ultimately show ?thesis by (simp add: m04_BearerAuth_eq m04_unauthorized_envelope)
qed

text \<open>C28 (functional). End to end: an authorized \<open>POST /v1/customers\<close> with a valid body and a
  new e-mail answers 201 with the customer under the next serial identifier, and an authorized
  \<open>GET\<close> of that identifier, after any number of later creates, answers 200 with the same JSON;
  the e-mail in both is redacted unless the request has the \<open>pii\<close> scope.\<close>

theorem m04_create_then_get:
  assumes "chi_route (rq_method r1) (rq_path r1) = V1Create"
    and "chi_route (rq_method r2) (rq_path r2) = V1Get (m04_serial (m04_seq (sv_st s1) + 1))"
    and "m04_authorized token r1" and "m04_authorized token r2" and "m04_pii r1 = m04_pii r2"
    and "rq_body r1 = BodyJson (JObj [(''email'', JStr e), (''name'', JStr n)]) stop []"
    and "stop \<le> m04_maxBodyBytes" and "CHR ''@'' \<in> set e" and "trim_space n \<noteq> []"
    and "m04_ok (sv_st s1)" and "m04_room (sv_st s1) (Suc (length later))"
    and "e \<notin> m04_emails (sv_st s1)" and "answer s1 = (None, [])" and "answer s2 = (None, [])"
    and "\<forall>(now, c) \<in> set later. CHR ''@'' \<in> set (m04_Email c)"
    and "sv_st s2 = create_all m04_Create later
           (sv_st (snd (m04_Routes chi_route chi_miss ord now token r1 s1)))"
  shows "answer (snd (m04_Routes chi_route chi_miss ord now token r1 s1)) = (Some 201,
      [CJson (JObj [(''id'', JStr (m04_serial (m04_seq (sv_st s1) + 1))),
         (''email'', JStr (if m04_pii r1 then m04_masked e else e)), (''name'', JStr n),
         (''created_at'', JStr (rfc3339 now))])])
    \<and> answer (snd (m04_Routes chi_route chi_miss ord now2 token r2 s2)) = (Some 200,
      snd (answer (snd (m04_Routes chi_route chi_miss ord now token r1 s1))))"
proof -
  let ?c = "m04_created now (m04_new e n) (sv_st s1)"
  have inv: "m04_inv (sv_st s1)" using assms(10) by (simp add: m04_ok_def)
  have create: "m04_Create now (m04_new e n) (sv_st s1)
      = (Inr ?c, snd (m04_Create now (m04_new e n) (sv_st s1)))"
    unfolding m04_Create_eq [OF inv assms(11)] using assms(12) by (simp add: m04_new_def)
  let ?r = "snd (m04_Create now (m04_new e n) (sv_st s1))"
  have i1: "m04_inner chi_route chi_miss ord now token (fst (m04_enter r1 s1)) (snd (m04_enter r1 s1))
      = (None, m04_writeJSON 201 (m04_responseJSON (m04_view (m04_pii r1) ?c))
           ((snd (m04_enter r1 s1))\<lparr>sv_st := ?r\<rparr>))"
    using m04_createCustomer_created [of "fst (m04_enter r1 s1)" e n stop "snd (m04_enter r1 s1)"
        "length later" now] assms
    by (simp add: m04_inner_def m04_BearerAuth_eq m04_v1_def m04_pii_def)
  from m04_Routes_answer [OF i1] assms(13)
  have a1: "answer (snd (m04_Routes chi_route chi_miss ord now token r1 s1))
        = (Some 201, [CJson (m04_responseJSON (m04_view (m04_pii r1) ?c))])"
    and st1: "sv_st (snd (m04_Routes chi_route chi_miss ord now token r1 s1)) = ?r" by simp_all
  have ok: "m04_ok ?r" "m04_room ?r (length later)"
    using m04_Create_ok [OF assms(10,11), of "m04_new e n" now] assms(8) by (simp_all add: m04_new_def)
  have id: "m04_ID ?c = m04_serial (m04_seq (sv_st s1) + 1)" by (simp add: m04_created_def)
  have "m04_ByID (m04_ID ?c) ?r = Inr ?c" by (rule m04_repo.get_created [OF inv assms(11) create])
  then have "m04_ByID (m04_ID ?c) (sv_st s2) = Inr ?c"
    unfolding assms(16) st1 using m04_repo.create_all_keeps ok by (simp add: m04_ok_def)
  moreover have "m04_ok (sv_st s2)"
    unfolding assms(16) st1 using m04_create_all_ok [OF ok(1) _ assms(15), of 0] ok(2) by simp
  ultimately have i2: "m04_inner chi_route chi_miss ord now2 token (fst (m04_enter r2 s2))
      (snd (m04_enter r2 s2)) = (None, m04_writeJSON 200 (m04_responseJSON (m04_view (m04_pii r2) ?c))
         (snd (m04_enter r2 s2)))"
    using assms(2,4) m04_getCustomer_found [of "m04_ID ?c" "snd (m04_enter r2 s2)" ?c]
    by (simp add: m04_inner_def m04_BearerAuth_eq m04_v1_def id m04_pii_def)
  from m04_Routes_answer [OF i2] assms(5,14) a1 show ?thesis
    by (simp add: m04_responseJSON_def m04_view_def id) (simp add: m04_created_def m04_new_def)
qed

text \<open>Remark (safety). What redaction shows: of an e-mail whose local part has at least two bytes the
  first byte and what follows the first \<open>@\<close>, of a shorter local part nothing; so the rest of the
  local part does not influence the response. An e-mail without \<open>@\<close> makes it panic.\<close>

theorem m04_redaction:
  assumes "CHR ''@'' \<notin> set u" and "c \<noteq> CHR ''@''"
  shows "m04_redactEmail (c # u @ CHR ''@'' # d)
      = Inr ((if u = [] then ''***@'' else c # ''***@'') @ d)
    \<and> m04_redactEmail (CHR ''@'' # d) = Inr (''***@'' @ d)
    \<and> m04_redactEmail (c # u) = Inl slice_panic"
proof (intro conjI)
  show "m04_redactEmail (c # u @ CHR ''@'' # d)
      = Inr ((if u = [] then ''***@'' else c # ''***@'') @ d)"
    using assms by (subst m04_redact_masked)
      (auto simp: m04_masked_def takeWhile_append dropWhile_append Let_def)
  show "m04_redactEmail (CHR ''@'' # d) = Inr (''***@'' @ d)"
    by (subst m04_redact_masked) (simp_all add: m04_masked_def)
  show "m04_redactEmail (c # u) = Inl slice_panic"
    using assms by (intro m04_redact_panics) auto
qed

theorem m04_redaction_witness:
  "m04_redactEmail ''ada@pulse.dev'' = Inr ''a***@pulse.dev''"
  using m04_redaction [of "''da''" "CHR ''a''" "''pulse.dev''"] by simp

lemma m04_List_perm:
  assumes "range_order ord" "m04_List ord r = Inr cs"
  shows "mset cs = mset (map snd (m04_m r))"
proof -
  have "foldl (\<lambda>out (k, c). out @ [c]) out m = out @ map snd m"
    for out and m :: "(string \<times> m04_Customer) list"
    by (induction m arbitrary: out) auto
  with assms(2) have "cs = map snd (ord (m04_m r))" by (auto simp: m04_List_def)
  with range_orderD [OF assms(1), of "m04_m r"] show ?thesis by (metis mset_map)
qed

lemma m04_listCustomers_page:
  assumes "range_order ord" and "m04_ok (sv_st s)"
    and "m04_List ord (sv_st s) = Inr cs"
    and "page = m04_atoiDefault (get_default (rq_query r) ''page'') 1"
    and "sz = m04_atoiDefault (get_default (rq_query r) ''size'') 20"
    and "page_bounds cs page sz"
  shows "m04_listCustomers ord r s = (None, m04_writeJSON 200 (JObj
     [(''items'', JArr (map (m04_responseJSON \<circ> m04_view (m04_pii r)) (window (nat page) (nat sz) cs))),
      (''page'', JNum (fmt_d page)),
      (''total_pages'', JNum (fmt_d (int (num_pages (length cs) (nat sz))))),
      (''total'', JNum (fmt_d (int (length cs)))),
      (''has_next'', JBool (nat page * nat sz < length cs))]) s)"
proof -
  have "set (window (nat page) (nat sz) cs) \<subseteq> set cs"
    unfolding window_def by (meson set_drop_subset set_take_subset subset_trans)
  moreover have "set cs = snd ` set (m04_m (sv_st s))"
    using m04_List_perm [OF assms(1,3)] by (metis mset_eq_setD set_map)
  ultimately have "\<forall>c \<in> set (window (nat page) (nat sz) cs). CHR ''@'' \<in> set (m04_Email c)"
    using assms(2) by (fastforce simp: m04_ok_def serial_emails_def)
  note views = m04_toResponses_view [OF this]
  show ?thesis
    unfolding m04_listCustomers_def m04_service_defs assms(3) sum.case Let_def
      assms(4,5) [symmetric] m04_paginate_eq Paginate_bounded [OF assms(6)]
    by (simp add: views m04_listResponse_def)
qed

text \<open>C33 (functional). An authorized list request with \<open>page\<close> and \<open>size\<close> in range answers 200
  with the requested window of the customers, each as the single-customer endpoint shows it,
  and the exact totals. The customers come in the order the map is ranged over, which Go leaves
  unspecified.\<close>

theorem m04_list_window:
  assumes "chi_route (rq_method r) (rq_path r) = V1List" and "m04_authorized token r"
    and "answer s = (None, [])" and "m04_ok (sv_st s)" and "range_order ord"
    and "m04_List ord (sv_st s) = Inr cs"
    and "page = m04_atoiDefault (get_default (rq_query r) ''page'') 1"
    and "sz = m04_atoiDefault (get_default (rq_query r) ''size'') 20"
    and "page_bounds cs page sz"
  shows "answer (snd (m04_Routes chi_route chi_miss ord now token r s)) = (Some 200, [CJson (JObj
     [(''items'', JArr (map (m04_responseJSON \<circ> m04_view (m04_pii r)) (window (nat page) (nat sz) cs))),
      (''page'', JNum (fmt_d page)),
      (''total_pages'', JNum (fmt_d (int (num_pages (length cs) (nat sz))))),
      (''total'', JNum (fmt_d (int (card (dom (map_of (m04_m (sv_st s)))))))),
      (''has_next'', JBool (nat page * nat sz < length cs))])])"
proof -
  have "length cs = length (m04_m (sv_st s))"
    using m04_List_perm [OF assms(5,6)] by (metis length_map size_mset)
  also have "... = card (dom (map_of (m04_m (sv_st s))))"
    using assms(4) by (intro length_map_wf) (simp add: m04_ok_def serial_inv_def)
  finally have len: "length cs = card (dom (map_of (m04_m (sv_st s))))" .
  have "m04_inner chi_route chi_miss ord now token (fst (m04_enter r s)) (snd (m04_enter r s))
      = m04_listCustomers ord (fst (m04_enter r s)) (snd (m04_enter r s))"
    using assms(1,2) by (simp add: m04_inner_def m04_BearerAuth_eq m04_v1_def)
  also note m04_listCustomers_page [of ord "snd (m04_enter r s)" cs page "fst (m04_enter r s)" sz,
      OF assms(5)]
  finally show ?thesis
    using m04_Routes_answer [of chi_route chi_miss ord now token r s] assms
    by (simp add: len m04_pii_def)
qed

text \<open>Remark (error). Whatever customers are stored, an authorized list request with
  \<open>page=4611686018427387905\<close> and \<open>size=2\<close> makes the handler panic (the start of the window
  overflows); the recovery middleware turns this into a 500 that leaks nothing.\<close>

theorem m04_list_overflow:
  assumes "chi_route (rq_method r) (rq_path r) = V1List" and "m04_authorized token r"
    and "answer s = (None, [])"
    and "rq_query r = [(''page'', ''4611686018427387905''), (''size'', ''2'')]"
  shows "fst (m04_listCustomers ord r s) = Some slice_panic
    \<and> answer (snd (m04_Routes chi_route chi_miss ord now token r s))
        = (Some 500, [CJson (m04_errorBody ''INTERNAL'' ''internal server error'')])"
proof -
  have "atoi ''4611686018427387905'' = Some 4611686018427387905" "atoi ''2'' = Some 2"
    by (simp_all add: atoi_def atoi_digits_def dec_val_def digit_val_def is_digit_def int64_ok_iff
        of_char_def)
  then have q: "m04_atoiDefault (get_default (rq_query r) ''page'') 1 = 4611686018427387905"
    "m04_atoiDefault (get_default (rq_query r) ''size'') 20 = 2"
    by (simp_all add: assms(4) m04_atoiDefault_def get_default_def)
  have "mul64 (sub64 4611686018427387905 1) 2 = - 9223372036854775808"
    by (simp add: go_arith wrap64_def)
  then have "m04_paginate cs 4611686018427387905 2 = Inl slice_panic" for cs
    by (simp add: m04_paginate_def Let_def slice_def)
  then have panic: "m04_listCustomers ord r' s' = (Some slice_panic, s')"
    if "rq_query r' = rq_query r" for r' s'
    unfolding m04_listCustomers_def m04_service_defs m04_List_def sum.case that q by simp
  have "m04_inner chi_route chi_miss ord now token (fst (m04_enter r s)) (snd (m04_enter r s))
      = (Some slice_panic, snd (m04_enter r s))"
    using assms(1,2) by (simp add: m04_inner_def m04_BearerAuth_eq m04_v1_def panic)
  from m04_Routes_panic [OF this] assms(3) show ?thesis by (simp add: panic)
qed

lemma m04_createCustomer_keeps:
  assumes "m04_ok (sv_st s)" and "m04_room (sv_st s) (Suc n)"
  shows "m04_ok (sv_st (snd (m04_createCustomer now r s)))
    \<and> (\<forall>i c. m04_ByID i (sv_st s) = Inr c \<longrightarrow> m04_ByID i (sv_st (snd (m04_createCustomer now r s))) = Inr c)"
proof -
  have inv: "m04_inv (sv_st s)" using assms(1) by (simp add: m04_ok_def)
  have "m04_ok (snd (m04_Create now c (sv_st s)))
      \<and> (\<forall>i c0. m04_ByID i (sv_st s) = Inr c0 \<longrightarrow> m04_ByID i (snd (m04_Create now c (sv_st s))) = Inr c0)"
    if "m04_Validate c = None" for c
    using m04_Create_ok [OF assms] m04_repo.create_keeps [OF inv assms(2)] that
    by (simp add: m04_Validate_None)
  then show ?thesis
    using assms(1)
    by (simp add: m04_createCustomer_def m04_service_defs Let_def case_prod_beta
        split: sum.splits option.splits)
qed

text \<open>C26 (invariant). No request, whatever its route, body and headers, and whether the handler
  answers or panics, breaks the repository: e-mails stay unique and contain an \<open>@\<close>, every
  customer stays under its own serial identifier, and no stored customer is lost or changed.\<close>

theorem m04_requests_keep:
  assumes "m04_ok (sv_st s)" and "m04_room (sv_st s) (Suc n)"
    and "\<forall>r s. sv_st (snd (chi_miss r s)) = sv_st s"
  shows "m04_ok (sv_st (snd (m04_Routes chi_route chi_miss ord now token r s)))
    \<and> (\<forall>i c. m04_ByID i (sv_st s) = Inr c \<longrightarrow>
         m04_ByID i (sv_st (snd (m04_Routes chi_route chi_miss ord now token r s))) = Inr c)"
proof -
  let ?r = "fst (m04_enter r s)" and ?s = "snd (m04_enter r s)"
  have get: "sv_st (snd (m04_getCustomer i r s)) = sv_st s" for i r s
    by (simp add: m04_getCustomer_def split: sum.splits)
  have lst: "sv_st (snd (m04_listCustomers ord r s)) = sv_st s" for r s
    by (simp add: m04_listCustomers_def Let_def split: sum.splits)
  have "sv_st (snd (m04_inner chi_route chi_miss ord now token ?r ?s)) = sv_st s
      \<or> sv_st (snd (m04_inner chi_route chi_miss ord now token ?r ?s))
          = sv_st (snd (m04_createCustomer now ?r ?s))"
    using assms(3) get lst
    by (cases "chi_route (rq_method r) (rq_path r)")
      (simp_all add: m04_inner_def m04_health_def m04_v1_def m04_BearerAuth_eq)
  moreover have "sv_st (snd (m04_Routes chi_route chi_miss ord now token r s))
      = sv_st (snd (m04_inner chi_route chi_miss ord now token ?r ?s))"
    unfolding m04_Routes_chain by (rule m04_chain_result(2) [OF prod.collapse [symmetric]])
  moreover have "m04_ok (sv_st (snd (m04_createCustomer now ?r ?s)))
    \<and> (\<forall>i c. m04_ByID i (sv_st s) = Inr c \<longrightarrow>
         m04_ByID i (sv_st (snd (m04_createCustomer now ?r ?s))) = Inr c)"
    using m04_createCustomer_keeps [of ?s n now ?r] assms(1,2) by simp
  ultimately show ?thesis using assms(1) by auto
qed

lemma m04_codeOf_wrap: "m04_codeOf (Some (wrap_all ps e)) = m04_codeOf (Some e)"
  unfolding m04_codeOf_def as_wrap_all errors_is_wrap_all by (rule refl)

lemma m04_codeOf_simps:
  "m04_codeOf (Some m04_ErrNotFound) = ''NOT_FOUND''"
  "m04_codeOf (Some m04_ErrConflict) = ''CONFLICT''"
  "m04_codeOf (Some (ErrCoded code e)) = code"
  by (auto simp: m04_codeOf_def errors_as_def as_coded_def as_validation_def m04_ErrNotFound_def
      m04_ErrConflict_def m04_codes)

lemma m04_envelope_status: "fst (m04_envelope e) = m04_httpStatus (m04_codeOf (Some e))"
  by (simp add: m04_envelope_def Let_def)

lemma m04_status_range: "m04_httpStatus code \<in> {400, 401, 404, 409, 500}"
  by (simp add: m04_httpStatus_def)

lemma m04_Validate_code: "m04_Validate c = Some e \<Longrightarrow> m04_codeOf (Some e) = ''VALIDATION''"
  by (auto simp: m04_Validate_def m04_validateEmail_def m04_validateName_def
        errors_join_def Let_def m04_codeOf_def errors_as_def as_coded_def as_validation_def
        errors_is_def sentinel_def m04_codes split: if_splits)

lemma m04_codeOf_Other: "m04_codeOf (Some (ErrOther x t)) = ''INTERNAL''"
  by (simp add: m04_codeOf_def errors_as_def as_coded_def as_validation_def m04_codes)

lemma m04_envelope_known:
  assumes "m04_codeOf (Some e) = code" and "m04_httpStatus code \<noteq> 500"
  shows "m04_envelope (wrap_all ps e) = (m04_httpStatus code, m04_errorBody code (err_msg (wrap_all ps e)))"
  using assms by (simp add: m04_envelope_def m04_codeOf_wrap Let_def)

text \<open>C34 (error). What \<open>respondError\<close> answers: the sentinels of the domain get 404 and 409 and
  validation errors 400 through any number of wrappings, with their code and their whole text; an error
  of another package gets 500 and none of its text; an explicit code wins over what it wraps. There is
  no other status, and with 500 the body is the same for all errors of one code, so no text of
  an error leaks.\<close>

theorem m04_error_envelope:
  assumes "m04_Validate c = Some e" and "answer s = (None, [])"
  shows "answer (m04_respondError (wrap_all ps m04_ErrNotFound) s)
        = (Some 404, [CJson (m04_errorBody ''NOT_FOUND'' (err_msg (wrap_all ps m04_ErrNotFound)))])
   \<and> answer (m04_respondError (wrap_all ps m04_ErrConflict) s)
        = (Some 409, [CJson (m04_errorBody ''CONFLICT'' (err_msg (wrap_all ps m04_ErrConflict)))])
   \<and> answer (m04_respondError (wrap_all ps e) s)
        = (Some 400, [CJson (m04_errorBody ''VALIDATION'' (err_msg (wrap_all ps e)))])
   \<and> answer (m04_respondError (wrap_all ps (ErrOther x t)) s)
        = (Some 500, [CJson (m04_errorBody ''INTERNAL'' ''internal server error'')])
   \<and> fst (answer (m04_respondError (wrap_all ps (ErrCoded code e')) s)) = Some (m04_httpStatus code)
   \<and> fst (answer (m04_respondError e'' s)) \<in> Some ` {400, 401, 404, 409, 500}
   \<and> (fst (answer (m04_respondError e'' s)) = Some 500 \<and> m04_codeOf (Some e'') = m04_codeOf (Some e1) \<longrightarrow>
        answer (m04_respondError e'' s) = answer (m04_respondError e1 s))
   \<and> sv_st (m04_respondError e'' s) = sv_st s"
proof -
  note codes = m04_codeOf_simps m04_Validate_code [OF assms(1)] m04_codeOf_Other
  have statuses: "m04_httpStatus ''NOT_FOUND'' = 404" "m04_httpStatus ''CONFLICT'' = 409"
    "m04_httpStatus ''VALIDATION'' = 400" "m04_httpStatus ''INTERNAL'' = 500"
    by (simp_all add: m04_httpStatus_def m04_codes)
  have known: "m04_envelope (wrap_all ps m04_ErrNotFound)
      = (404, m04_errorBody ''NOT_FOUND'' (err_msg (wrap_all ps m04_ErrNotFound)))"
    "m04_envelope (wrap_all ps m04_ErrConflict)
      = (409, m04_errorBody ''CONFLICT'' (err_msg (wrap_all ps m04_ErrConflict)))"
    "m04_envelope (wrap_all ps e) = (400, m04_errorBody ''VALIDATION'' (err_msg (wrap_all ps e)))"
    by (simp_all add: m04_envelope_known [OF codes(1)] m04_envelope_known [OF codes(2)]
        m04_envelope_known [OF codes(4)] statuses)
  have other: "m04_envelope (wrap_all ps (ErrOther x t)) = (500, m04_errorBody ''INTERNAL'' ''internal server error'')"
    by (simp add: m04_envelope_def m04_codeOf_wrap codes statuses Let_def)
  have coded: "m04_codeOf (Some (wrap_all ps (ErrCoded code e'))) = code"
    by (simp add: m04_codeOf_wrap codes)
  have same: "m04_envelope e'' = m04_envelope e1"
    if "fst (m04_envelope e'') = 500" "m04_codeOf (Some e'') = m04_codeOf (Some e1)"
    using that by (simp add: m04_envelope_def Let_def)
  show ?thesis
    using m04_status_range [of "m04_codeOf (Some e'')"] same
    by (auto simp: assms(2) known other coded m04_envelope_status)
qed

text \<open>Remark (error). The recovery middleware is the outermost one, so the context it logs from has
  no request ID yet: when the inner handler panics, the log line carries the empty request ID
  although the response carries the one the request was given.\<close>

theorem m04_recover_logs_no_id:
  assumes "h (fst (m04_enter r s)) (snd (m04_enter r s)) = (Some e, s2)" and "rq_rid r = None"
  shows "last (sv_log (snd (m04_Recover (m04_RequestID (m04_Logging h)) r s)))
      = (''panic recovered'', [(''err'', e), (''request_id'', [])])
    \<and> m04_RequestIDFrom (fst (m04_enter r s)) \<noteq> []"
proof -
  have log: "sv_log (m04_respondError e s) = sv_log s" for e :: m04_error and s :: "'a srv"
    by (simp add: m04_respondError_def m04_writeJSON_def on_rw_def Let_def)
  have "m04_RequestIDFrom (fst (m04_enter r s)) \<noteq> []"
    by (simp add: m04_enter_def m04_RequestIDFrom_def m04_newRequestID_def Let_def)
  moreover have "last (sv_log (snd (m04_chain h r s)))
      = (''panic recovered'', [(''err'', e), (''request_id'', [])])"
    using assms
    by (cases "get_default (rq_header r) ''X-Request-ID'' = []")
      (simp_all add: m04_chain_def m04_Recover_def m04_RequestID_def m04_Logging_def m04_enter_def
        Let_def case_prod_beta log add_log_def m04_RequestIDFrom_def)
  ultimately show ?thesis by (simp add: m04_chain_def)
qed

section \<open>Concrete requests\<close>

text \<open>A router for the witnesses, and requests to an empty repository.\<close>

definition demo_route :: "string \<Rightarrow> string \<Rightarrow> m04_route" where
  "demo_route m p =
     (if p = ''/v1/customers'' then (if m = ''POST'' then V1Create else V1List)
      else if prefix ''/v1/customers/'' p then V1Get (trim_prefix p ''/v1/customers/'')
      else if prefix ''/v1'' p then V1Miss else Miss)"

definition demo_miss :: m04_handler where
  "demo_miss r s = (None, on_rw (http_error ''404 page not found'' 404) s)"

definition demo_post :: http_req where
  "demo_post = \<lparr>rq_method = ''POST'', rq_path = ''/v1/customers'',
     rq_header = [(''Authorization'', ''Bearer dev-token'')], rq_query = [],
     rq_body = BodyJson (JObj [(''email'', JStr ''ada@pulse.dev''), (''name'', JStr ''Ada'')]) 40 [],
     rq_rid = None\<rparr>"

definition demo_get :: http_req where
  "demo_get = demo_post\<lparr>rq_method := ''GET'', rq_path := ''/v1/customers/cus_0001''\<rparr>"

definition demo_srv :: m04_srv where
  "demo_srv = \<lparr>sv_rw = new_rw, sv_log = [], sv_rid = 0, sv_st = m04_NewInMemoryRepo\<rparr>"

lemmas demo_defs = demo_route_def demo_post_def demo_get_def demo_srv_def m04_NewInMemoryRepo_def
  new_rw_def get_default_def answer_def

lemma demo_repo_ok: "m04_ok m04_NewInMemoryRepo" "m04_room m04_NewInMemoryRepo (Suc 0)"
  "m04_emails m04_NewInMemoryRepo = {}"
  using m04_inv_empty
  by (simp_all add: m04_ok_def serial_emails_def m04_NewInMemoryRepo_def max_int64_def)

lemma demo_serial: "m04_serial 1 = ''cus_0001''"
  by code_simp

theorem m04_auth_guard_witness:
  "let anonymous = demo_post\<lparr>rq_header := []\<rparr>; bare = demo_post\<lparr>rq_header := [(''Authorization'', ''dev-token'')]\<rparr> in
     fst (answer (snd (m04_Routes demo_route demo_miss rev 0 ''dev-token'' anonymous demo_srv))) = Some 401
     \<and> m04_BearerAuth ''dev-token'' demo_miss bare demo_srv = demo_miss bare demo_srv"
proof -
  let ?a = "demo_post\<lparr>rq_header := []\<rparr>" and ?b = "demo_post\<lparr>rq_header := [(''Authorization'', ''dev-token'')]\<rparr>"
  have hyps: "demo_route (rq_method ?a) (rq_path ?a) \<notin> {Health, Miss}" "answer demo_srv = (None, [])"
    "get_default (rq_header ?a) ''Authorization'' \<noteq> ''Bearer '' @ ''dev-token''"
    "get_default (rq_header ?a) ''Authorization'' \<noteq> ''dev-token'' \<or> ''dev-token'' = [] \<or> prefix ''Bearer '' ''dev-token''"
    by (simp_all add: demo_defs)
  note guard = m04_auth_guard [where chi_route = demo_route and r = ?a and s = demo_srv and token = "''dev-token''"
      and chi_miss = demo_miss and ord = rev and now = 0 and r' = ?b and h = demo_miss and s' = demo_srv, OF hyps]
  have "get_default (rq_header ?b) ''Authorization'' = ''dev-token''" by (simp add: get_default_def)
  with guard show ?thesis by (simp add: Let_def)
qed

theorem m04_error_envelope_witness:
  "answer (m04_respondError (wrap_all [''create''] (ErrJoin [ErrValidation ''email'' ''must contain @'']
     :: m04_error)) demo_srv) = (Some 400, [CJson (m04_errorBody ''VALIDATION''
       ''create: validation: email: must contain @'')])"
proof -
  have v: "m04_Validate (m04_new ''ada'' ''Ada'')
      = Some (ErrJoin [ErrValidation ''email'' ''must contain @''])"
    using trim_space_graphic [of "CHR ''A''" "''da''"]
    by (simp add: m04_new_def m04_Validate_def m04_validateEmail_def m04_validateName_def
        errors_join_def graphic_def)
  have "answer demo_srv = (None, [])" by (simp add: demo_defs)
  from m04_error_envelope [THEN conjunct2, THEN conjunct2, THEN conjunct1, OF v this, of "[''create'']"]
  show ?thesis by simp
qed

theorem m04_create_then_get_witness:
  "answer (snd (m04_Routes demo_route demo_miss rev 0 ''dev-token'' demo_post demo_srv)) = (Some 201,
      [CJson (JObj [(''id'', JStr ''cus_0001''), (''email'', JStr ''a***@pulse.dev''),
         (''name'', JStr ''Ada''), (''created_at'', JStr ''1970-01-01T00:00:00Z'')])])
   \<and> (\<exists>s2. fst (answer (snd (m04_Routes demo_route demo_miss rev 9 ''dev-token'' demo_get s2))) = Some 200)"
proof -
  let ?s2 = "demo_srv\<lparr>sv_st := sv_st (snd (m04_Routes demo_route demo_miss rev 0 ''dev-token''
      demo_post demo_srv))\<rparr>"
  have seq: "m04_serial (m04_seq (sv_st demo_srv) + 1) = ''cus_0001''"
    using demo_serial by (simp add: demo_defs)
  have masked: "m04_masked ''ada@pulse.dev'' = ''a***@pulse.dev''" by (simp add: m04_masked_def)
  have "m04_ok (sv_st demo_srv)" "m04_room (sv_st demo_srv) (Suc (length []))"
    "m04_emails (sv_st demo_srv) = {}"
    using demo_repo_ok by (simp_all add: demo_srv_def)
  moreover have "trim_space ''Ada'' \<noteq> []" by (rule trim_space_graphic) (simp add: graphic_def)
  moreover have "m04_authorized ''dev-token'' demo_post" "m04_authorized ''dev-token'' demo_get"
    "m04_pii demo_post" "m04_pii demo_get"
    by (simp_all add: demo_defs m04_authorized_def m04_pii_def trim_prefix_def)
  moreover have "answer demo_srv = (None, [])" by (simp add: demo_defs)
  moreover have "demo_route (rq_method demo_post) (rq_path demo_post) = V1Create"
    "demo_route (rq_method demo_get) (rq_path demo_get) = V1Get ''cus_0001''"
    "rq_body demo_post = BodyJson (JObj [(''email'', JStr ''ada@pulse.dev''), (''name'', JStr ''Ada'')]) 40 []"
    by (simp_all add: demo_defs trim_prefix_def)
  ultimately show ?thesis
    using m04_create_then_get [of demo_route demo_post demo_get demo_srv "''dev-token''"
        "''ada@pulse.dev''" "''Ada''" 40 "[]" ?s2 demo_miss rev 0 9] seq masked rfc3339_epoch
    by (auto simp: m04_maxBodyBytes_def intro!: exI [of _ ?s2])
qed

theorem m04_list_window_witness:
  "fst (answer (snd (m04_Routes demo_route demo_miss rev 0 ''dev-token''
     (demo_post\<lparr>rq_method := ''GET''\<rparr>) demo_srv))) = Some 200"
  using m04_list_window [of demo_route "demo_post\<lparr>rq_method := ''GET''\<rparr>" "''dev-token''" demo_srv rev
      "[]" 1 20 demo_miss 0] demo_repo_ok(1)
  by (simp add: demo_defs m04_authorized_def trim_prefix_def m04_List_def m04_atoiDefault_def
      atoi_def atoi_digits_def page_bounds_def max_int64_def)

theorem m04_list_overflow_witness:
  "fst (answer (snd (m04_Routes demo_route demo_miss rev 0 ''dev-token''
     (demo_post\<lparr>rq_method := ''GET'',
        rq_query := [(''page'', ''4611686018427387905''), (''size'', ''2'')]\<rparr>) demo_srv))) = Some 500"
  using m04_list_overflow [of demo_route "demo_post\<lparr>rq_method := ''GET'',
        rq_query := [(''page'', ''4611686018427387905''), (''size'', ''2'')]\<rparr>" "''dev-token''" demo_srv
        rev demo_miss 0]
  by (simp add: demo_defs m04_authorized_def trim_prefix_def)

theorem m04_requests_keep_witness:
  "m04_ok (sv_st (snd (m04_Routes demo_route demo_miss rev 0 ''dev-token'' demo_post demo_srv)))"
  using m04_requests_keep [of demo_srv 0 demo_miss demo_route rev 0 "''dev-token''" demo_post]
    demo_repo_ok(1,2)
  by (simp add: demo_srv_def demo_miss_def on_rw_def)

theorem m04_recover_logs_no_id_witness:
  "last (sv_log (snd (m04_Recover (m04_RequestID (m04_Logging (\<lambda>r s. (Some slice_panic, s))))
      demo_post demo_srv))) = (''panic recovered'', [(''err'', slice_panic), (''request_id'', [])])"
  using m04_recover_logs_no_id [of "\<lambda>r s. (Some slice_panic, s)" demo_post demo_srv slice_panic]
  by (simp add: demo_post_def)

end
