(* ===== verification/M04_Schema.thy ===== *)
theory M04_Schema
  imports M04_Api
begin

text \<open>
  The type of the REST API of \<open>m04-rest-api/solution-httpapi\<close>: which statuses a route answers with,
  and the JSON shape of the body of each.
\<close>

definition m04_error_schema :: schema where
  "m04_error_schema = SObj [(''error'', SObj [(''code'', SStr), (''message'', SStr)])]"

definition m04_health_schema :: schema where
  "m04_health_schema = SObj [(''status'', SStr)]"

definition m04_customer_schema :: schema where
  "m04_customer_schema = SObj [(''id'', SStr), (''email'', SStr), (''name'', SStr), (''created_at'', SStr)]"

definition m04_list_schema :: schema where
  "m04_list_schema = SObj [(''items'', SArr m04_customer_schema), (''page'', SNum), (''total_pages'', SNum),
     (''total'', SNum), (''has_next'', SBool)]"

text \<open>The statuses each route may answer with; chi answers \<open>Miss\<close> and \<open>V1Miss\<close>.\<close>

definition m04_schema :: "m04_route \<Rightarrow> int \<Rightarrow> schema option" where
  "m04_schema rt status =
     (case rt of
        Health \<Rightarrow> map_of [(200, m04_health_schema)] status
      | V1Create \<Rightarrow> map_of [(201, m04_customer_schema), (400, m04_error_schema), (401, m04_error_schema),
          (409, m04_error_schema), (500, m04_error_schema)] status
      | V1Get i \<Rightarrow> map_of [(200, m04_customer_schema), (401, m04_error_schema), (404, m04_error_schema),
          (500, m04_error_schema)] status
      | V1List \<Rightarrow> map_of [(200, m04_list_schema), (401, m04_error_schema), (500, m04_error_schema)] status
      | V1Miss \<Rightarrow> map_of [(401, m04_error_schema)] status
      | Miss \<Rightarrow> None)"

definition m04_typed :: "m04_route \<Rightarrow> int option \<times> chunk list \<Rightarrow> bool" where
  "m04_typed rt a \<longleftrightarrow> (\<exists>status v t. a = (Some status, [CJson v]) \<and> m04_schema rt status = Some t \<and> conforms t v)"

lemma m04_typedI:
  "m04_schema rt status = Some t \<Longrightarrow> conforms t v \<Longrightarrow> m04_typed rt (Some status, [CJson v])"
  by (simp add: m04_typed_def)

lemma conforms_errorBody [simp]: "conforms m04_error_schema (m04_errorBody code msg)"
  by (simp add: m04_error_schema_def m04_errorBody_def)

lemma conforms_envelope [simp]: "conforms m04_error_schema (snd (m04_envelope e))"
  by (simp add: m04_envelope_def Let_def)

lemma conforms_response [simp]: "conforms m04_customer_schema (m04_responseJSON v)"
  by (simp add: m04_customer_schema_def m04_responseJSON_def)

lemma conforms_listResponse [simp]: "conforms m04_list_schema (m04_listResponse vs p)"
  by (simp add: m04_list_schema_def m04_listResponse_def list_all_iff)

text \<open>A handler either panics before it has written anything, or writes one typed response.\<close>

definition m04_answers :: "m04_route \<Rightarrow> panic option \<times> 's srv \<Rightarrow> bool" where
  "m04_answers rt q \<longleftrightarrow>
     (if fst q = None then m04_typed rt (answer (snd q))
      else answer (snd q) = (None, []) \<and> m04_schema rt 500 = Some m04_error_schema)"

lemma m04_answers_error:
  assumes "answer s = (None, [])" and "m04_schema rt (m04_httpStatus (m04_codeOf (Some e))) = Some m04_error_schema"
  shows "m04_answers rt (None, m04_respondError e s)"
  using assms by (simp add: m04_answers_def m04_envelope_status m04_typedI)

lemma m04_answers_write:
  assumes "answer s = (None, [])" and "m04_schema rt status = Some t" and "conforms t v"
  shows "m04_answers rt (None, m04_writeJSON status v s)"
  using assms by (simp add: m04_answers_def m04_typedI)

lemma m04_answers_panic:
  assumes "answer s = (None, [])" and "m04_schema rt 500 = Some m04_error_schema"
  shows "m04_answers rt (Some p, s)"
  using assms by (simp add: m04_answers_def)

lemmas m04_answers_intros = m04_answers_error m04_answers_write m04_answers_panic

lemma m04_codes_status [simp]:
  "m04_httpStatus ''NOT_FOUND'' = 404" "m04_httpStatus ''CONFLICT'' = 409" "m04_httpStatus ''VALIDATION'' = 400"
  "m04_httpStatus ''UNAUTHORIZED'' = 401" "m04_httpStatus ''INTERNAL'' = 500"
  by (simp_all add: m04_httpStatus_def m04_codes)

lemma m04_health_answers: "answer s = (None, []) \<Longrightarrow> m04_answers Health (m04_health r s)"
  unfolding m04_health_def
  by (rule m04_answers_write) (simp_all add: m04_schema_def, simp add: m04_health_schema_def)

lemma m04_getCustomer_answers:
  assumes "answer s = (None, [])"
  shows "m04_answers (V1Get i) (m04_getCustomer i r s)"
  using assms
  by (auto simp: m04_getCustomer_def m04_service_defs m04_ByID_def m04_schema_def m04_codeOf_simps
      intro!: m04_answers_intros split: sum.split option.split)

lemma m04_listCustomers_answers:
  assumes "answer s = (None, [])"
  shows "m04_answers V1List (m04_listCustomers ord r s)"
  using assms
  by (auto simp: m04_listCustomers_def m04_service_defs m04_List_def Let_def m04_schema_def
      intro!: m04_answers_intros split: sum.split)

lemma m04_createCustomer_answers:
  assumes "answer s = (None, [])"
  shows "m04_answers V1Create (m04_createCustomer now r s)"
  using assms
  by (auto simp: m04_createCustomer_def m04_service_defs m04_Create_def Let_def m04_schema_def m04_codeOf_simps
        m04_codes dest!: m04_Validate_code intro!: m04_answers_intros split: sum.split option.split)

text \<open>C27 (type). The API is typed: whatever the headers and the body, a request to a registered
  route is answered exactly once, with one of the statuses of that route and a body of the JSON
  shape the schema has for the status, be it a result, an error or a panic of the handler; nothing
  is propagated to the server. Under \<open>/v1\<close> that holds of unknown paths too when the request has
  no token.\<close>

theorem m04_response_schema:
  assumes "chi_route (rq_method r) (rq_path r) = rt" and "answer s = (None, [])"
    and "rt \<noteq> Miss" and "rt = V1Miss \<longrightarrow> \<not> m04_authorized token r"
  shows "fst (m04_Routes chi_route chi_miss ord now token r s) = None
    \<and> m04_typed rt (answer (snd (m04_Routes chi_route chi_miss ord now token r s)))"
proof -
  let ?r = "fst (m04_enter r s)" and ?s = "snd (m04_enter r s)"
  let ?inner = "m04_inner chi_route chi_miss ord now token"
  have un: "m04_answers rt (None, m04_respondError (ErrCoded m04_CodeUnauthorized e :: m04_error) ?s)"
    if "rt \<noteq> Health" for e
    using that assms(2,3)
    by (intro m04_answers_error) (cases rt; simp add: m04_schema_def m04_codeOf_simps m04_codes)+
  have "m04_answers rt (?inner ?r ?s)"
    using assms un m04_health_answers m04_getCustomer_answers m04_listCustomers_answers
      m04_createCustomer_answers
    by (cases rt) (auto simp: m04_inner_def m04_BearerAuth_eq m04_v1_def)
  moreover obtain p s2 where i: "?inner ?r ?s = (p, s2)" by (cases "?inner ?r ?s")
  ultimately have a: "m04_answers rt (p, s2)" by simp
  note res = m04_chain_result [where h = ?inner, OF i, folded m04_Routes_chain]
  show ?thesis
  proof (cases p)
    case None
    with res a show ?thesis by (simp add: m04_answers_def)
  next
    case (Some e)
    with a have "answer s2 = (None, [])" "m04_schema rt 500 = Some m04_error_schema"
      by (simp_all add: m04_answers_def)
    with res(1,4) Some show ?thesis by (simp add: m04_typedI)
  qed
qed

theorem m04_response_schema_witness:
  "m04_typed V1Create (answer (snd (m04_Routes demo_route demo_miss rev 0 ''dev-token'' demo_post demo_srv)))"
  using m04_response_schema [of demo_route demo_post V1Create demo_srv "''dev-token''" demo_miss rev 0]
  by (simp add: demo_defs)

end
