(* ===== verification/Go_Serve.thy ===== *)
theory Go_Serve
  imports Go_Http Go_Time Step_System
begin

text \<open>
  HTTP servers run by a \<open>main\<close> function: the timeouts of \<open>http.Server\<close>, and the process, in which
  one goroutine is in \<open>ListenAndServe\<close> while \<open>main\<close> waits for a signal to shut the server down.
  The two take turns in any order; the process ends when either of them ends it.
\<close>

record http_Server =
  hs_Addr :: string
  hs_ReadHeaderTimeout :: int
  hs_ReadTimeout :: int
  hs_WriteTimeout :: int
  hs_IdleTimeout :: int

text \<open>Where the serving goroutine and \<open>main\<close> are. \<open>Failed\<close> is between the log line and \<open>os.Exit\<close>.\<close>

datatype serve_at = Starting | Listening | Failed | ServeDone

datatype main_at = Waiting | Stopping | Flushing | Returned

record proc =
  pc_serve :: serve_at
  pc_main :: main_at
  pc_log :: "log_line list"
  pc_exit :: "int option"

definition proc_start :: proc where
  "proc_start = \<lparr>pc_serve = Starting, pc_main = Waiting, pc_log = [], pc_exit = None\<rparr>"

definition say :: "log_line \<Rightarrow> proc \<Rightarrow> proc" where
  "say l p = p\<lparr>pc_log := pc_log p @ [l]\<rparr>"

lemma say_simps [simp]:
  "pc_serve (say l p) = pc_serve p" "pc_main (say l p) = pc_main p" "pc_exit (say l p) = pc_exit p"
  "pc_log (say l p) = pc_log p @ [l]"
  by (simp_all add: say_def)

definition logged :: "string \<Rightarrow> proc \<Rightarrow> bool" where
  "logged m p \<longleftrightarrow> m \<in> fst ` set (pc_log p)"

lemma logged_say [simp]: "logged m (say l p) \<longleftrightarrow> fst l = m \<or> logged m p"
  by (auto simp: logged_def)

lemma logged_simps [simp]:
  "logged m (p\<lparr>pc_serve := a\<rparr>) = logged m p" "logged m (p\<lparr>pc_main := b\<rparr>) = logged m p"
  "logged m (p\<lparr>pc_exit := e\<rparr>) = logged m p" "\<not> logged m proc_start"
  by (simp_all add: logged_def proc_start_def)

text \<open>What \<open>ListenAndServe\<close> returned and the goroutine reports.\<close>

definition serve_failed :: "'x go_error option \<Rightarrow> bool" where
  "serve_failed err \<longleftrightarrow> err \<noteq> None \<and> \<not> errors_is err ''http.ErrServerClosed''"

end
