(* ===== verification/M04_Cmd.thy ===== *)
theory M04_Cmd
  imports M04_Schema Go_Serve Go_Cmd
begin

text \<open>
  The command \<open>m04-rest-api/solution-cmd/api\<close>: its configuration, and the process with its serving
  goroutine. \<open>shutdown timeout\<close> is the result of \<open>srv.Shutdown\<close>.
\<close>

section \<open>The configuration\<close>

definition m04_token :: "(string \<Rightarrow> string) \<Rightarrow> string" where
  "m04_token getenv =
     (let token = getenv ''API_TOKEN'' in if token = [] then ''dev-token'' else token)"

definition m04_server :: http_Server where
  "m04_server = \<lparr>hs_Addr = '':8080'', hs_ReadHeaderTimeout = 5 * second, hs_ReadTimeout = 15 * second,
     hs_WriteTimeout = 15 * second, hs_IdleTimeout = 60 * second\<rparr>"

definition m04_api_handler ::
  "(string \<Rightarrow> string \<Rightarrow> m04_route) \<Rightarrow> m04_handler \<Rightarrow> m04_order \<Rightarrow> int \<Rightarrow> (string \<Rightarrow> string) \<Rightarrow> m04_handler" where
  "m04_api_handler chi_route chi_miss ord now getenv = m04_Routes chi_route chi_miss ord now (m04_token getenv)"

section \<open>The process\<close>

inductive m04_main_step :: "(int \<Rightarrow> 'x go_error option) \<Rightarrow> proc \<Rightarrow> proc \<Rightarrow> bool"
  for shutdown where
  listening: "pc_exit p = None \<Longrightarrow> pc_serve p = Starting
    \<Longrightarrow> m04_main_step shutdown p (say (''listening'', [(''addr'', hs_Addr m04_server)]) (p\<lparr>pc_serve := Listening\<rparr>))"
| failed: "pc_exit p = None \<Longrightarrow> pc_serve p = Listening \<Longrightarrow> serve_failed (Some (err :: 'x go_error))
    \<Longrightarrow> m04_main_step shutdown p (say (''server error'', [(''err'', err_msg err)]) (p\<lparr>pc_serve := Failed\<rparr>))"
| exits: "pc_exit p = None \<Longrightarrow> pc_serve p = Failed \<Longrightarrow> m04_main_step shutdown p (p\<lparr>pc_exit := Some 1\<rparr>)"
| closed: "pc_exit p = None \<Longrightarrow> pc_serve p = Listening \<Longrightarrow> m04_main_step shutdown p (p\<lparr>pc_serve := ServeDone\<rparr>)"
| signal: "pc_exit p = None \<Longrightarrow> pc_main p = Waiting
    \<Longrightarrow> m04_main_step shutdown p (say (''shutting down'', []) (p\<lparr>pc_main := Stopping\<rparr>))"
| unclean: "pc_exit p = None \<Longrightarrow> pc_main p = Stopping \<Longrightarrow> shutdown (30 * second) = Some err
    \<Longrightarrow> m04_main_step shutdown p (say (''graceful shutdown failed'', [(''err'', err_msg err)]) (p\<lparr>pc_main := Flushing\<rparr>))"
| clean: "pc_exit p = None \<Longrightarrow> pc_main p = Stopping \<Longrightarrow> shutdown (30 * second) = None
    \<Longrightarrow> m04_main_step shutdown p (p\<lparr>pc_main := Flushing\<rparr>)"
| returns: "pc_exit p = None \<Longrightarrow> pc_main p = Flushing
    \<Longrightarrow> m04_main_step shutdown p (say (''stopped'', []) (p\<lparr>pc_main := Returned, pc_exit := Some 0\<rparr>))"

inductive_cases m04_main_stepE: "m04_main_step shutdown p q"

text \<open>How far \<open>main\<close> is and what it has logged; why the process ended.\<close>

definition m04_main_inv :: "(int \<Rightarrow> 'x go_error option) \<Rightarrow> proc \<Rightarrow> bool" where
  "m04_main_inv shutdown p \<longleftrightarrow>
     (logged ''shutting down'' p \<longleftrightarrow> pc_main p \<noteq> Waiting)
   \<and> (logged ''stopped'' p \<longleftrightarrow> pc_main p = Returned) \<and> (pc_main p = Returned \<longleftrightarrow> pc_exit p = Some 0)
   \<and> (logged ''graceful shutdown failed'' p \<longleftrightarrow> pc_main p \<in> {Flushing, Returned} \<and> shutdown (30 * second) \<noteq> None)
   \<and> (logged ''server error'' p \<longleftrightarrow> pc_serve p = Failed) \<and> (logged ''listening'' p \<longleftrightarrow> pc_serve p \<noteq> Starting)
   \<and> pc_exit p \<in> {None, Some 0, Some 1} \<and> (pc_exit p = Some 1 \<longrightarrow> pc_serve p = Failed)"

interpretation m04_main: step_system "m04_main_step shutdown" proc_start "m04_main_inv shutdown"
  for shutdown :: "int \<Rightarrow> 'x go_error option"
proof
  show "m04_main_inv shutdown proc_start" by (simp add: m04_main_inv_def) (simp add: proc_start_def)
next
  fix p q assume "m04_main_inv shutdown p" and "m04_main_step shutdown p q"
  from this(2,1) show "m04_main_inv shutdown q"
    by cases (auto simp: m04_main_inv_def)
qed

text \<open>Remark (invariant). How the command can end: with status 0 exactly when it was told to stop and
  has shut the server down, in which case it says so, and whether the shutdown failed;
  otherwise with status 1, after \<open>ListenAndServe\<close> has failed and that was logged.\<close>

theorem m04_exit_status:
  assumes "(m04_main_step shutdown)\<^sup>*\<^sup>* proc_start p" and "pc_exit p = Some n"
  shows "(n = 0 \<longleftrightarrow> logged ''stopped'' p) \<and> (n = 0 \<longrightarrow> logged ''shutting down'' p)
    \<and> (n = 0 \<longrightarrow> (logged ''graceful shutdown failed'' p \<longleftrightarrow> shutdown (30 * second) \<noteq> None))
    \<and> (n \<noteq> 0 \<longrightarrow> n = 1 \<and> logged ''server error'' p)"
proof -
  have "m04_main_inv shutdown p" by (rule m04_main.reach_inv [OF assms(1)])
  with assms(2) show ?thesis by (auto simp: m04_main_inv_def)
qed

text \<open>Without a token in the environment the bearer token is \<open>dev-token\<close>.\<close>

lemma m04_default_token:
  "m04_api_handler chi_route chi_miss ord now (\<lambda>_. []) = m04_Routes chi_route chi_miss ord now ''dev-token''"
  by (simp add: m04_api_handler_def m04_token_def)

text \<open>A run that is told to stop while it serves.\<close>

theorem m04_exit_status_witness:
  "\<exists>p. (m04_main_step (\<lambda>_. None :: unit go_error option))\<^sup>*\<^sup>* proc_start p \<and> pc_exit p = Some 0 \<and> logged ''stopped'' p"
proof -
  let ?step = "m04_main_step (\<lambda>_. None :: unit go_error option)"
  let ?p1 = "say (''listening'', [(''addr'', hs_Addr m04_server)]) (proc_start\<lparr>pc_serve := Listening\<rparr>)"
  let ?p2 = "say (''shutting down'', []) (?p1\<lparr>pc_main := Stopping\<rparr>)"
  let ?p3 = "?p2\<lparr>pc_main := Flushing\<rparr>"
  let ?p4 = "say (''stopped'', []) (?p3\<lparr>pc_main := Returned, pc_exit := Some 0\<rparr>)"
  have s: "pc_exit proc_start = None" "pc_serve proc_start = Starting" "pc_main proc_start = Waiting"
    by (simp_all add: proc_start_def)
  have "?step proc_start ?p1" by (rule m04_main_step.listening) (simp_all add: s)
  moreover have "?step ?p1 ?p2" by (rule m04_main_step.signal) (simp_all add: s)
  moreover have "?step ?p2 ?p3" by (rule m04_main_step.clean) (simp_all add: s)
  moreover have "?step ?p3 ?p4" by (rule m04_main_step.returns) (simp_all add: s)
  ultimately have run: "?step\<^sup>*\<^sup>* proc_start ?p4"
    by (meson converse_rtranclp_into_rtranclp rtranclp.rtrancl_refl)
  have "pc_exit ?p4 = Some 0" by simp
  with m04_exit_status [OF run this] run show ?thesis by blast
qed

section \<open>The command, for any packages\<close>

text \<open>
  The text of \<open>cmd/api\<close> and \<open>solution-cmd/api\<close> is the same but for the packages \<open>customer\<close> and \<open>httpapi\<close>
  it imports: \<open>p4_Routes now token\<close> is the handler of \<open>NewHandler(svc, log, token).Routes()\<close> at the time
  \<open>now\<close>, on a server state that holds the repository. Beside the steps of the process above, the server
  handles requests while it listens; \<open>arrives\<close> says which may come.
\<close>

record 's m04_packages =
  p4_NewInMemoryRepo :: 's
  p4_Routes :: "int \<Rightarrow> string \<Rightarrow> 's handler"

definition l04_start :: "'s m04_packages \<Rightarrow> 's srv" where
  "l04_start p = \<lparr>sv_rw = new_rw, sv_log = [], sv_rid = 0, sv_st = p4_NewInMemoryRepo p\<rparr>"

definition l04_handle :: "'s m04_packages \<Rightarrow> (string \<Rightarrow> string) \<Rightarrow> int \<Rightarrow> http_req \<Rightarrow> 's srv \<Rightarrow> panic option \<times> 's srv" where
  "l04_handle p getenv now r s = p4_Routes p now (m04_token getenv) r (s\<lparr>sv_rw := new_rw\<rparr>)"

inductive l04_main_step ::
  "'s m04_packages \<Rightarrow> (string \<Rightarrow> string) \<Rightarrow> (int \<Rightarrow> 'x go_error option) \<Rightarrow> (http_req \<Rightarrow> bool)
     \<Rightarrow> proc \<times> 's srv \<Rightarrow> proc \<times> 's srv \<Rightarrow> bool"
  for p getenv shutdown arrives where
  process: "m04_main_step shutdown q q' \<Longrightarrow> l04_main_step p getenv shutdown arrives (q, s) (q', s)"
| request: "pc_exit q = None \<Longrightarrow> pc_serve q = Listening \<Longrightarrow> arrives r
    \<Longrightarrow> l04_main_step p getenv shutdown arrives (q, s) (q, snd (l04_handle p getenv now r s))"

inductive_cases l04_main_stepE: "l04_main_step p getenv shutdown arrives x y"

section \<open>What the exercise asks of the packages\<close>

text \<open>
  No panic gets past the recovery; only requests to the \<open>/v1\<close> group (\<open>v1\<close>) reach the repository, and without
  an \<open>Authorization\<close> header they are answered 401 and do not either.
\<close>

locale m04_exercise =
  fixes p :: "'s m04_packages" and v1 :: "http_req \<Rightarrow> bool"
  assumes recovered: "fst (p4_Routes p now token r s) = None"
    and outside: "\<not> v1 r \<Longrightarrow> sv_st (snd (p4_Routes p now token r s)) = sv_st s"
    and refused: "v1 r \<Longrightarrow> token \<noteq> [] \<Longrightarrow> get_default (rq_header r) ''Authorization'' = [] \<Longrightarrow> answer s = (None, [])
      \<Longrightarrow> fst (answer (snd (p4_Routes p now token r s))) = Some 401 \<and> sv_st (snd (p4_Routes p now token r s)) = sv_st s"

lemma m04_token_set: "m04_token getenv \<noteq> []"
  by (simp add: m04_token_def Let_def)

text \<open>Requests do not disturb the process.\<close>

lemma l04_process:
  assumes "(l04_main_step p getenv shutdown arrives)\<^sup>*\<^sup>* x y"
  shows "(m04_main_step shutdown)\<^sup>*\<^sup>* (fst x) (fst y)"
  using assms
  by (induction rule: rtranclp_induct) (auto elim!: l04_main_stepE intro: rtranclp.rtrancl_into_rtrancl)

context m04_exercise
begin

lemma anonymous_keep:
  assumes "(l04_main_step p getenv shutdown arrives)\<^sup>*\<^sup>* (proc_start, l04_start p) y"
    and "\<forall>r. arrives r \<longrightarrow> get_default (rq_header r) ''Authorization'' = []"
  shows "sv_st (snd y) = p4_NewInMemoryRepo p"
  using assms(1)
proof (induction rule: rtranclp_induct)
  case (step y z)
  have "sv_st (snd (l04_handle p getenv now r s)) = sv_st s" if "arrives r" for now r s
  proof -
    have "answer (s\<lparr>sv_rw := new_rw\<rparr>) = (None, [])" by (simp add: answer_def new_rw_def)
    with refused [of r "m04_token getenv"] outside [of r] that assms(2) m04_token_set
    show ?thesis by (cases "v1 r") (auto simp: l04_handle_def)
  qed
  with step show ?case by (auto elim!: l04_main_stepE)
qed (simp add: l04_start_def)

end

text \<open>Remark (safety). The API process with any packages that keep the contract: as long as no caller sends an
  \<open>Authorization\<close> header the repository stays as it was created, however many requests come and however
  they interleave with the process; no request panics or delays its end, whose status is 0 exactly
  when it was told to stop.\<close>

theorem l04_anonymous:
  assumes "m04_exercise p v1" and "(l04_main_step p getenv shutdown arrives)\<^sup>*\<^sup>* (proc_start, l04_start p) (q, s)"
    and "\<forall>r. arrives r \<longrightarrow> get_default (rq_header r) ''Authorization'' = []"
  shows "sv_st s = p4_NewInMemoryRepo p \<and> (\<forall>now r. fst (l04_handle p getenv now r s) = None)
    \<and> (\<forall>n. pc_exit q = Some n \<longrightarrow> (n = 0 \<longleftrightarrow> logged ''stopped'' q) \<and> (n \<noteq> 0 \<longrightarrow> n = 1 \<and> logged ''server error'' q))"
proof -
  have "m04_main_inv shutdown q"
    using m04_main.reach_inv [of shutdown "fst (q, s)"] l04_process [OF assms(2)] by simp
  then have "\<forall>n. pc_exit q = Some n \<longrightarrow> (n = 0 \<longleftrightarrow> logged ''stopped'' q) \<and> (n \<noteq> 0 \<longrightarrow> n = 1 \<and> logged ''server error'' q)"
    by (auto simp: m04_main_inv_def)
  with m04_exercise.anonymous_keep [OF assms] m04_exercise.recovered [OF assms(1)]
  show ?thesis by (simp add: l04_handle_def)
qed

section \<open>The packages of the reference\<close>

definition m04_solution ::
  "(string \<Rightarrow> string \<Rightarrow> m04_route) \<Rightarrow> m04_handler \<Rightarrow> m04_order \<Rightarrow> m04_InMemoryRepo m04_packages" where
  "m04_solution chi_route chi_miss ord = \<lparr>p4_NewInMemoryRepo = m04_NewInMemoryRepo,
     p4_Routes = m04_Routes chi_route chi_miss ord\<rparr>"

text \<open>What chi's own answers to unknown paths are relied on for.\<close>

locale chi_up =
  fixes chi_route :: "string \<Rightarrow> string \<Rightarrow> m04_route" and chi_miss :: m04_handler
  assumes miss_keeps: "sv_st (snd (chi_miss r s)) = sv_st s"

sublocale chi_up \<subseteq> reference: m04_exercise "m04_solution chi_route chi_miss ord"
  "\<lambda>r. chi_route (rq_method r) (rq_path r) \<notin> {Health, Miss}" for ord
proof (unfold_locales, goal_cases)
  case (1 now token r s)
  let ?h = "m04_inner chi_route chi_miss ord now token"
  show ?case
    using m04_chain_result(1) [of ?h r s, OF prod.collapse [symmetric]]
    by (simp add: m04_solution_def m04_Routes_chain)
next
  case (2 r now token s)
  let ?h = "m04_inner chi_route chi_miss ord now token" and ?s = "snd (m04_enter r s)"
  have "sv_st (snd (?h (fst (m04_enter r s)) ?s)) = sv_st ?s"
    using 2 miss_keeps by (auto simp: m04_inner_def m04_health_def)
  moreover have "sv_st ?s = sv_st s"
    by (simp add: m04_enter_def m04_newRequestID_def Let_def case_prod_beta http_defs)
  ultimately show ?case
    using m04_chain_result(2) [of ?h r s, OF prod.collapse [symmetric]]
    by (simp add: m04_solution_def m04_Routes_chain)
next
  case (3 r token s now)
  let ?h = "m04_inner chi_route chi_miss ord now token" and ?s = "snd (m04_enter r s)"
  have "\<not> m04_authorized token r" using 3 by (auto simp: m04_authorized_def trim_prefix_def Let_def)
  then have "?h (fst (m04_enter r s)) ?s = (None,
      m04_respondError (ErrCoded m04_CodeUnauthorized (ErrNew [] ''unauthorized'') :: m04_error) ?s)"
    using 3(1) by (cases "chi_route (rq_method r) (rq_path r)") (simp_all add: m04_inner_def m04_BearerAuth_eq)
  from m04_Routes_answer [OF this] 3(4) show ?case
    by (simp add: m04_solution_def m04_envelope_def m04_codeOf_def errors_as_def as_coded_def m04_codes
        m04_httpStatus_def Let_def)
qed

interpretation demo_chi: chi_up demo_route demo_miss
  by unfold_locales (simp add: demo_miss_def on_rw_def)

text \<open>A POST without a token, while the server listens.\<close>

theorem l04_anonymous_witness:
  "\<exists>q s. (l04_main_step (m04_solution demo_route demo_miss rev) (\<lambda>_. []) (\<lambda>_. None :: unit go_error option)
        (\<lambda>r. r = demo_post\<lparr>rq_header := []\<rparr>))\<^sup>*\<^sup>* (proc_start, l04_start (m04_solution demo_route demo_miss rev)) (q, s)
     \<and> fst (answer s) = Some 401 \<and> sv_st s = m04_NewInMemoryRepo"
proof -
  let ?p = "m04_solution demo_route demo_miss rev" and ?r = "demo_post\<lparr>rq_header := []\<rparr>"
  let ?step = "l04_main_step ?p (\<lambda>_. []) (\<lambda>_. None :: unit go_error option) (\<lambda>r. r = ?r)"
  let ?q = "say (''listening'', [(''addr'', hs_Addr m04_server)]) (proc_start\<lparr>pc_serve := Listening\<rparr>)"
  let ?s = "snd (l04_handle ?p (\<lambda>_. []) 0 ?r (l04_start ?p))"
  have "?step (proc_start, l04_start ?p) (?q, l04_start ?p)"
    by (intro l04_main_step.process m04_main_step.listening) (simp_all add: proc_start_def)
  moreover have "?step (?q, l04_start ?p) (?q, ?s)"
    by (rule l04_main_step.request) (simp_all add: proc_start_def)
  ultimately have run: "?step\<^sup>*\<^sup>* (proc_start, l04_start ?p) (?q, ?s)"
    by (meson converse_rtranclp_into_rtranclp rtranclp.rtrancl_refl)
  have "fst (answer ?s) = Some 401"
    using demo_chi.reference.refused [of ?r "''dev-token''" "(l04_start ?p)\<lparr>sv_rw := new_rw\<rparr>" rev 0]
    by (simp add: l04_handle_def m04_token_def demo_post_def demo_route_def get_default_def answer_def new_rw_def)
  with l04_anonymous [OF demo_chi.reference.m04_exercise_axioms run] run show ?thesis
    by (intro exI [of _ ?q] exI [of _ ?s]) (simp add: get_default_def m04_solution_def)
qed

end
