(* ===== verification/M04_Conc.thy ===== *)
theory M04_Conc
  imports M04_Customer
begin

text \<open>
  The repository of \<open>m04-rest-api/solution-customer\<close> under the requests the server handles at the same
  time: the bodies of its methods access by access, and what simultaneous \<open>Create\<close>s of one e-mail
  come to.
\<close>

section \<open>The methods, access by access\<close>

datatype m04_query = QueryByID string | QueryList nat

datatype m04_view = ViewOne "(unit, m04_Customer) go_result" | ViewList "(unit, m04_Customer list) go_result"

type_synonym m04_call = "(m04_Customer, m04_query) repo_call"
type_synonym m04_ret = "(unit, m04_Customer, m04_view) repo_ret"
type_synonym m04_orders = "nat \<Rightarrow> (string, m04_Customer) gomap \<Rightarrow> (string, m04_Customer) gomap"

definition m04_Create_body ::
  "((string, m04_Customer) gomap \<Rightarrow> (string, m04_Customer) gomap) \<Rightarrow> int \<Rightarrow> m04_Customer
     \<Rightarrow> lock_mode \<times> (m04_InMemoryRepo, m04_ret) body" where
  "m04_Create_body ord now c = (Lock,
     range_over m04_m ord
       (\<lambda>existing u. if m04_Email existing = m04_Email c then Inl (RetCreate (Inl m04_ErrConflict)) else Inr u) () (\<lambda>_.
     reads (\<lambda>r. let n = add64 (m04_seq r) 1 in
     writes (\<lambda>r. r\<lparr>m04_seq := n\<rparr>) (
     reads (\<lambda>r. let c = c\<lparr>m04_ID := ''cus_'' @ fmt_0d 4 (m04_seq r)\<rparr>; c = c\<lparr>m04_CreatedAt := now, m04_UpdatedAt := now\<rparr> in
     writes (\<lambda>r. r\<lparr>m04_m := map_put (m04_ID c) c (m04_m r)\<rparr>) (
     Return (RetCreate (Inr c))))))))"

definition m04_ByID_body :: "string \<Rightarrow> lock_mode \<times> (m04_InMemoryRepo, m04_ret) body" where
  "m04_ByID_body i = (RLock, reads (\<lambda>r.
     Return (RetRead (ViewOne (case map_of (m04_m r) i of None \<Rightarrow> Inl m04_ErrNotFound | Some c \<Rightarrow> Inr c)))))"

definition m04_List_body ::
  "((string, m04_Customer) gomap \<Rightarrow> (string, m04_Customer) gomap) \<Rightarrow> lock_mode \<times> (m04_InMemoryRepo, m04_ret) body" where
  "m04_List_body ord = (RLock, range_over m04_m ord (\<lambda>c out. Inr (out @ [c])) [] (\<lambda>out.
     Return (RetRead (ViewList (Inr out)))))"

fun m04_method :: "m04_orders \<Rightarrow> m04_call \<Rightarrow> lock_mode \<times> (m04_InMemoryRepo, m04_ret) body" where
  "m04_method ord (CallCreate now c j) = m04_Create_body (ord j) now c"
| "m04_method ord (CallRead (QueryByID i)) = m04_ByID_body i"
| "m04_method ord (CallRead (QueryList j)) = m04_List_body (ord j)"

fun m04_look :: "m04_orders \<Rightarrow> m04_query \<Rightarrow> m04_InMemoryRepo \<Rightarrow> m04_view" where
  "m04_look ord (QueryByID i) r = ViewOne (m04_ByID i r)"
| "m04_look ord (QueryList j) r = ViewList (m04_List (ord j) r)"

section \<open>The methods are atomic\<close>

lemmas m04_bodies = m04_Create_body_def m04_ByID_body_def m04_List_body_def

lemma m04_List_collect: "m04_List ord r = Inr (map snd (ord (m04_m r)))"
proof -
  have "foldl (\<lambda>out (k, c). out @ [c]) out m = out @ map snd m" for out and m :: "(string, m04_Customer) gomap"
    by (induction m arbitrary: out) auto
  then show ?thesis by (simp add: m04_List_def)
qed

lemma m04_method_run:
  assumes "map_wf (m04_m r)" and "\<forall>j. range_order (ord j)"
  shows "run_body (snd (m04_method ord c)) r = repo_atomic m04_Create (m04_look ord) c r"
proof (cases c)
  case (CallCreate now cu j)
  have "range_order (ord j)" using assms(2) by blast
  moreover from this have "(\<exists>v \<in> set (map snd (ord j (m04_m r))). m04_Email v = m04_Email cu)
      \<longleftrightarrow> list_ex (\<lambda>(k, e). m04_Email e = m04_Email cu) (m04_m r)"
    by (force simp: range_order_set list_ex_iff)
  ultimately show ?thesis using assms(1) CallCreate
    by (simp add: m04_bodies run_range_over range_find m04_Create_def Let_def)
next
  case (CallRead q)
  have "range_order (ord j)" for j using assms(2) by blast
  with assms(1) CallRead show ?thesis
    by (cases q) (simp_all add: m04_bodies run_range_over range_collect m04_List_collect m04_ByID_def)
qed

interpretation m04_conc: guarded_object "m04_method ord" "repo_atomic m04_Create (m04_look ord)"
  "\<lambda>r. map_wf (m04_m r) \<and> (\<forall>j. range_order (ord j))" for ord
proof
  fix c r
  show "fst (m04_method ord c) = RLock \<Longrightarrow> read_only (snd (m04_method ord c))"
    by (cases "(ord, c)" rule: m04_method.cases) (simp_all add: m04_bodies read_only_range_over)
  show "map_wf (m04_m r) \<and> (\<forall>j. range_order (ord j))
      \<Longrightarrow> run_body (snd (m04_method ord c)) r = repo_atomic m04_Create (m04_look ord) c r"
    by (blast intro: m04_method_run)
  show "map_wf (m04_m r) \<and> (\<forall>j. range_order (ord j))
      \<Longrightarrow> map_wf (m04_m (snd (repo_atomic m04_Create (m04_look ord) c r))) \<and> (\<forall>j. range_order (ord j))"
    by (cases c) (auto simp: m04_Create_def Let_def)
qed

text \<open>C19 (safety). However many requests create, read and list customers at the same time, their accesses
  interleaved as the lock allows: no two of the customers that were reported as created, by whichever
  request, share an identifier or an e-mail, and each is found under its identifier. The bound
  is the 64-bit counter's.\<close>

theorem m04_concurrent_creates:
  assumes "\<forall>j. range_order (ord j)"
    and "(mutex_step (m04_method ord) prog)\<^sup>*\<^sup>* (quiet (replicate n []) m04_NewInMemoryRepo) (quiet rss r)"
    and "calls_made rss < 2 ^ 63"
  shows "distinct (map m04_ID (created_all rss)) \<and> distinct (map m04_Email (created_all rss))
    \<and> (\<forall>c \<in> set (created_all rss). m04_ByID (m04_ID c) r = Inr c)"
proof -
  have "map_wf (m04_m m04_NewInMemoryRepo) \<and> (\<forall>j. range_order (ord j))"
    using assms(1) by (simp add: m04_NewInMemoryRepo_def)
  from m04_conc.quiet_iff [OF this] assms(2)
  have "(atomic_step (repo_atomic m04_Create (m04_look ord)) prog)\<^sup>*\<^sup>* (replicate n [], m04_NewInMemoryRepo) (rss, r)"
    by blast
  from m04_repo.concurrent_creates_distinct [OF this] assms(3) show ?thesis by (simp add: max_int64_def)
qed

text \<open>Two requests for one e-mail.\<close>

definition m04_demo_call :: "int \<Rightarrow> m04_call" where
  "m04_demo_call now = CallCreate now \<lparr>m04_CreatedAt = 0, m04_UpdatedAt = 0, m04_ID = [],
     m04_Email = ''ada@pulse.dev'', m04_Name = ''Ada''\<rparr> 0"

definition m04_demo_twice :: "nat \<Rightarrow> m04_ret list \<Rightarrow> m04_call option" where
  "m04_demo_twice i rs = (if rs = [] then Some (m04_demo_call (int i)) else None)"

definition m04_ada :: "int \<Rightarrow> m04_Customer" where
  "m04_ada now = \<lparr>m04_CreatedAt = now, m04_UpdatedAt = now, m04_ID = ''cus_'' @ fmt_0d 4 1,
     m04_Email = ''ada@pulse.dev'', m04_Name = ''Ada''\<rparr>"

lemma m04_demo_run:
  "(mutex_step (m04_method (\<lambda>_ m. m)) m04_demo_twice)\<^sup>*\<^sup>* (quiet (replicate 2 []) m04_NewInMemoryRepo)
     (quiet [[RetCreate (Inl m04_ErrConflict)], [RetCreate (Inr (m04_ada 1))]]
        \<lparr>m04_m = [(''cus_'' @ fmt_0d 4 1, m04_ada 1)], m04_seq = 1\<rparr>)"
proof -
  let ?at = "repo_atomic m04_Create (m04_look (\<lambda>_ m. m))" and ?r = "\<lparr>m04_m = [(''cus_'' @ fmt_0d 4 1, m04_ada 1)], m04_seq = 1\<rparr>"
  have "atomic_step ?at m04_demo_twice ([[], []], m04_NewInMemoryRepo) ([[], [RetCreate (Inr (m04_ada 1))]], ?r)"
    by (rule atomic_callI [where i = 1 and c = "m04_demo_call 1"])
      (simp_all add: m04_demo_twice_def m04_demo_call_def m04_Create_def m04_NewInMemoryRepo_def m04_ada_def add64_def wrap64_def Let_def)
  moreover have "atomic_step ?at m04_demo_twice ([[], [RetCreate (Inr (m04_ada 1))]], ?r)
      ([[RetCreate (Inl m04_ErrConflict)], [RetCreate (Inr (m04_ada 1))]], ?r)"
    by (rule atomic_callI [where i = 0 and c = "m04_demo_call 0"])
      (simp_all add: m04_demo_twice_def m04_demo_call_def m04_Create_def m04_ada_def)
  ultimately have "(atomic_step ?at m04_demo_twice)\<^sup>*\<^sup>* (replicate 2 [], m04_NewInMemoryRepo)
      ([[RetCreate (Inl m04_ErrConflict)], [RetCreate (Inr (m04_ada 1))]], ?r)"
    by (simp add: numeral_2_eq_2)
  moreover have "map_wf (m04_m m04_NewInMemoryRepo) \<and> (\<forall>j. range_order ((\<lambda>_ m. m) (j::nat) :: (string, m04_Customer) gomap \<Rightarrow> _))"
    by (simp add: m04_NewInMemoryRepo_def)
  ultimately show ?thesis using m04_conc.quiet_iff [where ord = "\<lambda>_ m. m"] by simp
qed

theorem m04_concurrent_creates_witness:
  "distinct (map m04_Email (created_all [[RetCreate (Inl m04_ErrConflict)], [RetCreate (Inr (m04_ada 1)) :: m04_ret]]))
   \<and> m04_ByID (''cus_'' @ fmt_0d 4 1) \<lparr>m04_m = [(''cus_'' @ fmt_0d 4 1, m04_ada 1)], m04_seq = 1\<rparr> = Inr (m04_ada 1)"
  using m04_concurrent_creates [OF _ m04_demo_run]
  by (simp add: created_all_def calls_made_def m04_ada_def)

end
