(* ===== verification/Go_Serving.thy ===== *)
theory Go_Serving
  imports Go_Mutex
begin

text \<open>
  Requests handled at the same time, each by a goroutine of its own, as \<open>net/http\<close> does it. A handler
  that calls a guarded object at most once is code of its own before the call, the call, and code of
  its own after it. The locale \<open>one_call_server\<close> has such handlers: whatever the schedule, the answers
  and the object are those of handling the requests one after another in some order.
\<close>

text \<open>One request after another: the answers and the object they leave.\<close>

fun serve_all :: "('q \<Rightarrow> 's \<Rightarrow> 'a \<times> 's) \<Rightarrow> 'q list \<Rightarrow> 's \<Rightarrow> 'a list \<times> 's" where
  "serve_all handle [] s = ([], s)"
| "serve_all handle (q # qs) s =
     (let (a, s) = handle q s; (as, s) = serve_all handle qs s in (a # as, s))"

lemma serve_all_append:
  "serve_all handle (qs @ qs') s =
     (let (as, s) = serve_all handle qs s; (as', s) = serve_all handle qs' s in (as @ as', s))"
  by (induction qs arbitrary: s) (simp_all add: case_prod_beta)

text \<open>
  \<open>before q\<close> is what the goroutine of the request \<open>q\<close> comes to first, an answer or its call, and
  \<open>after q r\<close> the answer when that call has returned \<open>r\<close>. A goroutine makes its call once.
\<close>

definition one_call :: "('q \<Rightarrow> 'a + 'o) \<Rightarrow> 'q list \<Rightarrow> nat \<Rightarrow> 'r list \<Rightarrow> 'o option" where
  "one_call before qs i rs =
     (if rs = [] then (case before (qs ! i) of Inl a \<Rightarrow> None | Inr c \<Rightarrow> Some c) else None)"

definition all_returned :: "('q \<Rightarrow> 'a + 'o) \<Rightarrow> 'q list \<Rightarrow> 'r list list \<Rightarrow> bool" where
  "all_returned before qs rss \<longleftrightarrow> (\<forall>i < length qs. one_call before qs i (rss ! i) = None)"

definition answer_to :: "('q \<Rightarrow> 'a + 'o) \<Rightarrow> ('q \<Rightarrow> 'r \<Rightarrow> 'a) \<Rightarrow> 'q \<Rightarrow> 'r list \<Rightarrow> 'a" where
  "answer_to before after q rs = (case before q of Inl a \<Rightarrow> a | Inr c \<Rightarrow> after q (hd rs))"

locale one_call_server = guarded_object ops atomic inv
  for ops :: "'o \<Rightarrow> lock_mode \<times> ('s, 'r) body" and atomic and inv +
  fixes handle :: "'q \<Rightarrow> 's \<Rightarrow> 'a \<times> 's" and before :: "'q \<Rightarrow> 'a + 'o" and after :: "'q \<Rightarrow> 'r \<Rightarrow> 'a"
  assumes handle_call: "inv s \<Longrightarrow> before q = Inr c \<Longrightarrow> handle q s = (after q (fst (atomic c s)), snd (atomic c s))"
    and handle_answer: "inv s \<Longrightarrow> before q = Inl a \<Longrightarrow> handle q s = (a, s)"
begin

text \<open>The requests whose call has been made, in that order, have been answered one after another.\<close>

lemma calls_in_order:
  assumes "inv s0" and "(atomic_step atomic (one_call before qs))\<^sup>*\<^sup>* (replicate (length qs) [], s0) a"
  shows "length (fst a) = length qs \<and> inv (snd a)
    \<and> (\<exists>is. distinct is \<and> set is = {i. i < length qs \<and> fst a ! i \<noteq> []}
        \<and> serve_all handle (map ((!) qs) is) s0 = (map (\<lambda>i. answer_to before after (qs ! i) (fst a ! i)) is, snd a))"
  using assms(2)
proof (induction rule: rtranclp_induct)
  case base
  show ?case using assms(1) by (auto intro: exI [of _ "[]"])
next
  case (step a b)
  obtain rss s where a: "a = (rss, s)" by (cases a)
  from step.IH a obtain "is" where ih: "length rss = length qs" "inv s" "distinct is" "set is = {i. i < length qs \<and> rss ! i \<noteq> []}"
    "serve_all handle (map ((!) qs) is) s0 = (map (\<lambda>i. answer_to before after (qs ! i) (rss ! i)) is, s)" by auto
  from step.hyps(2) a obtain i c r s' where i: "i < length rss" "one_call before qs i (rss ! i) = Some c"
    "atomic c s = (r, s')" "b = (rss[i := rss ! i @ [r]], s')" by (auto elim: atomic_step.cases)
  then have none: "rss ! i = []" "before (qs ! i) = Inr c"
    by (auto simp: one_call_def split: if_splits sum.splits)
  have i_new: "i \<notin> set is" using none(1) ih(4) by simp
  have other: "\<forall>j \<in> set is. rss[i := [r]] ! j = rss ! j" using i_new by (metis nth_list_update_neq)
  have "handle (qs ! i) s = (answer_to before after (qs ! i) [r], s')"
    using handle_call [OF ih(2) none(2)] i(3) none(2) by (simp add: answer_to_def)
  then have "serve_all handle (map ((!) qs) (is @ [i])) s0
      = (map (\<lambda>i'. answer_to before after (qs ! i') (rss[i := [r]] ! i')) (is @ [i]), s')"
    using i_new i(1) other by (simp add: serve_all_append ih(5))
  moreover have "set (is @ [i]) = {j. j < length qs \<and> rss[i := [r]] ! j \<noteq> []}"
    using ih(1,4) i(1) by (auto simp: nth_list_update)
  moreover have "inv s'" using inv_atomic [OF ih(2), of c] i(3) by simp
  ultimately show ?case using ih(1,3) i_new i(4) none(1) by (intro conjI exI [of _ "is @ [i]"]) simp_all
qed

text \<open>Requests that make no call may be put at the end.\<close>

lemma serve_rest:
  assumes "inv s" and "\<forall>i \<in> set is. \<exists>a. before (qs ! i) = Inl a"
  shows "serve_all handle (map ((!) qs) is) s = (map (\<lambda>i. answer_to before after (qs ! i) (rss ! i)) is, s)"
  using assms by (induction "is") (auto simp: handle_answer answer_to_def)

lemma concurrent_requests:
  assumes "inv s0" and run: "(mutex_step ops (one_call before qs))\<^sup>*\<^sup>* (quiet (replicate (length qs) []) s0) (quiet rss s)"
    and "all_returned before qs rss"
  shows "\<exists>is. distinct is \<and> set is = {..<length qs}
    \<and> serve_all handle (map ((!) qs) is) s0 = (map (\<lambda>i. answer_to before after (qs ! i) (rss ! i)) is, s)"
proof -
  have "(atomic_step atomic (one_call before qs))\<^sup>*\<^sup>* (replicate (length qs) [], s0) (rss, s)"
    using quiet_iff [OF assms(1)] run by blast
  from calls_in_order [OF assms(1) this] obtain "is" where called: "length rss = length qs" "inv s" "distinct is"
    "set is = {i. i < length qs \<and> rss ! i \<noteq> []}"
    "serve_all handle (map ((!) qs) is) s0 = (map (\<lambda>i. answer_to before after (qs ! i) (rss ! i)) is, s)" by auto
  let ?js = "filter (\<lambda>i. rss ! i = []) [0..<length qs]"
  have "\<exists>a. before (qs ! i) = Inl a" if "i < length qs" and "rss ! i = []" for i
    using assms(3) that by (cases "before (qs ! i)") (auto simp: all_returned_def one_call_def)
  then have "\<forall>i \<in> set ?js. \<exists>a. before (qs ! i) = Inl a" by simp
  from serve_rest [OF called(2) this, of rss]
  have "serve_all handle (map ((!) qs) (is @ ?js)) s0
      = (map (\<lambda>i. answer_to before after (qs ! i) (rss ! i)) (is @ ?js), s)"
    by (simp add: serve_all_append called(5))
  moreover have "distinct (is @ ?js)" "set (is @ ?js) = {..<length qs}" using called(3,4) by auto
  ultimately show ?thesis by blast
qed

end

end
