(* ===== verification/M04_Serving.thy ===== *)
theory M04_Serving
  imports M04_Api M04_Conc Go_Serving
begin

text \<open>
  The API of \<open>m04-rest-api\<close> under requests handled at the same time, each by its own goroutine. Every
  handler of \<open>solution-httpapi/handler.go\<close> calls the repository at most once; here it is split at that
  call, and shown to be the whole handler behind its middlewares. The goroutines' calls are those of
  \<open>M04_Conc\<close>, with their accesses interleaved.
\<close>

section \<open>A request before and after its call\<close>

text \<open>A request with the order in which its handler ranges over the map and the clock it reads.\<close>

type_synonym m04_request = "nat \<times> int \<times> http_req"

definition m04_err_reply :: "m04_error \<Rightarrow> int option \<times> chunk list" where
  "m04_err_reply e = (Some (fst (m04_envelope e)), [CJson (snd (m04_envelope e))])"

text \<open>A result that may have panicked: the recovery middleware answers for it.\<close>

definition m04_ok_reply :: "int \<Rightarrow> panic + json \<Rightarrow> int option \<times> chunk list" where
  "m04_ok_reply status v =
     (case v of
        Inl p \<Rightarrow> (Some 500, [CJson (m04_errorBody ''INTERNAL'' ''internal server error'')])
      | Inr j \<Rightarrow> (Some status, [CJson j]))"

definition m04_list_json :: "http_req \<Rightarrow> m04_Customer list \<Rightarrow> panic + json" where
  "m04_list_json r cs =
     (case m04_paginate cs (m04_atoiDefault (get_default (rq_query r) ''page'') 1)
             (m04_atoiDefault (get_default (rq_query r) ''size'') 20) of
        Inl p \<Rightarrow> Inl p
      | Inr p \<Rightarrow> map_sum id (\<lambda>items. m04_listResponse items p) (m04_toResponses (pv_items p) (m04_pii r)))"

text \<open>The goroutine up to its call, or up to the answer if it makes none; \<open>miss\<close> are the router's answers.\<close>

definition m04_before ::
  "(string \<Rightarrow> string \<Rightarrow> m04_route) \<Rightarrow> (http_req \<Rightarrow> int option \<times> chunk list) \<Rightarrow> string \<Rightarrow> m04_request
     \<Rightarrow> (int option \<times> chunk list) + m04_call" where
  "m04_before chi_route miss token q =
     (case q of (j, now, r) \<Rightarrow>
        (case chi_route (rq_method r) (rq_path r) of
           Health \<Rightarrow> Inl (m04_ok_reply 200 (Inr (JObj [(''status'', JStr ''ok'')])))
         | Miss \<Rightarrow> Inl (miss r)
         | rt \<Rightarrow>
             (if \<not> m04_authorized token r
              then Inl (m04_err_reply (ErrCoded m04_CodeUnauthorized (ErrNew [] ''unauthorized'')))
              else case rt of
                V1Create \<Rightarrow>
                  (case m04_decodeJSON ''createCustomerRequest'' [''email'', ''name''] r of
                     Inl e \<Rightarrow> Inl (m04_err_reply (ErrCoded m04_CodeValidation e))
                   | Inr req \<Rightarrow>
                       (let c = m04_new (field req ''email'') (field req ''name'')
                        in case m04_Validate c of Some e \<Rightarrow> Inl (m04_err_reply e) | None \<Rightarrow> Inr (CallCreate now c j)))
              | V1List \<Rightarrow> Inr (CallRead (QueryList j))
              | V1Get i \<Rightarrow> Inr (CallRead (QueryByID i))
              | _ \<Rightarrow> Inl (miss r))))"

text \<open>And from the return of its call.\<close>

fun m04_call_reply :: "http_req \<Rightarrow> m04_ret \<Rightarrow> int option \<times> chunk list" where
  "m04_call_reply r (RetCreate res) =
     (case res of Inl e \<Rightarrow> m04_err_reply e
      | Inr c \<Rightarrow> m04_ok_reply 201 (map_sum id m04_responseJSON (m04_toResponse c (m04_pii r))))"
| "m04_call_reply r (RetRead (ViewOne res)) =
     (case res of Inl e \<Rightarrow> m04_err_reply e
      | Inr c \<Rightarrow> m04_ok_reply 200 (map_sum id m04_responseJSON (m04_toResponse c (m04_pii r))))"
| "m04_call_reply r (RetRead (ViewList res)) =
     (case res of Inl e \<Rightarrow> m04_err_reply e | Inr cs \<Rightarrow> m04_ok_reply 200 (m04_list_json r cs))"

definition m04_after :: "m04_request \<Rightarrow> m04_ret \<Rightarrow> int option \<times> chunk list" where
  "m04_after q v = m04_call_reply (snd (snd q)) v"

text \<open>The whole server on one request: the answer and the repository, from a fresh response. The answers
  do not depend on the log and the request counter, which other requests change meanwhile.\<close>

definition m04_serve ::
  "(string \<Rightarrow> string \<Rightarrow> m04_route) \<Rightarrow> m04_handler \<Rightarrow> m04_orders \<Rightarrow> string \<Rightarrow> m04_request \<Rightarrow> m04_InMemoryRepo
     \<Rightarrow> (int option \<times> chunk list) \<times> m04_InMemoryRepo" where
  "m04_serve chi_route chi_miss ord token q repo =
     (case q of (j, now, r) \<Rightarrow>
        (let s = snd (m04_Routes chi_route chi_miss (ord j) now token r
                   \<lparr>sv_rw = new_rw, sv_log = [], sv_rid = 0, sv_st = repo\<rparr>)
         in (answer s, sv_st s)))"

section \<open>The two halves are the handler\<close>

text \<open>What the router's own answers to unknown paths are relied on for.\<close>

definition m04_miss_ok :: "m04_handler \<Rightarrow> (http_req \<Rightarrow> int option \<times> chunk list) \<Rightarrow> bool" where
  "m04_miss_ok chi_miss miss \<longleftrightarrow> (\<forall>r s. fst (chi_miss r s) = None \<and> sv_st (snd (chi_miss r s)) = sv_st s
     \<and> (answer s = (None, []) \<longrightarrow> answer (snd (chi_miss r s)) = miss r)) \<and> (\<forall>r i. miss (r\<lparr>rq_rid := i\<rparr>) = miss r)"

text \<open>The handlers without their middlewares; a panic leaves the response unwritten.\<close>

definition m04_split :: "panic option \<times> m04_srv \<Rightarrow> int option \<times> chunk list \<Rightarrow> m04_InMemoryRepo \<Rightarrow> bool" where
  "m04_split out a repo \<longleftrightarrow> sv_st (snd out) = repo
     \<and> (case fst out of None \<Rightarrow> answer (snd out) = a
        | Some p \<Rightarrow> answer (snd out) = (None, []) \<and> a = m04_ok_reply 0 (Inl p))"

lemma m04_split_simps [simp]:
  "answer s = (None, []) \<Longrightarrow> m04_split (None, m04_respondError e s) (m04_err_reply e) repo \<longleftrightarrow> sv_st s = repo"
  "answer s = (None, []) \<Longrightarrow> m04_split (None, m04_writeJSON status v s) (m04_ok_reply status (Inr v)) repo \<longleftrightarrow> sv_st s = repo"
  "answer s = (None, []) \<Longrightarrow> m04_split (Some p, s) (m04_ok_reply status (Inl p)) repo \<longleftrightarrow> sv_st s = repo"
  by (auto simp: m04_split_def m04_err_reply_def m04_ok_reply_def)

text \<open>What a request comes to, given the repository its call finds.\<close>

definition m04_outcome where
  "m04_outcome chi_route miss token ord q repo =
     (case m04_before chi_route miss token q of
        Inl a \<Rightarrow> (a, repo)
      | Inr c \<Rightarrow> (let (v, repo') = repo_atomic m04_Create (m04_look ord) c repo in (m04_after q v, repo')))"

abbreviation m04_does where
  "m04_does out a \<equiv> m04_split out (fst a) (snd a)"

lemma m04_create_does:
  assumes "answer s = (None, [])" and "chi_route (rq_method r) (rq_path r) = V1Create" and "m04_authorized token r"
  shows "m04_does (m04_createCustomer now r s) (m04_outcome chi_route miss token ord (j, now, r) (sv_st s))"
proof (cases "m04_decodeJSON ''createCustomerRequest'' [''email'', ''name''] r :: (unit, _) go_result")
  case (Inl e)
  with assms show ?thesis by (simp add: m04_outcome_def m04_before_def m04_createCustomer_def)
next
  case (Inr req)
  let ?c = "m04_new (field req ''email'') (field req ''name'')"
  show ?thesis
  proof (cases "m04_Validate ?c :: m04_error option")
    case None
    obtain res repo where create: "m04_Create now ?c (sv_st s) = (res, repo)" by (cases "m04_Create now ?c (sv_st s)")
    have unwritten: "answer (s\<lparr>sv_st := repo\<rparr>) = (None, [])" using assms(1) by simp
    show ?thesis
      using assms(2,3) Inr None create unwritten
      by (cases res; cases "m04_toResponse (projr res) (m04_pii r)")
        (simp_all add: m04_outcome_def m04_before_def m04_after_def m04_createCustomer_def m04_new_def m04_service_defs)
  qed (use assms Inr in \<open>simp add: m04_outcome_def m04_before_def m04_createCustomer_def m04_new_def\<close>)
qed

lemma m04_read_does:
  assumes "answer s = (None, [])"
  shows "m04_split (m04_getCustomer i r s) (m04_call_reply r (RetRead (ViewOne (m04_ByID i (sv_st s))))) (sv_st s)"
    and "m04_split (m04_listCustomers ord r s) (m04_call_reply r (RetRead (ViewList (m04_List ord (sv_st s))))) (sv_st s)"
proof -
  show "m04_split (m04_getCustomer i r s) (m04_call_reply r (RetRead (ViewOne (m04_ByID i (sv_st s))))) (sv_st s)"
    using assms by (auto simp: m04_getCustomer_def m04_service_defs split: sum.split)
  show "m04_split (m04_listCustomers ord r s) (m04_call_reply r (RetRead (ViewList (m04_List ord (sv_st s))))) (sv_st s)"
    using assms by (auto simp: m04_listCustomers_def m04_service_defs m04_list_json_def Let_def split: sum.split)
qed

lemma m04_pii_enter [simp]: "m04_pii (fst (m04_enter r s)) = m04_pii r"
  by (simp add: m04_pii_def)

lemma m04_decode_enter [simp]: "m04_decodeJSON st fl (fst (m04_enter r s)) = m04_decodeJSON st fl r"
  by (simp add: m04_decodeJSON_def split: sum.split)

lemma m04_list_json_enter [simp]: "m04_list_json (fst (m04_enter r s)) cs = m04_list_json r cs"
  by (simp add: m04_list_json_def split: sum.split)

lemma m04_call_reply_enter [simp]: "m04_call_reply (fst (m04_enter r s)) v = m04_call_reply r v"
  by (induction r v rule: m04_call_reply.induct) (simp_all split: sum.split)

lemma m04_outcome_enter:
  assumes "m04_miss_ok chi_miss miss"
  shows "m04_outcome chi_route miss token ord (j, now, fst (m04_enter r s)) repo = m04_outcome chi_route miss token ord (j, now, r) repo"
proof -
  have "miss (fst (m04_enter r s)) = miss r" using assms by (simp add: m04_miss_ok_def m04_enter_def case_prod_beta Let_def)
  then have "m04_before chi_route miss token (j, now, fst (m04_enter r s)) = m04_before chi_route miss token (j, now, r)"
    by (simp add: m04_before_def split: m04_route.split sum.split)
  moreover have "m04_after (j, now, fst (m04_enter r s)) = m04_after (j, now, r)" by (simp add: m04_after_def fun_eq_iff)
  ultimately show ?thesis by (simp add: m04_outcome_def split: sum.split)
qed

lemma m04_missed:
  "m04_split (chi_miss r s) a repo
    \<longleftrightarrow> sv_st (snd (chi_miss r s)) = repo \<and> (answer (snd (chi_miss r s)) = a)" if "fst (chi_miss r s) = None"
  using that by (simp add: m04_split_def)

text \<open>What the router selects, behind the authentication.\<close>

lemma m04_inner_does:
  assumes "answer s = (None, [])" and "m04_miss_ok chi_miss miss"
  shows "m04_does (m04_inner chi_route chi_miss (ord j) now token r s) (m04_outcome chi_route miss token ord (j, now, r) (sv_st s))"
proof (cases "chi_route (rq_method r) (rq_path r)")
  case V1Create
  show ?thesis
  proof (cases "m04_authorized token r")
    case True
    have "m04_does (m04_createCustomer now r s) (m04_outcome chi_route miss token ord (j, now, r) (sv_st s))"
      by (rule m04_create_does [OF assms(1)]) (rule V1Create, rule True)
    with True show ?thesis by (simp add: m04_inner_def V1Create m04_BearerAuth_eq m04_v1_def)
  qed (use assms(1) V1Create in \<open>simp add: m04_inner_def m04_BearerAuth_eq m04_outcome_def m04_before_def\<close>)
next
  case Health
  with assms(1) show ?thesis by (simp add: m04_inner_def m04_outcome_def m04_before_def m04_health_def)
next
  case V1List
  with assms(1) m04_read_does(2) [OF assms(1)] show ?thesis
    by (simp add: m04_inner_def m04_BearerAuth_eq m04_v1_def m04_outcome_def m04_before_def m04_after_def del: m04_call_reply.simps)
next
  case (V1Get i)
  with assms(1) m04_read_does(1) [OF assms(1)] show ?thesis
    by (simp add: m04_inner_def m04_BearerAuth_eq m04_v1_def m04_outcome_def m04_before_def m04_after_def del: m04_call_reply.simps)
qed (use assms in \<open>auto simp: m04_inner_def m04_BearerAuth_eq m04_v1_def m04_outcome_def m04_before_def m04_miss_ok_def m04_missed m04_err_reply_def\<close>)

lemma m04_split_served:
  assumes "m04_split (m04_inner chi_route chi_miss ord now token (fst (m04_enter r s)) (snd (m04_enter r s))) a repo"
  shows "answer (snd (m04_Routes chi_route chi_miss ord now token r s)) = a
    \<and> sv_st (snd (m04_Routes chi_route chi_miss ord now token r s)) = repo"
proof -
  obtain p s2 where out: "m04_inner chi_route chi_miss ord now token (fst (m04_enter r s)) (snd (m04_enter r s)) = (p, s2)"
    by (cases "m04_inner chi_route chi_miss ord now token (fst (m04_enter r s)) (snd (m04_enter r s))")
  show ?thesis
  proof (cases p)
    case None
    with m04_Routes_answer [OF out [unfolded None]] assms show ?thesis by (simp add: out m04_split_def)
  next
    case (Some e)
    with m04_Routes_panic [OF out [unfolded Some]] assms show ?thesis by (simp add: out m04_split_def m04_ok_reply_def)
  qed
qed

text \<open>The server on a request is its call between the two halves, whatever the log and the counter.\<close>

lemma m04_served:
  assumes "answer s = (None, [])" and "m04_miss_ok chi_miss miss"
  shows "(answer (snd (m04_Routes chi_route chi_miss (ord j) now token r s)), sv_st (snd (m04_Routes chi_route chi_miss (ord j) now token r s)))
    = m04_outcome chi_route miss token ord (j, now, r) (sv_st s)"
proof -
  have "answer (snd (m04_enter r s)) = (None, [])" using assms(1) by simp
  from m04_inner_does [OF this assms(2), of chi_route ord j now token "fst (m04_enter r s)"]
  have "m04_does (m04_inner chi_route chi_miss (ord j) now token (fst (m04_enter r s)) (snd (m04_enter r s)))
      (m04_outcome chi_route miss token ord (j, now, r) (sv_st s))"
    by (simp add: m04_outcome_enter [OF assms(2)])
  from m04_split_served [OF this] show ?thesis by (simp add: prod_eq_iff)
qed

section \<open>Requests at the same time\<close>

interpretation m04_server: one_call_server "m04_method ord" "repo_atomic m04_Create (m04_look ord)"
  "\<lambda>r. map_wf (m04_m r) \<and> (\<forall>j. range_order (ord j)) \<and> m04_miss_ok chi_miss miss"
  "m04_serve chi_route chi_miss ord token" "m04_before chi_route miss token" m04_after
  for ord chi_route chi_miss miss token
proof -
  have fresh: "answer \<lparr>sv_rw = new_rw, sv_log = [], sv_rid = 0, sv_st = repo\<rparr> = (None, [])" for repo :: m04_InMemoryRepo
    by (simp add: answer_def new_rw_def)
  have serve: "m04_serve chi_route chi_miss ord token q r = m04_outcome chi_route miss token ord q r"
    if "m04_miss_ok chi_miss miss" for q r
    using m04_served [OF fresh that] by (cases q) (simp add: m04_serve_def Let_def)
  show "one_call_server (m04_method ord) (repo_atomic m04_Create (m04_look ord))
      (\<lambda>r. map_wf (m04_m r) \<and> (\<forall>j. range_order (ord j)) \<and> m04_miss_ok chi_miss miss)
      (m04_serve chi_route chi_miss ord token) (m04_before chi_route miss token) m04_after"
    by unfold_locales
      (use m04_conc.run_op m04_conc.readers_read m04_conc.inv_atomic in
        \<open>auto simp: serve m04_outcome_def case_prod_beta\<close>)
qed

text \<open>C17 (equivalence). Requests handled at the same time, their accesses to the repository interleaved as the
  lock allows: once all are answered, there is an order in which the server, handling the same
  requests one after another from the same repository, gives each of them the same answer and leaves
  the same repository.\<close>

theorem m04_requests_linearize:
  assumes "map_wf (m04_m repo)" and "\<forall>j. range_order (ord j)" and "m04_miss_ok chi_miss miss"
    and "(mutex_step (m04_method ord) (one_call (m04_before chi_route miss token) qs))\<^sup>*\<^sup>*
           (quiet (replicate (length qs) []) repo) (quiet rss repo')"
    and "all_returned (m04_before chi_route miss token) qs rss"
  shows "\<exists>is. distinct is \<and> set is = {..<length qs}
    \<and> serve_all (m04_serve chi_route chi_miss ord token) (map ((!) qs) is) repo
      = (map (\<lambda>i. answer_to (m04_before chi_route miss token) m04_after (qs ! i) (rss ! i)) is, repo')"
  using assms by (intro m04_server.concurrent_requests) blast+

text \<open>Two POSTs of one e-mail at the same time, of which the second to arrive comes first.\<close>

definition demo_posts :: "m04_request list" where
  "demo_posts = [(0, 0, demo_post), (0, 1, demo_post)]"

definition demo_ada :: m04_Customer where
  "demo_ada = (m04_new ''ada@pulse.dev'' ''Ada'')\<lparr>m04_ID := ''cus_'' @ fmt_0d 4 1, m04_CreatedAt := 1, m04_UpdatedAt := 1\<rparr>"

lemma demo_miss_ok: "m04_miss_ok demo_miss (\<lambda>r. (Some 404, [CText (''404 page not found'' @ [CHR 0x0A])]))"
  by (simp add: m04_miss_ok_def demo_miss_def answer_def http_error_def http_defs)

lemma demo_posts_before:
  "i < 2 \<Longrightarrow> m04_before demo_route miss ''dev-token'' (demo_posts ! i)
     = Inr (CallCreate (int i) (m04_new ''ada@pulse.dev'' ''Ada'') 0)"
proof -
  have "m04_Validate (m04_new ''ada@pulse.dev'' ''Ada'') = (None :: m04_error option)"
    using trim_space_graphic [of "CHR ''A''" "''da''"] by (simp add: m04_Validate_None m04_new_def graphic_def)
  moreover have "m04_authorized ''dev-token'' demo_post" by (simp add: demo_defs m04_authorized_def trim_prefix_def)
  moreover have "demo_route (rq_method demo_post) (rq_path demo_post) = V1Create" by (simp add: demo_defs)
  moreover have "m04_decodeJSON ''createCustomerRequest'' [''email'', ''name''] demo_post
      = (Inr [(''email'', ''ada@pulse.dev''), (''name'', ''Ada'')] :: (unit, _) go_result)"
    by (rule m04_decode_ok [where stop = 40]) (simp_all add: demo_post_def m04_maxBodyBytes_def)
  ultimately have "m04_before demo_route miss ''dev-token'' (0, now, demo_post)
      = Inr (CallCreate now (m04_new ''ada@pulse.dev'' ''Ada'') 0)" for now
    by (simp add: m04_before_def field_def)
  then show "i < 2 \<Longrightarrow> ?thesis" by (auto simp: demo_posts_def less_2_cases_iff)
qed

lemma demo_posts_run:
  "(mutex_step (m04_method (\<lambda>_ m. m)) (one_call (m04_before demo_route miss ''dev-token'') demo_posts))\<^sup>*\<^sup>*
     (quiet (replicate (length demo_posts) []) m04_NewInMemoryRepo)
     (quiet [[RetCreate (Inl m04_ErrConflict)], [RetCreate (Inr demo_ada)]]
        \<lparr>m04_m = [(''cus_'' @ fmt_0d 4 1, demo_ada)], m04_seq = 1\<rparr>)"
proof -
  let ?at = "repo_atomic m04_Create (m04_look (\<lambda>_ m. m))" and ?prog = "one_call (m04_before demo_route miss ''dev-token'') demo_posts"
  let ?r = "\<lparr>m04_m = [(''cus_'' @ fmt_0d 4 1, demo_ada)], m04_seq = 1\<rparr>"
  have "atomic_step ?at ?prog ([[], []], m04_NewInMemoryRepo) ([[], [RetCreate (Inr demo_ada)]], ?r)"
    by (rule atomic_callI [where i = 1 and c = "CallCreate 1 (m04_new ''ada@pulse.dev'' ''Ada'') 0"])
      (simp_all add: one_call_def demo_posts_before m04_Create_def m04_NewInMemoryRepo_def demo_ada_def m04_new_def add64_def wrap64_def Let_def)
  moreover have "atomic_step ?at ?prog ([[], [RetCreate (Inr demo_ada)]], ?r)
      ([[RetCreate (Inl m04_ErrConflict)], [RetCreate (Inr demo_ada)]], ?r)"
    by (rule atomic_callI [where i = 0 and c = "CallCreate 0 (m04_new ''ada@pulse.dev'' ''Ada'') 0"])
      (simp_all add: one_call_def demo_posts_before m04_Create_def demo_ada_def m04_new_def)
  ultimately have "(atomic_step ?at ?prog)\<^sup>*\<^sup>* (replicate (length demo_posts) [], m04_NewInMemoryRepo)
      ([[RetCreate (Inl m04_ErrConflict)], [RetCreate (Inr demo_ada)]], ?r)"
    by (simp add: demo_posts_def numeral_2_eq_2)
  moreover have "map_wf (m04_m m04_NewInMemoryRepo) \<and> (\<forall>j. range_order ((\<lambda>_ m. m) (j::nat) :: (string, m04_Customer) gomap \<Rightarrow> _))"
    by (simp add: m04_NewInMemoryRepo_def)
  ultimately show ?thesis using m04_conc.quiet_iff [where ord = "\<lambda>_ m. m"] by simp
qed

theorem m04_requests_linearize_witness:
  "\<exists>is. distinct is \<and> set is = {..<2} \<and> fst (serve_all (m04_serve demo_route demo_miss (\<lambda>_ m. m) ''dev-token'')
      (map ((!) demo_posts) is) m04_NewInMemoryRepo)
    = map (\<lambda>i. if i = 0 then m04_err_reply m04_ErrConflict else m04_call_reply demo_post (RetCreate (Inr demo_ada))) is"
proof -
  let ?miss = "\<lambda>r. (Some 404, [CText (''404 page not found'' @ [CHR 0x0A])])"
  let ?rss = "[[RetCreate (Inl m04_ErrConflict)], [RetCreate (Inr demo_ada)]]"
  have len: "length demo_posts = 2" by (simp add: demo_posts_def)
  have "all_returned (m04_before demo_route ?miss ''dev-token'') demo_posts ?rss"
    by (auto simp: all_returned_def one_call_def len less_2_cases_iff)
  from m04_requests_linearize [OF _ _ demo_miss_ok demo_posts_run this] obtain "is" where "is":
    "distinct is" "set is = {..<2}" "fst (serve_all (m04_serve demo_route demo_miss (\<lambda>_ m. m) ''dev-token'')
        (map ((!) demo_posts) is) m04_NewInMemoryRepo)
      = map (\<lambda>i. answer_to (m04_before demo_route ?miss ''dev-token'') m04_after (demo_posts ! i) (?rss ! i)) is"
    by (auto simp: m04_NewInMemoryRepo_def len)
  have "answer_to (m04_before demo_route ?miss ''dev-token'') m04_after (demo_posts ! i) (?rss ! i)
      = (if i = 0 then m04_err_reply m04_ErrConflict else m04_call_reply demo_post (RetCreate (Inr demo_ada)))" if "i < 2" for i
  proof -
    have "answer_to (m04_before demo_route ?miss ''dev-token'') m04_after (demo_posts ! i) (?rss ! i)
        = m04_after (demo_posts ! i) (hd (?rss ! i))"
      using that by (simp add: answer_to_def demo_posts_before)
    with that show ?thesis by (auto simp: less_2_cases_iff m04_after_def demo_posts_def)
  qed
  with "is" show ?thesis by (intro exI [of _ "is"]) auto
qed

end
