(* ===== verification/Go_Grpc.thy ===== *)
theory Go_Grpc
  imports Go_Http
begin

text \<open>
  What the sources use of gRPC, a package outside the repository: status errors with their codes
  are the parameter \<open>grpc\<close>, its documented law (\<open>status.Code\<close> reads back the code of
  \<open>status.Error\<close>, and the codes differ) the hypothesis \<open>grpc_ok\<close>. A unary handler maps the
  incoming metadata, the request and the server's state to a panic or a result and the new
  state; of the pair \<open>(resp, err)\<close> the caller reads one side.
\<close>

record ('x, 'k) grpc =
  gs_Error :: "'k \<Rightarrow> string \<Rightarrow> 'x go_error"
  gs_Code :: "'x go_error option \<Rightarrow> 'k"
  gs_String :: "'k \<Rightarrow> string"
  c_InvalidArgument :: 'k
  c_NotFound :: 'k
  c_Internal :: 'k
  c_Unauthenticated :: 'k

definition grpc_ok :: "('x, 'k) grpc \<Rightarrow> bool" where
  "grpc_ok g \<longleftrightarrow> (\<forall>k m. gs_Code g (Some (gs_Error g k m)) = k)
     \<and> distinct [c_InvalidArgument g, c_NotFound g, c_Internal g, c_Unauthenticated g]"

text \<open>A package with these laws: the code is the identity of the error.\<close>

definition demo_grpc :: "(nat, nat) grpc" where
  "demo_grpc = \<lparr>gs_Error = (\<lambda>k m. ErrOther k m),
     gs_Code = (\<lambda>e. case e of Some (ErrOther k m) \<Rightarrow> k | None \<Rightarrow> 0 | _ \<Rightarrow> 2),
     gs_String = show_nat, c_InvalidArgument = 3, c_NotFound = 5, c_Internal = 13,
     c_Unauthenticated = 16\<rparr>"

lemma demo_grpc_ok: "grpc_ok demo_grpc"
  by (simp add: grpc_ok_def demo_grpc_def)

record grpc_ctx =
  gx_md :: "(string \<times> string list) list"
  gx_method :: string

record 's gsrv =
  gs_log :: "log_line list"
  gs_st :: 's

type_synonym ('x, 'q, 'p, 's) unary =
  "grpc_ctx \<Rightarrow> 'q \<Rightarrow> 's gsrv \<Rightarrow> (panic + ('x, 'p) go_result) \<times> 's gsrv"

definition glog :: "log_line \<Rightarrow> 's gsrv \<Rightarrow> 's gsrv" where
  "glog l s = s\<lparr>gs_log := gs_log s @ [l]\<rparr>"

definition md_get :: "grpc_ctx \<Rightarrow> string \<Rightarrow> string list" where
  "md_get ctx k = (case map_of (gx_md ctx) k of None \<Rightarrow> [] | Some vs \<Rightarrow> vs)"

end
