(* ===== verification/M05_Grpc.thy ===== *)
theory M05_Grpc
  imports M00_Start Go_Grpc Go_Time
begin

text \<open>
  \<open>m05-grpc\<close>: the unary interceptors, the profile server over a repository, the in-memory
  repository and the domain client. The wire is a parameter: the client's stub \<open>raw\<close> is any
  function from requests to results.
\<close>

section \<open>solution-interceptor\<close>

definition m05_AuthUnary ::
  "('x, 'k) grpc \<Rightarrow> string \<Rightarrow> ('x, 'q, 'p, 's) unary \<Rightarrow> ('x, 'q, 'p, 's) unary" where
  "m05_AuthUnary g token handler ctx req s =
     (let want = ''Bearer '' @ token; vals = md_get ctx ''authorization''
      in if length vals = 0 \<or> vals ! 0 \<noteq> want
         then (Inr (Inl (gs_Error g (c_Unauthenticated g) ''invalid token'')), s)
         else handler ctx req s)"

definition m05_LogUnary ::
  "('x, 'k) grpc \<Rightarrow> ('x, 'q, 'p, 's) unary \<Rightarrow> ('x, 'q, 'p, 's) unary" where
  "m05_LogUnary g handler ctx req s =
     (let (res, s) = handler ctx req s
      in case res of
           Inl p \<Rightarrow> (Inl p, s)
         | Inr r \<Rightarrow> (Inr r, glog (''grpc unary'',
             [(''method'', gx_method ctx), (''code'', gs_String g (gs_Code g (res_err r)))]) s))"

definition m05_RecoverUnary ::
  "('x, 'k) grpc \<Rightarrow> ('x, 'q, 'p, 's) unary \<Rightarrow> ('x, 'q, 'p, 's) unary" where
  "m05_RecoverUnary g handler ctx req s =
     (let (res, s) = handler ctx req s
      in case res of
           Inr r \<Rightarrow> (Inr r, s)
         | Inl rec \<Rightarrow>
             (Inr (Inl (gs_Error g (c_Internal g) ''internal error'')),
              glog (''grpc panic recovered'', [(''method'', gx_method ctx), (''err'', rec)]) s))"

section \<open>solution-profile: domain and repository\<close>

record m05_Profile =
  pf_CustomerID :: string
  pf_Traits :: "(string, string) gomap"
  pf_UpdatedAt :: int

record m05_Event =
  pe_ID :: string
  pe_CustomerID :: string
  pe_Type :: string
  pe_OccurredAt :: int

record pb_Profile =
  pb_CustomerId :: string
  pb_Traits :: "(string, string) gomap"
  pb_UpdatedAtUnix :: int

record pb_Event =
  pbe_Id :: string
  pbe_CustomerId :: string
  pbe_Type :: string
  pbe_OccurredAtUnix :: int

definition m05_ErrNotFound :: "'x go_error" where
  "m05_ErrNotFound = ErrNew ''m05/profile.ErrNotFound'' ''profile: not found''"

definition m05_toProto :: "m05_Profile \<Rightarrow> pb_Profile" where
  "m05_toProto p = \<lparr>pb_CustomerId = pf_CustomerID p, pb_Traits = pf_Traits p,
     pb_UpdatedAtUnix = unix_seconds (pf_UpdatedAt p)\<rparr>"

definition m05_toProtoEvent :: "m05_Event \<Rightarrow> pb_Event" where
  "m05_toProtoEvent e = \<lparr>pbe_Id = pe_ID e, pbe_CustomerId = pe_CustomerID e, pbe_Type = pe_Type e,
     pbe_OccurredAtUnix = unix_seconds (pe_OccurredAt e)\<rparr>"

record m05_InMemoryRepo =
  m05_profiles :: "(string, m05_Profile) gomap"
  m05_events :: "(string, m05_Event list) gomap"

definition m05_NewInMemoryRepo :: m05_InMemoryRepo where
  "m05_NewInMemoryRepo = \<lparr>m05_profiles = [], m05_events = []\<rparr>"

definition m05_Get :: "string \<Rightarrow> m05_InMemoryRepo \<Rightarrow> ('x, m05_Profile) go_result" where
  "m05_Get i r = (case map_of (m05_profiles r) i of None \<Rightarrow> Inl m05_ErrNotFound | Some p \<Rightarrow> Inr p)"

definition m05_Upsert ::
  "m05_Profile \<Rightarrow> m05_InMemoryRepo \<Rightarrow> ('x, m05_Profile) go_result \<times> m05_InMemoryRepo" where
  "m05_Upsert p r = (Inr p, r\<lparr>m05_profiles := map_put (pf_CustomerID p) p (m05_profiles r)\<rparr>)"

definition m05_AddEvent :: "string \<Rightarrow> m05_Event \<Rightarrow> m05_InMemoryRepo \<Rightarrow> m05_InMemoryRepo" where
  "m05_AddEvent i e r =
     r\<lparr>m05_events := map_put i ((case map_of (m05_events r) i of None \<Rightarrow> [] | Some es \<Rightarrow> es) @ [e])
                       (m05_events r)\<rparr>"

definition m05_Events :: "string \<Rightarrow> m05_InMemoryRepo \<Rightarrow> ('x, m05_Event list) go_result" where
  "m05_Events i r = Inr (case map_of (m05_events r) i of None \<Rightarrow> [] | Some es \<Rightarrow> es)"

section \<open>solution-profile: the server\<close>

text \<open>
  The repository is an interface: its three operations are arguments. The context's state while
  events are streamed (\<open>done i\<close>: the error of the context before the \<open>i\<close>-th event, if it is done)
  and what the stream's \<open>Send\<close> returns are arguments too.
\<close>

definition m05_GetProfile ::
  "('x, 'k) grpc \<Rightarrow> (string \<Rightarrow> 'r \<Rightarrow> ('x, m05_Profile) go_result) \<Rightarrow> ('x, string, pb_Profile, 'r) unary"
where
  "m05_GetProfile g get ctx customer_id s =
     (if customer_id = []
      then (Inr (Inl (gs_Error g (c_InvalidArgument g) ''customer_id is required'')), s)
      else
        (let res = get customer_id (gs_st s)
         in if errors_is (res_err res) ''m05/profile.ErrNotFound''
            then (Inr (Inl (gs_Error g (c_NotFound g)
                   (''profile '' @ fmt_q customer_id @ '' not found''))), s)
            else case res of
                   Inl e \<Rightarrow> (Inr (Inl (gs_Error g (c_Internal g) ''internal error'')), s)
                 | Inr p \<Rightarrow> (Inr (Inr (m05_toProto p)), s)))"

definition m05_UpsertProfile ::
  "('x, 'k) grpc \<Rightarrow> (m05_Profile \<Rightarrow> 'r \<Rightarrow> ('x, m05_Profile) go_result \<times> 'r) \<Rightarrow> int
     \<Rightarrow> ('x, string \<times> (string, string) gomap, pb_Profile, 'r) unary" where
  "m05_UpsertProfile g upsert now ctx req s =
     (let (customer_id, traits) = req
      in if customer_id = []
         then (Inr (Inl (gs_Error g (c_InvalidArgument g) ''customer_id is required'')), s)
         else
           (let (res, r) = upsert \<lparr>pf_CustomerID = customer_id, pf_Traits = traits,
                             pf_UpdatedAt = now\<rparr> (gs_st s);
                s = s\<lparr>gs_st := r\<rparr>
            in case res of
                 Inl e \<Rightarrow> (Inr (Inl (gs_Error g (c_Internal g) ''internal error'')), s)
               | Inr saved \<Rightarrow> (Inr (Inr (m05_toProto saved)), s)))"

fun m05_stream ::
  "(nat \<Rightarrow> 'x go_error option) \<Rightarrow> (pb_Event \<Rightarrow> 'x go_error option) \<Rightarrow> nat \<Rightarrow> m05_Event list
     \<Rightarrow> 'x go_error option \<times> pb_Event list" where
  "m05_stream done send i [] = (None, [])"
| "m05_stream done send i (e # es) =
     (case done i of
        Some err \<Rightarrow> (Some err, [])
      | None \<Rightarrow>
          (case send (m05_toProtoEvent e) of
             Some err \<Rightarrow> (Some err, [])
           | None \<Rightarrow> (let (err, out) = m05_stream done send (i + 1) es
                     in (err, m05_toProtoEvent e # out))))"

definition m05_ListEvents ::
  "('x, 'k) grpc \<Rightarrow> (string \<Rightarrow> 'r \<Rightarrow> ('x, m05_Event list) go_result) \<Rightarrow> (nat \<Rightarrow> 'x go_error option)
     \<Rightarrow> (pb_Event \<Rightarrow> 'x go_error option) \<Rightarrow> string \<Rightarrow> 'r \<Rightarrow> 'x go_error option \<times> pb_Event list" where
  "m05_ListEvents g events done send customer_id r =
     (if customer_id = []
      then (Some (gs_Error g (c_InvalidArgument g) ''customer_id is required''), [])
      else case events customer_id r of
             Inl e \<Rightarrow> (Some (gs_Error g (c_Internal g) ''internal error''), [])
           | Inr es \<Rightarrow> m05_stream done send 0 es)"

section \<open>solution-profile: the client\<close>

definition m05_Client_GetProfile ::
  "('x, 'k) grpc \<Rightarrow> (string \<Rightarrow> ('x, pb_Profile) go_result) \<Rightarrow> string \<Rightarrow> ('x, m05_Profile) go_result"
where
  "m05_Client_GetProfile g raw customerID =
     (case raw customerID of
        Inl e \<Rightarrow>
          (if gs_Code g (Some e) = c_NotFound g then Inl m05_ErrNotFound
           else Inl (ErrWrap ''get profile'' e))
      | Inr p \<Rightarrow> Inr \<lparr>pf_CustomerID = pb_CustomerId p, pf_Traits = pb_Traits p,
                      pf_UpdatedAt = pb_UpdatedAtUnix p * second\<rparr>)"

section \<open>solution-cmd/server\<close>

text \<open>
  The server chains the three interceptors in front of the unary methods only; the streaming
  method has none.
\<close>

definition m05_chain :: "('x, 'k) grpc \<Rightarrow> string \<Rightarrow> ('x, 'q, 'p, 's) unary \<Rightarrow> ('x, 'q, 'p, 's) unary" where
  "m05_chain g token h = m05_RecoverUnary g (m05_LogUnary g (m05_AuthUnary g token h))"

definition m05_serve_Get where
  "m05_serve_Get g token = m05_chain g token (m05_GetProfile g m05_Get)"

definition m05_serve_Upsert where
  "m05_serve_Upsert g token now = m05_chain g token (m05_UpsertProfile g m05_Upsert now)"

definition m05_serve_ListEvents where
  "m05_serve_ListEvents g token ctx done send customer_id s =
     m05_ListEvents g m05_Events done send customer_id (gs_st s)"

section \<open>The repository interface\<close>

text \<open>The contract of \<open>profile.Repo\<close> the server relies on.\<close>

locale profile_repo =
  fixes get :: "string \<Rightarrow> 'r \<Rightarrow> ('x, m05_Profile) go_result"
    and upsert :: "m05_Profile \<Rightarrow> 'r \<Rightarrow> ('x, m05_Profile) go_result \<times> 'r"
    and empty_repo :: 'r
  assumes get_empty: "get i empty_repo = Inl m05_ErrNotFound"
    and upsert_same: "upsert p r = (Inr q, r') \<Longrightarrow> pf_CustomerID q = pf_CustomerID p \<and> pf_Traits q = pf_Traits p"
    and get_upserted: "upsert p r = (Inr q, r') \<Longrightarrow> get (pf_CustomerID p) r' = Inr q"
    and get_other: "upsert p r = (res, r') \<Longrightarrow> i \<noteq> pf_CustomerID p \<Longrightarrow> get i r' = get i r"
begin

text \<open>What the server stores, the domain client reads back, the time cut to seconds.\<close>

lemma client_reads_upserted:
  assumes "m05_UpsertProfile g upsert now ctx (i, traits) s = (Inr (Inr p), s')"
  shows "m05_GetProfile g get ctx' i s' = (Inr (Inr p), s')"
proof -
  from assms have i: "i \<noteq> []" by (auto simp: m05_UpsertProfile_def)
  let ?p = "\<lparr>pf_CustomerID = i, pf_Traits = traits, pf_UpdatedAt = now\<rparr>"
  obtain res r where up: "upsert ?p (gs_st s) = (res, r)" by (cases "upsert ?p (gs_st s)")
  with assms i obtain q where "res = Inr q" "p = m05_toProto q" "s' = s\<lparr>gs_st := r\<rparr>"
    by (auto simp: m05_UpsertProfile_def Let_def split: sum.splits)
  with up get_upserted [OF up [unfolded this]] i show ?thesis
    by (simp add: m05_GetProfile_def Let_def)
qed

lemma get_missing:
  assumes "i \<noteq> []" "get i (gs_st s) = Inl m05_ErrNotFound"
  shows "m05_GetProfile g get ctx i s
    = (Inr (Inl (gs_Error g (c_NotFound g) (''profile '' @ fmt_q i @ '' not found''))), s)"
  using assms by (simp add: m05_GetProfile_def m05_ErrNotFound_def)

end

interpretation m05_repo: profile_repo m05_Get m05_Upsert m05_NewInMemoryRepo
  by unfold_locales (auto simp: m05_Get_def m05_Upsert_def m05_NewInMemoryRepo_def)

section \<open>The interceptor chain\<close>

definition m05_authorized :: "string \<Rightarrow> grpc_ctx \<Rightarrow> bool" where
  "m05_authorized token ctx \<longleftrightarrow> (\<exists>vs. md_get ctx ''authorization'' = (''Bearer '' @ token) # vs)"

lemma m05_AuthUnary_eq:
  "m05_AuthUnary g token h ctx req s =
     (if m05_authorized token ctx then h ctx req s
      else (Inr (Inl (gs_Error g (c_Unauthenticated g) ''invalid token'')), s))"
  by (cases "md_get ctx ''authorization''") (auto simp: m05_AuthUnary_def m05_authorized_def Let_def)

lemma m05_chain_eq:
  "m05_chain g token h ctx req s =
     (let (res, s) = (if m05_authorized token ctx then h ctx req s
                      else (Inr (Inl (gs_Error g (c_Unauthenticated g) ''invalid token'')), s))
      in case res of
           Inr r \<Rightarrow> (Inr r, glog (''grpc unary'',
             [(''method'', gx_method ctx), (''code'', gs_String g (gs_Code g (res_err r)))]) s)
         | Inl p \<Rightarrow> (Inr (Inl (gs_Error g (c_Internal g) ''internal error'')),
             glog (''grpc panic recovered'', [(''method'', gx_method ctx), (''err'', p)]) s))"
  by (simp add: m05_chain_def m05_RecoverUnary_def m05_LogUnary_def m05_AuthUnary_eq Let_def
      case_prod_beta split: sum.splits)

section \<open>Properties\<close>

text \<open>Remark (safety). The interceptor chain, around any handler: a call whose first
  \<open>authorization\<close> value is not exactly \<open>Bearer <token>\<close> never reaches the handler and gets
  Unauthenticated; a panicking handler becomes an Internal error; every call that did not panic
  is logged once with the code of its error; nothing panics.\<close>

theorem m05_chain_guards:
  assumes "grpc_ok g" and "m05_chain g token h ctx req s = (out, s')"
  shows "(\<not> m05_authorized token ctx \<longrightarrow>
            gs_st s' = gs_st s \<and> (\<exists>e. out = Inr (Inl e) \<and> gs_Code g (Some e) = c_Unauthenticated g))
    \<and> (m05_authorized token ctx \<and> h ctx req s = (Inl p, s1) \<longrightarrow>
            gs_st s' = gs_st s1 \<and> (\<exists>e. out = Inr (Inl e) \<and> gs_Code g (Some e) = c_Internal g))
    \<and> (m05_authorized token ctx \<and> h ctx req s = (Inr r, s1) \<longrightarrow>
            gs_st s' = gs_st s1 \<and> out = Inr r
            \<and> last (gs_log s') = (''grpc unary'',
                [(''method'', gx_method ctx), (''code'', gs_String g (gs_Code g (res_err r)))]))
    \<and> (\<exists>r. out = Inr r)"
proof -
  obtain res s2 where h: "h ctx req s = (res, s2)" by (cases "h ctx req s")
  from assms show ?thesis
    by (cases res; cases "m05_authorized token ctx")
      (auto simp: m05_chain_eq h glog_def grpc_ok_def Let_def)
qed

theorem m05_chain_guards_witness:
  "\<exists>e. fst (m05_serve_Get demo_grpc ''t'' \<lparr>gx_md = [], gx_method = ''Get''\<rparr> ''cus_1''
        \<lparr>gs_log = [], gs_st = m05_NewInMemoryRepo\<rparr>) = Inr (Inl e)
      \<and> gs_Code demo_grpc (Some e) = c_Unauthenticated demo_grpc"
proof -
  obtain out s' where r: "m05_chain demo_grpc ''t'' (m05_GetProfile demo_grpc m05_Get)
      \<lparr>gx_md = [], gx_method = ''Get''\<rparr> ''cus_1'' \<lparr>gs_log = [], gs_st = m05_NewInMemoryRepo\<rparr> = (out, s')"
    by (rule prod.exhaust)
  have "\<not> m05_authorized ''t'' \<lparr>gx_md = [], gx_method = ''Get''\<rparr>"
    by (simp add: m05_authorized_def md_get_def)
  with m05_chain_guards [OF demo_grpc_ok r] r show ?thesis by (auto simp: m05_serve_Get_def)
qed

text \<open>Remark (roundtrip). What an authorized \<open>UpsertProfile\<close> stores, an authorized \<open>GetProfile\<close>
  through the domain client returns: the customer, the traits, and the time cut to the second;
  and a customer never stored comes back as the domain's \<open>ErrNotFound\<close>, which the server had
  turned into the status NotFound.\<close>

theorem m05_upsert_get:
  assumes "grpc_ok g" and "i \<noteq> []" and "m05_authorized token ctx" and "m05_authorized token ctx'"
    and "m05_serve_Upsert g token now ctx (i, traits) s = (out, s')"
    and "\<forall>j. fst (m05_serve_Get g token ctx' j s') = Inr (raw j)"
  shows "m05_Client_GetProfile g raw i = Inr \<lparr>pf_CustomerID = i, pf_Traits = traits,
            pf_UpdatedAt = unix_seconds now * second\<rparr>
    \<and> (j \<noteq> [] \<and> j \<noteq> i \<and> map_of (m05_profiles (gs_st s)) j = None \<longrightarrow>
         m05_Client_GetProfile g raw j = Inl m05_ErrNotFound)"
proof -
  let ?p = "\<lparr>pf_CustomerID = i, pf_Traits = traits, pf_UpdatedAt = now\<rparr>"
  obtain s1 where up: "m05_UpsertProfile g m05_Upsert now ctx (i, traits) s
      = (Inr (Inr (m05_toProto ?p)), s1)" and st: "gs_st s1 = snd (m05_Upsert ?p (gs_st s) :: ('a, _) go_result \<times> _)"
    using assms(2) by (simp add: m05_UpsertProfile_def m05_Upsert_def Let_def)
  have s': "gs_st s' = gs_st s1"
    using assms(3,5) up by (auto simp: m05_serve_Upsert_def m05_chain_eq Let_def glog_def)
  have get: "m05_GetProfile g m05_Get ctx' j s' = (fst (m05_GetProfile g m05_Get ctx' j s1), s')" for j
    using s' by (auto simp: m05_GetProfile_def Let_def split: sum.splits)
  have raw: "Inr (raw j) = fst (m05_GetProfile g m05_Get ctx' j s1)"
    if "fst (m05_GetProfile g m05_Get ctx' j s1) = Inr r" for j r
    using assms(4) spec [OF assms(6), of j] that get [of j]
    by (simp add: m05_serve_Get_def m05_chain_eq Let_def)
  have "raw i = Inr (m05_toProto ?p)"
    using raw [of i "Inr (m05_toProto ?p)"] m05_repo.client_reads_upserted [OF up, of ctx'] by simp
  moreover have "m05_Client_GetProfile g raw j = Inl m05_ErrNotFound"
    if "j \<noteq> []" "j \<noteq> i" "map_of (m05_profiles (gs_st s)) j = None"
  proof -
    have "m05_Get j (gs_st s1) = (Inl m05_ErrNotFound :: ('a, _) go_result)"
      using that by (simp add: st m05_Upsert_def m05_Get_def)
    from m05_repo.get_missing [OF that(1) this, of g ctx'] raw [of j]
    have "\<exists>m. raw j = Inl (gs_Error g (c_NotFound g) m)" by auto
    with assms(1) show ?thesis by (auto simp: m05_Client_GetProfile_def grpc_ok_def)
  qed
  ultimately show ?thesis by (simp add: m05_Client_GetProfile_def m05_toProto_def)
qed

text \<open>Remark (functional). A stream of events sends the stored events of the customer in their order:
  all of them when it ends without an error, and otherwise the ones before the first event for
  which the context was done or the send failed.\<close>

theorem m05_stream_prefix:
  assumes "m05_stream done send i es = (err, out)"
  shows "prefix out (map m05_toProtoEvent es)
    \<and> (err = None \<longrightarrow> out = map m05_toProtoEvent es)
    \<and> (\<forall>e. err = Some e \<longrightarrow> length out < length es
         \<and> (done (i + length out) = Some e
            \<or> send (m05_toProtoEvent (es ! length out)) = Some e))
    \<and> (\<forall>k < length out. done (i + k) = None \<and> send (m05_toProtoEvent (es ! k)) = None)"
  using assms
proof (induction es arbitrary: i err out)
  case Nil
  then show ?case by simp
next
  case (Cons ev es)
  show ?case
  proof (cases "done i = None \<and> send (m05_toProtoEvent ev) = None")
    case True
    obtain err' out' where rec: "m05_stream done send (i + 1) es = (err', out')"
      by (cases "m05_stream done send (i + 1) es")
    with True Cons.prems have "err = err'" "out = m05_toProtoEvent ev # out'" by auto
    with Cons.IH [OF rec] True show ?thesis
      by (auto simp: nth_Cons split: nat.splits)
  next
    case False
    then consider a where "done i = Some a" | a where "done i = None" "send (m05_toProtoEvent ev) = Some a"
      by auto
    then show ?thesis
    proof cases
      case (1 a)
      with Cons.prems have "err = Some a" "out = []" by simp_all
      with 1 show ?thesis by simp
    next
      case (2 a)
      with Cons.prems have "err = Some a" "out = []" by simp_all
      with 2 show ?thesis by simp
    qed
  qed
qed

theorem m05_stream_prefix_witness:
  "prefix [m05_toProtoEvent \<lparr>pe_ID = ''a'', pe_CustomerID = ''c'', pe_Type = ''t'', pe_OccurredAt = 0\<rparr>]
     (map m05_toProtoEvent [\<lparr>pe_ID = ''a'', pe_CustomerID = ''c'', pe_Type = ''t'', pe_OccurredAt = 0\<rparr>])"
  using m05_stream_prefix [of "\<lambda>_. None" "\<lambda>_. None" 0
      "[\<lparr>pe_ID = ''a'', pe_CustomerID = ''c'', pe_Type = ''t'', pe_OccurredAt = 0\<rparr>]" None]
  by simp

definition demo_ctx :: grpc_ctx where
  "demo_ctx = \<lparr>gx_md = [(''authorization'', [''Bearer t''])], gx_method = ''/profile.v1.ProfileService''\<rparr>"

theorem m05_upsert_get_witness:
  "\<exists>raw. m05_Client_GetProfile demo_grpc raw ''cus_1'' = Inr \<lparr>pf_CustomerID = ''cus_1'',
     pf_Traits = [(''tier'', ''gold'')], pf_UpdatedAt = 1 * second\<rparr>"
proof -
  let ?s = "\<lparr>gs_log = [], gs_st = m05_NewInMemoryRepo\<rparr>"
  obtain out s' where up: "m05_serve_Upsert demo_grpc ''t'' (second + 5) demo_ctx
      (''cus_1'', [(''tier'', ''gold'')]) ?s = (out, s')"
    by (rule prod.exhaust)
  have auth: "m05_authorized ''t'' demo_ctx"
    by (simp add: m05_authorized_def demo_ctx_def md_get_def)
  let ?raw = "\<lambda>j. projr (fst (m05_serve_Get demo_grpc ''t'' demo_ctx j s'))"
  have "\<forall>j. fst (m05_serve_Get demo_grpc ''t'' demo_ctx j s') = Inr (?raw j)"
    by (simp add: m05_serve_Get_def m05_chain_eq Let_def case_prod_beta split: sum.splits)
  from m05_upsert_get [OF demo_grpc_ok _ auth auth up this] show ?thesis
    by (auto simp: unix_seconds_def second_def)
qed

end
