(* ===== verification/M05_Service.thy ===== *)
theory M05_Service
  imports M05_Grpc
begin

text \<open>
  The generated code of \<open>m05-grpc/proto/profile/v1\<close>: the messages with their getters, the client stub,
  the server's interface, the handlers and the service descriptor, and the service put together:
  the profile server registered with the interceptor chain. An \<open>interface{}\<close> that holds a message is
  a value of \<open>pb_any\<close>. gRPC's connection and its decoder are parameters.
\<close>

section \<open>profile.pb.go: the messages\<close>

record pb_GetProfileRequest =
  pbg_CustomerId :: string

record pb_UpsertProfileRequest =
  pbu_CustomerId :: string
  pbu_Traits :: "(string, string) gomap"

record pb_ListEventsRequest =
  pbl_CustomerId :: string

datatype pb_any = AnyGet pb_GetProfileRequest | AnyUpsert pb_UpsertProfileRequest | AnyList pb_ListEventsRequest

text \<open>A getter takes a pointer, which may be nil.\<close>

definition Profile_GetCustomerId :: "pb_Profile option \<Rightarrow> string" where
  "Profile_GetCustomerId x = (case x of Some m \<Rightarrow> pb_CustomerId m | None \<Rightarrow> [])"

definition Profile_GetTraits :: "pb_Profile option \<Rightarrow> (string, string) gomap" where
  "Profile_GetTraits x = (case x of Some m \<Rightarrow> pb_Traits m | None \<Rightarrow> [])"

definition Profile_GetUpdatedAtUnix :: "pb_Profile option \<Rightarrow> int" where
  "Profile_GetUpdatedAtUnix x = (case x of Some m \<Rightarrow> pb_UpdatedAtUnix m | None \<Rightarrow> 0)"

definition GetProfileRequest_GetCustomerId :: "pb_GetProfileRequest option \<Rightarrow> string" where
  "GetProfileRequest_GetCustomerId x = (case x of Some m \<Rightarrow> pbg_CustomerId m | None \<Rightarrow> [])"

definition UpsertProfileRequest_GetCustomerId :: "pb_UpsertProfileRequest option \<Rightarrow> string" where
  "UpsertProfileRequest_GetCustomerId x = (case x of Some m \<Rightarrow> pbu_CustomerId m | None \<Rightarrow> [])"

definition UpsertProfileRequest_GetTraits :: "pb_UpsertProfileRequest option \<Rightarrow> (string, string) gomap" where
  "UpsertProfileRequest_GetTraits x = (case x of Some m \<Rightarrow> pbu_Traits m | None \<Rightarrow> [])"

definition Event_GetId :: "pb_Event option \<Rightarrow> string" where
  "Event_GetId x = (case x of Some m \<Rightarrow> pbe_Id m | None \<Rightarrow> [])"

definition Event_GetCustomerId :: "pb_Event option \<Rightarrow> string" where
  "Event_GetCustomerId x = (case x of Some m \<Rightarrow> pbe_CustomerId m | None \<Rightarrow> [])"

definition Event_GetType :: "pb_Event option \<Rightarrow> string" where
  "Event_GetType x = (case x of Some m \<Rightarrow> pbe_Type m | None \<Rightarrow> [])"

definition Event_GetOccurredAtUnix :: "pb_Event option \<Rightarrow> int" where
  "Event_GetOccurredAtUnix x = (case x of Some m \<Rightarrow> pbe_OccurredAtUnix m | None \<Rightarrow> 0)"

definition ListEventsRequest_GetCustomerId :: "pb_ListEventsRequest option \<Rightarrow> string" where
  "ListEventsRequest_GetCustomerId x = (case x of Some m \<Rightarrow> pbl_CustomerId m | None \<Rightarrow> [])"

text \<open>The zero messages \<open>new\<close> gives.\<close>

definition new_Profile :: pb_Profile where
  "new_Profile = \<lparr>pb_CustomerId = [], pb_Traits = [], pb_UpdatedAtUnix = 0\<rparr>"

definition new_GetProfileRequest :: pb_GetProfileRequest where
  "new_GetProfileRequest = \<lparr>pbg_CustomerId = []\<rparr>"

definition new_UpsertProfileRequest :: pb_UpsertProfileRequest where
  "new_UpsertProfileRequest = \<lparr>pbu_CustomerId = [], pbu_Traits = []\<rparr>"

definition new_ListEventsRequest :: pb_ListEventsRequest where
  "new_ListEventsRequest = \<lparr>pbl_CustomerId = []\<rparr>"

section \<open>profile_grpc.pb.go: the client\<close>

definition GetProfile_FullMethodName :: string where
  "GetProfile_FullMethodName = ''/profile.v1.ProfileService/GetProfile''"

definition UpsertProfile_FullMethodName :: string where
  "UpsertProfile_FullMethodName = ''/profile.v1.ProfileService/UpsertProfile''"

definition ListEvents_FullMethodName :: string where
  "ListEvents_FullMethodName = ''/profile.v1.ProfileService/ListEvents''"

text \<open>The connection: \<open>Invoke\<close> fills the message it is given, or returns an error.\<close>

record ('x, 't, 'w) grpc_conn =
  cc_Invoke :: "string \<Rightarrow> pb_any \<Rightarrow> pb_Profile \<Rightarrow> 'w \<Rightarrow> ('x go_error option \<times> pb_Profile) \<times> 'w"
  cc_NewStream :: "string \<Rightarrow> 'w \<Rightarrow> ('x, 't) go_result \<times> 'w"
  cc_SendMsg :: "'t \<Rightarrow> pb_any \<Rightarrow> 'w \<Rightarrow> 'x go_error option \<times> 'w"
  cc_CloseSend :: "'t \<Rightarrow> 'w \<Rightarrow> 'x go_error option \<times> 'w"

definition client_GetProfile ::
  "('x, 't, 'w) grpc_conn \<Rightarrow> pb_GetProfileRequest \<Rightarrow> 'w \<Rightarrow> ('x, pb_Profile) go_result \<times> 'w" where
  "client_GetProfile cc req w =
     (let ((err, out), w) = cc_Invoke cc GetProfile_FullMethodName (AnyGet req) new_Profile w
      in (case err of Some e \<Rightarrow> Inl e | None \<Rightarrow> Inr out, w))"

definition client_UpsertProfile ::
  "('x, 't, 'w) grpc_conn \<Rightarrow> pb_UpsertProfileRequest \<Rightarrow> 'w \<Rightarrow> ('x, pb_Profile) go_result \<times> 'w" where
  "client_UpsertProfile cc req w =
     (let ((err, out), w) = cc_Invoke cc UpsertProfile_FullMethodName (AnyUpsert req) new_Profile w
      in (case err of Some e \<Rightarrow> Inl e | None \<Rightarrow> Inr out, w))"

definition client_ListEvents ::
  "('x, 't, 'w) grpc_conn \<Rightarrow> pb_ListEventsRequest \<Rightarrow> 'w \<Rightarrow> ('x, 't) go_result \<times> 'w" where
  "client_ListEvents cc req w =
     (let (res, w) = cc_NewStream cc ListEvents_FullMethodName w
      in case res of
           Inl err \<Rightarrow> (Inl err, w)
         | Inr stream \<Rightarrow>
             (case cc_SendMsg cc stream (AnyList req) w of
                (Some err, w) \<Rightarrow> (Inl err, w)
              | (None, w) \<Rightarrow>
                  (case cc_CloseSend cc stream w of
                     (Some err, w) \<Rightarrow> (Inl err, w)
                   | (None, w) \<Rightarrow> (Inr stream, w))))"

section \<open>profile_grpc.pb.go: the server\<close>

text \<open>The interface. A server stream is the context's state before each event and what \<open>Send\<close> returns.\<close>

record 'x server_stream =
  st_done :: "nat \<Rightarrow> 'x go_error option"
  st_send :: "pb_Event \<Rightarrow> 'x go_error option"

record ('x, 's) profile_server =
  ps_GetProfile :: "('x, pb_GetProfileRequest, pb_Profile, 's) unary"
  ps_UpsertProfile :: "('x, pb_UpsertProfileRequest, pb_Profile, 's) unary"
  ps_ListEvents :: "pb_ListEventsRequest \<Rightarrow> 'x server_stream \<Rightarrow> 's gsrv \<Rightarrow> 'x go_error option \<times> pb_Event list"

definition Unimplemented_GetProfile where
  "Unimplemented_GetProfile status_Error unimplemented ctx req s =
     (Inr (Inl (status_Error unimplemented ''method GetProfile not implemented'')), s)"

definition Unimplemented_UpsertProfile where
  "Unimplemented_UpsertProfile status_Error unimplemented ctx req s =
     (Inr (Inl (status_Error unimplemented ''method UpsertProfile not implemented'')), s)"

definition Unimplemented_ListEvents where
  "Unimplemented_ListEvents status_Error unimplemented req stream s =
     (Some (status_Error unimplemented ''method ListEvents not implemented''), [])"

text \<open>The handlers. \<open>dec\<close> decodes into the message it is given; a type assertion that fails panics.\<close>

definition conversion_panic :: panic where
  "conversion_panic = ''interface conversion''"

definition call_GetProfile :: "('x, 's) profile_server \<Rightarrow> ('x, pb_any, pb_Profile, 's) unary" where
  "call_GetProfile srv ctx req s =
     (case req of AnyGet m \<Rightarrow> ps_GetProfile srv ctx m s | _ \<Rightarrow> (Inl conversion_panic, s))"

definition call_UpsertProfile :: "('x, 's) profile_server \<Rightarrow> ('x, pb_any, pb_Profile, 's) unary" where
  "call_UpsertProfile srv ctx req s =
     (case req of AnyUpsert m \<Rightarrow> ps_UpsertProfile srv ctx m s | _ \<Rightarrow> (Inl conversion_panic, s))"

type_synonym ('x, 's) interceptor =
  "('x, pb_any, pb_Profile, 's) unary \<Rightarrow> ('x, pb_any, pb_Profile, 's) unary"

type_synonym ('x, 's) method_handler =
  "('x, 's) profile_server \<Rightarrow> grpc_ctx \<Rightarrow> (pb_any \<Rightarrow> ('x, pb_any) go_result) \<Rightarrow> ('x, 's) interceptor option
     \<Rightarrow> 's gsrv \<Rightarrow> (panic + ('x, pb_Profile) go_result) \<times> 's gsrv"

definition GetProfile_Handler :: "('x, 's) method_handler" where
  "GetProfile_Handler srv ctx dec interceptor s =
     (case dec (AnyGet new_GetProfileRequest) of
        Inl err \<Rightarrow> (Inr (Inl err), s)
      | Inr req \<Rightarrow>
          (case interceptor of
             None \<Rightarrow> call_GetProfile srv ctx req s
           | Some i \<Rightarrow> i (call_GetProfile srv) (ctx\<lparr>gx_method := GetProfile_FullMethodName\<rparr>) req s))"

definition UpsertProfile_Handler :: "('x, 's) method_handler" where
  "UpsertProfile_Handler srv ctx dec interceptor s =
     (case dec (AnyUpsert new_UpsertProfileRequest) of
        Inl err \<Rightarrow> (Inr (Inl err), s)
      | Inr req \<Rightarrow>
          (case interceptor of
             None \<Rightarrow> call_UpsertProfile srv ctx req s
           | Some i \<Rightarrow> i (call_UpsertProfile srv) (ctx\<lparr>gx_method := UpsertProfile_FullMethodName\<rparr>) req s))"

type_synonym ('x, 's) stream_handler =
  "('x, 's) profile_server \<Rightarrow> (pb_ListEventsRequest \<Rightarrow> ('x, pb_ListEventsRequest) go_result) \<Rightarrow> 'x server_stream
     \<Rightarrow> 's gsrv \<Rightarrow> 'x go_error option \<times> pb_Event list"

definition ListEvents_Handler :: "('x, 's) stream_handler" where
  "ListEvents_Handler srv recv stream s =
     (case recv new_ListEventsRequest of
        Inl err \<Rightarrow> (Some err, [])
      | Inr m \<Rightarrow> ps_ListEvents srv m stream s)"

record ('m, 't) service_desc =
  sd_ServiceName :: string
  sd_Methods :: "(string \<times> 'm) list"
  sd_Streams :: "(string \<times> 't) list"
  sd_Metadata :: string

definition ProfileService_ServiceDesc :: "(('x, 's) method_handler, ('x, 's) stream_handler) service_desc" where
  "ProfileService_ServiceDesc = \<lparr>sd_ServiceName = ''profile.v1.ProfileService'',
     sd_Methods = [(''GetProfile'', GetProfile_Handler), (''UpsertProfile'', UpsertProfile_Handler)],
     sd_Streams = [(''ListEvents'', ListEvents_Handler)], sd_Metadata = ''proto/profile/v1/profile.proto''\<rparr>"

section \<open>The profile server behind the interface\<close>

definition m05_NewServer :: "('x, 'k) grpc \<Rightarrow> int \<Rightarrow> ('x, m05_InMemoryRepo) profile_server" where
  "m05_NewServer g now = \<lparr>
     ps_GetProfile = (\<lambda>ctx req. m05_GetProfile g m05_Get ctx (GetProfileRequest_GetCustomerId (Some req))),
     ps_UpsertProfile = (\<lambda>ctx req. m05_UpsertProfile g m05_Upsert now ctx
        (UpsertProfileRequest_GetCustomerId (Some req), UpsertProfileRequest_GetTraits (Some req))),
     ps_ListEvents = (\<lambda>req stream s. m05_ListEvents g m05_Events (st_done stream) (st_send stream)
        (ListEventsRequest_GetCustomerId (Some req)) (gs_st s))\<rparr>"

text \<open>With the chain, the handlers of the table are the methods of \<open>M05_Grpc\<close>.\<close>

lemma m05_authorized_method [simp]: "m05_authorized token (ctx\<lparr>gx_method := m\<rparr>) = m05_authorized token ctx"
  by (simp add: m05_authorized_def md_get_def)

lemma GetProfile_served:
  "GetProfile_Handler (m05_NewServer g now) ctx (\<lambda>_. Inr (AnyGet req)) (Some (m05_chain g token)) s
     = m05_serve_Get g token (ctx\<lparr>gx_method := GetProfile_FullMethodName\<rparr>) (pbg_CustomerId req) s"
  by (simp add: GetProfile_Handler_def m05_serve_Get_def m05_chain_eq call_GetProfile_def m05_NewServer_def
      GetProfileRequest_GetCustomerId_def)

lemma UpsertProfile_served:
  "UpsertProfile_Handler (m05_NewServer g now) ctx (\<lambda>_. Inr (AnyUpsert req)) (Some (m05_chain g token)) s
     = m05_serve_Upsert g token now (ctx\<lparr>gx_method := UpsertProfile_FullMethodName\<rparr>)
         (pbu_CustomerId req, pbu_Traits req) s"
  by (simp add: UpsertProfile_Handler_def m05_serve_Upsert_def m05_chain_eq call_UpsertProfile_def m05_NewServer_def
      UpsertProfileRequest_GetCustomerId_def UpsertProfileRequest_GetTraits_def)

section \<open>Who is served\<close>

definition full_method :: "string \<Rightarrow> string" where
  "full_method nm = ''/profile.v1.ProfileService/'' @ nm"

lemma full_methods:
  "full_method ''GetProfile'' = GetProfile_FullMethodName"
  "full_method ''UpsertProfile'' = UpsertProfile_FullMethodName"
  by (simp_all add: full_method_def GetProfile_FullMethodName_def UpsertProfile_FullMethodName_def)

lemma method_handlers:
  assumes "(nm, h) \<in> set (sd_Methods ProfileService_ServiceDesc)"
  obtains f where "\<And>srv ctx req ic s. h srv ctx (\<lambda>_. Inr req) (Some ic) s
      = ic (f srv) (ctx\<lparr>gx_method := full_method nm\<rparr>) req s"
  using assms that [of call_GetProfile] that [of call_UpsertProfile]
  by (auto simp: ProfileService_ServiceDesc_def GetProfile_Handler_def UpsertProfile_Handler_def full_methods)

text \<open>A stream nothing goes wrong with.\<close>

definition open_stream :: "'x server_stream" where
  "open_stream = \<lparr>st_done = (\<lambda>_. None), st_send = (\<lambda>_. None)\<rparr>"

lemma m05_stream_open: "m05_stream (\<lambda>_. None) (\<lambda>_. None) i es = (None, map m05_toProtoEvent es)"
  by (induction es arbitrary: i) simp_all

text \<open>C32 (safety). Who is served, by the service's own tables. Every unary method, around any
  implementation and for any request: without the exact bearer token the call is answered
  Unauthenticated and the server's state is untouched; no call panics; and each leaves a log line
  with its full method name. The streaming method has no such guard: whoever calls it is sent all
  events of the customer.\<close>

theorem m05_service_guards:
  assumes "grpc_ok g" and "(nm, h) \<in> set (sd_Methods ProfileService_ServiceDesc)"
    and "h srv ctx (\<lambda>_. Inr req) (Some (m05_chain g token)) s = (out, s')"
    and "(nm', h') \<in> set (sd_Streams ProfileService_ServiceDesc)" and "i \<noteq> []"
  shows "(\<not> m05_authorized token ctx \<longrightarrow> gs_st s' = gs_st s
            \<and> (\<exists>e. out = Inr (Inl e) \<and> gs_Code g (Some e) = c_Unauthenticated g))
    \<and> (\<exists>r. out = Inr r)
    \<and> (\<exists>line. gs_log s' \<noteq> [] \<and> line = last (gs_log s') \<and> (''method'', full_method nm) \<in> set (snd line))
    \<and> h' (m05_NewServer g now) (\<lambda>_. Inr \<lparr>pbl_CustomerId = i\<rparr>) open_stream s0
        = (None, map m05_toProtoEvent (case map_of (m05_events (gs_st s0)) i of None \<Rightarrow> [] | Some es \<Rightarrow> es))"
proof -
  obtain f where "\<And>srv ctx req ic s. h srv ctx (\<lambda>_. Inr req) (Some ic) s
      = ic (f srv) (ctx\<lparr>gx_method := full_method nm\<rparr>) req s"
    using method_handlers [OF assms(2)] by blast
  with assms(3) have chain: "m05_chain g token (f srv) (ctx\<lparr>gx_method := full_method nm\<rparr>) req s = (out, s')" by simp
  obtain res s2 where r: "f srv (ctx\<lparr>gx_method := full_method nm\<rparr>) req s = (res, s2)" by fastforce
  have "gs_log s' \<noteq> [] \<and> (''method'', full_method nm) \<in> set (snd (last (gs_log s')))"
    using chain r by (auto simp: m05_chain_eq glog_def Let_def split: if_splits sum.splits)
  moreover have "h' (m05_NewServer g now) (\<lambda>_. Inr \<lparr>pbl_CustomerId = i\<rparr>) open_stream s0
      = (None, map m05_toProtoEvent (case map_of (m05_events (gs_st s0)) i of None \<Rightarrow> [] | Some es \<Rightarrow> es))"
    using assms(4,5)
    by (simp add: ProfileService_ServiceDesc_def ListEvents_Handler_def m05_NewServer_def m05_ListEvents_def
        ListEventsRequest_GetCustomerId_def m05_Events_def open_stream_def m05_stream_open)
  ultimately show ?thesis
    using m05_chain_guards [OF assms(1) chain] by auto
qed

section \<open>From the stub to the repository and back\<close>

text \<open>A connection to the service: \<open>Invoke\<close> runs the handler the table has for the method, with the
  caller's metadata; the error a client gets has the code of the server's.\<close>

definition conn_reply ::
  "('x, 'k) grpc \<Rightarrow> (panic + ('x, pb_Profile) go_result) \<times> 'w \<Rightarrow> ('x go_error option \<times> pb_Profile) \<times> 'w \<Rightarrow> bool" where
  "conn_reply g served got \<longleftrightarrow>
     (case served of
        (Inr (Inr p), w') \<Rightarrow> got = ((None, p), w')
      | (Inr (Inl e), w') \<Rightarrow> (\<exists>e' out'. gs_Code g (Some e') = gs_Code g (Some e) \<and> got = ((Some e', out'), w'))
      | (Inl p, w') \<Rightarrow> True)"

definition conn_serves ::
  "('x, 'k) grpc \<Rightarrow> ('x, 's) interceptor \<Rightarrow> grpc_ctx \<Rightarrow> ('x, 's) profile_server \<Rightarrow> ('x, 't, 's gsrv) grpc_conn \<Rightarrow> bool"
where
  "conn_serves g ic ctx srv cc \<longleftrightarrow> (\<forall>(nm, h) \<in> set (sd_Methods ProfileService_ServiceDesc). \<forall>req out w.
     conn_reply g (h srv ctx (\<lambda>_. Inr req) (Some ic) w) (cc_Invoke cc (full_method nm) req out w))"

lemma conn_servesD:
  assumes "conn_serves g ic ctx srv cc"
  shows "conn_reply g (GetProfile_Handler srv ctx (\<lambda>_. Inr req) (Some ic) w) (cc_Invoke cc GetProfile_FullMethodName req out w)"
    and "conn_reply g (UpsertProfile_Handler srv ctx (\<lambda>_. Inr req) (Some ic) w) (cc_Invoke cc UpsertProfile_FullMethodName req out w)"
  using assms by (simp_all add: conn_serves_def ProfileService_ServiceDesc_def full_methods)

lemma conn_client_GetProfile:
  assumes "conn_serves g (m05_chain g token) ctx (m05_NewServer g now) cc"
    and "m05_serve_Get g token (ctx\<lparr>gx_method := GetProfile_FullMethodName\<rparr>) j w = (Inr res, w')"
  shows "\<exists>res'. client_GetProfile cc \<lparr>pbg_CustomerId = j\<rparr> w = (res', w')
    \<and> (res' = res \<or> (\<exists>e e'. res = Inl e \<and> res' = Inl e' \<and> gs_Code g (Some e') = gs_Code g (Some e)))"
  using conn_servesD(1) [OF assms(1), of "AnyGet \<lparr>pbg_CustomerId = j\<rparr>" w new_Profile] assms(2)
  by (cases res) (auto simp: GetProfile_served client_GetProfile_def conn_reply_def)

lemma conn_client_UpsertProfile:
  assumes "conn_serves g (m05_chain g token) ctx (m05_NewServer g now) cc"
    and "m05_serve_Upsert g token now (ctx\<lparr>gx_method := UpsertProfile_FullMethodName\<rparr>) (i, traits) w = (Inr (Inr p), w')"
  shows "client_UpsertProfile cc \<lparr>pbu_CustomerId = i, pbu_Traits = traits\<rparr> w = (Inr p, w')"
  using conn_servesD(2) [OF assms(1), of "AnyUpsert \<lparr>pbu_CustomerId = i, pbu_Traits = traits\<rparr>" w new_Profile] assms(2)
  by (simp add: UpsertProfile_served client_UpsertProfile_def conn_reply_def)

text \<open>C31 (roundtrip). Through the generated client, a connection to the registered service, the
  interceptors and the server, and back through the domain client: what an authorized upsert
  stored is what \<open>GetProfile\<close> returns, the time cut to the second; a customer never stored is the
  domain's \<open>ErrNotFound\<close>, which crosses the wire as a status code.\<close>

theorem m05_stub_roundtrip:
  assumes "grpc_ok g" and "conn_serves g (m05_chain g token) ctx (m05_NewServer g now) cc"
    and "m05_authorized token ctx" and "i \<noteq> []"
    and "client_UpsertProfile cc \<lparr>pbu_CustomerId = i, pbu_Traits = traits\<rparr> w = (res, w')"
    and "raw = (\<lambda>j. fst (client_GetProfile cc \<lparr>pbg_CustomerId = j\<rparr> w'))"
  shows "res = Inr (m05_toProto \<lparr>pf_CustomerID = i, pf_Traits = traits, pf_UpdatedAt = now\<rparr>)
    \<and> m05_Client_GetProfile g raw i = Inr \<lparr>pf_CustomerID = i, pf_Traits = traits,
         pf_UpdatedAt = unix_seconds now * second\<rparr>
    \<and> (j \<noteq> [] \<and> j \<noteq> i \<and> map_of (m05_profiles (gs_st w)) j = None
        \<longrightarrow> m05_Client_GetProfile g raw j = Inl m05_ErrNotFound)"
proof -
  let ?ctx = "\<lambda>m. ctx\<lparr>gx_method := m\<rparr>" and ?p = "\<lparr>pf_CustomerID = i, pf_Traits = traits, pf_UpdatedAt = now\<rparr>"
  have auth: "m05_authorized token (?ctx m)" for m using assms(3) by simp
  obtain s1 where up: "m05_serve_Upsert g token now (?ctx UpsertProfile_FullMethodName) (i, traits) w
      = (Inr (Inr (m05_toProto ?p)), s1)"
    using assms(3,4) by (simp add: m05_serve_Upsert_def m05_chain_eq m05_UpsertProfile_def m05_Upsert_def Let_def)
  with conn_client_UpsertProfile [OF assms(2)] assms(5)
  have res: "res = Inr (m05_toProto ?p)" "w' = s1" by auto
  have total: "\<exists>r. fst (m05_serve_Get g token (?ctx GetProfile_FullMethodName) j s1) = Inr r" for j
    by (simp add: m05_serve_Get_def m05_chain_eq Let_def case_prod_beta split: sum.splits)
  define served where "served j = projr (fst (m05_serve_Get g token (?ctx GetProfile_FullMethodName) j s1))" for j
  have all: "\<forall>j. fst (m05_serve_Get g token (?ctx GetProfile_FullMethodName) j s1) = Inr (served j)"
    unfolding served_def using total by (metis sum.sel(2))
  have same: "raw j = served j \<or> (\<exists>e e'. served j = Inl e \<and> raw j = Inl e' \<and> gs_Code g (Some e') = gs_Code g (Some e))" for j
    using conn_client_GetProfile [OF assms(2), of j s1 "served j"] all
    unfolding assms(6) res(2) by (metis fst_conv prod.collapse)
  note direct = m05_upsert_get [OF assms(1,4) auth auth up all]
  have "m05_Client_GetProfile g raw i = m05_Client_GetProfile g served i"
    using same [of i] conjunct1 [OF direct] by (auto simp: m05_Client_GetProfile_def split: if_splits)
  moreover have "m05_Client_GetProfile g raw j = Inl m05_ErrNotFound"
    if "m05_Client_GetProfile g served j = Inl m05_ErrNotFound"
    using same [of j] that by (auto simp: m05_Client_GetProfile_def m05_ErrNotFound_def split: if_splits sum.splits)
  ultimately show ?thesis using direct res(1) by metis
qed

section \<open>A service in one process\<close>

definition demo_event :: m05_Event where
  "demo_event = \<lparr>pe_ID = ''e1'', pe_CustomerID = ''cus_1'', pe_Type = ''page_view'', pe_OccurredAt = 0\<rparr>"

definition demo_state :: "m05_InMemoryRepo gsrv" where
  "demo_state = \<lparr>gs_log = [], gs_st = m05_AddEvent ''cus_1'' demo_event m05_NewInMemoryRepo\<rparr>"

text \<open>Without a token: \<open>GetProfile\<close> is refused, \<open>ListEvents\<close> sends the customer's event.\<close>

theorem m05_service_guards_witness:
  "(\<exists>e s'. GetProfile_Handler (m05_NewServer demo_grpc 0) \<lparr>gx_md = [], gx_method = []\<rparr>
       (\<lambda>_. Inr (AnyGet \<lparr>pbg_CustomerId = ''cus_1''\<rparr>)) (Some (m05_chain demo_grpc ''t'')) demo_state = (Inr (Inl e), s')
       \<and> gs_Code demo_grpc (Some e) = c_Unauthenticated demo_grpc)
   \<and> ListEvents_Handler (m05_NewServer demo_grpc 0) (\<lambda>_. Inr \<lparr>pbl_CustomerId = ''cus_1''\<rparr>) open_stream demo_state
       = (None, [m05_toProtoEvent demo_event])"
proof -
  have tables: "(''GetProfile'', GetProfile_Handler) \<in> set (sd_Methods ProfileService_ServiceDesc)"
    "(''ListEvents'', ListEvents_Handler) \<in> set (sd_Streams ProfileService_ServiceDesc)"
    by (simp_all add: ProfileService_ServiceDesc_def)
  obtain out s' where r: "GetProfile_Handler (m05_NewServer demo_grpc 0) \<lparr>gx_md = [], gx_method = []\<rparr>
       (\<lambda>_. Inr (AnyGet \<lparr>pbg_CustomerId = ''cus_1''\<rparr>)) (Some (m05_chain demo_grpc ''t'')) demo_state = (out, s')"
    by (rule prod.exhaust)
  have "\<not> m05_authorized ''t'' \<lparr>gx_md = [], gx_method = []\<rparr>" by (simp add: m05_authorized_def md_get_def)
  with m05_service_guards [OF demo_grpc_ok tables(1) r tables(2), of "''cus_1''" 0 demo_state] r show ?thesis
    by (auto simp: demo_state_def m05_AddEvent_def m05_NewInMemoryRepo_def)
qed

text \<open>A connection that runs the handlers in the process.\<close>

definition demo_reply :: "(panic + (nat, pb_Profile) go_result) \<times> 'w \<Rightarrow> pb_Profile \<Rightarrow> (nat go_error option \<times> pb_Profile) \<times> 'w" where
  "demo_reply served out = (case served of
     (Inr (Inr p), w) \<Rightarrow> ((None, p), w)
   | (Inr (Inl e), w) \<Rightarrow> ((Some e, out), w)
   | (Inl p, w) \<Rightarrow> ((Some (ErrOther 13 p), out), w))"

definition demo_conn :: "int \<Rightarrow> (nat, unit, m05_InMemoryRepo gsrv) grpc_conn" where
  "demo_conn now = \<lparr>cc_Invoke = (\<lambda>m req out w.
       let srv = m05_NewServer demo_grpc now; ic = Some (m05_chain demo_grpc ''t'')
       in if m = GetProfile_FullMethodName then demo_reply (GetProfile_Handler srv demo_ctx (\<lambda>_. Inr req) ic w) out
          else demo_reply (UpsertProfile_Handler srv demo_ctx (\<lambda>_. Inr req) ic w) out),
     cc_NewStream = (\<lambda>m w. (Inr (), w)), cc_SendMsg = (\<lambda>t req w. (None, w)), cc_CloseSend = (\<lambda>t w. (None, w))\<rparr>"

lemma demo_replies: "conn_reply demo_grpc served (demo_reply served out)"
  by (auto simp: conn_reply_def demo_reply_def split: prod.splits sum.splits)

lemma demo_conn_serves:
  "conn_serves demo_grpc (m05_chain demo_grpc ''t'') demo_ctx (m05_NewServer demo_grpc now) (demo_conn now)"
  by (simp add: conn_serves_def ProfileService_ServiceDesc_def full_methods demo_conn_def demo_replies
      UpsertProfile_FullMethodName_def GetProfile_FullMethodName_def)

theorem m05_stub_roundtrip_witness:
  "\<exists>w'. fst (client_UpsertProfile (demo_conn (second + 5)) \<lparr>pbu_CustomerId = ''cus_1'', pbu_Traits = [(''tier'', ''gold'')]\<rparr>
        demo_state) = Inr \<lparr>pb_CustomerId = ''cus_1'', pb_Traits = [(''tier'', ''gold'')], pb_UpdatedAtUnix = 1\<rparr>
    \<and> m05_Client_GetProfile demo_grpc (\<lambda>j. fst (client_GetProfile (demo_conn (second + 5)) \<lparr>pbg_CustomerId = j\<rparr> w')) ''cus_1''
        = Inr \<lparr>pf_CustomerID = ''cus_1'', pf_Traits = [(''tier'', ''gold'')], pf_UpdatedAt = 1 * second\<rparr>
    \<and> m05_Client_GetProfile demo_grpc (\<lambda>j. fst (client_GetProfile (demo_conn (second + 5)) \<lparr>pbg_CustomerId = j\<rparr> w')) ''cus_2''
        = Inl m05_ErrNotFound"
proof -
  obtain res w' where r: "client_UpsertProfile (demo_conn (second + 5))
      \<lparr>pbu_CustomerId = ''cus_1'', pbu_Traits = [(''tier'', ''gold'')]\<rparr> demo_state = (res, w')"
    by (rule prod.exhaust)
  have auth: "m05_authorized ''t'' demo_ctx" by (simp add: m05_authorized_def demo_ctx_def md_get_def)
  from m05_stub_roundtrip [OF demo_grpc_ok demo_conn_serves auth _ r refl, of "''cus_2''"] r show ?thesis
    by (intro exI [of _ w']) (simp add: m05_toProto_def unix_seconds_def second_def demo_state_def m05_AddEvent_def
        m05_NewInMemoryRepo_def)
qed

end
