(* ===== verification/M05_Cmd.thy ===== *)
theory M05_Cmd
  imports M05_Service
begin

text \<open>
  The command of \<open>m05-grpc\<close>. The text of \<open>cmd/server\<close> and \<open>solution-cmd/server\<close> is the same but for the
  packages \<open>interceptor\<close> and \<open>profile\<close> it imports, which are an argument of the model; the generated
  package is the one of \<open>M05_Service\<close>. \<open>listen\<close> is the result of \<open>net.Listen\<close>, \<open>serve\<close> what \<open>Serve\<close>
  returns for a listener and the server it is called on.
\<close>

section \<open>The command, for any packages\<close>

record ('x, 'r) m05_packages =
  p5_AuthUnary :: "string \<Rightarrow> ('x, 'r) interceptor"
  p5_LogUnary :: "('x, 'r) interceptor"
  p5_RecoverUnary :: "('x, 'r) interceptor"
  p5_NewServer :: "('x, 'r) profile_server"
  p5_NewInMemoryRepo :: 'r

text \<open>A server with a service registered: the chained interceptor, the implementation, its state.\<close>

record ('x, 'r) grpc_server =
  sv_chain :: "('x, 'r) interceptor"
  sv_impl :: "('x, 'r) profile_server"
  sv_start :: "'r gsrv"

definition l05_token :: "(string \<Rightarrow> string) \<Rightarrow> string" where
  "l05_token getenv = (let token = getenv ''GRPC_TOKEN'' in if token = [] then ''dev-token'' else token)"

definition l05_chain :: "('x, 'r) m05_packages \<Rightarrow> string \<Rightarrow> ('x, 'r) interceptor" where
  "l05_chain p token h = p5_RecoverUnary p (p5_LogUnary p (p5_AuthUnary p token h))"

definition l05_server :: "('x, 'r) m05_packages \<Rightarrow> string \<Rightarrow> ('x, 'r) grpc_server" where
  "l05_server p token =
     \<lparr>sv_chain = l05_chain p token, sv_impl = p5_NewServer p, sv_start = \<lparr>gs_log = [], gs_st = p5_NewInMemoryRepo p\<rparr>\<rparr>"

text \<open>The lines logged and the exit status.\<close>

definition l05_main ::
  "('x, 'r) m05_packages \<Rightarrow> (string \<Rightarrow> string) \<Rightarrow> ('x, 'l) go_result \<Rightarrow> (('x, 'r) grpc_server \<Rightarrow> 'l \<Rightarrow> 'x go_error option)
     \<Rightarrow> log_line list \<times> int" where
  "l05_main p getenv listen serve =
     (let token = l05_token getenv
      in case listen of
           Inl err \<Rightarrow> ([(''listen failed'', [(''err'', err_msg err)])], 1)
         | Inr lis \<Rightarrow>
             (let srv = l05_server p token;
                  log = [(''profile-svc listening'', [(''addr'', '':9090'')])]
              in case serve srv lis of
                   Some err \<Rightarrow> (log @ [(''serve failed'', [(''err'', err_msg err)])], 1)
                 | None \<Rightarrow> (log, 0)))"

text \<open>What such a server does with a call of a unary method of the service: the handler of the table, with
  the chain.\<close>

definition unary_call where
  "unary_call srv nm ctx req s =
     map_option (\<lambda>h. h (sv_impl srv) ctx (\<lambda>_. Inr req) (Some (sv_chain srv)) s)
       (map_of (sd_Methods ProfileService_ServiceDesc) nm)"

lemma glog_inject [simp]: "glog l s = glog l' s \<longleftrightarrow> l = l'"
  by (auto simp: glog_def dest!: arg_cong [where f = gs_log])

section \<open>What the exercise asks of the interceptors\<close>

text \<open>
  \<open>AuthUnary\<close> lets exactly the bearers of the token through; \<open>LogUnary\<close> returns what the handler returned
  and logs one line with the method and the code; \<open>RecoverUnary\<close> turns a panic into Internal.
\<close>

locale m05_exercise =
  fixes g :: "('x, 'k) grpc" and p :: "('x, 'r) m05_packages"
  assumes auth_in: "m05_authorized token ctx \<Longrightarrow> p5_AuthUnary p token h ctx req s = h ctx req s"
    and auth_out: "\<not> m05_authorized token ctx
      \<Longrightarrow> \<exists>e. p5_AuthUnary p token h ctx req s = (Inr (Inl e), s) \<and> gs_Code g (Some e) = c_Unauthenticated g"
    and log_returns: "h ctx req s = (Inr r, s')
      \<Longrightarrow> \<exists>line. p5_LogUnary p h ctx req s = (Inr r, glog line s')
            \<and> {(''method'', gx_method ctx), (''code'', gs_String g (gs_Code g (res_err r)))} \<subseteq> set (snd line)"
    and log_panics: "h ctx req s = (Inl pn, s') \<Longrightarrow> p5_LogUnary p h ctx req s = (Inl pn, s')"
    and recover_returns: "h ctx req s = (Inr r, s') \<Longrightarrow> p5_RecoverUnary p h ctx req s = (Inr r, s')"
    and recover_panics: "h ctx req s = (Inl pn, s')
      \<Longrightarrow> \<exists>e line. p5_RecoverUnary p h ctx req s = (Inr (Inl e), glog line s')
            \<and> gs_Code g (Some e) = c_Internal g \<and> (''method'', gx_method ctx) \<in> set (snd line)"
begin

text \<open>The chain, around any handler.\<close>

lemma chain_out:
  assumes "\<not> m05_authorized token ctx"
  shows "\<exists>e line. l05_chain p token h ctx req s = (Inr (Inl e), glog line s)
    \<and> gs_Code g (Some e) = c_Unauthenticated g \<and> (''method'', gx_method ctx) \<in> set (snd line)"
proof -
  obtain e where e: "p5_AuthUnary p token h ctx req s = (Inr (Inl e), s)" "gs_Code g (Some e) = c_Unauthenticated g"
    using auth_out [OF assms] by blast
  from log_returns [where h = "p5_AuthUnary p token h", OF e(1)] obtain line where
    l: "p5_LogUnary p (p5_AuthUnary p token h) ctx req s = (Inr (Inl e), glog line s)"
      "(''method'', gx_method ctx) \<in> set (snd line)" by auto
  from recover_returns [where h = "p5_LogUnary p (p5_AuthUnary p token h)", OF l(1)] e(2) l(2)
  show ?thesis unfolding l05_chain_def by blast
qed

lemma chain_in:
  assumes "m05_authorized token ctx" and "h ctx req s = (out, s')"
  shows "\<exists>r line. l05_chain p token h ctx req s = (Inr r, glog line s') \<and> (''method'', gx_method ctx) \<in> set (snd line)
    \<and> (case out of Inr r' \<Rightarrow> r = r' | Inl pn \<Rightarrow> \<exists>e. r = Inl e \<and> gs_Code g (Some e) = c_Internal g)"
proof -
  let ?a = "p5_AuthUnary p token h"
  have a: "?a ctx req s = (out, s')" using auth_in [OF assms(1)] assms(2) by simp
  show ?thesis
  proof (cases out)
    case (Inl pn)
    from log_panics [where h = ?a, OF a [unfolded Inl]]
    have "p5_LogUnary p ?a ctx req s = (Inl pn, s')" .
    from recover_panics [where h = "p5_LogUnary p ?a", OF this] Inl show ?thesis unfolding l05_chain_def by auto
  next
    case (Inr r)
    from log_returns [where h = ?a, OF a [unfolded Inr]] obtain line where
      l: "p5_LogUnary p ?a ctx req s = (Inr r, glog line s')" "(''method'', gx_method ctx) \<in> set (snd line)" by auto
    from recover_returns [where h = "p5_LogUnary p ?a", OF l(1)] l(2) Inr show ?thesis unfolding l05_chain_def by auto
  qed
qed

lemma calls_guarded:
  assumes "unary_call (l05_server p token) nm ctx req s = Some (out, s')"
  shows "(\<not> m05_authorized token ctx \<longrightarrow> gs_st s' = gs_st s
            \<and> (\<exists>e. out = Inr (Inl e) \<and> gs_Code g (Some e) = c_Unauthenticated g))
    \<and> (\<exists>r line. out = Inr r \<and> gs_log s' \<noteq> [] \<and> line = last (gs_log s') \<and> (''method'', full_method nm) \<in> set (snd line))"
proof -
  obtain h where h: "map_of (sd_Methods ProfileService_ServiceDesc :: (string \<times> ('x, 'r) method_handler) list) nm = Some h"
    using assms by (cases "map_of (sd_Methods ProfileService_ServiceDesc :: (string \<times> ('x, 'r) method_handler) list) nm")
      (simp_all add: unary_call_def)
  obtain f where f: "\<And>srv ctx req ic s. h srv ctx (\<lambda>_. Inr req) (Some ic) s
      = ic (f srv) (ctx\<lparr>gx_method := full_method nm\<rparr>) req s"
    using method_handlers [OF map_of_SomeD [OF h]] by blast
  let ?ctx = "ctx\<lparr>gx_method := full_method nm\<rparr>" and ?f = "f (p5_NewServer p)"
  have call: "l05_chain p token ?f ?ctx req s = (out, s')"
    using assms by (simp add: unary_call_def h f l05_server_def)
  show ?thesis
  proof (cases "m05_authorized token ?ctx")
    case True
    obtain o2 s2 where "?f ?ctx req s = (o2, s2)" by (cases "?f ?ctx req s")
    from chain_in [where h = ?f, OF True this] call True show ?thesis by (auto simp: glog_def)
  next
    case False
    from chain_out [where h = ?f, OF False, of req s] call show ?thesis by (auto simp: glog_def)
  qed
qed

end

text \<open>Remark (safety). Whatever the packages, if the interceptors keep the contract, then a call of any unary
  method of the service, with any implementation of it and any request, is refused with
  Unauthenticated and without effect unless the caller bears the token of the environment; none
  panics, and each leaves a line with its full method name.\<close>

theorem l05_calls_guarded:
  assumes "m05_exercise g p" and "unary_call (l05_server p (l05_token getenv)) nm ctx req s = Some (out, s')"
  shows "(\<not> m05_authorized (l05_token getenv) ctx \<longrightarrow> gs_st s' = gs_st s
            \<and> (\<exists>e. out = Inr (Inl e) \<and> gs_Code g (Some e) = c_Unauthenticated g))
    \<and> (\<exists>r line. out = Inr r \<and> gs_log s' \<noteq> [] \<and> line = last (gs_log s') \<and> (''method'', full_method nm) \<in> set (snd line))"
  using assms by (rule m05_exercise.calls_guarded)

section \<open>The packages of the reference\<close>

definition m05_solution :: "('x, 'k) grpc \<Rightarrow> int \<Rightarrow> ('x, m05_InMemoryRepo) m05_packages" where
  "m05_solution g now = \<lparr>p5_AuthUnary = m05_AuthUnary g, p5_LogUnary = m05_LogUnary g,
     p5_RecoverUnary = m05_RecoverUnary g, p5_NewServer = m05_NewServer g now, p5_NewInMemoryRepo = m05_NewInMemoryRepo\<rparr>"

definition m05_main where
  "m05_main g now = l05_main (m05_solution g now)"

lemma m05_chain_reference: "l05_chain (m05_solution g now) token = m05_chain g token"
  by (simp add: l05_chain_def m05_chain_def m05_solution_def fun_eq_iff)

locale grpc_up =
  fixes g :: "('x, 'k) grpc"
  assumes codes: "grpc_ok g"

sublocale grpc_up \<subseteq> reference: m05_exercise g "m05_solution g now" for now
  by unfold_locales
    (use codes in \<open>auto simp: m05_solution_def m05_AuthUnary_eq m05_LogUnary_def m05_RecoverUnary_def grpc_ok_def Let_def\<close>)

interpretation demo_grpc: grpc_up demo_grpc
  by unfold_locales (rule demo_grpc_ok)

text \<open>Started without a token in the environment, the server lets in exactly the bearers of \<open>dev-token\<close>; a
  port that is taken ends it with status 1.\<close>

lemma l05_default_token: "l05_token (\<lambda>_. []) = ''dev-token''"
  by (simp add: l05_token_def)

lemma l05_listen_failed:
  "l05_main p getenv (Inl err) serve = ([(''listen failed'', [(''err'', err_msg err)])], 1)"
  by (simp add: l05_main_def Let_def)

theorem l05_calls_guarded_witness:
  "\<exists>e s'. unary_call (l05_server (m05_solution demo_grpc 0) (l05_token (\<lambda>_. []))) ''GetProfile''
       \<lparr>gx_md = [], gx_method = []\<rparr> (AnyGet \<lparr>pbg_CustomerId = ''cus_1''\<rparr>) demo_state = Some (Inr (Inl e), s')
     \<and> gs_Code demo_grpc (Some e) = c_Unauthenticated demo_grpc"
proof -
  obtain out s' where r: "unary_call (l05_server (m05_solution demo_grpc 0) (l05_token (\<lambda>_. []))) ''GetProfile''
       \<lparr>gx_md = [], gx_method = []\<rparr> (AnyGet \<lparr>pbg_CustomerId = ''cus_1''\<rparr>) demo_state = Some (out, s')"
    using prod.collapse by (fastforce simp: unary_call_def ProfileService_ServiceDesc_def)
  have "\<not> m05_authorized (l05_token (\<lambda>_. [])) \<lparr>gx_md = [], gx_method = []\<rparr>"
    by (simp add: m05_authorized_def md_get_def)
  with l05_calls_guarded [OF demo_grpc.reference.m05_exercise_axioms r] r show ?thesis by auto
qed

end
