(* ===== verification/Event_Consumer.thy ===== *)
theory Event_Consumer
  imports Go_Errors Go_Maps Go_Ints
begin

text \<open>
  The contracts of an event consumer over an at-least-once queue (modules M9 and M14): the
  store of the identifiers already handled, and a handler that answers each delivery with an
  acknowledgement, a negative one or a termination. Which messages are delivered, how often, in
  which order and with which delivery number is left open: a trace is any list of deliveries.
\<close>

datatype verdict = Ack | Nak | Term

text \<open>A delivery: the payload, and its delivery number when the metadata can be read.\<close>

record 'd jmsg =
  jm_data :: 'd
  jm_delivered :: "nat option"

text \<open>
  What the sources configure a stream and a durable consumer with, and the publish call: its
  subject, payload and message ID, and the server's state.
\<close>

datatype retention = LimitsPolicy | InterestPolicy | WorkQueuePolicy

datatype ack_policy = AckExplicitPolicy | AckAllPolicy | AckNonePolicy

record stream_config =
  sc_Name :: string
  sc_Subjects :: "string list"
  sc_Retention :: retention
  sc_MaxAge :: int

record consumer_config =
  cc_Durable :: string
  cc_AckPolicy :: ack_policy
  cc_MaxDeliver :: int
  cc_AckWait :: int
  cc_FilterSubject :: string

type_synonym ('x, 'd, 'j) publish_op =
  "string \<Rightarrow> 'd \<Rightarrow> string option \<Rightarrow> 'j \<Rightarrow> 'x go_error option \<times> 'j"

text \<open>
  What the model relies on of JetStream, for a reading \<open>msgs j\<close> of the messages a stream has been given, in
  their order: a publish adds its message or nothing. A message whose publish is acknowledged is there, if its
  message ID was not there before; one with a known ID may be dropped or, once the window for duplicates has
  passed, added again. A publish that reports an error (no stream for the subject, a limit, no answer in time) may
  have been stored or not.
\<close>

definition msg_ids :: "(string \<times> 'd \<times> string option) list \<Rightarrow> string option set" where
  "msg_ids ms = (snd \<circ> snd) ` set ms"

definition jetstream_log ::
  "('x, 'd, 'j) publish_op \<Rightarrow> ('j \<Rightarrow> (string \<times> 'd \<times> string option) list) \<Rightarrow> bool" where
  "jetstream_log pub msgs \<longleftrightarrow>
     (\<forall>subject d i j. msgs (snd (pub subject d i j)) \<in> {msgs j, msgs j @ [(subject, d, i)]}
        \<and> (fst (pub subject d i j) = None \<and> (i = None \<or> i \<notin> msg_ids (msgs j))
             \<longrightarrow> msgs (snd (pub subject d i j)) = msgs j @ [(subject, d, i)]))"

text \<open>A server in a run in which it refuses no publish and all are within the window for duplicates.\<close>

definition jetstream_keeps ::
  "('x, 'd, 'j) publish_op \<Rightarrow> ('j \<Rightarrow> (string \<times> 'd \<times> string option) list) \<Rightarrow> bool" where
  "jetstream_keeps pub msgs \<longleftrightarrow>
     (\<forall>subject d i j. fst (pub subject d i j) = None
        \<and> msgs (snd (pub subject d i j)) =
            (if i \<noteq> None \<and> i \<in> (snd \<circ> snd) ` set (msgs j) then msgs j else msgs j @ [(subject, d, i)]))"

lemma jetstream_keeps_log: "jetstream_keeps pub msgs \<Longrightarrow> jetstream_log pub msgs"
  by (auto simp: jetstream_keeps_def jetstream_log_def msg_ids_def)

text \<open>\<open>md != nil && int(md.NumDelivered) > n\<close>, and the same with \<open>>=\<close>; the number is a \<open>uint64\<close>.\<close>

definition delivered_over :: "int \<Rightarrow> 'd jmsg \<Rightarrow> bool" where
  "delivered_over n msg = (case jm_delivered msg of None \<Rightarrow> False | Some k \<Rightarrow> wrap64 (int k) > n)"

definition last_attempt :: "int \<Rightarrow> 'd jmsg \<Rightarrow> bool" where
  "last_attempt n msg = (case jm_delivered msg of None \<Rightarrow> False | Some k \<Rightarrow> wrap64 (int k) \<ge> n)"

section \<open>The store of handled identifiers\<close>

locale dedup_store =
  fixes seen :: "'k \<Rightarrow> 'q \<Rightarrow> bool" and mark :: "'k \<Rightarrow> 'q \<Rightarrow> 'q" and new_store :: 'q
  assumes seen_new: "\<not> seen i new_store"
    and seen_mark: "seen i (mark j q) \<longleftrightarrow> i = j \<or> seen i q"
begin

lemma seen_mark_all: "seen i (fold mark is q) \<longleftrightarrow> i \<in> set is \<or> seen i q"
  by (induction "is" arbitrary: q) (auto simp: seen_mark)

end

text \<open>A trace of deliveries, each to one of the consumers: the verdicts and the last state.\<close>

fun deliver ::
  "('c \<Rightarrow> 'd jmsg \<Rightarrow> 's \<Rightarrow> verdict \<times> 's) \<Rightarrow> ('c \<times> 'd jmsg) list \<Rightarrow> 's \<Rightarrow> verdict list \<times> 's" where
  "deliver handle [] s = ([], s)"
| "deliver handle ((c, m) # ms) s =
     (let (v, s) = handle c m s; (vs, s) = deliver handle ms s in (v # vs, s))"

lemma deliver_append:
  "deliver handle (ms @ ns) s =
     (let (vs, s) = deliver handle ms s; (us, s) = deliver handle ns s in (vs @ us, s))"
  by (induction ms arbitrary: s) (auto simp: Let_def case_prod_beta)

section \<open>The handler\<close>

text \<open>
  \<open>handle c\<close> is the handler of the consumer \<open>c\<close>; all consumers share the state, as the replay of
  the demo shares the store. \<open>handled\<close> is the set of identifiers in the store, \<open>sent\<close> the
  identifiers successfully sent so far, \<open>dead\<close> the payloads handed to the dead-letter subject.
\<close>

locale idempotent_consumer =
  fixes handle :: "'c \<Rightarrow> 'd jmsg \<Rightarrow> 's \<Rightarrow> verdict \<times> 's"
    and event_id :: "'d \<Rightarrow> 'k option"
    and handled :: "'s \<Rightarrow> 'k set"
    and sent :: "'s \<Rightarrow> 'k list"
    and dead :: "'s \<Rightarrow> 'd list"
    and maxDeliver :: int
  assumes step_sent: "handle c m s = (v, s') \<Longrightarrow>
      (sent s' = sent s \<and> handled s' = handled s)
      \<or> (\<exists>i. event_id (jm_data m) = Some i \<and> i \<notin> handled s \<and> v = Ack
             \<and> sent s' = sent s @ [i] \<and> handled s' = insert i (handled s))"
    and step_dead: "handle c m s = (v, s') \<Longrightarrow>
      dead s' = dead s \<or> (v = Term \<and> dead s' = dead s @ [jm_data m])"
    and step_ack: "handle c m s = (Ack, s') \<Longrightarrow> \<exists>i. event_id (jm_data m) = Some i \<and> i \<in> handled s'"
    and step_term: "handle c m s = (Term, s') \<Longrightarrow> event_id (jm_data m) = None \<or> jm_data m \<in> set (dead s')"
    and step_nak: "handle c m s = (Nak, s') \<Longrightarrow> \<not> last_attempt maxDeliver m"
begin

lemma handle_keeps:
  assumes "handle c m s = (v, s')"
  shows "handled s \<subseteq> handled s'" and "set (dead s) \<subseteq> set (dead s')" and "set (sent s) \<subseteq> set (sent s')"
  using step_sent [OF assms] step_dead [OF assms] by auto

lemma deliver_keeps:
  "deliver handle ms s = (vs, s') \<Longrightarrow> handled s \<subseteq> handled s' \<and> set (dead s) \<subseteq> set (dead s') \<and> set (sent s) \<subseteq> set (sent s')"
proof (induction ms arbitrary: s vs)
  case (Cons p ms)
  obtain c m where p: "p = (c, m)" by (cases p)
  obtain v s1 where h: "handle c m s = (v, s1)" by (cases "handle c m s")
  obtain vs' where r: "deliver handle ms s1 = (vs', s')" using Cons.prems p h by (auto simp: Let_def split: prod.splits)
  from Cons.IH [OF r] handle_keeps [OF h] show ?case by blast
qed simp

text \<open>Whatever is delivered, no identifier is sent twice.\<close>

lemma sent_once:
  "deliver handle ms s = (vs, s') \<Longrightarrow> distinct (sent s) \<Longrightarrow> set (sent s) = handled s
     \<Longrightarrow> distinct (sent s') \<and> set (sent s') = handled s'"
proof (induction ms arbitrary: s vs)
  case (Cons p ms)
  obtain c m where p: "p = (c, m)" by (cases p)
  obtain v s1 where h: "handle c m s = (v, s1)" by (cases "handle c m s")
  obtain vs' where r: "deliver handle ms s1 = (vs', s')" using Cons.prems p h by (auto simp: Let_def split: prod.splits)
  from step_sent [OF h] Cons.prems have "distinct (sent s1) \<and> set (sent s1) = handled s1" by auto
  with Cons.IH [OF r] show ?case by blast
qed simp

text \<open>A delivery that is settled, as the last attempt always is, leaves its event handled or dead.\<close>

lemma settled:
  assumes "handle c m s = (v, s')" and "v \<noteq> Nak \<or> last_attempt maxDeliver m"
  shows "event_id (jm_data m) = None \<or> jm_data m \<in> set (dead s')
    \<or> (\<exists>i. event_id (jm_data m) = Some i \<and> i \<in> handled s')"
  using assms step_ack [of c m s s'] step_term [of c m s s'] step_nak [of c m s s'] by (cases v) auto

lemma never_lost:
  "deliver handle ms s = (vs, s') \<Longrightarrow> k < length ms \<Longrightarrow> vs ! k \<noteq> Nak \<or> last_attempt maxDeliver (snd (ms ! k))
     \<Longrightarrow> event_id (jm_data (snd (ms ! k))) = Some i
     \<Longrightarrow> i \<in> handled s' \<or> jm_data (snd (ms ! k)) \<in> set (dead s')"
proof (induction ms arbitrary: s vs k)
  case (Cons p ms)
  obtain c m where p: "p = (c, m)" by (cases p)
  obtain v s1 where h: "handle c m s = (v, s1)" by (cases "handle c m s")
  obtain vs' where r: "deliver handle ms s1 = (vs', s')" "vs = v # vs'"
    using Cons.prems p h by (auto simp: Let_def split: prod.splits)
  show ?case
  proof (cases k)
    case 0
    with Cons.prems p r settled [OF h] deliver_keeps [OF r(1)] show ?thesis by auto
  next
    case (Suc j)
    with Cons.prems r Cons.IH [OF r(1), of j] show ?thesis by simp
  qed
qed simp

text \<open>What was acknowledged has been handled.\<close>

lemma acked:
  "deliver handle ms s = (vs, s') \<Longrightarrow> k < length ms \<Longrightarrow> vs ! k = Ack
     \<Longrightarrow> \<exists>i. event_id (jm_data (snd (ms ! k))) = Some i \<and> i \<in> handled s'"
proof (induction ms arbitrary: s vs k)
  case (Cons p ms)
  obtain c m where p: "p = (c, m)" by (cases p)
  obtain v s1 where h: "handle c m s = (v, s1)" by (cases "handle c m s")
  obtain vs' where r: "deliver handle ms s1 = (vs', s')" "vs = v # vs'"
    using Cons.prems p h by (auto simp: Let_def split: prod.splits)
  show ?case
  proof (cases k)
    case 0
    with Cons.prems(3) p r(2) step_ack [of c m s s1] h deliver_keeps [OF r(1)] show ?thesis by auto
  next
    case (Suc j)
    with Cons.prems r Cons.IH [OF r(1), of j] show ?thesis by simp
  qed
qed simp

text \<open>What was sent was delivered.\<close>

lemma sent_delivered:
  "deliver handle ms s = (vs, s') \<Longrightarrow> i \<in> set (sent s') \<Longrightarrow>
     i \<in> set (sent s) \<or> (\<exists>(c, m) \<in> set ms. event_id (jm_data m) = Some i)"
proof (induction ms arbitrary: s vs)
  case (Cons p ms)
  obtain c m where p: "p = (c, m)" by (cases p)
  obtain v s1 where h: "handle c m s = (v, s1)" by (cases "handle c m s")
  obtain vs' where r: "deliver handle ms s1 = (vs', s')" using Cons.prems p h by (auto simp: Let_def split: prod.splits)
  from Cons.IH [OF r Cons.prems(2)] step_sent [OF h] p show ?case by auto
qed simp

lemma length_deliver: "length (fst (deliver handle ms s)) = length ms"
  by (induction ms arbitrary: s) (auto simp: Let_def case_prod_beta)

text \<open>
  When every delivery decodes, none is answered by a negative acknowledgement and nothing is
  dead-lettered, the identifiers sent are exactly those delivered, each once.
\<close>

lemma sent_exactly:
  assumes run: "deliver handle ms s = (vs, s')"
    and start: "distinct (sent s)" "set (sent s) = handled s" "sent s = []"
    and clean: "Nak \<notin> set vs" "dead s' = []"
    and ids: "(\<lambda>(c, m). event_id (jm_data m)) ` set ms = Some ` I"
  shows "distinct (sent s') \<and> set (sent s') = I"
proof -
  from sent_once [OF run start(1,2)] have once: "distinct (sent s')" "set (sent s') = handled s'" by auto
  have "I \<subseteq> handled s'"
  proof
    fix i assume "i \<in> I"
    then obtain c m where "(c, m) \<in> set ms" "event_id (jm_data m) = Some i"
    proof -
      from \<open>i \<in> I\<close> have "Some i \<in> (\<lambda>(c, m). event_id (jm_data m)) ` set ms" unfolding ids by blast
      then obtain q where "q \<in> set ms" "Some i = (\<lambda>(c, m). event_id (jm_data m)) q" by blast
      then show thesis using that [of "fst q" "snd q"] by (simp add: case_prod_beta)
    qed
    then obtain k where k: "k < length ms" "ms ! k = (c, m)" by (auto simp: in_set_conv_nth)
    have "k < length vs" using k(1) length_deliver [of ms s] run by simp
    then have "vs ! k \<noteq> Nak" using clean(1) by (metis nth_mem)
    with never_lost [OF run k(1)] k \<open>event_id (jm_data m) = Some i\<close> clean(2) show "i \<in> handled s'" by auto
  qed
  moreover have "set (sent s') \<subseteq> I"
  proof
    fix i assume "i \<in> set (sent s')"
    with sent_delivered [OF run this] start(3) obtain c m
      where "(c, m) \<in> set ms" "event_id (jm_data m) = Some i" by auto
    then have "Some i \<in> (\<lambda>(c, m). event_id (jm_data m)) ` set ms" by force
    then show "i \<in> I" unfolding ids by auto
  qed
  ultimately show ?thesis using once by auto
qed

end

end
