(* ===== verification/M09_Stream.thy ===== *)
theory M09_Stream
  imports Event_Consumer Go_Time
begin

text \<open>
  \<open>m09-jetstream\<close>: the durable, idempotent, retrying, dead-lettering notification consumer.
  JetStream and the JSON codec are parameters: \<open>js_publish subject data msgid j\<close> publishes to the
  server's state \<open>j\<close>, \<open>marshal\<close> and \<open>unmarshal\<close> convert events and payloads. \<open>send e w\<close> is the
  consumer's send function on the outside world \<open>w\<close>. The calls of \<open>Ack\<close>, \<open>Nak\<close> and \<open>Term\<close>, whose
  errors the code ignores, are the verdict of the handler.
\<close>

section \<open>solution-events\<close>

definition m09_StreamName :: string where "m09_StreamName = ''CXM_EVENTS''"
definition m09_SubjectCustomerCreated :: string where
  "m09_SubjectCustomerCreated = ''cxm.customer.created''"
definition m09_SubjectCustomerAll :: string where "m09_SubjectCustomerAll = ''cxm.customer.>''"
definition m09_SubjectDLQ :: string where "m09_SubjectDLQ = ''cxm.customer.dlq''"

record m09_CustomerEvent =
  e9_ID :: string
  e9_Email :: string
  e9_Name :: string
  e9_OccurredAt :: int

section \<open>solution-stream: connection, stream, publishing\<close>

text \<open>\<open>Connect\<close>: the second result says whether a connection it had opened was closed again.\<close>

definition m09_Connect ::
  "(string \<Rightarrow> ('x, 'n) go_result) \<Rightarrow> ('n \<Rightarrow> ('x, 'j) go_result) \<Rightarrow> string \<Rightarrow> ('x, 'n \<times> 'j) go_result \<times> bool"
where
  "m09_Connect connect new url =
     (case connect url of
        Inl e \<Rightarrow> (Inl (ErrWrap ''nats connect'' e), False)
      | Inr nc \<Rightarrow>
          (case new nc of
             Inl e \<Rightarrow> (Inl (ErrWrap ''jetstream'' e), True)
           | Inr js \<Rightarrow> (Inr (nc, js), False)))"

definition m09_EnsureStream ::
  "(stream_config \<Rightarrow> 'j \<Rightarrow> ('x, 's) go_result \<times> 'j) \<Rightarrow> 'j \<Rightarrow> ('x, 's) go_result \<times> 'j" where
  "m09_EnsureStream create js =
     create \<lparr>sc_Name = m09_StreamName, sc_Subjects = [m09_SubjectCustomerAll],
             sc_Retention = LimitsPolicy, sc_MaxAge = 24 * 3600 * second\<rparr> js"

definition m09_Publish ::
  "('x, 'd, 'j) publish_op \<Rightarrow> (m09_CustomerEvent \<Rightarrow> ('x, 'd) go_result) \<Rightarrow> m09_CustomerEvent \<Rightarrow> 'j
     \<Rightarrow> 'x go_error option \<times> 'j" where
  "m09_Publish js_publish marshal e j =
     (case marshal e of
        Inl err \<Rightarrow> (Some (ErrWrap ''marshal'' err), j)
      | Inr data \<Rightarrow> js_publish m09_SubjectCustomerCreated data (Some (e9_ID e)) j)"

section \<open>solution-stream: the store of processed identifiers\<close>

record m09_DedupStore =
  m09_seen :: "(string, unit) gomap"

definition m09_NewDedupStore :: m09_DedupStore where
  "m09_NewDedupStore = \<lparr>m09_seen = []\<rparr>"

definition m09_Seen :: "string \<Rightarrow> m09_DedupStore \<Rightarrow> bool" where
  "m09_Seen i d = (map_of (m09_seen d) i \<noteq> None)"

definition m09_Mark :: "string \<Rightarrow> m09_DedupStore \<Rightarrow> m09_DedupStore" where
  "m09_Mark i d = d\<lparr>m09_seen := map_put i () (m09_seen d)\<rparr>"

interpretation m09_dedup: dedup_store m09_Seen m09_Mark m09_NewDedupStore
  by unfold_locales (auto simp: m09_Seen_def m09_Mark_def m09_NewDedupStore_def)

section \<open>solution-stream: the consumer\<close>

text \<open>
  The state the consumer works on: the store, the outside world of \<open>send\<close> and the server. The
  fields \<open>g_...\<close> record history: the events sent successfully, and the payloads handed to the
  dead-letter subject (whether or not the publish succeeded).
\<close>

record ('d, 'w, 'j) m09_state =
  s9_dedup :: m09_DedupStore
  s9_world :: 'w
  s9_js :: 'j
  g9_sent :: "m09_CustomerEvent list"
  g9_dead :: "'d list"

record ('x, 'd, 'w, 'j) m09_Consumer =
  c9_publish :: "('x, 'd, 'j) publish_op"
  c9_unmarshal :: "'d \<Rightarrow> ('x, m09_CustomerEvent) go_result"
  c9_maxDeliver :: int
  c9_send :: "m09_CustomerEvent \<Rightarrow> 'w \<Rightarrow> 'x go_error option \<times> 'w"

definition m09_dead_letter ::
  "('x, 'd, 'w, 'j) m09_Consumer \<Rightarrow> 'd \<Rightarrow> ('d, 'w, 'j) m09_state \<Rightarrow> ('d, 'w, 'j) m09_state" where
  "m09_dead_letter c data s =
     s\<lparr>s9_js := snd (c9_publish c m09_SubjectDLQ data None (s9_js s)), g9_dead := g9_dead s @ [data]\<rparr>"

definition m09_handle ::
  "('x, 'd, 'w, 'j) m09_Consumer \<Rightarrow> 'd jmsg \<Rightarrow> ('d, 'w, 'j) m09_state
     \<Rightarrow> verdict \<times> ('d, 'w, 'j) m09_state" where
  "m09_handle c msg s =
     (case c9_unmarshal c (jm_data msg) of
        Inl err \<Rightarrow> (Term, s)
      | Inr e \<Rightarrow>
          (if delivered_over (c9_maxDeliver c) msg
           then (Term, m09_dead_letter c (jm_data msg) s)
           else if m09_Seen (e9_ID e) (s9_dedup s) then (Ack, s)
           else
             (let (err, w) = c9_send c e (s9_world s); s = s\<lparr>s9_world := w\<rparr>
              in case err of
                   Some er \<Rightarrow>
                     (if last_attempt (c9_maxDeliver c) msg
                      then (Term, m09_dead_letter c (jm_data msg) s)
                      else (Nak, s))
                 | None \<Rightarrow>
                     (Ack, s\<lparr>s9_dedup := m09_Mark (e9_ID e) (s9_dedup s),
                             g9_sent := g9_sent s @ [e]\<rparr>))))"

text \<open>\<open>Start\<close>: the durable consumer's configuration, and the handler it is given.\<close>

definition m09_Start ::
  "(consumer_config \<Rightarrow> ('x, 'o) go_result)
     \<Rightarrow> ('o \<Rightarrow> ('d jmsg \<Rightarrow> ('d, 'w, 'j) m09_state \<Rightarrow> verdict \<times> ('d, 'w, 'j) m09_state) \<Rightarrow> ('x, 'p) go_result)
     \<Rightarrow> ('x, 'd, 'w, 'j) m09_Consumer \<Rightarrow> string \<Rightarrow> ('x, 'p) go_result" where
  "m09_Start create consume c durable =
     (case create \<lparr>cc_Durable = durable, cc_AckPolicy = AckExplicitPolicy, cc_MaxDeliver = c9_maxDeliver c,
                   cc_AckWait = 5 * second, cc_FilterSubject = m09_SubjectCustomerCreated\<rparr> of
        Inl e \<Rightarrow> Inl (ErrWrap ''consumer'' e)
      | Inr cons \<Rightarrow>
          (case consume cons (m09_handle c) of
             Inl e \<Rightarrow> Inl (ErrWrap ''consume'' e)
           | Inr cc \<Rightarrow> Inr cc))"

section \<open>The contract\<close>

text \<open>
  Several consumers may share the state, each with its own send function, as long as they decode
  alike and have the same bound on deliveries; here each handles its message before the next one is
  handled. \<open>M09_Race\<close> takes the handler apart into its sections, which interleave.
\<close>

definition m09_id :: "('d \<Rightarrow> ('x, m09_CustomerEvent) go_result) \<Rightarrow> 'd \<Rightarrow> string option" where
  "m09_id unmarshal data = (case unmarshal data of Inl err \<Rightarrow> None | Inr e \<Rightarrow> Some (e9_ID e))"

definition m09_consumer ::
  "('x, 'd, 'j) publish_op \<Rightarrow> ('d \<Rightarrow> ('x, m09_CustomerEvent) go_result) \<Rightarrow> int
     \<Rightarrow> ('c \<Rightarrow> m09_CustomerEvent \<Rightarrow> 'w \<Rightarrow> 'x go_error option \<times> 'w) \<Rightarrow> 'c \<Rightarrow> ('x, 'd, 'w, 'j) m09_Consumer"
where
  "m09_consumer pub unmarshal maxDeliver send c =
     \<lparr>c9_publish = pub, c9_unmarshal = unmarshal, c9_maxDeliver = maxDeliver, c9_send = send c\<rparr>"

definition m09_handled :: "('d, 'w, 'j) m09_state \<Rightarrow> string set" where
  "m09_handled s = {i. m09_Seen i (s9_dedup s)}"

definition m09_sent_ids :: "('d, 'w, 'j) m09_state \<Rightarrow> string list" where
  "m09_sent_ids s = map e9_ID (g9_sent s)"

definition m09_handlers where
  "m09_handlers pub unmarshal maxDeliver send c =
     m09_handle (m09_consumer pub unmarshal maxDeliver send c)"

lemma m09_handle_cases:
  assumes "m09_handlers pub unmarshal maxDeliver send c m s = (v, s')"
  obtains (bad) err where "unmarshal (jm_data m) = Inl err" "v = Term" "s' = s"
  | (over) e where "unmarshal (jm_data m) = Inr e" "delivered_over maxDeliver m"
      "v = Term" "m09_handled s' = m09_handled s" "g9_sent s' = g9_sent s"
      "g9_dead s' = g9_dead s @ [jm_data m]"
  | (again) e where "unmarshal (jm_data m) = Inr e" "e9_ID e \<in> m09_handled s" "v = Ack" "s' = s"
  | (dead) e er where "unmarshal (jm_data m) = Inr e" "e9_ID e \<notin> m09_handled s"
      "fst (send c e (s9_world s)) = Some er" "last_attempt maxDeliver m"
      "v = Term" "m09_handled s' = m09_handled s" "g9_sent s' = g9_sent s"
      "g9_dead s' = g9_dead s @ [jm_data m]"
  | (retry) e er where "unmarshal (jm_data m) = Inr e" "e9_ID e \<notin> m09_handled s"
      "fst (send c e (s9_world s)) = Some er" "\<not> last_attempt maxDeliver m"
      "v = Nak" "m09_handled s' = m09_handled s" "g9_sent s' = g9_sent s" "g9_dead s' = g9_dead s"
  | (ok) e where "unmarshal (jm_data m) = Inr e" "e9_ID e \<notin> m09_handled s"
      "fst (send c e (s9_world s)) = None"
      "v = Ack" "m09_handled s' = insert (e9_ID e) (m09_handled s)" "g9_sent s' = g9_sent s @ [e]"
      "g9_dead s' = g9_dead s"
proof (cases "unmarshal (jm_data m)")
  case (Inl err)
  with assms bad show ?thesis by (auto simp: m09_handlers_def m09_handle_def m09_consumer_def)
next
  case (Inr e)
  note eval = m09_handlers_def m09_handle_def m09_consumer_def m09_dead_letter_def m09_handled_def
    Let_def case_prod_beta
  consider (o) "delivered_over maxDeliver m"
    | (a) "\<not> delivered_over maxDeliver m" "m09_Seen (e9_ID e) (s9_dedup s)"
    | (f) er where "\<not> delivered_over maxDeliver m" "\<not> m09_Seen (e9_ID e) (s9_dedup s)"
        "fst (send c e (s9_world s)) = Some er" "last_attempt maxDeliver m"
    | (r) er where "\<not> delivered_over maxDeliver m" "\<not> m09_Seen (e9_ID e) (s9_dedup s)"
        "fst (send c e (s9_world s)) = Some er" "\<not> last_attempt maxDeliver m"
    | (s) "\<not> delivered_over maxDeliver m" "\<not> m09_Seen (e9_ID e) (s9_dedup s)"
        "fst (send c e (s9_world s)) = None"
    by fast
  then show ?thesis
  proof cases
    case o
    with assms Inr show ?thesis by (intro over [of e]) (auto simp: eval)
  next
    case a
    with assms Inr show ?thesis by (intro again [of e]) (auto simp: eval)
  next
    case f
    with assms Inr show ?thesis by (intro dead [of e]) (auto simp: eval)
  next
    case r
    with assms Inr show ?thesis by (intro retry [of e]) (auto simp: eval)
  next
    case s
    with assms Inr show ?thesis by (intro ok [of e]) (auto simp: eval m09_dedup.seen_mark)
  qed
qed

interpretation m09: idempotent_consumer "m09_handlers pub unmarshal maxDeliver send"
    "m09_id unmarshal" m09_handled m09_sent_ids g9_dead maxDeliver
  for pub unmarshal maxDeliver send
proof (unfold_locales, goal_cases)
  case (1 c m s v s')
  then show ?case by (rule m09_handle_cases) (auto simp: m09_id_def m09_sent_ids_def)
next
  case (2 c m s v s')
  then show ?case by (rule m09_handle_cases) auto
next
  case (3 c m s s')
  then show ?case by (rule m09_handle_cases) (auto simp: m09_id_def)
next
  case (4 c m s s')
  then show ?case by (rule m09_handle_cases) (auto simp: m09_id_def)
next
  case (5 c m s s')
  then show ?case by (rule m09_handle_cases) auto
qed

section \<open>Properties\<close>

definition m09_start :: "'w \<Rightarrow> 'j \<Rightarrow> ('d, 'w, 'j) m09_state" where
  "m09_start w j = \<lparr>s9_dedup = m09_NewDedupStore, s9_world = w, s9_js = j, g9_sent = [], g9_dead = []\<rparr>"

lemma m09_start_facts:
  "distinct (m09_sent_ids (m09_start w j))"
  "set (m09_sent_ids (m09_start w j)) = m09_handled (m09_start w j)"
  by (simp_all add: m09_handled_def m09_start_def m09_dedup.seen_new m09_sent_ids_def)

text \<open>A consumer and the messages its client library hands it, one at a time.\<close>

abbreviation m09_consume where
  "m09_consume c ms s \<equiv> deliver (\<lambda>_ :: unit. m09_handle c) (map (Pair ()) ms) s"

lemma m09_handle_consumer:
  "m09_handlers (c9_publish c) (c9_unmarshal c) (c9_maxDeliver c) (\<lambda>_. c9_send c) = (\<lambda>_. m09_handle c)"
  by (cases c) (simp add: m09_handlers_def m09_consumer_def fun_eq_iff)

lemma m09_sent_decoded:
  "deliver (m09_handlers pub unmarshal maxDeliver send) trace s = (vs, s') \<Longrightarrow> e \<in> set (g9_sent s')
    \<Longrightarrow> e \<in> set (g9_sent s) \<or> (\<exists>(c, m) \<in> set trace. unmarshal (jm_data m) = Inr e)"
proof (induction trace arbitrary: s vs)
  case (Cons p trace)
  obtain c m where p: "p = (c, m)" by (cases p)
  obtain v s1 where h: "m09_handlers pub unmarshal maxDeliver send c m s = (v, s1)"
    by (cases "m09_handlers pub unmarshal maxDeliver send c m s")
  obtain vs' where r: "deliver (m09_handlers pub unmarshal maxDeliver send) trace s1 = (vs', s')"
    using Cons.prems p h by (auto simp: Let_def split: prod.splits)
  have "e \<in> set (g9_sent s1) \<Longrightarrow> e \<in> set (g9_sent s) \<or> unmarshal (jm_data m) = Inr e"
    by (rule m09_handle_cases [OF h]) auto
  with Cons.IH [OF r Cons.prems(2)] show ?case by (auto simp: p)
qed simp

text \<open>C8 (safety). No event is sent twice by one consumer: whatever messages it is handed, one after another, in any
  order, any number of times, with any delivery numbers, and however often sending fails in between, the
  identifiers of the successful sends are distinct, and they are exactly the identifiers in the store. Each of
  the events sent is that of a message, and when a message is acknowledged its event has been sent.
  Two consumers at work on one store at the same time are another matter: see C9 and C10.\<close>

theorem m09_sent_once:
  assumes "m09_consume c ms (m09_start w j) = (vs, s)"
  shows "distinct (map e9_ID (g9_sent s))
    \<and> (\<forall>i. i \<in> set (map e9_ID (g9_sent s)) \<longleftrightarrow> m09_Seen i (s9_dedup s))
    \<and> (\<forall>e \<in> set (g9_sent s). \<exists>m \<in> set ms. c9_unmarshal c (jm_data m) = Inr e)
    \<and> (\<forall>k < length ms. vs ! k = Ack \<longrightarrow>
         (\<exists>e. c9_unmarshal c (jm_data (ms ! k)) = Inr e \<and> e9_ID e \<in> set (map e9_ID (g9_sent s))))"
proof -
  let ?h = "m09_handlers (c9_publish c) (c9_unmarshal c) (c9_maxDeliver c) (\<lambda>_ :: unit. c9_send c)"
  have run: "deliver ?h (map (Pair ()) ms) (m09_start w j) = (vs, s)"
    using assms by (simp add: m09_handle_consumer)
  have once: "distinct (m09_sent_ids s)" "set (m09_sent_ids s) = m09_handled s"
    using m09.sent_once [OF run m09_start_facts] by simp_all
  have acked: "\<exists>e. c9_unmarshal c (jm_data (ms ! k)) = Inr e \<and> e9_ID e \<in> set (map e9_ID (g9_sent s))"
    if "k < length ms" "vs ! k = Ack" for k
    using m09.acked [OF run, of k] that once(2) by (auto simp: m09_id_def m09_sent_ids_def split: sum.splits)
  have decoded: "\<exists>m \<in> set ms. c9_unmarshal c (jm_data m) = Inr e" if "e \<in> set (g9_sent s)" for e
    using m09_sent_decoded [OF run that] by (auto simp: m09_start_def)
  have store: "i \<in> set (map e9_ID (g9_sent s)) \<longleftrightarrow> m09_Seen i (s9_dedup s)" for i
    using once(2) by (auto simp: m09_sent_ids_def m09_handled_def)
  show ?thesis
    using once(1) store decoded acked by (intro conjI allI ballI impI) (simp_all add: m09_sent_ids_def)
qed

text \<open>C20 (safety). No event is lost silently by consumers that handle their messages one at a time: a delivery that is not asked for again, as the last
  attempt never is, belongs to an event that by the end was sent successfully or whose payload
  was handed to the dead-letter subject, unless the payload cannot be decoded.\<close>

theorem m09_never_lost:
  assumes "deliver (m09_handlers pub unmarshal maxDeliver send) trace (m09_start w j) = (vs, s)"
    and "k < length trace" and "vs ! k \<noteq> Nak \<or> last_attempt maxDeliver (snd (trace ! k))"
    and "unmarshal (jm_data (snd (trace ! k))) = Inr e"
  shows "e9_ID e \<in> set (map e9_ID (g9_sent s)) \<or> jm_data (snd (trace ! k)) \<in> set (g9_dead s)"
proof -
  have id: "m09_id unmarshal (jm_data (snd (trace ! k))) = Some (e9_ID e)"
    using assms(4) by (simp add: m09_id_def)
  have "distinct (m09_sent_ids s) \<and> set (m09_sent_ids s) = m09_handled s"
    by (rule m09.sent_once [OF assms(1) m09_start_facts])
  with m09.never_lost [OF assms(1,2,3) id] show ?thesis by (auto simp: m09_sent_ids_def)
qed

text \<open>Remark (error). The dead-letter publish is not checked: when it fails on the last attempt, the
  message is terminated all the same, so the event is neither sent nor kept anywhere.\<close>

theorem m09_dead_letter_lost:
  assumes "unmarshal (jm_data m) = Inr e" and "\<not> m09_Seen (e9_ID e) (s9_dedup s)"
    and "fst (send c e (s9_world s)) \<noteq> None" and "last_attempt maxDeliver m"
    and "pub m09_SubjectDLQ (jm_data m) None (s9_js s) = (Some err, s9_js s)"
  shows "\<exists>s'. m09_handlers pub unmarshal maxDeliver send c m s = (Term, s')
    \<and> s9_js s' = s9_js s \<and> g9_sent s' = g9_sent s \<and> s9_dedup s' = s9_dedup s"
  using assms
  by (cases "send c e (s9_world s)")
    (auto simp: m09_handlers_def m09_handle_def m09_consumer_def m09_dead_letter_def Let_def
      split: option.splits)

text \<open>Remark (functional). Replaying history is harmless: a consumer sharing the store that is given
  only messages of events already handled, none of them over the limit, acknowledges them all
  and changes nothing: not the world its send function works on, nor the server.\<close>

theorem m09_replay_silent:
  assumes "deliver (m09_handlers pub unmarshal maxDeliver send) trace s = (vs, s')"
    and "\<forall>(c, m) \<in> set trace. \<not> delivered_over maxDeliver m
           \<and> (\<exists>e. unmarshal (jm_data m) = Inr e \<and> m09_Seen (e9_ID e) (s9_dedup s))"
  shows "s' = s \<and> set vs \<subseteq> {Ack}"
  using assms
proof (induction trace arbitrary: vs)
  case (Cons p trace)
  obtain c m where p: "p = (c, m)" by (cases p)
  from Cons.prems(2) p obtain e where e: "\<not> delivered_over maxDeliver m"
    "unmarshal (jm_data m) = Inr e" "m09_Seen (e9_ID e) (s9_dedup s)" by auto
  then have "m09_handlers pub unmarshal maxDeliver send c m s = (Ack, s)"
    by (simp add: m09_handlers_def m09_handle_def m09_consumer_def)
  with Cons.prems p obtain vs' where "deliver (m09_handlers pub unmarshal maxDeliver send) trace s = (vs', s')"
    "vs = Ack # vs'"
    by (auto simp: Let_def split: prod.splits)
  with Cons.IH [of vs'] Cons.prems(2) show ?case by auto
qed simp

section \<open>A concrete trace\<close>

text \<open>
  Payloads are the events themselves; sending fails while the world (a number of failures to
  come) is positive; the server keeps what is published.
\<close>

definition demo_pub :: "(unit, m09_CustomerEvent, (string \<times> m09_CustomerEvent) list) publish_op" where
  "demo_pub subject data mid j = (None, j @ [(subject, data)])"

definition demo_send :: "nat \<Rightarrow> m09_CustomerEvent \<Rightarrow> nat \<Rightarrow> unit go_error option \<times> nat" where
  "demo_send c e w = (if w = 0 then (None, 0) else (Some (ErrNew [] ''smtp down''), w - 1))"

definition demo_e :: m09_CustomerEvent where
  "demo_e = \<lparr>e9_ID = ''cus_01'', e9_Email = ''u1@pulse.dev'', e9_Name = ''User 1'', e9_OccurredAt = 0\<rparr>"

definition demo_trace :: "(nat \<times> m09_CustomerEvent jmsg) list" where
  "demo_trace = [(0, \<lparr>jm_data = demo_e, jm_delivered = Some 1\<rparr>), (0, \<lparr>jm_data = demo_e, jm_delivered = Some 2\<rparr>),
     (1, \<lparr>jm_data = demo_e, jm_delivered = Some 1\<rparr>)]"

lemmas m09_eval = m09_handlers_def m09_handle_def m09_consumer_def m09_dead_letter_def
  delivered_over_def last_attempt_def wrap64_def m09_Seen_def m09_Mark_def m09_NewDedupStore_def m09_start_def
  demo_pub_def demo_send_def demo_trace_def Let_def

lemma demo_deliver:
  "deliver (m09_handlers demo_pub Inr 5 demo_send) demo_trace (m09_start 1 [])
     = ([Nak, Ack, Ack], \<lparr>s9_dedup = \<lparr>m09_seen = [(''cus_01'', ())]\<rparr>, s9_world = 0, s9_js = [],
         g9_sent = [demo_e], g9_dead = []\<rparr>)"
  by (simp add: m09_eval) (simp add: demo_e_def)

theorem m09_sent_once_witness:
  "\<exists>vs s. m09_consume (m09_consumer demo_pub Inr 5 demo_send 0) (map snd demo_trace) (m09_start 1 []) = (vs, s)
    \<and> vs = [Nak, Ack, Ack] \<and> distinct (map e9_ID (g9_sent s)) \<and> e9_ID demo_e \<in> set (map e9_ID (g9_sent s))"
proof -
  obtain vs s where run: "m09_consume (m09_consumer demo_pub Inr 5 demo_send 0) (map snd demo_trace) (m09_start 1 []) = (vs, s)"
    by (cases "m09_consume (m09_consumer demo_pub Inr 5 demo_send 0) (map snd demo_trace) (m09_start 1 [])")
  then have vs: "vs = [Nak, Ack, Ack]" by (simp add: m09_eval)
  note once = m09_sent_once [OF run]
  from once [THEN conjunct2, THEN conjunct2, THEN conjunct2, rule_format, of 1] vs
  have "e9_ID demo_e \<in> set (map e9_ID (g9_sent s))" by (simp add: demo_trace_def m09_consumer_def)
  with run vs once [THEN conjunct1] show ?thesis by blast
qed

theorem m09_never_lost_witness:
  "e9_ID demo_e \<in> set (map e9_ID (g9_sent (snd (deliver (m09_handlers demo_pub Inr 5 demo_send)
     demo_trace (m09_start 1 [])))))"
  unfolding demo_deliver snd_conv
  using m09_never_lost [OF demo_deliver, of 1 demo_e] by (simp add: demo_trace_def)

theorem m09_dead_letter_lost_witness:
  "\<exists>s'. m09_handlers (\<lambda>s d i j. (Some (ErrNew [] ''down''), j)) Inr 1 demo_send 0
      \<lparr>jm_data = demo_e, jm_delivered = Some 1\<rparr> (m09_start 1 []) = (Term, s') \<and> s9_js s' = []"
  using m09_dead_letter_lost [of Inr "\<lparr>jm_data = demo_e, jm_delivered = Some 1\<rparr>" demo_e
      "m09_start 1 []" demo_send 0 1 "\<lambda>s d i j. (Some (ErrNew [] ''down''), j)"]
  by (simp add: m09_eval)

theorem m09_replay_silent_witness:
  "deliver (m09_handlers demo_pub Inr 5 demo_send) [(1, \<lparr>jm_data = demo_e, jm_delivered = Some 1\<rparr>)]
      ((m09_start 0 [])\<lparr>s9_dedup := m09_Mark ''cus_01'' m09_NewDedupStore\<rparr>)
     = ([Ack], (m09_start 0 [])\<lparr>s9_dedup := m09_Mark ''cus_01'' m09_NewDedupStore\<rparr>)"
proof -
  let ?t = "[(1, \<lparr>jm_data = demo_e, jm_delivered = Some 1\<rparr>)]"
  let ?s = "(m09_start 0 [])\<lparr>s9_dedup := m09_Mark ''cus_01'' m09_NewDedupStore\<rparr>"
  obtain vs s' where run: "deliver (m09_handlers demo_pub Inr 5 demo_send) ?t ?s = (vs, s')"
    by (cases "deliver (m09_handlers demo_pub Inr 5 demo_send) ?t ?s")
  have "s' = ?s \<and> set vs \<subseteq> {Ack}"
    by (rule m09_replay_silent [OF run])
      (simp add: delivered_over_def wrap64_def m09_dedup.seen_mark demo_e_def)
  moreover have "length vs = 1"
    using m09.length_deliver [of demo_pub Inr 5 demo_send ?t ?s] run by simp
  ultimately show ?thesis using run by (cases vs) auto
qed

end
