(* ===== verification/M10_Pulse.thy ===== *)
theory M10_Pulse
  imports Repo_Conc Error_Codes Go_Http Go_Time
begin

text \<open>
  \<open>m10-project-structure/pulse\<close>: the service laid out by feature. The error codes, the customer
  package (domain, service, in-memory repository, HTTP handler over \<open>http.ServeMux\<close>), and the
  platform packages: configuration from the environment, the logger, the HTTP server. An
  operation of the repository, under its mutex, is one step, which \<open>Guarded_Stores\<close> justifies; the
  clock is an argument.
\<close>

section \<open>internal/errorx\<close>

definition m10_CodeNotFound :: string where "m10_CodeNotFound = ''NOT_FOUND''"
definition m10_CodeValidation :: string where "m10_CodeValidation = ''VALIDATION''"
definition m10_CodeConflict :: string where "m10_CodeConflict = ''CONFLICT''"
definition m10_CodeInternal :: string where "m10_CodeInternal = ''INTERNAL''"

lemmas m10_codes = m10_CodeNotFound_def m10_CodeValidation_def m10_CodeConflict_def
  m10_CodeInternal_def

definition m10_WithCode :: "'x go_error option \<Rightarrow> string \<Rightarrow> 'x go_error option" where
  "m10_WithCode err code = (case err of None \<Rightarrow> None | Some e \<Rightarrow> Some (ErrCoded code e))"

definition m10_Code :: "'x go_error option \<Rightarrow> string" where
  "m10_Code err =
     (case errors_as as_coded err of
        Some c \<Rightarrow> c
      | None \<Rightarrow> if err = None then [] else m10_CodeInternal)"

definition m10_HTTPStatus :: "'x go_error option \<Rightarrow> int" where
  "m10_HTTPStatus err =
     (let c = m10_Code err
      in if c = m10_CodeNotFound then 404
         else if c = m10_CodeValidation then 400
         else if c = m10_CodeConflict then 409
         else 500)"

interpretation m10_errorx: error_codes m10_WithCode m10_Code m10_HTTPStatus
  by unfold_locales
    (auto simp: m10_WithCode_def m10_Code_def m10_HTTPStatus_def m10_codes errors_as_def
      as_coded_def Let_def split: option.splits)

section \<open>internal/customer: the domain\<close>

record m10_Customer =
  m10_ID :: string
  m10_Email :: string
  m10_Name :: string
  m10_CreatedAt :: int

definition m10_ErrNotFound :: "unit go_error" where
  "m10_ErrNotFound = ErrNew ''m10/customer.ErrNotFound'' ''customer: not found''"

definition m10_ErrConflict :: "unit go_error" where
  "m10_ErrConflict = ErrNew ''m10/customer.ErrConflict'' ''customer: already exists''"

definition m10_Validate :: "m10_Customer \<Rightarrow> unit go_error option" where
  "m10_Validate c =
     (if \<not> contains (m10_Email c) ''@'' then Some (ErrNew [] ''email must contain @'')
      else if trim_space (m10_Name c) = [] then Some (ErrNew [] ''name must not be empty'')
      else None)"

text \<open>
  \<open>itoa\<close>: the loop fills the buffer from its end; \<open>b\<close> is the part that is filled, \<open>b[i:]\<close>.
\<close>

function m10_itoa_loop :: "int \<Rightarrow> string \<Rightarrow> string" where
  "m10_itoa_loop n b =
     (if n > 0 then m10_itoa_loop (n div 10) (digit (nat (n mod 10)) # b) else b)"
  by auto
termination by (relation "measure (\<lambda>(n, b). nat n)") auto

declare m10_itoa_loop.simps [simp del]

definition m10_itoa :: "int \<Rightarrow> string" where
  "m10_itoa n = (if n = 0 then ''0'' else m10_itoa_loop n [])"

lemma m10_itoa_loop_show: "0 < n \<Longrightarrow> m10_itoa_loop n b = show_nat (nat n) @ b"
proof (induction n b rule: m10_itoa_loop.induct)
  case (1 n b)
  have digits: "nat (n mod 10) = nat n mod 10" "nat (n div 10) = nat n div 10"
    using 1(2) by (simp_all add: nat_mod_distrib nat_div_distrib)
  show ?case
  proof (cases "n < 10")
    case True
    then have "n div 10 = 0" "nat n mod 10 = nat n" using 1(2) by auto
    with 1(2) True show ?thesis
      using digits by (subst m10_itoa_loop.simps, subst m10_itoa_loop.simps)
        (simp add: show_nat.simps [of "nat n"])
  next
    case False
    then have "m10_itoa_loop (n div 10) (digit (nat (n mod 10)) # b)
        = show_nat (nat (n div 10)) @ digit (nat (n mod 10)) # b"
      using 1 by simp
    moreover have "show_nat (nat n) = show_nat (nat n div 10) @ [digit (nat n mod 10)]"
      using False by (simp add: show_nat.simps [of "nat n"])
    ultimately show ?thesis
      using 1(2) digits by (subst m10_itoa_loop.simps) simp
  qed
qed

lemma digit_zero: "digit 0 = CHR ''0''"
  by code_simp

lemma m10_itoa_show: "0 \<le> n \<Longrightarrow> m10_itoa n = show_nat (nat n)"
  by (cases "n = 0")
    (simp_all add: m10_itoa_def m10_itoa_loop_show show_nat.simps [of 0] digit_zero)

lemma length_show_nat: "n < 10 ^ Suc k \<Longrightarrow> length (show_nat n) \<le> Suc k"
proof (induction k arbitrary: n)
  case 0
  then show ?case by (simp add: show_nat.simps [of n])
next
  case (Suc k)
  show ?case
  proof (cases "n < 10")
    case False
    have "n div 10 < 10 ^ Suc k" using Suc.prems by (simp add: less_mult_imp_div_less)
    from Suc.IH [OF this] False show ?thesis by (simp add: show_nat.simps [of n])
  qed (simp add: show_nat.simps [of n])
qed

section \<open>internal/customer: the repository and the service\<close>

record m10_InMemoryRepo =
  m10_m :: "(string, m10_Customer) gomap"
  m10_seq :: int

definition m10_NewInMemoryRepo :: m10_InMemoryRepo where
  "m10_NewInMemoryRepo = \<lparr>m10_m = [], m10_seq = 0\<rparr>"

definition m10_Create ::
  "int \<Rightarrow> m10_Customer \<Rightarrow> m10_InMemoryRepo \<Rightarrow> (unit, m10_Customer) go_result \<times> m10_InMemoryRepo"
where
  "m10_Create now c r =
     (if list_ex (\<lambda>(k, e). m10_Email e = m10_Email c) (m10_m r)
      then (Inl m10_ErrConflict, r)
      else
        let r = r\<lparr>m10_seq := add64 (m10_seq r) 1\<rparr>;
            c = c\<lparr>m10_ID := ''cus_'' @ m10_itoa (m10_seq r)\<rparr>;
            c = c\<lparr>m10_CreatedAt := now\<rparr>
        in (Inr c, r\<lparr>m10_m := map_put (m10_ID c) c (m10_m r)\<rparr>))"

definition m10_ByID :: "string \<Rightarrow> m10_InMemoryRepo \<Rightarrow> (unit, m10_Customer) go_result" where
  "m10_ByID i r =
     (case map_of (m10_m r) i of None \<Rightarrow> Inl m10_ErrNotFound | Some c \<Rightarrow> Inr c)"

definition m10_Service_Create ::
  "int \<Rightarrow> m10_Customer \<Rightarrow> m10_InMemoryRepo \<Rightarrow> (unit, m10_Customer) go_result \<times> m10_InMemoryRepo"
where
  "m10_Service_Create now c r =
     (case m10_Validate c of
        Some err \<Rightarrow> (Inl (ErrCoded m10_CodeValidation err), r)
      | None \<Rightarrow> m10_Create now c r)"

definition m10_Service_Get :: "string \<Rightarrow> m10_InMemoryRepo \<Rightarrow> (unit, m10_Customer) go_result" where
  "m10_Service_Get i r =
     (let res = m10_ByID i r
      in case res of
           Inr c \<Rightarrow> Inr c
         | Inl err \<Rightarrow>
             (if errors_is (Some err) ''m10/customer.ErrNotFound''
              then Inl (ErrCoded m10_CodeNotFound err)
              else res))"

subsection \<open>The invariant\<close>

text \<open>The repository is one with serial identifiers; the rest is proved in its contract.\<close>

definition m10_serial :: "int \<Rightarrow> string" where
  "m10_serial n = ''cus_'' @ m10_itoa n"

lemma m10_serial_inject: "0 \<le> m \<Longrightarrow> 0 \<le> n \<Longrightarrow> m10_serial m = m10_serial n \<longleftrightarrow> m = n"
  by (simp add: m10_serial_def m10_itoa_show eq_nat_nat_iff)

abbreviation m10_inv :: "m10_InMemoryRepo \<Rightarrow> bool" where
  "m10_inv r \<equiv> serial_inv m10_serial m10_Email m10_ID (m10_m r) (m10_seq r)"

abbreviation m10_room :: "m10_InMemoryRepo \<Rightarrow> nat \<Rightarrow> bool" where
  "m10_room r n \<equiv> m10_seq r + int n \<le> max_int64"

abbreviation m10_emails :: "m10_InMemoryRepo \<Rightarrow> string set" where
  "m10_emails r \<equiv> serial_emails m10_Email (m10_m r)"

definition m10_created :: "int \<Rightarrow> m10_Customer \<Rightarrow> m10_InMemoryRepo \<Rightarrow> m10_Customer" where
  "m10_created now c r = c\<lparr>m10_ID := m10_serial (m10_seq r + 1), m10_CreatedAt := now\<rparr>"

interpretation m10_repo: serial_store m10_Create m10_ByID m10_NewInMemoryRepo m10_ID m10_ErrNotFound
  m10_ErrConflict m10_m m10_seq "\<lambda>r m n. r\<lparr>m10_m := m, m10_seq := n\<rparr>" m10_serial m10_Email
  "(\<lambda>now i c. c\<lparr>m10_ID := i, m10_CreatedAt := now\<rparr>)"
  by unfold_locales
    (simp_all add: m10_itoa_show eq_nat_nat_iff m10_NewInMemoryRepo_def m10_ByID_def m10_Create_def m10_serial_def Let_def)

lemma m10_inv_empty: "m10_inv m10_NewInMemoryRepo"
  by (simp add: m10_NewInMemoryRepo_def)

lemma m10_Create_eq:
  assumes "m10_inv r" "m10_room r (Suc n)"
  shows "m10_Create now c r =
    (if m10_Email c \<in> m10_emails r then (Inl m10_ErrConflict, r)
     else (Inr (m10_created now c r),
           r\<lparr>m10_m := m10_m r @ [(m10_serial (m10_seq r + 1), m10_created now c r)], m10_seq := m10_seq r + 1\<rparr>))"
  unfolding m10_repo.create_eq [OF assms] by (simp add: m10_created_def)

lemma m10_inv_Create:
  assumes "m10_inv r" "m10_room r (Suc n)"
  shows "m10_inv (snd (m10_Create now c r)) \<and> m10_room (snd (m10_Create now c r)) n"
  using m10_repo.create_inv [OF assms, of now c] by (cases "m10_Create now c r") auto

section \<open>internal/customer: the handler\<close>

type_synonym m10_handler = "m10_InMemoryRepo handler"

definition m10_writeJSON :: "int \<Rightarrow> json \<Rightarrow> 's srv \<Rightarrow> 's srv" where
  "m10_writeJSON status v =
     on_rw (\<lambda>w. write_chunk (CJson v)
       (write_header status (header_set ''Content-Type'' ''application/json'' w)))"

definition m10_respondErr :: "unit go_error \<Rightarrow> 's srv \<Rightarrow> 's srv" where
  "m10_respondErr err s =
     (let status = m10_HTTPStatus (Some err);
          msg = err_msg err;
          msg = (if status = 500 then ''internal server error'' else msg)
      in m10_writeJSON status (JObj [(''error'', JObj
           [(''code'', JStr (m10_Code (Some err))), (''message'', JStr msg)])]) s)"

text \<open>The JSON of \<open>resp\<close>.\<close>

definition m10_resp :: "m10_Customer \<Rightarrow> json" where
  "m10_resp c = JObj [(''id'', JStr (m10_ID c)), (''email'', JStr (m10_Email c)),
     (''name'', JStr (m10_Name c))]"

definition m10_healthz :: "m10_handler" where
  "m10_healthz r s = (None, m10_writeJSON 200 (JObj [(''status'', JStr ''ok'')]) s)"

definition m10_create :: "int \<Rightarrow> m10_handler" where
  "m10_create now r s =
     (case decoder_decode None False ''createReq'' [''email'', ''name''] (rq_body r) of
        Inl err \<Rightarrow> (None, m10_respondErr (ErrCoded m10_CodeValidation err) s)
      | Inr req \<Rightarrow>
          (let (res, repo) = m10_Service_Create now
                 \<lparr>m10_ID = [], m10_Email = field req ''email'', m10_Name = field req ''name'',
                  m10_CreatedAt = zero_time\<rparr> (sv_st s);
               s = s\<lparr>sv_st := repo\<rparr>
           in case res of
                Inl err \<Rightarrow> (None, m10_respondErr err s)
              | Inr c \<Rightarrow> (None, m10_writeJSON 201 (m10_resp c) s)))"

definition m10_get :: "(string \<Rightarrow> string) \<Rightarrow> m10_handler" where
  "m10_get path_value r s =
     (case m10_Service_Get (path_value ''id'') (sv_st s) of
        Inl err \<Rightarrow> (None, m10_respondErr err s)
      | Inr c \<Rightarrow> (None, m10_writeJSON 200 (m10_resp c) s))"

definition m10_Routes :: "int \<Rightarrow> m10_handler" where
  "m10_Routes now = mux
     [(''GET'', [Lit [], Lit ''healthz''], \<lambda>pv. m10_healthz),
      (''POST'', [Lit [], Lit ''v1'', Lit ''customers''], \<lambda>pv. m10_create now),
      (''GET'', [Lit [], Lit ''v1'', Lit ''customers'', Wild ''id''], m10_get)]"

section \<open>internal/platform\<close>

record m10_Config =
  m10_HTTPAddr :: string
  m10_GRPCAddr :: string
  m10_PostgresDSN :: string
  m10_MongoURI :: string
  m10_NATSURL :: string
  m10_LogLevel :: string

text \<open>\<open>env\<close> is the environment: a variable that is not set reads as the empty string.\<close>

definition m10_getenv :: "(string \<Rightarrow> string option) \<Rightarrow> string \<Rightarrow> string \<Rightarrow> string" where
  "m10_getenv env key dflt =
     (let v = (case env key of None \<Rightarrow> [] | Some v \<Rightarrow> v) in if v \<noteq> [] then v else dflt)"

definition m10_Load :: "(string \<Rightarrow> string option) \<Rightarrow> m10_Config" where
  "m10_Load env =
     \<lparr>m10_HTTPAddr = m10_getenv env ''HTTP_ADDR'' '':8080'',
      m10_GRPCAddr = m10_getenv env ''GRPC_ADDR'' '':9090'',
      m10_PostgresDSN = m10_getenv env ''PULSE_PG_DSN'' [],
      m10_MongoURI = m10_getenv env ''PULSE_MONGO_URI'' [],
      m10_NATSURL = m10_getenv env ''PULSE_NATS_URL'' ''nats://localhost:4222'',
      m10_LogLevel = m10_getenv env ''LOG_LEVEL'' ''info''\<rparr>"

definition m10_log_New :: "string \<Rightarrow> slog_level" where
  "m10_log_New level =
     (if level = ''debug'' then LevelDebug else if level = ''warn'' then LevelWarn
      else if level = ''error'' then LevelError else LevelInfo)"

record m10_http_Server =
  m10_Addr :: string
  m10_ReadHeaderTimeout :: int
  m10_ReadTimeout :: int
  m10_WriteTimeout :: int
  m10_IdleTimeout :: int

definition m10_NewServer :: "string \<Rightarrow> m10_http_Server" where
  "m10_NewServer addr =
     \<lparr>m10_Addr = addr, m10_ReadHeaderTimeout = 5 * second, m10_ReadTimeout = 15 * second,
      m10_WriteTimeout = 15 * second, m10_IdleTimeout = 60 * second\<rparr>"

text \<open>
  \<open>Run\<close>: \<open>served\<close> is what \<open>ListenAndServe\<close> returns, if it does; \<open>shutdown\<close> the result of
  \<open>Shutdown\<close> with its timeout. The two cases of the select, with the result of \<open>Run\<close>.
\<close>

inductive m10_Run :: "'x go_error option \<Rightarrow> (int \<Rightarrow> 'x go_error option) \<Rightarrow> 'x go_error option \<Rightarrow> bool"
  for served shutdown where
  listen_failed: "served = Some err \<Longrightarrow> \<not> errors_is (Some err) ''http.ErrServerClosed''
     \<Longrightarrow> m10_Run served shutdown (Some err)"
| signalled: "m10_Run served shutdown (shutdown (30 * second))"

inductive_simps m10_Run_iff: "m10_Run served shutdown result"

definition m10_exit :: "'x go_error option \<Rightarrow> int" where
  "m10_exit result = (if result \<noteq> None then 1 else 0)"

lemma m10_clean_exit:
  "m10_Run served shutdown result \<Longrightarrow> m10_exit result = 0 \<Longrightarrow> shutdown (30 * second) = None"
  by (auto simp: m10_Run_iff m10_exit_def split: if_splits)

lemma m10_default_logger: "slog_enabled (m10_log_New (m10_LogLevel (m10_Load (\<lambda>_. None)))) l \<longleftrightarrow> l \<noteq> LevelDebug"
  by (cases l) (simp_all add: m10_Load_def m10_getenv_def m10_log_New_def slog_enabled_def
      less_eq_slog_level_def)

section \<open>Properties\<close>

lemma answer_m10_writeJSON [simp]:
  "answer s = (None, []) \<Longrightarrow> answer (m10_writeJSON status v s) = (Some status, [CJson v])"
  by (simp add: answer_def m10_writeJSON_def http_defs)

lemma st_m10_writeJSON [simp]: "sv_st (m10_writeJSON status v s) = sv_st s"
  by (simp add: m10_writeJSON_def http_defs)

lemma st_m10_respondErr [simp]: "sv_st (m10_respondErr e s) = sv_st s"
  by (simp add: m10_respondErr_def Let_def)

definition m10_error_json :: "string \<Rightarrow> string \<Rightarrow> json" where
  "m10_error_json code msg = JObj [(''error'', JObj [(''code'', JStr code), (''message'', JStr msg)])]"

lemma answer_m10_respondErr [simp]:
  "answer s = (None, []) \<Longrightarrow> answer (m10_respondErr e s) =
     (Some (m10_HTTPStatus (Some e)), [CJson (m10_error_json (m10_Code (Some e))
        (if m10_HTTPStatus (Some e) = 500 then ''internal server error'' else err_msg e))])"
  by (simp add: m10_respondErr_def m10_error_json_def Let_def)

lemma m10_coded [simp]: "m10_Code (Some (ErrCoded c e)) = c"
  using m10_errorx.code_with [of e c] by (simp add: m10_WithCode_def)

text \<open>The routes that requests with these paths reach.\<close>

lemma m10_route_create:
  assumes "rq_method r = ''POST''" "rq_path r = ''/v1/customers''"
  shows "m10_Routes now r s = m10_create now r s"
  using assms by (simp add: m10_Routes_def mux_def method_ok_def)

lemma m10_route_get:
  assumes "rq_method r = ''GET''" "rq_path r = ''/v1/customers/'' @ i" "i \<noteq> []" "CHR ''/'' \<notin> set i"
  shows "m10_Routes now r s = m10_get (\<lambda>k. if k = ''id'' then i else []) r s"
  using assms by (simp add: m10_Routes_def mux_def method_ok_def get_default_def fun_eq_iff)
    (rule arg_cong [where f = "\<lambda>f. m10_get f r s"], auto simp: get_default_def)

lemma m10_serial_path: "0 \<le> n \<Longrightarrow> m10_serial n \<noteq> [] \<and> CHR ''/'' \<notin> set (m10_serial n)"
  using show_nat_digits [of "CHR ''/''" "nat n"] by (auto simp: m10_serial_def m10_itoa_show is_digit_def)

definition m10_body :: "string \<Rightarrow> string \<Rightarrow> json" where
  "m10_body e n = JObj [(''email'', JStr e), (''name'', JStr n)]"

lemma m10_decode_body:
  "rq_body r = BodyJson (m10_body e n) stop rest \<Longrightarrow>
     decoder_decode None False ''createReq'' [''email'', ''name''] (rq_body r)
       = (Inr [(''email'', e), (''name'', n)] :: (unit, (string \<times> string) list) go_result)"
  by (simp add: decoder_decode_def m10_body_def decode_struct_def decode_field_def match_field_def)

definition m10_draft :: "string \<Rightarrow> string \<Rightarrow> m10_Customer" where
  "m10_draft e n = \<lparr>m10_ID = [], m10_Email = e, m10_Name = n, m10_CreatedAt = zero_time\<rparr>"

lemma m10_create_eq:
  assumes "rq_body r = BodyJson (m10_body e n) stop rest"
  shows "m10_create now r s =
    (case m10_Service_Create now (m10_draft e n) (sv_st s) of
       (Inl err, repo) \<Rightarrow> (None, m10_respondErr err (s\<lparr>sv_st := repo\<rparr>))
     | (Inr c, repo) \<Rightarrow> (None, m10_writeJSON 201 (m10_resp c) (s\<lparr>sv_st := repo\<rparr>)))"
  unfolding m10_create_def m10_decode_body [OF assms]
  by (simp add: field_def m10_draft_def Let_def split: prod.splits sum.splits)

text \<open>Remark (functional). A customer with a valid, new e-mail address posted to the API is answered
  201 with its data and a new identifier; from then on, whatever customers are created after
  it, a GET of that identifier is answered 200 with the same JSON.\<close>

theorem m10_create_then_get:
  assumes "m10_inv (sv_st s)" and "m10_room (sv_st s) (Suc (length later))"
    and "answer s = (None, [])" and "rq_method r = ''POST''" and "rq_path r = ''/v1/customers''"
    and "rq_body r = BodyJson (m10_body e n) stop rest"
    and "CHR ''@'' \<in> set e" and "trim_space n \<noteq> []" and "e \<notin> m10_emails (sv_st s)"
  shows "\<exists>c s1. m10_Routes now r s = (None, s1) \<and> answer s1 = (Some 201, [CJson (m10_resp c)])
    \<and> m10_Email c = e \<and> m10_Name c = n \<and> m10_ByID (m10_ID c) (sv_st s) = Inl m10_ErrNotFound
    \<and> (\<forall>(g :: http_req) s2 now'. rq_method g = ''GET'' \<and> rq_path g = ''/v1/customers/'' @ m10_ID c
         \<and> sv_st s2 = create_all m10_Create later (sv_st s1) \<and> answer s2 = (None, [])
         \<longrightarrow> answer (snd (m10_Routes now' g s2)) = (Some 200, [CJson (m10_resp c)]))"
proof -
  define c where "c = m10_created now (m10_draft e n) (sv_st s)"
  obtain repo where cr: "m10_Create now (m10_draft e n) (sv_st s) = (Inr c, repo)"
    using m10_Create_eq [OF assms(1,2), of now "m10_draft e n"] assms(9)
    by (simp add: c_def m10_draft_def)
  have id: "m10_ID c = m10_serial (m10_seq (sv_st s) + 1)" "m10_Email c = e" "m10_Name c = n"
    by (simp_all add: c_def m10_created_def m10_draft_def)
  have "m10_Validate (m10_draft e n) = None"
    using assms(7,8) by (simp add: m10_Validate_def m10_draft_def)
  then have run: "m10_Routes now r s = (None, m10_writeJSON 201 (m10_resp c) (s\<lparr>sv_st := repo\<rparr>))"
    using cr by (simp add: m10_route_create [OF assms(4,5)] m10_create_eq [OF assms(6)]
        m10_Service_Create_def)
  have kept: "m10_ByID (m10_ID c) (create_all m10_Create later repo) = Inr c"
    using m10_repo.created_inv [OF assms(1,2) cr] m10_repo.get_created [OF assms(1,2) cr]
    by (intro m10_repo.create_all_keeps) auto
  have path: "m10_ID c \<noteq> []" "CHR ''/'' \<notin> set (m10_ID c)"
    using assms(1) m10_serial_path [of "m10_seq (sv_st s) + 1"] by (simp_all add: id serial_inv_def)
  show ?thesis
  proof (intro exI [of _ c] exI conjI allI impI)
    show "m10_Routes now r s = (None, m10_writeJSON 201 (m10_resp c) (s\<lparr>sv_st := repo\<rparr>))" by (rule run)
    show "m10_ByID (m10_ID c) (sv_st s) = Inl m10_ErrNotFound"
      by (rule m10_repo.created_fresh [OF assms(1,2) cr])
    fix g :: http_req and s2 now'
    assume g: "rq_method g = ''GET'' \<and> rq_path g = ''/v1/customers/'' @ m10_ID c
      \<and> sv_st s2 = create_all m10_Create later
          (sv_st (m10_writeJSON 201 (m10_resp c) (s\<lparr>sv_st := repo\<rparr>))) \<and> answer s2 = (None, [])"
    with m10_route_get [OF _ _ path, of g now' s2] kept
    show "answer (snd (m10_Routes now' g s2)) = (Some 200, [CJson (m10_resp c)])"
      by (simp add: m10_get_def m10_Service_Get_def Let_def)
  qed (use assms(3) id in simp_all)
qed

text \<open>C35 (error). What the API answers when it refuses: a malformed body or an invalid customer is
  400, an unknown identifier 404; but a customer whose e-mail is taken is answered 500 with the
  text of an internal error, since nothing attaches the conflict code to \<open>ErrConflict\<close>.\<close>

theorem m10_refusals:
  assumes "answer s = (None, [])" and "rq_method r = ''POST''" and "rq_path r = ''/v1/customers''"
    and "rq_body r = BodyJson (m10_body e n) stop rest"
  shows "(CHR ''@'' \<notin> set e \<or> trim_space n = [] \<longrightarrow>
      (\<exists>msg s1. m10_Routes now r s = (None, s1) \<and> sv_st s1 = sv_st s
         \<and> answer s1 = (Some 400, [CJson (m10_error_json ''VALIDATION'' msg)])))
    \<and> (CHR ''@'' \<in> set e \<and> trim_space n \<noteq> [] \<and> e \<in> m10_emails (sv_st s) \<longrightarrow>
      (\<exists>s1. m10_Routes now r s = (None, s1) \<and> sv_st s1 = sv_st s
         \<and> answer s1 = (Some 500, [CJson (m10_error_json ''INTERNAL'' ''internal server error'')])))"
proof (intro conjI impI)
  assume bad: "CHR ''@'' \<notin> set e \<or> trim_space n = []"
  then have "m10_Validate (m10_draft e n) \<noteq> None" by (auto simp: m10_Validate_def m10_draft_def)
  then obtain err where v: "m10_Validate (m10_draft e n) = Some err" by blast
  have st: "m10_HTTPStatus (Some (ErrCoded m10_CodeValidation err)) = 400"
    by (simp add: m10_HTTPStatus_def m10_codes)
  show "\<exists>msg s1. m10_Routes now r s = (None, s1) \<and> sv_st s1 = sv_st s
      \<and> answer s1 = (Some 400, [CJson (m10_error_json ''VALIDATION'' msg)])"
    using assms(1) v st
    by (simp add: m10_route_create [OF assms(2,3)] m10_create_eq [OF assms(4)]
        m10_Service_Create_def) (auto simp: m10_codes)
next
  assume taken: "CHR ''@'' \<in> set e \<and> trim_space n \<noteq> [] \<and> e \<in> m10_emails (sv_st s)"
  then have v: "m10_Validate (m10_draft e n) = None" by (simp add: m10_Validate_def m10_draft_def)
  have "list_ex (\<lambda>(k, c). m10_Email c = e) (m10_m (sv_st s))"
    using taken by (force simp: list_ex_iff serial_emails_def)
  then have c: "m10_Create now (m10_draft e n) (sv_st s) = (Inl m10_ErrConflict, sv_st s)"
    by (simp add: m10_Create_def m10_draft_def)
  have "m10_Code (Some m10_ErrConflict) = ''INTERNAL''"
    by (simp add: m10_ErrConflict_def m10_errorx.code_plain)
  then show "\<exists>s1. m10_Routes now r s = (None, s1) \<and> sv_st s1 = sv_st s
      \<and> answer s1 = (Some 500, [CJson (m10_error_json ''INTERNAL'' ''internal server error'')])"
    using assms(1) v c
    by (simp add: m10_route_create [OF assms(2,3)] m10_create_eq [OF assms(4)]
        m10_Service_Create_def m10_errorx.status_code)
qed

definition m10_demo_req :: "http_req" where
  "m10_demo_req = \<lparr>rq_method = ''POST'', rq_path = ''/v1/customers'', rq_header = [], rq_query = [],
     rq_body = BodyJson (m10_body ''ada@pulse.dev'' ''Ada'') 40 [], rq_rid = None\<rparr>"

definition m10_demo_srv :: "m10_InMemoryRepo srv" where
  "m10_demo_srv = \<lparr>sv_rw = new_rw, sv_log = [], sv_rid = 0, sv_st = m10_NewInMemoryRepo\<rparr>"

definition m10_demo_taken :: "m10_InMemoryRepo srv" where
  "m10_demo_taken = m10_demo_srv\<lparr>sv_st := snd (m10_Create 0 (m10_draft ''ada@pulse.dev'' ''Ada'')
     m10_NewInMemoryRepo)\<rparr>"

lemma m10_demo_answer: "answer m10_demo_srv = (None, [])" "answer m10_demo_taken = (None, [])"
  by (simp_all add: m10_demo_taken_def m10_demo_srv_def answer_def new_rw_def)

lemma trim_Ada: "trim_space ''Ada'' \<noteq> []"
  by (rule trim_space_graphic) (simp add: graphic_def)

theorem m10_create_then_get_witness:
  "\<exists>c s1. m10_Routes 7 m10_demo_req m10_demo_srv = (None, s1)
     \<and> answer s1 = (Some 201, [CJson (m10_resp c)]) \<and> m10_Email c = ''ada@pulse.dev''"
proof -
  have "m10_inv (sv_st m10_demo_srv)" by (simp add: m10_demo_srv_def m10_inv_empty)
  moreover have "m10_room (sv_st m10_demo_srv) (Suc (length []))"
    "''ada@pulse.dev'' \<notin> m10_emails (sv_st m10_demo_srv)"
    by (simp_all add: m10_demo_srv_def serial_emails_def m10_NewInMemoryRepo_def max_int64_def)
  ultimately have start: "m10_inv (sv_st m10_demo_srv)"
    "m10_room (sv_st m10_demo_srv) (Suc (length []))"
    "''ada@pulse.dev'' \<notin> m10_emails (sv_st m10_demo_srv)" .
  from m10_create_then_get [OF start(1,2) m10_demo_answer(1) _ _ _ _ trim_Ada start(3),
      of m10_demo_req 40 "[]" 7]
  show ?thesis by (auto simp: m10_demo_req_def)
qed

theorem m10_refusals_witness:
  "\<exists>s1. m10_Routes 7 m10_demo_req m10_demo_taken = (None, s1)
     \<and> answer s1 = (Some 500, [CJson (m10_error_json ''INTERNAL'' ''internal server error'')])"
proof -
  have "''ada@pulse.dev'' \<in> m10_emails (sv_st m10_demo_taken)"
    by (simp add: m10_demo_taken_def m10_Create_def m10_draft_def m10_NewInMemoryRepo_def
        serial_emails_def Let_def)
  with m10_refusals [OF m10_demo_answer(2), of m10_demo_req "''ada@pulse.dev''" "''Ada''" 40 "[]" 7]
    trim_Ada
  show ?thesis by (auto simp: m10_demo_req_def)
qed

end
