(* ===== verification/M14_Capstone.thy ===== *)
theory M14_Capstone
  imports Event_Consumer Go_Http Go_Time
begin

text \<open>
  \<open>m14-capstone\<close>: the vertical slice. A POST stores a customer and publishes an event; a durable,
  idempotent consumer turns each event into one welcome message. JetStream and the JSON codec of
  the events are parameters; so are the clock and the random bytes of the identifiers.
\<close>

section \<open>domain\<close>

record m14_Customer =
  m14_ID :: string
  m14_Email :: string
  m14_Name :: string
  m14_CreatedAt :: int

record m14_CustomerEvent =
  e14_ID :: string
  e14_Email :: string
  e14_Name :: string
  e14_OccurredAt :: int

definition m14_StreamName :: string where "m14_StreamName = ''CXM_EVENTS''"
definition m14_SubjectCustomerCreated :: string where
  "m14_SubjectCustomerCreated = ''cxm.customer.created''"
definition m14_SubjectCustomerAll :: string where "m14_SubjectCustomerAll = ''cxm.customer.>''"
definition m14_SubjectDLQ :: string where "m14_SubjectDLQ = ''cxm.customer.dlq''"

section \<open>events: connection, stream, publisher\<close>

definition m14_Connect ::
  "(string \<Rightarrow> ('x, 'n) go_result) \<Rightarrow> ('n \<Rightarrow> ('x, 'j) go_result) \<Rightarrow> string \<Rightarrow> ('x, 'n \<times> 'j) go_result \<times> bool"
where
  "m14_Connect connect new url =
     (case connect url of
        Inl e \<Rightarrow> (Inl (ErrWrap ''connect'' e), False)
      | Inr nc \<Rightarrow>
          (case new nc of
             Inl e \<Rightarrow> (Inl (ErrWrap ''jetstream'' e), True)
           | Inr js \<Rightarrow> (Inr (nc, js), False)))"

definition m14_EnsureStream ::
  "(stream_config \<Rightarrow> 'j \<Rightarrow> ('x, 's) go_result \<times> 'j) \<Rightarrow> 'j \<Rightarrow> ('x, 's) go_result \<times> 'j" where
  "m14_EnsureStream create js =
     create \<lparr>sc_Name = m14_StreamName, sc_Subjects = [m14_SubjectCustomerAll], sc_Retention = LimitsPolicy,
             sc_MaxAge = 24 * 3600 * second\<rparr> js"

definition m14_PublishCustomerCreated ::
  "('x, 'd, 'j) publish_op \<Rightarrow> (m14_CustomerEvent \<Rightarrow> ('x, 'd) go_result) \<Rightarrow> m14_CustomerEvent \<Rightarrow> 'j
     \<Rightarrow> 'x go_error option \<times> 'j" where
  "m14_PublishCustomerCreated js_publish marshal e j =
     (case marshal e of
        Inl err \<Rightarrow> (Some (ErrWrap ''marshal'' err), j)
      | Inr data \<Rightarrow> js_publish m14_SubjectCustomerCreated data (Some (e14_ID e)) j)"

section \<open>events: the consumer\<close>

record m14_DedupStore =
  m14_seen :: "(string, unit) gomap"

definition m14_NewDedupStore :: m14_DedupStore where
  "m14_NewDedupStore = \<lparr>m14_seen = []\<rparr>"

definition m14_Seen :: "string \<Rightarrow> m14_DedupStore \<Rightarrow> bool" where
  "m14_Seen i d = (map_of (m14_seen d) i \<noteq> None)"

definition m14_Mark :: "string \<Rightarrow> m14_DedupStore \<Rightarrow> m14_DedupStore" where
  "m14_Mark i d = d\<lparr>m14_seen := map_put i () (m14_seen d)\<rparr>"

interpretation m14_dedup: dedup_store m14_Seen m14_Mark m14_NewDedupStore
  by unfold_locales (auto simp: m14_Seen_def m14_Mark_def m14_NewDedupStore_def)

text \<open>
  The state the consumer works on; \<open>g14_sent\<close> and \<open>g14_dead\<close> record the events sent successfully
  and the payloads handed to the dead-letter subject.
\<close>

record ('d, 'w, 'j) m14_state =
  s14_dedup :: m14_DedupStore
  s14_world :: 'w
  s14_js :: 'j
  g14_sent :: "m14_CustomerEvent list"
  g14_dead :: "'d list"

record ('x, 'd, 'w, 'j) m14_Consumer =
  c14_publish :: "('x, 'd, 'j) publish_op"
  c14_unmarshal :: "'d \<Rightarrow> ('x, m14_CustomerEvent) go_result"
  c14_maxDeliver :: int
  c14_send :: "m14_CustomerEvent \<Rightarrow> 'w \<Rightarrow> 'x go_error option \<times> 'w"

definition m14_dead_letter ::
  "('x, 'd, 'w, 'j) m14_Consumer \<Rightarrow> 'd \<Rightarrow> ('d, 'w, 'j) m14_state \<Rightarrow> ('d, 'w, 'j) m14_state" where
  "m14_dead_letter c data s =
     s\<lparr>s14_js := snd (c14_publish c m14_SubjectDLQ data None (s14_js s)), g14_dead := g14_dead s @ [data]\<rparr>"

definition m14_handle ::
  "('x, 'd, 'w, 'j) m14_Consumer \<Rightarrow> 'd jmsg \<Rightarrow> ('d, 'w, 'j) m14_state
     \<Rightarrow> verdict \<times> ('d, 'w, 'j) m14_state" where
  "m14_handle c msg s =
     (case c14_unmarshal c (jm_data msg) of
        Inl err \<Rightarrow> (Term, s)
      | Inr e \<Rightarrow>
          (if m14_Seen (e14_ID e) (s14_dedup s) then (Ack, s)
           else
             (let (err, w) = c14_send c e (s14_world s); s = s\<lparr>s14_world := w\<rparr>
              in case err of
                   Some er \<Rightarrow>
                     (if last_attempt (c14_maxDeliver c) msg
                      then (Term, m14_dead_letter c (jm_data msg) s)
                      else (Nak, s))
                 | None \<Rightarrow>
                     (Ack, s\<lparr>s14_dedup := m14_Mark (e14_ID e) (s14_dedup s),
                             g14_sent := g14_sent s @ [e]\<rparr>))))"

definition m14_Start ::
  "(consumer_config \<Rightarrow> ('x, 'o) go_result)
     \<Rightarrow> ('o \<Rightarrow> ('d jmsg \<Rightarrow> ('d, 'w, 'j) m14_state \<Rightarrow> verdict \<times> ('d, 'w, 'j) m14_state) \<Rightarrow> ('x, 'p) go_result)
     \<Rightarrow> ('x, 'd, 'w, 'j) m14_Consumer \<Rightarrow> string \<Rightarrow> ('x, 'p) go_result" where
  "m14_Start create consume c durable =
     (case create \<lparr>cc_Durable = durable, cc_AckPolicy = AckExplicitPolicy, cc_MaxDeliver = c14_maxDeliver c,
                   cc_AckWait = 5 * second, cc_FilterSubject = m14_SubjectCustomerCreated\<rparr> of
        Inl e \<Rightarrow> Inl (ErrWrap ''consumer'' e)
      | Inr cons \<Rightarrow>
          (case consume cons (m14_handle c) of
             Inl e \<Rightarrow> Inl (ErrWrap ''consume'' e)
           | Inr cc \<Rightarrow> Inr cc))"

section \<open>notify\<close>

text \<open>\<open>ls_lines\<close> are the calls of the function \<open>out\<close>, when there is one (\<open>ls_out\<close>).\<close>

record m14_LoggingSender =
  ls_Sent :: int
  ls_out :: bool
  ls_lines :: "string list"

definition m14_NewLoggingSender :: "bool \<Rightarrow> m14_LoggingSender" where
  "m14_NewLoggingSender out = \<lparr>ls_Sent = 0, ls_out = out, ls_lines = []\<rparr>"

definition m14_welcome :: "m14_CustomerEvent \<Rightarrow> string" where
  "m14_welcome e = ''welcome sent -> '' @ e14_Name e @ '' ('' @ e14_Email e @ '')''"

definition m14_Send :: "m14_CustomerEvent \<Rightarrow> m14_LoggingSender \<Rightarrow> 'x go_error option \<times> m14_LoggingSender" where
  "m14_Send e s =
     (let s = s\<lparr>ls_Sent := add64 (ls_Sent s) 1\<rparr>;
          s = (if ls_out s then s\<lparr>ls_lines := ls_lines s @ [m14_welcome e]\<rparr> else s)
      in (None, s))"

section \<open>api\<close>

record 'j m14_Handler =
  m14_byID :: "(string, m14_Customer) gomap"
  m14_js :: 'j

definition m14_NewHandler :: "'j \<Rightarrow> 'j m14_Handler" where
  "m14_NewHandler j = \<lparr>m14_byID = [], m14_js = j\<rparr>"

definition m14_writeJSON :: "int \<Rightarrow> json \<Rightarrow> 's srv \<Rightarrow> 's srv" where
  "m14_writeJSON status v =
     on_rw (\<lambda>w. write_chunk (CJson v)
       (write_header status (header_set ''Content-Type'' ''application/json'' w)))"

definition m14_errBody :: "string \<Rightarrow> string \<Rightarrow> json" where
  "m14_errBody code msg = JObj [(''error'', JObj [(''code'', JStr code), (''message'', JStr msg)])]"

definition m14_customerJSON :: "m14_Customer \<Rightarrow> json" where
  "m14_customerJSON c = JObj [(''id'', JStr (m14_ID c)), (''email'', JStr (m14_Email c)),
     (''name'', JStr (m14_Name c)), (''created_at'', JStr (rfc3339_nano (m14_CreatedAt c)))]"

text \<open>\<open>rnd\<close> are the six bytes \<open>rand.Read\<close> yields.\<close>

definition m14_randHex :: "nat list \<Rightarrow> string" where
  "m14_randHex rnd = hex_encode rnd"

definition m14_create ::
  "(m14_CustomerEvent \<Rightarrow> 'j \<Rightarrow> 'x go_error option \<times> 'j) \<Rightarrow> int \<Rightarrow> nat list \<Rightarrow> 'j m14_Handler handler" where
  "m14_create publish now rnd r s =
     (case (decoder_decode None False ''createReq'' [''email'', ''name''] (rq_body r)
            :: (unit, (string \<times> string) list) go_result) of
        Inl err \<Rightarrow> (None, m14_writeJSON 400 (m14_errBody ''VALIDATION'' ''invalid JSON'') s)
      | Inr req \<Rightarrow>
          (if \<not> contains (field req ''email'') ''@'' \<or> trim_space (field req ''name'') = []
           then (None, m14_writeJSON 400 (m14_errBody ''VALIDATION'' ''email and name required'') s)
           else
             (let c = \<lparr>m14_ID = ''cus_'' @ m14_randHex rnd, m14_Email = field req ''email'',
                       m14_Name = field req ''name'', m14_CreatedAt = now\<rparr>;
                  h = sv_st s;
                  h = h\<lparr>m14_byID := map_put (m14_ID c) c (m14_byID h)\<rparr>;
                  (err, j) = publish \<lparr>e14_ID = m14_ID c, e14_Email = m14_Email c,
                               e14_Name = m14_Name c, e14_OccurredAt = m14_CreatedAt c\<rparr> (m14_js h);
                  h = h\<lparr>m14_js := j\<rparr>
              in (None, m14_writeJSON 201 (m14_customerJSON c) (s\<lparr>sv_st := h\<rparr>)))))"

definition m14_Routes ::
  "(m14_CustomerEvent \<Rightarrow> 'j \<Rightarrow> 'x go_error option \<times> 'j) \<Rightarrow> int \<Rightarrow> nat list \<Rightarrow> 'j m14_Handler handler" where
  "m14_Routes publish now rnd = mux
     [(''GET'', [Lit [], Lit ''healthz''],
       \<lambda>pv r s. (None, m14_writeJSON 200 (JObj [(''status'', JStr ''ok'')]) s)),
      (''POST'', [Lit [], Lit ''v1'', Lit ''customers''], \<lambda>pv. m14_create publish now rnd)]"

section \<open>cmd/pulse\<close>

definition m14_bodies :: "(string \<times> string) list" where
  "m14_bodies = [(''ada@pulse.dev'', ''Ada''), (''bob@pulse.dev'', ''Bob''), (''cara@pulse.dev'', ''Cara''),
     (''dan@pulse.dev'', ''Dan''), (''eve@pulse.dev'', ''Eve'')]"

definition m14_consumer ::
  "('x, 'd, 'j) publish_op \<Rightarrow> ('d \<Rightarrow> ('x, m14_CustomerEvent) go_result) \<Rightarrow> ('x, 'd, m14_LoggingSender, 'j) m14_Consumer"
where
  "m14_consumer pub unmarshal =
     \<lparr>c14_publish = pub, c14_unmarshal = unmarshal, c14_maxDeliver = 5, c14_send = m14_Send\<rparr>"

section \<open>The consumer's contract\<close>

definition m14_id :: "('d \<Rightarrow> ('x, m14_CustomerEvent) go_result) \<Rightarrow> 'd \<Rightarrow> string option" where
  "m14_id unmarshal data = (case unmarshal data of Inl err \<Rightarrow> None | Inr e \<Rightarrow> Some (e14_ID e))"

definition m14_handled :: "('d, 'w, 'j) m14_state \<Rightarrow> string set" where
  "m14_handled s = {i. m14_Seen i (s14_dedup s)}"

definition m14_sent_ids :: "('d, 'w, 'j) m14_state \<Rightarrow> string list" where
  "m14_sent_ids s = map e14_ID (g14_sent s)"

text \<open>Consumers sharing the state, each with its own send function.\<close>

definition m14_handlers where
  "m14_handlers pub unmarshal maxDeliver send c =
     m14_handle \<lparr>c14_publish = pub, c14_unmarshal = unmarshal, c14_maxDeliver = maxDeliver, c14_send = send c\<rparr>"

lemma m14_handle_cases:
  assumes "m14_handlers pub unmarshal maxDeliver send c m s = (v, s')"
  obtains (bad) err where "unmarshal (jm_data m) = Inl err" "v = Term" "s' = s"
  | (again) e where "unmarshal (jm_data m) = Inr e" "e14_ID e \<in> m14_handled s" "v = Ack" "s' = s"
  | (dead) e er where "unmarshal (jm_data m) = Inr e" "e14_ID e \<notin> m14_handled s"
      "fst (send c e (s14_world s)) = Some er" "last_attempt maxDeliver m"
      "v = Term" "m14_handled s' = m14_handled s" "g14_sent s' = g14_sent s"
      "g14_dead s' = g14_dead s @ [jm_data m]"
  | (retry) e er where "unmarshal (jm_data m) = Inr e" "e14_ID e \<notin> m14_handled s"
      "fst (send c e (s14_world s)) = Some er" "\<not> last_attempt maxDeliver m"
      "v = Nak" "m14_handled s' = m14_handled s" "g14_sent s' = g14_sent s" "g14_dead s' = g14_dead s"
  | (ok) e where "unmarshal (jm_data m) = Inr e" "e14_ID e \<notin> m14_handled s"
      "fst (send c e (s14_world s)) = None" "s14_world s' = snd (send c e (s14_world s))"
      "v = Ack" "m14_handled s' = insert (e14_ID e) (m14_handled s)" "g14_sent s' = g14_sent s @ [e]"
      "g14_dead s' = g14_dead s"
proof (cases "unmarshal (jm_data m)")
  case (Inl err)
  with assms bad show ?thesis by (auto simp: m14_handlers_def m14_handle_def)
next
  case (Inr e)
  note eval = m14_handlers_def m14_handle_def m14_dead_letter_def m14_handled_def Let_def case_prod_beta
  consider (a) "m14_Seen (e14_ID e) (s14_dedup s)"
    | (f) er where "\<not> m14_Seen (e14_ID e) (s14_dedup s)"
        "fst (send c e (s14_world s)) = Some er" "last_attempt maxDeliver m"
    | (r) er where "\<not> m14_Seen (e14_ID e) (s14_dedup s)"
        "fst (send c e (s14_world s)) = Some er" "\<not> last_attempt maxDeliver m"
    | (s) "\<not> m14_Seen (e14_ID e) (s14_dedup s)" "fst (send c e (s14_world s)) = None"
    by fast
  then show ?thesis
  proof cases
    case a
    with assms Inr show ?thesis by (intro again [of e]) (auto simp: eval)
  next
    case f
    with assms Inr show ?thesis by (intro dead [of e]) (auto simp: eval)
  next
    case r
    with assms Inr show ?thesis by (intro retry [of e]) (auto simp: eval)
  next
    case s
    with assms Inr show ?thesis by (intro ok [of e]) (auto simp: eval m14_dedup.seen_mark)
  qed
qed

interpretation m14: idempotent_consumer "m14_handlers pub unmarshal maxDeliver send"
    "m14_id unmarshal" m14_handled m14_sent_ids g14_dead maxDeliver
  for pub unmarshal maxDeliver send
proof (unfold_locales, goal_cases)
  case (1 c m s v s')
  then show ?case by (rule m14_handle_cases) (auto simp: m14_id_def m14_sent_ids_def)
next
  case (2 c m s v s')
  then show ?case by (rule m14_handle_cases) auto
next
  case (3 c m s s')
  then show ?case by (rule m14_handle_cases) (auto simp: m14_id_def)
next
  case (4 c m s s')
  then show ?case by (rule m14_handle_cases) (auto simp: m14_id_def)
next
  case (5 c m s s')
  then show ?case by (rule m14_handle_cases) auto
qed

definition m14_start :: "'w \<Rightarrow> 'j \<Rightarrow> ('d, 'w, 'j) m14_state" where
  "m14_start w j = \<lparr>s14_dedup = m14_NewDedupStore, s14_world = w, s14_js = j, g14_sent = [], g14_dead = []\<rparr>"

lemma m14_start_facts:
  "distinct (m14_sent_ids (m14_start w j))"
  "set (m14_sent_ids (m14_start w j)) = m14_handled (m14_start w j)"
  by (simp_all add: m14_handled_def m14_start_def m14_dedup.seen_new m14_sent_ids_def)

section \<open>The consumer with the logging sender\<close>

text \<open>The sender's counter and lines account for the sends; nothing is dead-lettered.\<close>

definition m14_accounts :: "('d, m14_LoggingSender, 'j) m14_state \<Rightarrow> bool" where
  "m14_accounts s \<longleftrightarrow> ls_out (s14_world s) \<and> ls_lines (s14_world s) = map m14_welcome (g14_sent s)
     \<and> ls_Sent (s14_world s) = wrap64 (int (length (g14_sent s))) \<and> g14_dead s = []"

lemma m14_accounts_start: "m14_accounts (m14_start (m14_NewLoggingSender True) j)"
  by (simp add: m14_accounts_def m14_start_def m14_NewLoggingSender_def wrap64_def)

lemma m14_step_accounts:
  assumes "m14_handlers pub unmarshal maxDeliver (\<lambda>_. m14_Send) c m s = (v, s')" and "m14_accounts s"
    and "unmarshal (jm_data m) = Inr e"
  shows "m14_accounts s' \<and> v = Ack \<and> set (g14_sent s') \<subseteq> insert e (set (g14_sent s))"
  using assms(1)
proof (rule m14_handle_cases)
  fix e' assume ok: "unmarshal (jm_data m) = Inr e'" "s14_world s' = snd (m14_Send e' (s14_world s))"
    "v = Ack" "g14_sent s' = g14_sent s @ [e']" "g14_dead s' = g14_dead s"
  with assms(2,3) wrap64_step [of "int (length (g14_sent s))"] show ?thesis
    by (simp add: m14_accounts_def m14_Send_def Let_def add64_def add.commute)
qed (use assms(2,3) in \<open>auto simp: m14_Send_def Let_def\<close>)

text \<open>A trace of decodable deliveries to consumers with the logging sender.\<close>

lemma m14_deliver_accounts:
  "deliver (m14_handlers pub unmarshal maxDeliver (\<lambda>_. m14_Send)) trace s = (vs, s') \<Longrightarrow> m14_accounts s
     \<Longrightarrow> \<forall>(c, m) \<in> set trace. \<exists>e \<in> E. unmarshal (jm_data m) = Inr e \<Longrightarrow> set (g14_sent s) \<subseteq> E
     \<Longrightarrow> m14_accounts s' \<and> set vs \<subseteq> {Ack} \<and> set (g14_sent s') \<subseteq> E"
proof (induction trace arbitrary: s vs)
  case (Cons p trace)
  obtain c m where p: "p = (c, m)" by (cases p)
  obtain v s1 where h: "m14_handlers pub unmarshal maxDeliver (\<lambda>_. m14_Send) c m s = (v, s1)"
    by (cases "m14_handlers pub unmarshal maxDeliver (\<lambda>_. m14_Send) c m s")
  obtain vs' where r: "deliver (m14_handlers pub unmarshal maxDeliver (\<lambda>_. m14_Send)) trace s1 = (vs', s')"
    "vs = v # vs'"
    using Cons.prems(1) p h by (auto simp: Let_def split: prod.splits)
  obtain e where e: "e \<in> E" "unmarshal (jm_data m) = Inr e" using Cons.prems(3) p by auto
  from m14_step_accounts [OF h Cons.prems(2) e(2)] e(1) Cons.prems(4)
  have "m14_accounts s1" "v = Ack" "set (g14_sent s1) \<subseteq> E" by auto
  with Cons.IH [OF r(1)] Cons.prems(3) r(2) show ?case by auto
qed simp

text \<open>
  If the deliveries carry exactly the events \<open>E\<close>, with distinct identifiers, in any order and any
  number of times, each event is sent exactly once.
\<close>

lemma m14_welcome_each_once:
  assumes run: "deliver (m14_handlers pub unmarshal maxDeliver (\<lambda>_. m14_Send)) trace
      (m14_start (m14_NewLoggingSender True) j) = (vs, s)"
    and ids: "distinct (map e14_ID es)"
    and sound: "\<forall>(c, m) \<in> set trace. \<exists>e \<in> set es. unmarshal (jm_data m) = Inr e"
    and complete: "\<forall>e \<in> set es. \<exists>(c, m) \<in> set trace. unmarshal (jm_data m) = Inr e"
  shows "mset (g14_sent s) = mset es \<and> m14_accounts s"
proof -
  have acc: "m14_accounts s \<and> set vs \<subseteq> {Ack} \<and> set (g14_sent s) \<subseteq> set es"
    by (rule m14_deliver_accounts [OF run m14_accounts_start sound]) (simp add: m14_start_def)
  have "(\<lambda>(c, m). m14_id unmarshal (jm_data m)) ` set trace = Some ` e14_ID ` set es"
  proof (intro equalityI subsetI)
    fix x assume "x \<in> (\<lambda>(c, m). m14_id unmarshal (jm_data m)) ` set trace"
    with sound show "x \<in> Some ` e14_ID ` set es" by (fastforce simp: m14_id_def)
  next
    fix x assume "x \<in> Some ` e14_ID ` set es"
    with complete show "x \<in> (\<lambda>(c, m). m14_id unmarshal (jm_data m)) ` set trace"
      by (force simp: m14_id_def)
  qed
  from m14.sent_exactly [OF run m14_start_facts _ _ _ this] acc
  have once: "distinct (m14_sent_ids s)" "set (m14_sent_ids s) = e14_ID ` set es"
    by (auto simp: m14_accounts_def m14_sent_ids_def m14_start_def)
  have "set es \<subseteq> set (g14_sent s)"
  proof
    fix e assume e: "e \<in> set es"
    then have "e14_ID e \<in> e14_ID ` set (g14_sent s)" using once(2) by (simp add: m14_sent_ids_def)
    then obtain e' where e': "e' \<in> set (g14_sent s)" "e14_ID e' = e14_ID e" by (metis imageE)
    with acc ids e have "e' = e" by (auto simp: distinct_map dest: inj_onD)
    with e' show "e \<in> set (g14_sent s)" by simp
  qed
  with acc have "set (g14_sent s) = set es" by blast
  moreover have "distinct (g14_sent s)" "distinct es"
    using once ids by (auto simp: m14_sent_ids_def distinct_map)
  ultimately show ?thesis using acc by (simp add: set_eq_iff_mset_eq_distinct)
qed

section \<open>The REST side\<close>

lemma answer_m14_writeJSON [simp]:
  "answer s = (None, []) \<Longrightarrow> answer (m14_writeJSON status v s) = (Some status, [CJson v])"
  by (simp add: answer_def m14_writeJSON_def http_defs)

lemma st_m14_writeJSON [simp]: "sv_st (m14_writeJSON status v s) = sv_st s"
  by (simp add: m14_writeJSON_def http_defs)

lemma m14_route_create:
  assumes "rq_method r = ''POST''" "rq_path r = ''/v1/customers''"
  shows "m14_Routes publish now rnd r s = m14_create publish now rnd r s"
  using assms by (simp add: m14_Routes_def mux_def method_ok_def)

text \<open>
  What the API promises of a POST: the customer it accepts, if it does. \<open>m14_event\<close> is the event
  of a customer.
\<close>

definition m14_accepts :: "int \<Rightarrow> nat list \<Rightarrow> http_req \<Rightarrow> m14_Customer option" where
  "m14_accepts now rnd r =
     (case (decoder_decode None False ''createReq'' [''email'', ''name''] (rq_body r)
            :: (unit, (string \<times> string) list) go_result) of
        Inl err \<Rightarrow> None
      | Inr req \<Rightarrow>
          (if CHR ''@'' \<in> set (field req ''email'') \<and> trim_space (field req ''name'') \<noteq> []
           then Some \<lparr>m14_ID = ''cus_'' @ hex_encode rnd, m14_Email = field req ''email'',
                      m14_Name = field req ''name'', m14_CreatedAt = now\<rparr>
           else None))"

definition m14_event :: "m14_Customer \<Rightarrow> m14_CustomerEvent" where
  "m14_event c = \<lparr>e14_ID = m14_ID c, e14_Email = m14_Email c, e14_Name = m14_Name c,
     e14_OccurredAt = m14_CreatedAt c\<rparr>"

lemma m14_create_eq:
  "m14_create publish now rnd r s =
     (case m14_accepts now rnd r of
        None \<Rightarrow>
          (None, m14_writeJSON 400 (m14_errBody ''VALIDATION''
             (case (decoder_decode None False ''createReq'' [''email'', ''name''] (rq_body r)
                :: (unit, (string \<times> string) list) go_result) of
                Inl _ \<Rightarrow> ''invalid JSON'' | Inr _ \<Rightarrow> ''email and name required'')) s)
      | Some c \<Rightarrow>
          (None, m14_writeJSON 201 (m14_customerJSON c)
             (s\<lparr>sv_st := (sv_st s)\<lparr>m14_byID := map_put (m14_ID c) c (m14_byID (sv_st s)),
                          m14_js := snd (publish (m14_event c) (m14_js (sv_st s)))\<rparr>\<rparr>)))"
proof (cases "decoder_decode None False ''createReq'' [''email'', ''name''] (rq_body r)
    :: (unit, (string \<times> string) list) go_result")
  case (Inl err)
  then show ?thesis by (simp add: m14_create_def m14_accepts_def)
next
  case (Inr req)
  then show ?thesis
    by (auto simp: m14_create_def m14_accepts_def m14_event_def m14_randHex_def Let_def case_prod_beta)
qed

text \<open>Remark (functional). A POST is answered 201 with the new customer exactly when its body decodes to
  an e-mail with an at sign and a name that is not blank, whether or not the event could be
  published; the customer is then stored and the event handed to the publisher. Otherwise it is
  answered 400 and nothing changes.\<close>

theorem m14_create_spec:
  assumes "answer s = (None, [])" and "rq_method r = ''POST''" and "rq_path r = ''/v1/customers''"
  shows "\<exists>s1. m14_Routes publish now rnd r s = (None, s1)
    \<and> (case m14_accepts now rnd r of
         None \<Rightarrow> fst (answer s1) = Some 400 \<and> sv_st s1 = sv_st s
       | Some c \<Rightarrow> answer s1 = (Some 201, [CJson (m14_customerJSON c)])
           \<and> map_of (m14_byID (sv_st s1)) = (map_of (m14_byID (sv_st s)))(m14_ID c \<mapsto> c)
           \<and> m14_js (sv_st s1) = snd (publish (m14_event c) (m14_js (sv_st s))))"
  unfolding m14_route_create [OF assms(2,3)] m14_create_eq
  using assms(1) by (auto split: option.splits)

section \<open>What reaches the stream\<close>

lemma list_all2_left: "list_all2 P xs ys \<Longrightarrow> x \<in> set xs \<Longrightarrow> \<exists>y \<in> set ys. P x y"
  by (induction rule: list_all2_induct) auto

lemma list_all2_right: "list_all2 P xs ys \<Longrightarrow> y \<in> set ys \<Longrightarrow> \<exists>x \<in> set xs. P x y"
  by (induction rule: list_all2_induct) auto

text \<open>POST requests served one after the other, each with its clock reading and random bytes.\<close>

fun m14_serve where
  "m14_serve publish [] s = s"
| "m14_serve publish ((now, rnd, r) # posts) s =
     m14_serve publish posts (snd (m14_Routes publish now rnd r (s\<lparr>sv_rw := new_rw\<rparr>)))"

fun m14_accepted :: "(int \<times> nat list \<times> http_req) list \<Rightarrow> m14_Customer list" where
  "m14_accepted [] = []"
| "m14_accepted ((now, rnd, r) # posts) =
     (case m14_accepts now rnd r of None \<Rightarrow> m14_accepted posts | Some c \<Rightarrow> c # m14_accepted posts)"

definition is_post :: "http_req \<Rightarrow> bool" where
  "is_post r \<longleftrightarrow> rq_method r = ''POST'' \<and> rq_path r = ''/v1/customers''"

text \<open>The message of a customer.\<close>

definition m14_message :: "(m14_CustomerEvent \<Rightarrow> ('x, 'd) go_result) \<Rightarrow> m14_Customer \<Rightarrow> string \<times> 'd \<times> string option \<Rightarrow> bool"
where
  "m14_message marshal c m \<longleftrightarrow> fst m = m14_SubjectCustomerCreated
     \<and> marshal (m14_event c) = Inr (fst (snd m)) \<and> snd (snd m) = Some (m14_ID c)"

text \<open>The stream after the publish of a customer; and the customers, of those published one after another, whose
  publish returns an error.\<close>

definition m14_published ::
  "('x, 'd, 'j) publish_op \<Rightarrow> (m14_CustomerEvent \<Rightarrow> ('x, 'd) go_result) \<Rightarrow> m14_Customer \<Rightarrow> 'j \<Rightarrow> 'j" where
  "m14_published pub marshal c j = snd (m14_PublishCustomerCreated pub marshal (m14_event c) j)"

fun m14_refused ::
  "('x, 'd, 'j) publish_op \<Rightarrow> (m14_CustomerEvent \<Rightarrow> ('x, 'd) go_result) \<Rightarrow> m14_Customer list \<Rightarrow> 'j \<Rightarrow> m14_Customer list" where
  "m14_refused pub marshal [] j = []"
| "m14_refused pub marshal (c # cs) j =
     (if fst (m14_PublishCustomerCreated pub marshal (m14_event c) j) = None then [] else [c])
       @ m14_refused pub marshal cs (m14_published pub marshal c j)"

lemma m14_refused_none:
  "\<forall>c j. fst (m14_PublishCustomerCreated pub marshal (m14_event c) j) = None \<Longrightarrow> m14_refused pub marshal cs j = []"
  by (induction cs arbitrary: j) auto

lemma m14_published_one:
  assumes "jetstream_log pub msgs"
  obtains (added) m where "m14_message marshal c m" "msgs (m14_published pub marshal c j) = msgs j @ [m]"
  | (not_added) "msgs (m14_published pub marshal c j) = msgs j"
      "fst (m14_PublishCustomerCreated pub marshal (m14_event c) j) = None \<Longrightarrow> Some (m14_ID c) \<in> msg_ids (msgs j)"
proof (cases "marshal (m14_event c)")
  case (Inl e)
  then show thesis by (intro not_added) (simp_all add: m14_published_def m14_PublishCustomerCreated_def)
next
  case (Inr d)
  let ?m = "(m14_SubjectCustomerCreated, d, Some (m14_ID c))"
  have id: "e14_ID (m14_event c) = m14_ID c" by (simp add: m14_event_def)
  have run: "m14_PublishCustomerCreated pub marshal (m14_event c) j = pub m14_SubjectCustomerCreated d (Some (m14_ID c)) j"
    by (simp add: m14_PublishCustomerCreated_def Inr id)
  have law: "msgs (m14_published pub marshal c j) \<in> {msgs j, msgs j @ [?m]}
      \<and> (fst (m14_PublishCustomerCreated pub marshal (m14_event c) j) = None \<and> Some (m14_ID c) \<notin> msg_ids (msgs j)
           \<longrightarrow> msgs (m14_published pub marshal c j) = msgs j @ [?m])"
    using assms unfolding jetstream_log_def m14_published_def run by blast
  have "m14_message marshal c ?m" by (simp add: m14_message_def Inr)
  with law added not_added show thesis by auto
qed

lemma m14_published_length:
  assumes "jetstream_log pub msgs"
  shows "length (msgs j) \<le> length (msgs (fold (m14_published pub marshal) cs j))
    \<and> length (msgs (fold (m14_published pub marshal) cs j)) \<le> length (msgs j) + length cs"
proof (induction cs arbitrary: j)
  case (Cons c cs)
  have "length (msgs j) \<le> length (msgs (m14_published pub marshal c j))
      \<and> length (msgs (m14_published pub marshal c j)) \<le> Suc (length (msgs j))"
    by (rule m14_published_one [OF assms, where c = c and j = j and marshal = marshal]) auto
  with Cons [of "m14_published pub marshal c j"] show ?case by simp
qed simp

text \<open>Some of a list, in order.\<close>

lemma m14_kept_in: "subseq kept cs \<Longrightarrow> c \<in> set kept \<Longrightarrow> c \<in> set cs"
  by (auto dest: list_emb_set)

lemma m14_kept_distinct: "subseq kept cs \<Longrightarrow> distinct (map f cs) \<Longrightarrow> distinct (map f kept)"
  by (auto simp: distinct_map subseq_conv_nths dest: in_set_nthsD intro: inj_on_subset)

lemma m14_kept_all:
  assumes "subseq kept cs" "distinct cs" "set cs \<subseteq> set kept"
  shows "kept = cs"
proof -
  have "distinct kept" using m14_kept_distinct [OF assms(1), of id] assms(2) by simp
  moreover have "set kept = set cs" using assms(3) m14_kept_in [OF assms(1)] by blast
  ultimately have "length kept = length cs" using assms(2) by (metis distinct_card)
  with assms(1) show ?thesis by (simp add: subseq_same_length)
qed

text \<open>Of customers published one after another, with identifiers of their own, some reach the stream, in that
  order, one message each; the publish of each of the others returned an error.\<close>

lemma m14_published_all:
  assumes "jetstream_log pub msgs"
  shows "distinct (map m14_ID cs) \<Longrightarrow> \<forall>c \<in> set cs. Some (m14_ID c) \<notin> msg_ids (msgs j)
    \<Longrightarrow> \<exists>kept ms. subseq kept cs \<and> list_all2 (m14_message marshal) kept ms
         \<and> msgs (fold (m14_published pub marshal) cs j) = msgs j @ ms
         \<and> set cs \<subseteq> set kept \<union> set (m14_refused pub marshal cs j)"
proof (induction cs arbitrary: j)
  case (Cons c cs)
  let ?j = "m14_published pub marshal c j"
  show ?case
  proof (rule m14_published_one [OF assms, where c = c and j = j and marshal = marshal])
    fix m assume m: "m14_message marshal c m" "msgs ?j = msgs j @ [m]"
    then have "snd (snd m) = Some (m14_ID c)" by (simp add: m14_message_def)
    then have "\<forall>x \<in> set cs. Some (m14_ID x) \<notin> msg_ids (msgs ?j)"
      using Cons.prems m(2) by (auto simp: msg_ids_def image_iff)
    then obtain kept ms where "subseq kept cs" "list_all2 (m14_message marshal) kept ms"
      "msgs (fold (m14_published pub marshal) cs ?j) = msgs ?j @ ms" "set cs \<subseteq> set kept \<union> set (m14_refused pub marshal cs ?j)"
      using Cons.IH [of ?j] Cons.prems(1) by auto
    with m show ?thesis by (intro exI [of _ "c # kept"] exI [of _ "m # ms"]) auto
  next
    assume same: "msgs ?j = msgs j"
      and err: "fst (m14_PublishCustomerCreated pub marshal (m14_event c) j) = None \<Longrightarrow> Some (m14_ID c) \<in> msg_ids (msgs j)"
    have "\<forall>x \<in> set cs. Some (m14_ID x) \<notin> msg_ids (msgs ?j)" using Cons.prems(2) same by simp
    then obtain kept ms where rest: "subseq kept cs" "list_all2 (m14_message marshal) kept ms"
      "msgs (fold (m14_published pub marshal) cs ?j) = msgs ?j @ ms" "set cs \<subseteq> set kept \<union> set (m14_refused pub marshal cs ?j)"
      using Cons.IH [of ?j] Cons.prems(1) by auto
    have "fst (m14_PublishCustomerCreated pub marshal (m14_event c) j) \<noteq> None" using err Cons.prems(2) by auto
    with rest same show ?thesis by (intro exI [of _ kept] exI [of _ ms]) auto
  qed
qed simp

lemma m14_published_unrefused:
  assumes "jetstream_log pub msgs" and "distinct (map m14_ID cs)" and "\<forall>c \<in> set cs. Some (m14_ID c) \<notin> msg_ids (msgs j)"
    and "m14_refused pub marshal cs j = []"
  shows "length (msgs (fold (m14_published pub marshal) cs j)) = length (msgs j) + length cs"
proof -
  from m14_published_all [OF assms(1-3), of marshal] obtain kept ms where kept: "subseq kept cs"
    "list_all2 (m14_message marshal) kept ms" "msgs (fold (m14_published pub marshal) cs j) = msgs j @ ms"
    "set cs \<subseteq> set kept \<union> set (m14_refused pub marshal cs j)" by blast
  then have "kept = cs" using assms(2,4) by (intro m14_kept_all) (auto simp: distinct_map)
  with kept(2,3) show ?thesis by (simp add: list_all2_lengthD)
qed

section \<open>The demo\<close>

text \<open>
  The five bodies of the demo with serial random bytes; a server that keeps a list of messages,
  events as their own payloads.
\<close>

definition demo14_req :: "string \<times> string \<Rightarrow> http_req" where
  "demo14_req b = \<lparr>rq_method = ''POST'', rq_path = ''/v1/customers'', rq_header = [], rq_query = [],
     rq_body = BodyJson (JObj [(''email'', JStr (fst b)), (''name'', JStr (snd b))]) 0 [], rq_rid = None\<rparr>"

definition demo14_posts :: "(int \<times> nat list \<times> http_req) list" where
  "demo14_posts = map (\<lambda>(k, b). (0, [0, 0, 0, 0, 0, k], demo14_req b)) (zip [1, 2, 3, 4, 5] m14_bodies)"

definition demo14_pub :: "(unit, m14_CustomerEvent, (string \<times> m14_CustomerEvent \<times> string option) list) publish_op" where
  "demo14_pub subject d i j =
     (None, if i \<noteq> None \<and> i \<in> (snd \<circ> snd) ` set j then j else j @ [(subject, d, i)])"

definition demo14_srv :: "(string \<times> m14_CustomerEvent \<times> string option) list m14_Handler srv" where
  "demo14_srv = \<lparr>sv_rw = new_rw, sv_log = [], sv_rid = 0, sv_st = m14_NewHandler []\<rparr>"

lemma demo14_accepts:
  "CHR ''@'' \<in> set (fst b) \<Longrightarrow> trim_space (snd b) \<noteq> [] \<Longrightarrow>
     m14_accepts now rnd (demo14_req b) = Some \<lparr>m14_ID = ''cus_'' @ hex_encode rnd, m14_Email = fst b,
       m14_Name = snd b, m14_CreatedAt = now\<rparr>"
  by (simp add: m14_accepts_def demo14_req_def decoder_decode_def decode_struct_def decode_field_def
      match_field_def field_def)

lemma demo14_names:
  "trim_space ''Ada'' \<noteq> []" "trim_space ''Bob'' \<noteq> []" "trim_space ''Cara'' \<noteq> []"
  "trim_space ''Dan'' \<noteq> []" "trim_space ''Eve'' \<noteq> []"
  by (rule trim_space_graphic, simp add: graphic_def)+

lemma demo14_accepted:
  "map m14_Name (m14_accepted demo14_posts) = [''Ada'', ''Bob'', ''Cara'', ''Dan'', ''Eve'']"
  "distinct (map m14_ID (m14_accepted demo14_posts))"
  by (simp_all add: demo14_posts_def m14_bodies_def demo14_accepts demo14_names hex_encode_inject)

theorem m14_create_spec_witness:
  "\<exists>s1. m14_Routes (m14_PublishCustomerCreated demo14_pub Inr) 0 [1, 2, 3, 4, 5, 6]
      (demo14_req ([], [])) demo14_srv = (None, s1)
    \<and> fst (answer s1) = Some 400 \<and> sv_st s1 = m14_NewHandler []"
proof -
  have none: "m14_accepts 0 [1, 2, 3, 4, 5, 6] (demo14_req ([], [])) = None"
    by (simp add: m14_accepts_def demo14_req_def decoder_decode_def decode_struct_def decode_field_def
        match_field_def field_def)
  have s: "answer demo14_srv = (None, [])" "rq_method (demo14_req ([], [])) = ''POST''"
    "rq_path (demo14_req ([], [])) = ''/v1/customers''"
    by (simp_all add: demo14_srv_def answer_def new_rw_def demo14_req_def)
  show ?thesis
    using m14_create_spec [OF s, of "m14_PublishCustomerCreated demo14_pub Inr" 0 "[1, 2, 3, 4, 5, 6]"] none
    by (auto simp: demo14_srv_def)
qed

end
