(* ===== verification/Guarded_Stores.thy ===== *)
theory Guarded_Stores
  imports M01_Customer M05_Grpc M09_Stream M10_Pulse M14_Capstone
begin

text \<open>
  The other objects the sources guard with a mutex, method by method and access by access: the
  repositories of M1, M5 and M10 and the stores of processed identifiers of M9 and M14. Each is an
  instance of \<open>guarded_object\<close>, so that the operations of its theory are atomic.
\<close>

section \<open>M1: the repository\<close>

fun m01_method ::
  "(m01_Customer, string) repo_call
     \<Rightarrow> lock_mode \<times> (m01_InMemoryRepo, ('x, m01_Customer, ('x, m01_Customer) go_result) repo_ret) body"
where
  "m01_method (CallCreate now c j) = (Lock,
     let c = c\<lparr>m01_CreatedAt := now, m01_UpdatedAt := now\<rparr> in
     writes (\<lambda>r. r\<lparr>m01_m := map_put (m01_ID c) c (m01_m r)\<rparr>) (Return (RetCreate (Inr c))))"
| "m01_method (CallRead i) = (RLock, reads (\<lambda>r.
     Return (RetRead (case map_of (m01_m r) i of None \<Rightarrow> Inl m01_ErrNotFound | Some c \<Rightarrow> Inr c))))"

interpretation m01_conc: guarded_object m01_method "repo_atomic m01_Create m01_ByID" "\<lambda>_. True"
proof
  fix c :: "(m01_Customer, string) repo_call" and r
  show "run_body (snd (m01_method c)) r = repo_atomic m01_Create m01_ByID c r"
    by (cases c) (simp_all add: m01_Create_def m01_ByID_def Let_def)
  show "fst (m01_method c) = RLock \<Longrightarrow> read_only (snd (m01_method c))" by (cases c) simp_all
qed simp

section \<open>M5: the repository of profiles\<close>

datatype m05_call = M5Get string | M5Upsert m05_Profile | M5AddEvent string m05_Event | M5Events string

datatype 'x m05_ret = R5Profile "('x, m05_Profile) go_result" | R5Done | R5Events "('x, m05_Event list) go_result"

text \<open>\<open>append\<close> reads the slice and then stores the longer one.\<close>

fun m05_method :: "m05_call \<Rightarrow> lock_mode \<times> (m05_InMemoryRepo, 'x m05_ret) body" where
  "m05_method (M5Get i) = (RLock, reads (\<lambda>r.
     Return (R5Profile (case map_of (m05_profiles r) i of None \<Rightarrow> Inl m05_ErrNotFound | Some p \<Rightarrow> Inr p))))"
| "m05_method (M5Upsert p) = (Lock,
     writes (\<lambda>r. r\<lparr>m05_profiles := map_put (pf_CustomerID p) p (m05_profiles r)\<rparr>) (Return (R5Profile (Inr p))))"
| "m05_method (M5AddEvent i e) = (Lock,
     reads (\<lambda>r. let es = (case map_of (m05_events r) i of None \<Rightarrow> [] | Some es \<Rightarrow> es) in
     writes (\<lambda>r. r\<lparr>m05_events := map_put i (es @ [e]) (m05_events r)\<rparr>) (Return R5Done)))"
| "m05_method (M5Events i) = (RLock, reads (\<lambda>r.
     Return (R5Events (Inr (case map_of (m05_events r) i of None \<Rightarrow> [] | Some es \<Rightarrow> es)))))"

fun m05_atomic :: "m05_call \<Rightarrow> m05_InMemoryRepo \<Rightarrow> 'x m05_ret \<times> m05_InMemoryRepo" where
  "m05_atomic (M5Get i) r = (R5Profile (m05_Get i r), r)"
| "m05_atomic (M5Upsert p) r = (let (res, r) = m05_Upsert p r in (R5Profile res, r))"
| "m05_atomic (M5AddEvent i e) r = (R5Done, m05_AddEvent i e r)"
| "m05_atomic (M5Events i) r = (R5Events (m05_Events i r), r)"

interpretation m05_conc: guarded_object m05_method m05_atomic "\<lambda>_. True"
proof
  fix c r
  show "run_body (snd (m05_method c)) r = m05_atomic c r"
    by (cases c) (simp_all add: m05_Get_def m05_Upsert_def m05_AddEvent_def m05_Events_def Let_def)
  show "fst (m05_method c) = RLock \<Longrightarrow> read_only (snd (m05_method c))" by (cases c) simp_all
qed simp

section \<open>M9 and M14: the stores of processed identifiers\<close>

datatype dedup_call = SeenCall string | MarkCall string

datatype dedup_ret = SeenRet bool | MarkRet

fun m09_dedup_method :: "dedup_call \<Rightarrow> lock_mode \<times> (m09_DedupStore, dedup_ret) body" where
  "m09_dedup_method (SeenCall i) = (Lock, reads (\<lambda>d. Return (SeenRet (map_of (m09_seen d) i \<noteq> None))))"
| "m09_dedup_method (MarkCall i) = (Lock, writes (\<lambda>d. d\<lparr>m09_seen := map_put i () (m09_seen d)\<rparr>) (Return MarkRet))"

fun m14_dedup_method :: "dedup_call \<Rightarrow> lock_mode \<times> (m14_DedupStore, dedup_ret) body" where
  "m14_dedup_method (SeenCall i) = (Lock, reads (\<lambda>d. Return (SeenRet (map_of (m14_seen d) i \<noteq> None))))"
| "m14_dedup_method (MarkCall i) = (Lock, writes (\<lambda>d. d\<lparr>m14_seen := map_put i () (m14_seen d)\<rparr>) (Return MarkRet))"

fun dedup_atomic ::
  "(string \<Rightarrow> 'd \<Rightarrow> bool) \<Rightarrow> (string \<Rightarrow> 'd \<Rightarrow> 'd) \<Rightarrow> dedup_call \<Rightarrow> 'd \<Rightarrow> dedup_ret \<times> 'd" where
  "dedup_atomic seen mark (SeenCall i) d = (SeenRet (seen i d), d)"
| "dedup_atomic seen mark (MarkCall i) d = (MarkRet, mark i d)"

interpretation m09_dedup_conc: guarded_object m09_dedup_method "dedup_atomic m09_Seen m09_Mark" "\<lambda>_. True"
proof
  fix c d
  show "run_body (snd (m09_dedup_method c)) d = dedup_atomic m09_Seen m09_Mark c d"
    by (cases c) (simp_all add: m09_Seen_def m09_Mark_def)
  show "fst (m09_dedup_method c) = RLock \<Longrightarrow> read_only (snd (m09_dedup_method c))" by (cases c) simp_all
qed simp

interpretation m14_dedup_conc: guarded_object m14_dedup_method "dedup_atomic m14_Seen m14_Mark" "\<lambda>_. True"
proof
  fix c d
  show "run_body (snd (m14_dedup_method c)) d = dedup_atomic m14_Seen m14_Mark c d"
    by (cases c) (simp_all add: m14_Seen_def m14_Mark_def)
  show "fst (m14_dedup_method c) = RLock \<Longrightarrow> read_only (snd (m14_dedup_method c))" by (cases c) simp_all
qed simp

section \<open>M10: the repository\<close>

definition m10_Create_body ::
  "((string, m10_Customer) gomap \<Rightarrow> (string, m10_Customer) gomap) \<Rightarrow> int \<Rightarrow> m10_Customer
     \<Rightarrow> lock_mode \<times> (m10_InMemoryRepo, (unit, m10_Customer, (unit, m10_Customer) go_result) repo_ret) body"
where
  "m10_Create_body ord now c = (Lock,
     range_over m10_m ord
       (\<lambda>e u. if m10_Email e = m10_Email c then Inl (RetCreate (Inl m10_ErrConflict)) else Inr u) () (\<lambda>_.
     reads (\<lambda>r. let n = add64 (m10_seq r) 1 in
     writes (\<lambda>r. r\<lparr>m10_seq := n\<rparr>) (
     reads (\<lambda>r. let c = c\<lparr>m10_ID := ''cus_'' @ m10_itoa (m10_seq r)\<rparr>; c = c\<lparr>m10_CreatedAt := now\<rparr> in
     writes (\<lambda>r. r\<lparr>m10_m := map_put (m10_ID c) c (m10_m r)\<rparr>) (
     Return (RetCreate (Inr c))))))))"

fun m10_method where
  "m10_method ord (CallCreate now c j) = m10_Create_body (ord (j::nat)) now c"
| "m10_method ord (CallRead i) = (RLock, reads (\<lambda>r.
     Return (RetRead (case map_of (m10_m r) i of None \<Rightarrow> Inl m10_ErrNotFound | Some c \<Rightarrow> Inr c))))"

lemma m10_method_run:
  assumes "map_wf (m10_m r)" and "\<forall>j. range_order (ord j)"
  shows "run_body (snd (m10_method ord c)) r = repo_atomic m10_Create m10_ByID c r"
proof (cases c)
  case (CallCreate now cu j)
  have "range_order (ord j)" using assms(2) by blast
  moreover from this have "(\<exists>v \<in> set (map snd (ord j (m10_m r))). m10_Email v = m10_Email cu)
      \<longleftrightarrow> list_ex (\<lambda>(k, e). m10_Email e = m10_Email cu) (m10_m r)"
    by (force simp: range_order_set list_ex_iff)
  ultimately show ?thesis using assms(1) CallCreate
    by (simp add: m10_Create_body_def run_range_over range_find m10_Create_def Let_def)
qed (simp add: m10_ByID_def)

interpretation m10_conc: guarded_object "m10_method ord" "repo_atomic m10_Create m10_ByID"
  "\<lambda>r. map_wf (m10_m r) \<and> (\<forall>j. range_order (ord j))" for ord
proof
  fix c r
  show "fst (m10_method ord c) = RLock \<Longrightarrow> read_only (snd (m10_method ord c))"
    by (cases c) (simp_all add: m10_Create_body_def)
  show "map_wf (m10_m r) \<and> (\<forall>j. range_order (ord j))
      \<Longrightarrow> run_body (snd (m10_method ord c)) r = repo_atomic m10_Create m10_ByID c r"
    by (blast intro: m10_method_run)
  show "map_wf (m10_m r) \<and> (\<forall>j. range_order (ord j))
      \<Longrightarrow> map_wf (m10_m (snd (repo_atomic m10_Create m10_ByID c r))) \<and> (\<forall>j. range_order (ord j))"
    by (cases c) (auto simp: m10_Create_def Let_def)
qed

text \<open>What holds of simultaneous creates in M4 holds here too.\<close>

lemma m10_concurrent_creates:
  assumes "\<forall>j. range_order (ord j)"
    and "(mutex_step (m10_method ord) prog)\<^sup>*\<^sup>* (quiet (replicate n []) m10_NewInMemoryRepo) (quiet rss r)"
    and "calls_made rss < 2 ^ 63"
  shows "distinct (map m10_ID (created_all rss)) \<and> distinct (map m10_Email (created_all rss))
    \<and> (\<forall>c \<in> set (created_all rss). m10_ByID (m10_ID c) r = Inr c)"
proof -
  have "map_wf (m10_m m10_NewInMemoryRepo) \<and> (\<forall>j. range_order (ord j))"
    using assms(1) by (simp add: m10_NewInMemoryRepo_def)
  from m10_conc.quiet_iff [OF this] assms(2)
  have "(atomic_step (repo_atomic m10_Create m10_ByID) prog)\<^sup>*\<^sup>* (replicate n [], m10_NewInMemoryRepo) (rss, r)"
    by blast
  from m10_repo.concurrent_creates_distinct [OF this] assms(3) show ?thesis by (simp add: max_int64_def)
qed

end
