(* ===== verification/M05_Serving.thy ===== *)
theory M05_Serving
  imports M05_Service Guarded_Stores Go_Serving
begin

text \<open>
  The profile service of \<open>m05-grpc\<close> under calls handled at the same time, as gRPC does it: each method of
  \<open>solution-profile/server.go\<close>, behind the generated handler and the interceptor chain, calls the repository
  at most once. It is split at that call, whose accesses interleave as in \<open>Guarded_Stores\<close>.
\<close>

section \<open>A call before and after its access to the repository\<close>

text \<open>What a client asks: the metadata and the message; the time the server reads; the stream's behaviour.\<close>

datatype 'x m05_rpc =
    RpcGet grpc_ctx pb_GetProfileRequest
  | RpcUpsert grpc_ctx int pb_UpsertProfileRequest
  | RpcList pb_ListEventsRequest "'x server_stream"

datatype 'x m05_answer =
    UnaryAnswer "panic + ('x, pb_Profile) go_result"
  | StreamAnswer "'x go_error option \<times> pb_Event list"

abbreviation m05_refuse :: "'x go_error \<Rightarrow> 'x m05_answer" where
  "m05_refuse e \<equiv> UnaryAnswer (Inr (Inl e))"

fun m05_before :: "('x, 'k) grpc \<Rightarrow> string \<Rightarrow> 'x m05_rpc \<Rightarrow> 'x m05_answer + m05_call" where
  "m05_before g token (RpcGet ctx req) =
     (if \<not> m05_authorized token ctx then Inl (m05_refuse (gs_Error g (c_Unauthenticated g) ''invalid token''))
      else if pbg_CustomerId req = [] then Inl (m05_refuse (gs_Error g (c_InvalidArgument g) ''customer_id is required''))
      else Inr (M5Get (pbg_CustomerId req)))"
| "m05_before g token (RpcUpsert ctx now req) =
     (if \<not> m05_authorized token ctx then Inl (m05_refuse (gs_Error g (c_Unauthenticated g) ''invalid token''))
      else if pbu_CustomerId req = [] then Inl (m05_refuse (gs_Error g (c_InvalidArgument g) ''customer_id is required''))
      else Inr (M5Upsert \<lparr>pf_CustomerID = pbu_CustomerId req, pf_Traits = pbu_Traits req, pf_UpdatedAt = now\<rparr>))"
| "m05_before g token (RpcList req stream) =
     (if pbl_CustomerId req = []
      then Inl (StreamAnswer (Some (gs_Error g (c_InvalidArgument g) ''customer_id is required''), []))
      else Inr (M5Events (pbl_CustomerId req)))"

text \<open>\<open>GetProfile\<close> tells a missing profile from other errors.\<close>

definition m05_got :: "('x, 'k) grpc \<Rightarrow> string \<Rightarrow> ('x, m05_Profile) go_result \<Rightarrow> ('x, pb_Profile) go_result" where
  "m05_got g i res =
     (if errors_is (res_err res) ''m05/profile.ErrNotFound''
      then Inl (gs_Error g (c_NotFound g) (''profile '' @ fmt_q i @ '' not found''))
      else case res of Inl e \<Rightarrow> Inl (gs_Error g (c_Internal g) ''internal error'') | Inr p \<Rightarrow> Inr (m05_toProto p))"

definition m05_saved :: "('x, 'k) grpc \<Rightarrow> ('x, m05_Profile) go_result \<Rightarrow> ('x, pb_Profile) go_result" where
  "m05_saved g res =
     (case res of Inl e \<Rightarrow> Inl (gs_Error g (c_Internal g) ''internal error'') | Inr p \<Rightarrow> Inr (m05_toProto p))"

definition m05_sent :: "('x, 'k) grpc \<Rightarrow> 'x server_stream \<Rightarrow> ('x, m05_Event list) go_result \<Rightarrow> 'x go_error option \<times> pb_Event list" where
  "m05_sent g stream res =
     (case res of Inl e \<Rightarrow> (Some (gs_Error g (c_Internal g) ''internal error''), [])
      | Inr es \<Rightarrow> m05_stream (st_done stream) (st_send stream) 0 es)"

text \<open>The results of the repository, read as the method that made the call reads them.\<close>

fun ret_profile :: "'x m05_ret \<Rightarrow> ('x, m05_Profile) go_result" where
  "ret_profile (R5Profile res) = res"
| "ret_profile v = Inl m05_ErrNotFound"

fun ret_events :: "'x m05_ret \<Rightarrow> ('x, m05_Event list) go_result" where
  "ret_events (R5Events res) = res"
| "ret_events v = Inr []"

fun m05_after :: "('x, 'k) grpc \<Rightarrow> 'x m05_rpc \<Rightarrow> 'x m05_ret \<Rightarrow> 'x m05_answer" where
  "m05_after g (RpcGet ctx req) v = UnaryAnswer (Inr (m05_got g (pbg_CustomerId req) (ret_profile v)))"
| "m05_after g (RpcUpsert ctx now req) v = UnaryAnswer (Inr (m05_saved g (ret_profile v)))"
| "m05_after g (RpcList req stream) v = StreamAnswer (m05_sent g stream (ret_events v))"

text \<open>The whole service on one call, from an empty log: the handlers of the generated table around the
  server, with the chain. \<open>GetProfile\<close> and \<open>ListEvents\<close> do not read the time.\<close>

fun m05_serve_one ::
  "('x, 'k) grpc \<Rightarrow> string \<Rightarrow> 'x m05_rpc \<Rightarrow> m05_InMemoryRepo \<Rightarrow> 'x m05_answer \<times> m05_InMemoryRepo" where
  "m05_serve_one g token (RpcGet ctx req) repo =
     (let (res, s) = GetProfile_Handler (m05_NewServer g 0) ctx (\<lambda>_. Inr (AnyGet req)) (Some (m05_chain g token))
                       \<lparr>gs_log = [], gs_st = repo\<rparr>
      in (UnaryAnswer res, gs_st s))"
| "m05_serve_one g token (RpcUpsert ctx now req) repo =
     (let (res, s) = UpsertProfile_Handler (m05_NewServer g now) ctx (\<lambda>_. Inr (AnyUpsert req)) (Some (m05_chain g token))
                       \<lparr>gs_log = [], gs_st = repo\<rparr>
      in (UnaryAnswer res, gs_st s))"
| "m05_serve_one g token (RpcList req stream) repo =
     (StreamAnswer (ListEvents_Handler (m05_NewServer g 0) (\<lambda>_. Inr req) stream \<lparr>gs_log = [], gs_st = repo\<rparr>), repo)"

section \<open>The two halves are the service\<close>

definition m05_outcome where
  "m05_outcome g token q repo =
     (case m05_before g token q of
        Inl a \<Rightarrow> (a, repo)
      | Inr c \<Rightarrow> (let (v, repo') = m05_atomic c repo in (m05_after g q v, repo')))"

lemma m05_GetProfile_eq:
  "m05_GetProfile g m05_Get ctx i s =
     (if i = [] then (Inr (Inl (gs_Error g (c_InvalidArgument g) ''customer_id is required'')), s)
      else (Inr (m05_got g i (m05_Get i (gs_st s))), s))"
  by (simp add: m05_GetProfile_def m05_got_def Let_def split: sum.split)

lemma m05_UpsertProfile_eq:
  "m05_UpsertProfile g m05_Upsert now ctx (i, traits) s =
     (if i = [] then (Inr (Inl (gs_Error g (c_InvalidArgument g) ''customer_id is required'')), s)
      else let (res, r) = m05_Upsert \<lparr>pf_CustomerID = i, pf_Traits = traits, pf_UpdatedAt = now\<rparr> (gs_st s)
           in (Inr (m05_saved g res), s\<lparr>gs_st := r\<rparr>))"
  by (simp add: m05_UpsertProfile_def m05_saved_def Let_def case_prod_beta split: sum.split)

lemma m05_served: "m05_serve_one g token q repo = m05_outcome g token q repo"
proof (cases q)
  case (RpcGet ctx req)
  then show ?thesis
    by (simp add: GetProfile_served m05_serve_Get_def m05_chain_eq m05_GetProfile_eq m05_outcome_def glog_def)
next
  case (RpcUpsert ctx now req)
  then show ?thesis
    by (simp add: UpsertProfile_served m05_serve_Upsert_def m05_chain_eq m05_UpsertProfile_eq m05_outcome_def glog_def
        case_prod_beta Let_def)
next
  case (RpcList req stream)
  then show ?thesis
    by (simp add: ListEvents_Handler_def m05_NewServer_def m05_ListEvents_def ListEventsRequest_GetCustomerId_def
        m05_outcome_def m05_sent_def split: sum.split)
qed

section \<open>Calls at the same time\<close>

interpretation m05_server: one_call_server m05_method m05_atomic "\<lambda>_. True"
    "m05_serve_one g token" "m05_before g token" "m05_after g"
  for g token
  by unfold_locales
    (use m05_conc.run_op m05_conc.readers_read in \<open>auto simp: m05_served m05_outcome_def case_prod_beta\<close>)

text \<open>Calls handled at the same time, their accesses to the repository interleaved as the lock
  allows, are answered as in some order of handling them one after another, which leaves the same
  profiles and events. The log, whose lines the calls append when they return, is not part of it.\<close>

theorem m05_calls_linearize:
  assumes "(mutex_step m05_method (one_call (m05_before g token) qs))\<^sup>*\<^sup>* (quiet (replicate (length qs) []) repo) (quiet rss repo')"
    and "all_returned (m05_before g token) qs rss"
  shows "\<exists>is. distinct is \<and> set is = {..<length qs}
    \<and> serve_all (m05_serve_one g token) (map ((!) qs) is) repo
      = (map (\<lambda>i. answer_to (m05_before g token) (m05_after g) (qs ! i) (rss ! i)) is, repo')"
  using assms by (intro m05_server.concurrent_requests) simp_all

end
