(* ===== verification/M06_Postgres.thy ===== *)
theory M06_Postgres
  imports Go_Errors Go_Time "HOL-Library.AList"
begin

text \<open>
  \<open>m06-postgresql\<close>: the repository over Postgres. The driver (pgx) and the database are the
  parameter \<open>pg\<close>, indexed by the text of the statement (white space aside): one row or many rows
  of customers, a number, the execution of a statement, the beginning and the commit of a
  transaction. A transaction works on a view of the database that only a commit makes the
  database; a rollback forgets the view. Random bytes are arguments.
\<close>

section \<open>The domain\<close>

record m06_Customer =
  m06_ID :: string
  m06_Email :: string
  m06_Name :: string
  m06_CreatedAt :: int
  m06_UpdatedAt :: int

definition m06_ErrNotFound :: "'x go_error" where
  "m06_ErrNotFound = ErrNew ''m06/customer.ErrNotFound'' ''customer: not found''"

definition m06_ErrConflict :: "'x go_error" where
  "m06_ErrConflict = ErrNew ''m06/customer.ErrConflict'' ''customer: already exists''"

definition m06_Validate :: "m06_Customer \<Rightarrow> 'x go_error option" where
  "m06_Validate c =
     (if \<not> contains (m06_Email c) ''@'' then Some (ErrNew [] ''email must contain @'')
      else if trim_space (m06_Name c) = [] then Some (ErrNew [] ''name must not be empty'')
      else None)"

definition m06_newID :: "nat list \<Rightarrow> string" where
  "m06_newID b = ''cus_'' @ hex_encode b"

section \<open>The driver\<close>

text \<open>A row of \<open>customers\<close>, its columns in the order of the statements.\<close>

type_synonym m06_row = "string \<times> string \<times> string \<times> int \<times> int"

record ('x, 'd) pg =
  pg_code :: "'x \<Rightarrow> string option"
  pg_row :: "string \<Rightarrow> string list \<Rightarrow> 'd \<Rightarrow> ('x, m06_row) go_result \<times> 'd"
  pg_rows :: "string \<Rightarrow> int list \<Rightarrow> 'd
     \<Rightarrow> ('x, ('x, m06_row) go_result list \<times> 'x go_error option) go_result"
  pg_int :: "string \<Rightarrow> string list \<Rightarrow> 'd \<Rightarrow> ('x, int) go_result"
  pg_exec :: "string \<Rightarrow> string list \<Rightarrow> 'd \<Rightarrow> 'x go_error option \<times> 'd"
  pg_begin :: "'d \<Rightarrow> 'x go_error option"
  pg_commit :: "'d \<Rightarrow> 'd \<Rightarrow> 'x go_error option \<times> 'd"

text \<open>\<open>errors.As\<close> with a \<open>*pgconn.PgError\<close>, and the sentinel \<open>pgx.ErrNoRows\<close>.\<close>

definition pg_code_of :: "('x, 'd) pg \<Rightarrow> 'x go_error option \<Rightarrow> string option" where
  "pg_code_of pg err = errors_as (as_other (pg_code pg)) err"

definition pg_ErrNoRows :: string where
  "pg_ErrNoRows = ''pgx.ErrNoRows''"

definition q_insert_customer :: string where
  "q_insert_customer = ''INSERT INTO customers (id, email, name) VALUES ($1, $2, $3) RETURNING id, email, name, created_at, updated_at''"

definition q_customer_by_id :: string where
  "q_customer_by_id = ''SELECT id, email, name, created_at, updated_at FROM customers WHERE id = $1''"

definition q_list_customers :: string where
  "q_list_customers = ''SELECT id, email, name, created_at, updated_at FROM customers ORDER BY created_at DESC LIMIT $1 OFFSET $2''"

definition q_insert_campaign :: string where
  "q_insert_campaign = ''INSERT INTO campaigns (id, name) VALUES ($1, $2)''"

definition q_insert_enrollment :: string where
  "q_insert_enrollment = ''INSERT INTO enrollments (customer_id, campaign_id) VALUES ($1, $2)''"

definition q_bump_count :: string where
  "q_bump_count = ''UPDATE campaigns SET enrolled_count = enrolled_count + 1 WHERE id = $1''"

definition q_enrolled_count :: string where
  "q_enrolled_count = ''SELECT enrolled_count FROM campaigns WHERE id = $1''"

section \<open>The repository\<close>

text \<open>\<open>Scan\<close> assigns the columns to the fields in their order, or fails.\<close>

definition m06_scanCustomer :: "('x, m06_row) go_result \<Rightarrow> ('x, m06_Customer) go_result" where
  "m06_scanCustomer row =
     (case row of
        Inl err \<Rightarrow> Inl err
      | Inr (i, e, n, created, updated) \<Rightarrow>
          Inr \<lparr>m06_ID = i, m06_Email = e, m06_Name = n, m06_CreatedAt = created, m06_UpdatedAt = updated\<rparr>)"

lemma m06_scan_simps [simp]:
  "m06_scanCustomer (Inl err) = Inl err"
  "m06_scanCustomer (Inr (i, e, n, created, updated))
     = Inr \<lparr>m06_ID = i, m06_Email = e, m06_Name = n, m06_CreatedAt = created, m06_UpdatedAt = updated\<rparr>"
  by (simp_all add: m06_scanCustomer_def)

lemma m06_scan_Inl [simp]: "m06_scanCustomer row = Inl err \<longleftrightarrow> row = Inl err"
  by (auto simp: m06_scanCustomer_def split: sum.split)

definition m06_Create ::
  "('x, 'd) pg \<Rightarrow> nat list \<Rightarrow> m06_Customer \<Rightarrow> 'd \<Rightarrow> ('x, m06_Customer) go_result \<times> 'd" where
  "m06_Create pg b c d =
     (let (row, d) = pg_row pg q_insert_customer [m06_newID b, m06_Email c, m06_Name c] d;
          out = m06_scanCustomer row
      in if pg_code_of pg (res_err out) = Some ''23505'' then (Inl m06_ErrConflict, d)
         else case out of
                Inl e \<Rightarrow> (Inl (ErrWrap ''create customer'' e), d)
              | Inr c \<Rightarrow> (Inr c, d))"

definition m06_ByID :: "('x, 'd) pg \<Rightarrow> string \<Rightarrow> 'd \<Rightarrow> ('x, m06_Customer) go_result" where
  "m06_ByID pg i d =
     (let out = m06_scanCustomer (fst (pg_row pg q_customer_by_id [i] d))
      in if errors_is (res_err out) pg_ErrNoRows then Inl m06_ErrNotFound
         else case out of
                Inl e \<Rightarrow> Inl (ErrWrap ''byID'' e)
              | Inr c \<Rightarrow> Inr c)"

fun m06_scan_all :: "('x, m06_row) go_result list \<Rightarrow> ('x, m06_Customer list) go_result" where
  "m06_scan_all [] = Inr []"
| "m06_scan_all (row # rows) =
     (case m06_scanCustomer row of
        Inl e \<Rightarrow> Inl (ErrWrap ''scan'' e)
      | Inr c \<Rightarrow> (case m06_scan_all rows of Inl e \<Rightarrow> Inl e | Inr cs \<Rightarrow> Inr (c # cs)))"

definition m06_List ::
  "('x, 'd) pg \<Rightarrow> int \<Rightarrow> int \<Rightarrow> 'd \<Rightarrow> ('x, m06_Customer list) go_result" where
  "m06_List pg limit offset d =
     (let limit = (if limit \<le> 0 then 20 else limit)
      in case pg_rows pg q_list_customers [limit, offset] d of
           Inl e \<Rightarrow> Inl (ErrWrap ''list query'' e)
         | Inr (rows, rows_err) \<Rightarrow>
             (case m06_scan_all rows of
                Inl e \<Rightarrow> Inl e
              | Inr out \<Rightarrow> (case rows_err of Some e \<Rightarrow> Inl e | None \<Rightarrow> Inr out)))"

text \<open>\<open>inTx\<close>: the deferred rollback forgets the view unless the commit has happened.\<close>

definition m06_inTx ::
  "('x, 'd) pg \<Rightarrow> ('d \<Rightarrow> 'x go_error option \<times> 'd) \<Rightarrow> 'd \<Rightarrow> 'x go_error option \<times> 'd" where
  "m06_inTx pg fn d =
     (case pg_begin pg d of
        Some e \<Rightarrow> (Some e, d)
      | None \<Rightarrow>
          (let (err, view) = fn d
           in case err of
                Some e \<Rightarrow> (Some e, d)
              | None \<Rightarrow> pg_commit pg d view))"

definition m06_CreateCampaign ::
  "('x, 'd) pg \<Rightarrow> nat list \<Rightarrow> string \<Rightarrow> 'd \<Rightarrow> ('x, string) go_result \<times> 'd" where
  "m06_CreateCampaign pg b name d =
     (let i = ''cmp_'' @ hex_encode b;
          (err, d) = pg_exec pg q_insert_campaign [i, name] d
      in case err of
           Some e \<Rightarrow> (Inl (ErrWrap ''create campaign'' e), d)
         | None \<Rightarrow> (Inr i, d))"

definition m06_enroll_fn ::
  "('x, 'd) pg \<Rightarrow> string \<Rightarrow> string \<Rightarrow> 'd \<Rightarrow> 'x go_error option \<times> 'd" where
  "m06_enroll_fn pg customerID campaignID tx =
     (let (err, tx) = pg_exec pg q_insert_enrollment [customerID, campaignID] tx
      in case err of
           Some e \<Rightarrow>
             (case pg_code_of pg (Some e) of
                Some code \<Rightarrow>
                  (if code = ''23503'' then (Some m06_ErrNotFound, tx)
                   else if code = ''23505'' then (Some m06_ErrConflict, tx)
                   else (Some (ErrWrap ''insert enrollment'' e), tx))
              | None \<Rightarrow> (Some (ErrWrap ''insert enrollment'' e), tx))
         | None \<Rightarrow>
             (let (err, tx) = pg_exec pg q_bump_count [campaignID] tx
              in case err of
                   Some e \<Rightarrow> (Some (ErrWrap ''bump count'' e), tx)
                 | None \<Rightarrow> (None, tx)))"

definition m06_EnrollCustomer ::
  "('x, 'd) pg \<Rightarrow> string \<Rightarrow> string \<Rightarrow> 'd \<Rightarrow> 'x go_error option \<times> 'd" where
  "m06_EnrollCustomer pg customerID campaignID d =
     m06_inTx pg (m06_enroll_fn pg customerID campaignID) d"

definition m06_CampaignEnrolledCount :: "('x, 'd) pg \<Rightarrow> string \<Rightarrow> 'd \<Rightarrow> ('x, int) go_result" where
  "m06_CampaignEnrolledCount pg campaignID d = pg_int pg q_enrolled_count [campaignID] d"

section \<open>What the transaction relies on\<close>

text \<open>
  What the statements of \<open>EnrollCustomer\<close> see of the database: the identifiers of the customers, the campaigns
  with their counters, and the enrollments.
\<close>

record m06_tables =
  t6_customers :: "string set"
  t6_counts :: "string \<Rightarrow> int option"
  t6_enrollments :: "(string \<times> string) list"

text \<open>
  Documented behaviour of the database over these tables while no other client is at work on it. The insert adds a pair that was not there
  (the primary key) of a customer and a campaign that are (the foreign keys); it reports one of the two
  violations only if there is one. The update adds one to the counter of the campaign, and changes nothing, without an
  error, when there is no such campaign. A statement that fails may leave anything in the view. A commit that
  succeeds makes the view the database; one that fails may or may not have done so. The errors of
  the driver are not the variables of this package.
\<close>

definition pg_foreign :: "'x go_error \<Rightarrow> bool" where
  "pg_foreign e \<longleftrightarrow> e \<noteq> m06_ErrNotFound \<and> e \<noteq> m06_ErrConflict"

definition m06_counted :: "string \<Rightarrow> m06_tables \<Rightarrow> m06_tables" where
  "m06_counted k t = t\<lparr>t6_counts := (t6_counts t)(k := map_option (\<lambda>n. n + 1) (t6_counts t k))\<rparr>"

definition m06_linked :: "string \<Rightarrow> string \<Rightarrow> m06_tables \<Rightarrow> m06_tables" where
  "m06_linked c k t = t\<lparr>t6_enrollments := t6_enrollments t @ [(c, k)]\<rparr>"

definition pg_laws :: "('x, 'd) pg \<Rightarrow> ('d \<Rightarrow> m06_tables) \<Rightarrow> bool" where
  "pg_laws pg tab \<longleftrightarrow>
     (\<forall>c k d d'. pg_exec pg q_insert_enrollment [c, k] d = (None, d')
         \<longrightarrow> (c, k) \<notin> set (t6_enrollments (tab d)) \<and> c \<in> t6_customers (tab d) \<and> k \<in> dom (t6_counts (tab d))
           \<and> tab d' = m06_linked c k (tab d))
     \<and> (\<forall>c k d e d'. pg_exec pg q_insert_enrollment [c, k] d = (Some e, d')
         \<longrightarrow> (pg_code_of pg (Some e) = Some ''23503'' \<longrightarrow> c \<notin> t6_customers (tab d) \<or> k \<notin> dom (t6_counts (tab d)))
           \<and> (pg_code_of pg (Some e) = Some ''23505'' \<longrightarrow> (c, k) \<in> set (t6_enrollments (tab d))))
     \<and> (\<forall>k d d'. pg_exec pg q_bump_count [k] d = (None, d') \<longrightarrow> tab d' = m06_counted k (tab d))
     \<and> (\<forall>d e. pg_begin pg d = Some e \<longrightarrow> pg_foreign e)
     \<and> (\<forall>d v d'. pg_commit pg d v = (None, d') \<longrightarrow> d' = v)
     \<and> (\<forall>d v e d'. pg_commit pg d v = (Some e, d') \<longrightarrow> (d' = d \<or> d' = v) \<and> pg_foreign e)"

lemma pg_lawsD:
  assumes "pg_laws pg tab"
  shows "pg_exec pg q_insert_enrollment [c, k] d = (None, d') \<Longrightarrow>
      (c, k) \<notin> set (t6_enrollments (tab d)) \<and> c \<in> t6_customers (tab d) \<and> k \<in> dom (t6_counts (tab d))
      \<and> tab d' = m06_linked c k (tab d)"
    and "pg_exec pg q_insert_enrollment [c, k] d = (Some e, d') \<Longrightarrow>
      (pg_code_of pg (Some e) = Some ''23503'' \<longrightarrow> c \<notin> t6_customers (tab d) \<or> k \<notin> dom (t6_counts (tab d)))
      \<and> (pg_code_of pg (Some e) = Some ''23505'' \<longrightarrow> (c, k) \<in> set (t6_enrollments (tab d)))"
    and "pg_exec pg q_bump_count [k] d = (None, d') \<Longrightarrow> tab d' = m06_counted k (tab d)"
    and "pg_begin pg d = Some e \<Longrightarrow> pg_foreign e"
    and "pg_commit pg d v = (None, d') \<Longrightarrow> d' = v"
    and "pg_commit pg d v = (Some e, d') \<Longrightarrow> (d' = d \<or> d' = v) \<and> pg_foreign e"
  using assms unfolding pg_laws_def by meson+

text \<open>Nobody is enrolled twice, only customers are enrolled and only in campaigns, and each counter is the
  number of the campaign's enrollments.\<close>

definition m06_consistent :: "m06_tables \<Rightarrow> bool" where
  "m06_consistent t \<longleftrightarrow> distinct (t6_enrollments t)
     \<and> (\<forall>(c, k) \<in> set (t6_enrollments t). c \<in> t6_customers t \<and> k \<in> dom (t6_counts t))
     \<and> (\<forall>k n. t6_counts t k = Some n \<longrightarrow> n = int (length (filter (\<lambda>p. snd p = k) (t6_enrollments t))))"

text \<open>What an enrollment makes of the tables.\<close>

definition m06_enrolled :: "string \<Rightarrow> string \<Rightarrow> m06_tables \<Rightarrow> m06_tables" where
  "m06_enrolled c k t = m06_counted k (m06_linked c k t)"

lemma m06_enrolled_consistent:
  assumes "m06_consistent t" and "(c, k) \<notin> set (t6_enrollments t)" and "c \<in> t6_customers t" and "k \<in> dom (t6_counts t)"
  shows "m06_consistent (m06_enrolled c k t)"
proof -
  let ?t = "m06_enrolled c k t"
  have enr: "t6_enrollments ?t = t6_enrollments t @ [(c, k)]" "t6_customers ?t = t6_customers t"
    and cnt: "t6_counts ?t = (t6_counts t)(k := map_option (\<lambda>n. n + 1) (t6_counts t k))"
    by (simp_all add: m06_enrolled_def m06_counted_def m06_linked_def)
  have "n = int (length (filter (\<lambda>p. snd p = j) (t6_enrollments ?t)))" if "t6_counts ?t j = Some n" for j n
    using that assms(1) unfolding cnt enr m06_consistent_def by (cases "j = k") auto
  moreover have "x \<in> t6_customers ?t \<and> j \<in> dom (t6_counts ?t)" if "(x, j) \<in> set (t6_enrollments ?t)" for x j
  proof -
    have "x \<in> t6_customers t \<and> j \<in> dom (t6_counts t)"
      using that assms(1,3,4) unfolding enr m06_consistent_def by auto
    then show ?thesis by (auto simp: enr cnt)
  qed
  moreover have "distinct (t6_enrollments ?t)" using assms(1,2) by (simp add: m06_consistent_def enr(1))
  ultimately show ?thesis unfolding m06_consistent_def by blast
qed

text \<open>How a transaction ends: rolled back with the error of its begin or its function, or with what the commit says.\<close>

lemma m06_inTx_cases:
  assumes "m06_inTx pg fn d = (err, d')"
  obtains (not_begun) e where "pg_begin pg d = Some e" "err = Some e" "d' = d"
  | (rolled_back) e v where "fn d = (Some e, v)" "err = Some e" "d' = d"
  | (committed) v where "fn d = (None, v)" "pg_commit pg d v = (err, d')"
proof (cases "pg_begin pg d")
  case (Some e)
  show thesis by (rule not_begun [OF Some]) (use assms Some in \<open>simp_all add: m06_inTx_def\<close>)
next
  case begun: None
  obtain x v where fn: "fn d = (x, v)" by (cases "fn d")
  show thesis
  proof (cases x)
    case None
    show thesis by (rule committed [of v]) (use assms begun None fn in \<open>simp_all add: m06_inTx_def\<close>)
  next
    case (Some e)
    show thesis by (rule rolled_back [of e v]) (use assms begun Some fn in \<open>simp_all add: m06_inTx_def\<close>)
  qed
qed

lemma m06_enroll_fn_done:
  assumes "pg_laws pg tab" and "m06_enroll_fn pg c k d = (None, v)"
  shows "(c, k) \<notin> set (t6_enrollments (tab d)) \<and> c \<in> t6_customers (tab d) \<and> k \<in> dom (t6_counts (tab d))
    \<and> tab v = m06_enrolled c k (tab d)"
proof -
  obtain d1 where d1: "pg_exec pg q_insert_enrollment [c, k] d = (None, d1)" "pg_exec pg q_bump_count [k] d1 = (None, v)"
    using assms(2) by (auto simp: m06_enroll_fn_def split: option.splits prod.splits if_splits)
  from pg_lawsD(1) [OF assms(1) d1(1)] pg_lawsD(3) [OF assms(1) d1(2)] show ?thesis by (simp add: m06_enrolled_def)
qed

lemma m06_enroll_fn_refused:
  assumes "pg_laws pg tab" and "m06_enroll_fn pg c k d = (Some e, v)"
  shows "(e = m06_ErrNotFound \<longrightarrow> c \<notin> t6_customers (tab d) \<or> k \<notin> dom (t6_counts (tab d)))
    \<and> (e = m06_ErrConflict \<longrightarrow> (c, k) \<in> set (t6_enrollments (tab d)))"
proof (cases "pg_exec pg q_insert_enrollment [c, k] d")
  case (Pair err d1)
  show ?thesis
  proof (cases err)
    case None
    with assms(2) Pair show ?thesis
      by (auto simp: m06_enroll_fn_def m06_ErrNotFound_def m06_ErrConflict_def split: option.splits prod.splits)
  next
    case (Some e1)
    from pg_lawsD(2) [OF assms(1) Pair [unfolded Some]] assms(2) Pair Some show ?thesis
      by (auto simp: m06_enroll_fn_def m06_ErrNotFound_def m06_ErrConflict_def split: option.splits if_splits)
  qed
qed

section \<open>Properties\<close>

text \<open>C13 (invariant). Enrolling is all or nothing, whatever statement, begin or commit fails. On
  success the customer and the campaign were there, the pair was not, and exactly the enrollment and one
  count are added. On an error the database is as it was, unless it is the commit that failed, and then
  either as it was or with both the enrollment and the count. \<open>ErrNotFound\<close> is returned only for an unknown
  customer or campaign and \<open>ErrConflict\<close> only for somebody enrolled, and both change nothing. So the counters always agree
  with the enrollments, and nobody is enrolled twice.\<close>

theorem m06_enroll_atomic:
  assumes "pg_laws pg tab" and "m06_consistent (tab d)"
    and "m06_EnrollCustomer pg c k d = (err, d')"
  shows "m06_consistent (tab d')
    \<and> (err = None \<longrightarrow> (c, k) \<notin> set (t6_enrollments (tab d)) \<and> c \<in> t6_customers (tab d) \<and> k \<in> dom (t6_counts (tab d))
         \<and> tab d' = m06_enrolled c k (tab d))
    \<and> (err \<noteq> None \<longrightarrow> d' = d \<or> (\<exists>v. pg_commit pg d v = (err, d')) \<and> tab d' \<in> {tab d, m06_enrolled c k (tab d)})
    \<and> (err = Some m06_ErrNotFound \<longrightarrow> d' = d \<and> (c \<notin> t6_customers (tab d) \<or> k \<notin> dom (t6_counts (tab d))))
    \<and> (err = Some m06_ErrConflict \<longrightarrow> d' = d \<and> (c, k) \<in> set (t6_enrollments (tab d)))"
  using assms(3) unfolding m06_EnrollCustomer_def
proof (cases rule: m06_inTx_cases)
  case (not_begun e)
  from pg_lawsD(4) [OF assms(1) not_begun(1)] have "pg_foreign e" .
  with not_begun assms(2) show ?thesis by (simp add: pg_foreign_def)
next
  case (rolled_back e v)
  with m06_enroll_fn_refused [OF assms(1) rolled_back(1)] assms(2) show ?thesis by simp
next
  case (committed v)
  note fin = m06_enroll_fn_done [OF assms(1) committed(1)]
  with assms(2) have consistent: "m06_consistent (tab v)" by (auto intro: m06_enrolled_consistent)
  show ?thesis
  proof (cases err)
    case None
    with committed(2) have "d' = v" by (auto intro: pg_lawsD(5) [OF assms(1)])
    with None fin consistent show ?thesis by simp
  next
    case (Some e)
    with committed(2) have "(d' = d \<or> d' = v) \<and> pg_foreign e" by (intro pg_lawsD(6) [OF assms(1)]) simp
    with Some fin consistent assms(2) committed(2) show ?thesis by (auto simp: pg_foreign_def)
  qed
qed

text \<open>Remark (error). Driver errors become domain errors exactly when they should: a unique violation,
  however wrapped, is the conflict on create and on enrolling, a foreign-key violation the
  unknown customer or campaign, no row the unknown customer; any other error keeps its chain, so
  that \<open>errors.Is\<close> sees through it.\<close>

theorem m06_error_mapping:
  assumes "pg_row pg q_insert_customer [m06_newID b, m06_Email c, m06_Name c] d = (Inl e1, d1)"
    and "pg_row pg q_customer_by_id [i] d = (Inl e2, d2)"
    and "pg_begin pg d = None" and "pg_exec pg q_insert_enrollment [c', k] d = (Some e3, d3)"
  shows "fst (m06_Create pg b c d) =
      Inl (if pg_code_of pg (Some e1) = Some ''23505'' then m06_ErrConflict
           else ErrWrap ''create customer'' e1)
    \<and> m06_ByID pg i d =
      Inl (if errors_is (Some e2) pg_ErrNoRows then m06_ErrNotFound else ErrWrap ''byID'' e2)
    \<and> m06_EnrollCustomer pg c' k d =
      (Some (if pg_code_of pg (Some e3) = Some ''23503'' then m06_ErrNotFound
             else if pg_code_of pg (Some e3) = Some ''23505'' then m06_ErrConflict
             else ErrWrap ''insert enrollment'' e3), d)"
  using assms
  by (auto simp: m06_Create_def m06_ByID_def m06_EnrollCustomer_def m06_inTx_def m06_enroll_fn_def
      split: option.splits)

section \<open>A database with these laws\<close>

text \<open>Customers, campaigns with their counters, and the enrollments; every other statement fails. The commit of a
  second campaign's enrollment loses its answer.\<close>

type_synonym demo_db = "string list \<times> (string \<times> int) list \<times> (string \<times> string) list"

definition demo_exec :: "string \<Rightarrow> string list \<Rightarrow> demo_db \<Rightarrow> string go_error option \<times> demo_db" where
  "demo_exec q args db =
     (let (us, cs, es) = db
      in case args of
           [c, k] \<Rightarrow>
             (if q = q_insert_enrollment
              then (if c \<notin> set us \<or> k \<notin> fst ` set cs then (Some (ErrOther ''23503'' ''foreign key violation''), db)
                    else if (c, k) \<in> set es then (Some (ErrOther ''23505'' ''unique violation''), db)
                    else (None, (us, cs, es @ [(c, k)])))
              else (Some (ErrNew [] ''unknown statement''), db))
         | [k] \<Rightarrow>
             (if q = q_bump_count
              then (None, (us, (case map_of cs k of None \<Rightarrow> cs | Some n \<Rightarrow> AList.update k (n + 1) cs), es))
              else (Some (ErrNew [] ''unknown statement''), db))
         | _ \<Rightarrow> (Some (ErrNew [] ''unknown statement''), db))"

definition demo_pg :: "(string, demo_db) pg" where
  "demo_pg =
     \<lparr>pg_code = (\<lambda>x. Some x), pg_row = (\<lambda>q args d. (Inl (ErrNew pg_ErrNoRows ''no rows in result set''), d)),
      pg_rows = (\<lambda>q args d. Inl (ErrNew [] ''unknown statement'')),
      pg_int = (\<lambda>q args d. case map_of (fst (snd d)) (hd args) of
                 None \<Rightarrow> Inl (ErrNew pg_ErrNoRows ''no rows in result set'') | Some n \<Rightarrow> Inr n),
      pg_exec = demo_exec, pg_begin = (\<lambda>d. None), pg_commit = (\<lambda>d v.
        (if map_of (fst (snd v)) ''cmp_lost'' = Some 1 then (Some (ErrNew [] ''conn closed''), v) else (None, v)))\<rparr>"

definition demo_tab :: "demo_db \<Rightarrow> m06_tables" where
  "demo_tab d = \<lparr>t6_customers = set (fst d), t6_counts = map_of (fst (snd d)), t6_enrollments = snd (snd d)\<rparr>"

lemma demo_pg_laws: "pg_laws demo_pg demo_tab"
proof -
  have dom: "k \<in> fst ` set cs \<longleftrightarrow> (\<exists>n. map_of cs k = Some n)" for k and cs :: "(string \<times> int) list"
    by (metis dom_map_of_conv_image_fst domD domI)
  show ?thesis
    by (auto simp: pg_laws_def demo_pg_def demo_exec_def demo_tab_def q_insert_enrollment_def m06_linked_def m06_counted_def
      pg_foreign_def m06_ErrNotFound_def m06_ErrConflict_def pg_code_of_def errors_as_def as_other_def
      q_bump_count_def update_conv' dom split: if_splits option.splits)
qed

definition demo_db0 :: demo_db where
  "demo_db0 = ([''cus_1''], [(''cmp_1'', 0)], [])"

theorem m06_enroll_atomic_witness:
  "m06_consistent (demo_tab ([''cus_1''], [(''cmp_1'', 1)], [(''cus_1'', ''cmp_1'')]))
    \<and> m06_EnrollCustomer demo_pg ''cus_1'' ''cmp_1'' demo_db0
        = (None, ([''cus_1''], [(''cmp_1'', 1)], [(''cus_1'', ''cmp_1'')]))"
proof -
  have run: "m06_EnrollCustomer demo_pg ''cus_1'' ''cmp_1'' demo_db0
      = (None, ([''cus_1''], [(''cmp_1'', 1)], [(''cus_1'', ''cmp_1'')]))"
    by (simp add: m06_EnrollCustomer_def m06_inTx_def m06_enroll_fn_def demo_pg_def demo_exec_def
        demo_db0_def q_insert_enrollment_def q_bump_count_def)
  have "m06_consistent (demo_tab demo_db0)"
    by (simp add: m06_consistent_def demo_tab_def demo_db0_def)
  from m06_enroll_atomic [OF demo_pg_laws this run] run show ?thesis by blast
qed

theorem m06_error_mapping_witness:
  "m06_EnrollCustomer demo_pg ''cus_1'' ''cmp_9'' demo_db0 = (Some m06_ErrNotFound, demo_db0)"
  using m06_error_mapping [of demo_pg "[]" "\<lparr>m06_ID = [], m06_Email = ''a@b'', m06_Name = ''A'',
      m06_CreatedAt = 0, m06_UpdatedAt = 0\<rparr>" demo_db0 _ _ "''cus_1''" _ _ "''cus_1''" "''cmp_9''"]
  by (simp add: demo_pg_def demo_exec_def demo_db0_def q_insert_enrollment_def pg_code_of_def
      errors_as_def as_other_def)

section \<open>solution-db\<close>

text \<open>
  The pool and the migrations; pgxpool, \<open>database/sql\<close> and goose are arguments. The second result
  of \<open>NewPool\<close> says whether a pool it had opened was closed again; \<open>Migrate\<close> closes the handle it
  opened on every path.
\<close>

definition m06_NewPool ::
  "(string \<Rightarrow> ('x, 'c) go_result) \<Rightarrow> (int \<Rightarrow> int \<Rightarrow> int \<Rightarrow> 'c \<Rightarrow> 'c) \<Rightarrow> ('c \<Rightarrow> ('x, 'p) go_result)
     \<Rightarrow> ('p \<Rightarrow> 'x go_error option) \<Rightarrow> string \<Rightarrow> ('x, 'p) go_result \<times> bool" where
  "m06_NewPool parse configure new_pool ping dsn =
     (case parse dsn of
        Inl e \<Rightarrow> (Inl (ErrWrap ''parse dsn'' e), False)
      | Inr cfg \<Rightarrow>
          (let cfg = configure 10 (5 * 60 * second) (60 * second) cfg
           in case new_pool cfg of
                Inl e \<Rightarrow> (Inl (ErrWrap ''new pool'' e), False)
              | Inr pool \<Rightarrow>
                  (case ping pool of
                     Some e \<Rightarrow> (Inl (ErrWrap ''ping'' e), True)
                   | None \<Rightarrow> (Inr pool, False))))"

definition m06_Migrate ::
  "(string \<Rightarrow> string \<Rightarrow> ('x, 'h) go_result) \<Rightarrow> (string \<Rightarrow> 'x go_error option)
     \<Rightarrow> ('h \<Rightarrow> string \<Rightarrow> 'x go_error option) \<Rightarrow> string \<Rightarrow> 'x go_error option" where
  "m06_Migrate sql_open set_dialect up dsn =
     (case sql_open ''pgx'' dsn of
        Inl e \<Rightarrow> Some (ErrWrap ''open sql'' e)
      | Inr sqlDB \<Rightarrow>
          (case set_dialect ''postgres'' of
             Some e \<Rightarrow> Some e
           | None \<Rightarrow>
               (case up sqlDB ''.'' of
                  Some e \<Rightarrow> Some (ErrWrap ''goose up'' e)
                | None \<Rightarrow> None)))"

text \<open>A pool is returned only after a successful ping, and one that was opened but failed it is closed.\<close>

lemma m06_NewPool_pinged:
  "m06_NewPool parse configure new_pool ping dsn = (Inr pool, closed) \<Longrightarrow> ping pool = None \<and> \<not> closed"
  by (auto simp: m06_NewPool_def Let_def split: sum.splits option.splits)

end
