(* ===== verification/M06_Cmd.thy ===== *)
theory M06_Cmd
  imports M06_Postgres Go_Cmd
begin

text \<open>
  The commands of \<open>m06-postgresql\<close>, \<open>migrate\<close> and \<open>demo\<close>. The text under \<open>cmd\<close> and under \<open>solution-cmd\<close> is
  the same but for the packages \<open>customer\<close> and \<open>db\<close> it imports, which are an argument of the model. For
  the reference the drivers are the parameters of \<open>M06_Postgres\<close>. The process number, the random bytes
  and the local clock format of \<open>created_at\<close> are arguments. What a migration does to the schema is not
  modelled, only its result.
\<close>

section \<open>The commands, for any packages\<close>

record 'd m06_host = host +
  db6 :: 'd

text \<open>What the commands use of the packages; \<open>'d\<close> is the database, \<open>p6_Customer e n\<close> the composite literal.\<close>

record ('x, 'p, 'c, 'd) m06_packages =
  p6_Migrate :: "string \<Rightarrow> 'x go_error option"
  p6_NewPool :: "string \<Rightarrow> ('x, 'p) go_result"
  p6_Close :: "'p \<Rightarrow> 'd \<Rightarrow> 'd"
  p6_Customer :: "string \<Rightarrow> string \<Rightarrow> 'c"
  p6_ID :: "'c \<Rightarrow> string"
  p6_Email :: "'c \<Rightarrow> string"
  p6_CreatedAt :: "'c \<Rightarrow> int"
  p6_Create :: "'p \<Rightarrow> 'c \<Rightarrow> 'd \<Rightarrow> ('x, 'c) go_result \<times> 'd"
  p6_CreateCampaign :: "'p \<Rightarrow> string \<Rightarrow> 'd \<Rightarrow> ('x, string) go_result \<times> 'd"
  p6_EnrollCustomer :: "'p \<Rightarrow> string \<Rightarrow> string \<Rightarrow> 'd \<Rightarrow> 'x go_error option \<times> 'd"
  p6_CampaignEnrolledCount :: "'p \<Rightarrow> string \<Rightarrow> 'd \<Rightarrow> ('x, int) go_result"
  p6_List :: "'p \<Rightarrow> int \<Rightarrow> int \<Rightarrow> 'd \<Rightarrow> ('x, 'c list) go_result"

definition failed :: "'x go_error option \<Rightarrow> ('x, unit) go_result" where
  "failed err = (case err of Some e \<Rightarrow> Inl e | None \<Rightarrow> Inr ())"

definition l06_migrate_main :: "('x, 'p, 'c, 'd) m06_packages \<Rightarrow> (string \<Rightarrow> string) \<Rightarrow> (unit, 'd m06_host) cmd" where
  "l06_migrate_main p getenv =
     (let dsn = getenv ''PULSE_PG_DSN''
      in if dsn = [] then fatal (stderr (''PULSE_PG_DSN is required'' @ nl)) else
      bind (or_fatal stderr ''migrate failed'' (failed (p6_Migrate p dsn))) (\<lambda>_.
      act (stderr (''migrations applied'' @ nl))))"

definition call6 :: "('d \<Rightarrow> 'a \<times> 'd) \<Rightarrow> ('a, 'd m06_host) cmd" where
  "call6 f = call (\<lambda>s. let (x, d) = f (db6 s) in (x, s\<lparr>db6 := d\<rparr>))"

definition or_zero :: "'a \<Rightarrow> ('x, 'a) go_result \<Rightarrow> 'a" where
  "or_zero z res = (case res of Inl e \<Rightarrow> z | Inr x \<Rightarrow> x)"

definition l06_demo_line :: "('x, 'p, 'c, 'd) m06_packages \<Rightarrow> 'c \<Rightarrow> string" where
  "l06_demo_line p cu = ''  - '' @ p6_ID p cu @ '' '' @ p6_Email p cu @ nl"

definition l06_demo_customer :: "('x, 'p, 'c, 'd) m06_packages \<Rightarrow> int \<Rightarrow> 'c" where
  "l06_demo_customer p pid = p6_Customer p (''u'' @ fmt_d pid @ ''@pulse.dev'') ''Demo User''"

text \<open>The repository's part; the errors of \<open>CreateCampaign\<close>, of the count and of the list are ignored.\<close>

definition l06_demo_run ::
  "('x, 'p, 'c, 'd) m06_packages \<Rightarrow> 'p \<Rightarrow> int \<Rightarrow> (int \<Rightarrow> string) \<Rightarrow> (unit, 'd m06_host) cmd" where
  "l06_demo_run p repo pid hms =
     bind (call6 (p6_Create p repo (l06_demo_customer p pid))) (\<lambda>res.
     bind (or_fatal stderr ''create'' res) (\<lambda>c.
     bind (act (stdout (''created '' @ p6_ID p c @ '' ('' @ p6_Email p c @ '') at '' @ hms (p6_CreatedAt p c) @ nl))) (\<lambda>_.
     bind (call6 (p6_CreateCampaign p repo ''Onboarding'')) (\<lambda>res.
     let cmp = or_zero [] res in
     bind (call6 (p6_EnrollCustomer p repo (p6_ID p c) cmp)) (\<lambda>err.
     bind (or_fatal stderr ''enroll'' (failed err)) (\<lambda>_.
     bind (call (\<lambda>s. (p6_CampaignEnrolledCount p repo cmp (db6 s), s))) (\<lambda>res.
     let n = or_zero 0 res in
     bind (act (stdout (''enrolled in '' @ cmp @ ''; enrolled_count='' @ fmt_d n @ nl))) (\<lambda>_.
     bind (call (\<lambda>s. (p6_List p repo 5 0 (db6 s), s))) (\<lambda>res.
     let list = or_zero [] res in
     bind (act (stdout (''most recent '' @ fmt_d (int (length list)) @ '' customers:'' @ nl))) (\<lambda>_.
     in_order (map (\<lambda>cu. act (stdout (l06_demo_line p cu))) list)))))))))))"

definition l06_demo_main ::
  "('x, 'p, 'c, 'd) m06_packages \<Rightarrow> (string \<Rightarrow> string) \<Rightarrow> int \<Rightarrow> (int \<Rightarrow> string) \<Rightarrow> (unit, 'd m06_host) cmd" where
  "l06_demo_main p getenv pid hms =
     (let dsn = getenv ''PULSE_PG_DSN''
      in if dsn = [] then fatal (stderr (''PULSE_PG_DSN is required'' @ nl)) else
      bind (or_fatal stderr ''migrate'' (failed (p6_Migrate p dsn))) (\<lambda>_.
      bind (or_fatal stderr ''pool'' (p6_NewPool p dsn)) (\<lambda>pool.
      deferring (\<lambda>s. s\<lparr>db6 := p6_Close p pool (db6 s)\<rparr>) (
      l06_demo_run p pool pid hms))))"

lemma db6_stdout [simp]: "db6 (stdout t s) = db6 s"
  by (simp add: stdout_def)

lemma failed_simps [simp]: "failed None = Inr ()" "failed (Some e) = Inl e"
  by (simp_all add: failed_def)

text \<open>The migration comes first: nothing is opened or written unless it has succeeded.\<close>

lemma l06_demo_migrates_first:
  assumes "getenv ''PULSE_PG_DSN'' \<noteq> []" and "p6_Migrate p (getenv ''PULSE_PG_DSN'') = Some e"
  shows "l06_demo_main p getenv pid hms s = (Exit 1, stderr (''migrate: '' @ err_msg e @ nl) s)"
  using assms by (simp add: l06_demo_main_def cmd_run Let_def)

text \<open>A create that fails ends the process with status 1; the deferred close is not run.\<close>

lemma l06_demo_create_failed:
  assumes "getenv ''PULSE_PG_DSN'' \<noteq> []" and "p6_Migrate p (getenv ''PULSE_PG_DSN'') = None"
    and "p6_NewPool p (getenv ''PULSE_PG_DSN'') = Inr pool"
    and "p6_Create p pool (l06_demo_customer p pid) (db6 s) = (Inl e, d)"
  shows "l06_demo_main p getenv pid hms s = (Exit 1, stderr (''create: '' @ err_msg e @ nl) (s\<lparr>db6 := d\<rparr>))"
  using assms by (simp add: l06_demo_main_def l06_demo_run_def cmd_run call6_def Let_def)

text \<open>After a failed \<open>CreateCampaign\<close>, whose error is ignored, the demo enrols in the campaign with
  the empty identifier; a database with a foreign key on it refuses, and the message is that of
  the enrolment.\<close>

lemma l06_demo_campaign_ignored:
  assumes "p6_Create p repo (l06_demo_customer p pid) (db6 s) = (Inr c, d1)"
    and "p6_CreateCampaign p repo ''Onboarding'' d1 = (Inl e, d2)"
    and "p6_EnrollCustomer p repo (p6_ID p c) [] d2 = (Some e', d3)"
  shows "\<exists>s'. l06_demo_run p repo pid hms s = (Exit 1, s') \<and> h_err s' = h_err s @ ''enroll: '' @ err_msg e' @ nl"
  using assms by (simp add: l06_demo_run_def cmd_run call6_def or_zero_def Let_def)

section \<open>What the demo counts\<close>

text \<open>
  What the exercise asks of the repository, over the counters \<open>cnt\<close> of the campaigns: \<open>Create\<close> stores
  the customer it is given and touches no counter, a new campaign has nobody enrolled, enrolling adds
  one to the campaign's counter, which the count reads, and the list has at most \<open>limit\<close> entries.
\<close>

definition m06_contract :: "('x, 'p, 'c, 'd) m06_packages \<Rightarrow> 'p \<Rightarrow> ('d \<Rightarrow> string \<Rightarrow> int) \<Rightarrow> bool" where
  "m06_contract p repo cnt \<longleftrightarrow>
     (\<forall>e n. p6_Email p (p6_Customer p e n) = e)
   \<and> (\<forall>c d c' d'. p6_Create p repo c d = (Inr c', d') \<longrightarrow> p6_Email p c' = p6_Email p c \<and> cnt d' = cnt d)
   \<and> (\<forall>n d k d'. p6_CreateCampaign p repo n d = (Inr k, d') \<longrightarrow> cnt d' k = 0)
   \<and> (\<forall>i k d d'. p6_EnrollCustomer p repo i k d = (None, d') \<longrightarrow> cnt d' k = cnt d k + 1)
   \<and> (\<forall>k d n. p6_CampaignEnrolledCount p repo k d = Inr n \<longrightarrow> n = cnt d k)
   \<and> (\<forall>l off d cs. 0 < l \<longrightarrow> p6_List p repo l off d = Inr cs \<longrightarrow> int (length cs) \<le> l)"

lemma stdout_lines: "fold (\<lambda>cu. stdout (f cu)) cus s = s\<lparr>h_out := h_out s @ concat (map f cus)\<rparr>"
  by (induction cus arbitrary: s) (simp_all add: stdout_def)

lemma l06_demo_run_output:
  assumes "m06_contract p repo cnt"
    and create: "p6_Create p repo (l06_demo_customer p pid) (db6 s) = (Inr c, d1)"
    and campaign: "p6_CreateCampaign p repo ''Onboarding'' d1 = (Inr k, d2)"
    and enroll: "p6_EnrollCustomer p repo (p6_ID p c) k d2 = (None, d3)"
    and count: "p6_CampaignEnrolledCount p repo k d3 = Inr n" and list: "p6_List p repo 5 0 d3 = Inr cus"
  shows "l06_demo_run p repo pid hms s = (Val (), s\<lparr>db6 := d3, h_out := h_out s
      @ ''created '' @ p6_ID p c @ '' (u'' @ fmt_d pid @ ''@pulse.dev) at '' @ hms (p6_CreatedAt p c) @ nl
      @ ''enrolled in '' @ k @ ''; enrolled_count=1'' @ nl
      @ ''most recent '' @ fmt_d (int (length cus)) @ '' customers:'' @ nl @ concat (map (l06_demo_line p) cus)\<rparr>)"
proof -
  have "p6_Email p c = p6_Email p (l06_demo_customer p pid)" "cnt d2 k = 0" "cnt d3 k = cnt d2 k + 1" "n = cnt d3 k"
    using assms(1) create campaign enroll count unfolding m06_contract_def by blast+
  moreover have "p6_Email p (l06_demo_customer p pid) = ''u'' @ fmt_d pid @ ''@pulse.dev''"
    using assms(1) by (simp add: m06_contract_def l06_demo_customer_def)
  moreover have "fmt_d 1 = ''1''" by code_simp
  ultimately show ?thesis
    using create campaign enroll count list
    by (simp add: l06_demo_run_def cmd_run call6_def or_zero_def Let_def stdout_lines stdout_def)
qed

text \<open>Remark (functional). With packages that keep the contract, a demo none of whose calls fails prints the
  customer it created with the e-mail of its process number, one enrolment in the new campaign, and at
  most five customers.\<close>

theorem l06_demo_output:
  assumes "m06_contract p repo cnt" and "getenv ''PULSE_PG_DSN'' \<noteq> []" and "p6_Migrate p (getenv ''PULSE_PG_DSN'') = None"
    and "p6_NewPool p (getenv ''PULSE_PG_DSN'') = Inr repo"
    and "p6_Create p repo (l06_demo_customer p pid) (db6 s) = (Inr c, d1)"
    and "p6_CreateCampaign p repo ''Onboarding'' d1 = (Inr k, d2)"
    and "p6_EnrollCustomer p repo (p6_ID p c) k d2 = (None, d3)"
    and "p6_CampaignEnrolledCount p repo k d3 = Inr n" and "p6_List p repo 5 0 d3 = Inr cus"
  shows "length cus \<le> 5 \<and> (\<exists>s'. l06_demo_main p getenv pid hms s = (Val (), s') \<and> db6 s' = p6_Close p repo d3
    \<and> h_out s' = h_out s
      @ ''created '' @ p6_ID p c @ '' (u'' @ fmt_d pid @ ''@pulse.dev) at '' @ hms (p6_CreatedAt p c) @ nl
      @ ''enrolled in '' @ k @ ''; enrolled_count=1'' @ nl
      @ ''most recent '' @ fmt_d (int (length cus)) @ '' customers:'' @ nl @ concat (map (l06_demo_line p) cus))"
proof
  have "\<forall>l off d cs. 0 < l \<longrightarrow> p6_List p repo l off d = Inr cs \<longrightarrow> int (length cs) \<le> l"
    using assms(1) unfolding m06_contract_def by blast
  from this [rule_format, of 5 0 d3 cus] assms(9) show "length cus \<le> 5" by simp
  show "\<exists>s'. l06_demo_main p getenv pid hms s = (Val (), s') \<and> db6 s' = p6_Close p repo d3 \<and> h_out s' = h_out s
      @ ''created '' @ p6_ID p c @ '' (u'' @ fmt_d pid @ ''@pulse.dev) at '' @ hms (p6_CreatedAt p c) @ nl
      @ ''enrolled in '' @ k @ ''; enrolled_count=1'' @ nl
      @ ''most recent '' @ fmt_d (int (length cus)) @ '' customers:'' @ nl @ concat (map (l06_demo_line p) cus)"
    using assms(2-4) l06_demo_run_output [OF assms(1,5-9), of hms]
    by (simp add: l06_demo_main_def cmd_run Let_def)
qed

section \<open>The packages of the reference\<close>

record ('x, 'h, 'c, 'p, 'd) m06_services =
  v6_sql_open :: "string \<Rightarrow> string \<Rightarrow> ('x, 'h) go_result"
  v6_set_dialect :: "string \<Rightarrow> 'x go_error option"
  v6_up :: "'h \<Rightarrow> string \<Rightarrow> 'x go_error option"
  v6_parse :: "string \<Rightarrow> ('x, 'c) go_result"
  v6_configure :: "int \<Rightarrow> int \<Rightarrow> int \<Rightarrow> 'c \<Rightarrow> 'c"
  v6_new_pool :: "'c \<Rightarrow> ('x, 'p) go_result"
  v6_ping :: "'p \<Rightarrow> 'x go_error option"
  v6_close :: "'p \<Rightarrow> 'd \<Rightarrow> 'd"
  v6_db :: "('x, 'd) pg"

text \<open>The random bytes of the two identifiers, in the order they are drawn.\<close>

definition m06_solution ::
  "('x, 'h, 'c, 'p, 'd) m06_services \<Rightarrow> nat list \<Rightarrow> nat list \<Rightarrow> ('x, 'p, m06_Customer, 'd) m06_packages" where
  "m06_solution v b1 b2 = \<lparr>p6_Migrate = m06_Migrate (v6_sql_open v) (v6_set_dialect v) (v6_up v),
     p6_NewPool = (\<lambda>dsn. fst (m06_NewPool (v6_parse v) (v6_configure v) (v6_new_pool v) (v6_ping v) dsn)),
     p6_Close = v6_close v,
     p6_Customer = (\<lambda>e n. \<lparr>m06_ID = [], m06_Email = e, m06_Name = n, m06_CreatedAt = zero_time, m06_UpdatedAt = zero_time\<rparr>),
     p6_ID = m06_ID, p6_Email = m06_Email, p6_CreatedAt = m06_CreatedAt,
     p6_Create = (\<lambda>pool. m06_Create (v6_db v) b1), p6_CreateCampaign = (\<lambda>pool. m06_CreateCampaign (v6_db v) b2),
     p6_EnrollCustomer = (\<lambda>pool. m06_EnrollCustomer (v6_db v)),
     p6_CampaignEnrolledCount = (\<lambda>pool. m06_CampaignEnrolledCount (v6_db v)), p6_List = (\<lambda>pool. m06_List (v6_db v))\<rparr>"

definition m06_migrate_main where
  "m06_migrate_main v getenv = l06_migrate_main (m06_solution v [] []) getenv"

definition m06_demo_main where
  "m06_demo_main v getenv pid b1 b2 hms = l06_demo_main (m06_solution v b1 b2) getenv pid hms"

text \<open>What the reference relies on beyond \<open>pg_laws\<close>: an inserted customer is returned as it was given and
  touches no counter, an inserted campaign starts at zero, the count is the counter, and a query
  with a limit returns no more rows.\<close>

definition pg_more_laws :: "('x, 'd) pg \<Rightarrow> ('d \<Rightarrow> m06_tables) \<Rightarrow> bool" where
  "pg_more_laws pg tab \<longleftrightarrow>
     (\<forall>i e n d row d'. pg_row pg q_insert_customer [i, e, n] d = (Inr row, d')
        \<longrightarrow> fst (snd row) = e \<and> t6_counts (tab d') = t6_counts (tab d))
   \<and> (\<forall>i n d d'. pg_exec pg q_insert_campaign [i, n] d = (None, d') \<longrightarrow> t6_counts (tab d') i = Some 0)
   \<and> (\<forall>k d n. pg_int pg q_enrolled_count [k] d = Inr n \<longrightarrow> t6_counts (tab d) k = Some n)
   \<and> (\<forall>l off d rows err. pg_rows pg q_list_customers [l, off] d = Inr (rows, err) \<longrightarrow> int (length rows) \<le> l)"

definition m06_count :: "m06_tables \<Rightarrow> string \<Rightarrow> int" where
  "m06_count t k = (case t6_counts t k of None \<Rightarrow> 0 | Some n \<Rightarrow> n)"

lemma m06_scan_length: "m06_scan_all rows = Inr cs \<Longrightarrow> length cs = length rows"
  by (induction rows arbitrary: cs) (auto split: sum.splits)

lemma m06_enroll_counted:
  assumes "pg_laws pg tab" and "m06_EnrollCustomer pg i k d = (None, d')"
  shows "m06_count (tab d') k = m06_count (tab d) k + 1"
  using assms(2) unfolding m06_EnrollCustomer_def
proof (cases rule: m06_inTx_cases)
  case (committed v)
  from pg_lawsD(5) [OF assms(1) committed(2)] have "d' = v" .
  with m06_enroll_fn_done [OF assms(1) committed(1)] show ?thesis
    by (auto simp: m06_count_def m06_enrolled_def m06_counted_def m06_linked_def)
qed simp_all

lemma m06_solution_contract:
  assumes "pg_laws (v6_db v) tab" and "pg_more_laws (v6_db v) tab"
  shows "m06_contract (m06_solution v b1 b2) pool (\<lambda>d. m06_count (tab d))"
  unfolding m06_contract_def
proof (intro conjI allI impI)
  fix c d c' d'
  assume "p6_Create (m06_solution v b1 b2) pool c d = (Inr c', d')"
  then obtain row where row: "pg_row (v6_db v) q_insert_customer [m06_newID b1, m06_Email c, m06_Name c] d = (Inr row, d')"
    "m06_scanCustomer (Inr row) = (Inr c' :: ('a, _) go_result)"
    by (auto simp: m06_solution_def m06_Create_def m06_scanCustomer_def Let_def split: prod.splits sum.splits if_splits)
  from row(1) assms(2) have "fst (snd row) = m06_Email c \<and> t6_counts (tab d') = t6_counts (tab d)" unfolding pg_more_laws_def by blast
  with row(2) have "m06_Email c' = m06_Email c \<and> m06_count (tab d') = m06_count (tab d)" unfolding m06_count_def [abs_def] by (cases row) auto
  then show "p6_Email (m06_solution v b1 b2) c' = p6_Email (m06_solution v b1 b2) c" "m06_count (tab d') = m06_count (tab d)"
    by (simp_all add: m06_solution_def)
next
  fix n d k d'
  assume "p6_CreateCampaign (m06_solution v b1 b2) pool n d = (Inr k, d')"
  with assms(2) show "m06_count (tab d') k = 0"
    by (auto simp: m06_count_def m06_solution_def m06_CreateCampaign_def pg_more_laws_def Let_def split: prod.splits option.splits)
next
  fix l off d cs
  assume "(0::int) < l" and "p6_List (m06_solution v b1 b2) pool l off d = Inr cs"
  then obtain rows where "pg_rows (v6_db v) q_list_customers [l, off] d = Inr (rows, None)" "m06_scan_all rows = Inr cs"
    by (auto simp: m06_solution_def m06_List_def split: sum.splits option.splits)
  with assms(2) m06_scan_length show "int (length cs) \<le> l" unfolding pg_more_laws_def by metis
qed (use assms(2) m06_enroll_counted [OF assms(1)] in \<open>auto simp: m06_solution_def m06_CampaignEnrolledCount_def pg_more_laws_def m06_count_def\<close>)

end
