(* ===== verification/M06_Customers.thy ===== *)
theory M06_Customers
  imports M06_Postgres "HOL-Library.Multiset"
begin

text \<open>
  The customers of \<open>m06-postgresql\<close> in the database: what \<open>Create\<close>, \<open>ByID\<close> and \<open>List\<close> of
  \<open>solution-customer/customer.go\<close> amount to over the table of the first migration, whose primary key,
  unique column and defaults are stated as laws of the driver. Any statement may also fail for reasons of
  its own.
\<close>

section \<open>The table\<close>

definition row_created :: "m06_row \<Rightarrow> int" where
  "row_created row = (case row of (i, e, n, created, updated) \<Rightarrow> created)"

definition m06_of_row :: "m06_row \<Rightarrow> m06_Customer" where
  "m06_of_row row = (case row of (i, e, n, created, updated) \<Rightarrow>
     \<lparr>m06_ID = i, m06_Email = e, m06_Name = n, m06_CreatedAt = created, m06_UpdatedAt = updated\<rparr>)"

lemma m06_scan_row [simp]: "m06_scanCustomer (Inr row) = Inr (m06_of_row row)"
  by (simp add: m06_scanCustomer_def m06_of_row_def split: prod.split)

lemma m06_scan_Inr: "m06_scanCustomer row = Inr c \<longleftrightarrow> (\<exists>r. row = Inr r \<and> c = m06_of_row r)"
  by (cases row) auto

definition newest_first :: "m06_row list \<Rightarrow> bool" where
  "newest_first rows \<longleftrightarrow> sorted_wrt (\<lambda>a b. row_created b \<le> row_created a) rows"

text \<open>
  \<open>tbl d\<close> are the rows of \<open>customers\<close>. An insert adds the row of its three
  values with both times the same, if there is none with its key or e-mail, and returns it; with a taken key or
  e-mail it adds nothing. One that fails reports a unique violation only if there was one, adds nothing if it
  reports a code of the server, and may else have happened all the same: the answer can be lost. A select by key finds the row, and reports no rows only if there is
  none. The listing is a window of the rows in an order by time, newest first, which each query may choose
  where times are equal; a row may fail to be scanned.
\<close>

definition row_key :: "m06_row list \<Rightarrow> string set" where
  "row_key rows = fst ` set rows"

definition row_email :: "m06_row list \<Rightarrow> string set" where
  "row_email rows = (fst \<circ> snd) ` set rows"

definition row_inserted :: "string \<Rightarrow> string \<Rightarrow> string \<Rightarrow> m06_row \<Rightarrow> m06_row list \<Rightarrow> m06_row list \<Rightarrow> bool" where
  "row_inserted i e n row rows rows' \<longleftrightarrow> (\<exists>t. row = (i, e, n, t, t)) \<and> i \<notin> row_key rows \<and> e \<notin> row_email rows
     \<and> rows' = rows @ [row]"

definition insert_law :: "('x, 'd) pg \<Rightarrow> ('d \<Rightarrow> m06_row list) \<Rightarrow> bool" where
  "insert_law pg tbl \<longleftrightarrow> (\<forall>i e n d out d'. pg_row pg q_insert_customer [i, e, n] d = (out, d') \<longrightarrow>
     (case out of
        Inr row \<Rightarrow> row_inserted i e n row (tbl d) (tbl d')
      | Inl err \<Rightarrow> (tbl d' = tbl d \<or> pg_code_of pg (Some err) = None \<and> (\<exists>row. row_inserted i e n row (tbl d) (tbl d')))
          \<and> (pg_code_of pg (Some err) = Some ''23505'' \<longrightarrow> i \<in> row_key (tbl d) \<or> e \<in> row_email (tbl d))))"

definition select_law :: "('x, 'd) pg \<Rightarrow> ('d \<Rightarrow> m06_row list) \<Rightarrow> bool" where
  "select_law pg tbl \<longleftrightarrow> (\<forall>i d.
     (case fst (pg_row pg q_customer_by_id [i] d) of
        Inr row \<Rightarrow> row \<in> set (tbl d) \<and> fst row = i
      | Inl err \<Rightarrow> errors_is (Some err) pg_ErrNoRows \<longrightarrow> i \<notin> row_key (tbl d)))"

text \<open>A row is scanned or fails to be.\<close>

definition scanned_as :: "('x, m06_row) go_result \<Rightarrow> m06_row \<Rightarrow> bool" where
  "scanned_as r row \<longleftrightarrow> r = Inr row \<or> (\<exists>err. r = Inl err)"

definition list_law :: "('x, 'd) pg \<Rightarrow> ('d \<Rightarrow> m06_row list) \<Rightarrow> bool" where
  "list_law pg tbl \<longleftrightarrow> (\<forall>l off d rows. 0 \<le> l \<longrightarrow> 0 \<le> off \<longrightarrow> pg_rows pg q_list_customers [l, off] d = Inr (rows, None) \<longrightarrow>
     (\<exists>ordered. mset ordered = mset (tbl d) \<and> newest_first ordered
        \<and> list_all2 scanned_as rows (take (nat l) (drop (nat off) ordered))))"

definition pg_customer_laws :: "('x, 'd) pg \<Rightarrow> ('d \<Rightarrow> m06_row list) \<Rightarrow> bool" where
  "pg_customer_laws pg tbl \<longleftrightarrow> insert_law pg tbl \<and> select_law pg tbl \<and> list_law pg tbl"



text \<open>The customers in the table.\<close>

definition m06_customers :: "('d \<Rightarrow> m06_row list) \<Rightarrow> 'd \<Rightarrow> m06_Customer list" where
  "m06_customers tbl d = map m06_of_row (tbl d)"

lemma m06_row_fields [simp]: "m06_ID (m06_of_row row) = fst row" "m06_Email (m06_of_row row) = fst (snd row)"
  "m06_Name (m06_of_row row) = fst (snd (snd row))" "m06_CreatedAt (m06_of_row row) = row_created row"
  by (simp_all add: m06_of_row_def row_created_def split: prod.splits)

lemma find_Some: "List.find P xs = Some x \<Longrightarrow> x \<in> set xs \<and> P x"
  by (induction xs) (auto split: if_splits)

section \<open>The repository as a list of customers\<close>














section \<open>The pages of the list\<close>

lemma m06_scan_all_rows:
  "list_all2 scanned_as rows xs \<Longrightarrow> m06_scan_all rows = Inr cs \<Longrightarrow> cs = map m06_of_row xs"
  by (induction rows xs arbitrary: cs rule: list_all2_induct) (auto simp: scanned_as_def split: sum.splits)

lemma m06_List_window:
  assumes "pg_customer_laws pg tbl" and "0 < l" and "0 \<le> off" and "m06_List pg l off d = Inr cs"
  obtains ordered where "mset ordered = mset (tbl d)" "newest_first ordered"
    "cs = map m06_of_row (take (nat l) (drop (nat off) ordered))"
proof -
  obtain rows where rows: "pg_rows pg q_list_customers [l, off] d = Inr (rows, None)" "m06_scan_all rows = Inr cs"
    using assms(2,4) by (auto simp: m06_List_def Let_def split: sum.splits prod.splits option.splits)
  have "list_law pg tbl" using assms(1) by (simp add: pg_customer_laws_def)
  from this [unfolded list_law_def, rule_format, OF _ assms(3) rows(1)] assms(2) obtain ordered where
    "mset ordered = mset (tbl d)" "newest_first ordered" "list_all2 scanned_as rows (take (nat l) (drop (nat off) ordered))"
    by auto
  with rows(2) show ?thesis using that m06_scan_all_rows by blast
qed

lemma newest_unique:
  assumes "mset xs = mset ys" and "newest_first xs" and "newest_first ys" and "inj_on row_created (set xs)"
  shows "xs = ys"
proof -
  let ?f = "\<lambda>r. - row_created r"
  have "sorted (map ?f xs)" "sorted (map ?f ys)"
    using assms(2,3) by (simp_all add: newest_first_def sorted_map)
  moreover have "mset (map ?f xs) = mset (map ?f ys)" using assms(1) by simp
  ultimately have "map ?f xs = map ?f ys" by (metis properties_for_sort)
  moreover have "inj_on ?f (set xs \<union> set ys)"
    using assms(4) unfolding mset_eq_setD [OF assms(1), symmetric] by (simp add: inj_on_def)
  ultimately show ?thesis by (simp add: inj_on_map_eq_map)
qed

lemma concat_pages: "concat (map (\<lambda>k. take l (drop (k * l) xs)) [0..<n]) = take (n * l) xs"
proof (induction n)
  case (Suc n)
  then show ?case by (simp add: take_add [symmetric] add.commute)
qed simp

text \<open>C12 (functional). The pages of \<open>List\<close>: no page is longer than the limit and all are newest first. If no
  two customers have the same creation time, the pages at the offsets 0, \<open>l\<close>, \<open>2 l\<close> and so on, put together, are
  all customers of the table, each once, newest first.\<close>

theorem m06_pages:
  assumes "pg_customer_laws pg tbl" and "0 < l" and "length (m06_customers tbl d) \<le> n * nat l"
    and "\<forall>k < n. m06_List pg l (int k * l) d = Inr (page k)"
  shows "(\<forall>k < n. length (page k) \<le> nat l \<and> sorted_wrt (\<lambda>a b. m06_CreatedAt b \<le> m06_CreatedAt a) (page k)
        \<and> set (page k) \<subseteq> set (m06_customers tbl d))
    \<and> (inj_on row_created (set (tbl d)) \<longrightarrow>
        mset (concat (map page [0..<n])) = mset (m06_customers tbl d)
        \<and> sorted_wrt (\<lambda>a b. m06_CreatedAt b \<le> m06_CreatedAt a) (concat (map page [0..<n])))"
proof -
  have "\<exists>ordered. mset ordered = mset (tbl d) \<and> newest_first ordered
      \<and> page k = map m06_of_row (take (nat l) (drop (k * nat l) ordered))" if "k < n" for k
  proof -
    have "nat (int k * l) = k * nat l" using assms(2) by (simp add: nat_mult_distrib)
    with that assms(1,2,4) m06_List_window [of pg tbl l "int k * l" d "page k"] show ?thesis by auto
  qed
  then obtain ord where ord: "k < n \<Longrightarrow> mset (ord k) = mset (tbl d)" "k < n \<Longrightarrow> newest_first (ord k)"
    "k < n \<Longrightarrow> page k = map m06_of_row (take (nat l) (drop (k * nat l) (ord k)))" for k by metis
  have sorted: "sorted_wrt (\<lambda>a b. m06_CreatedAt b \<le> m06_CreatedAt a) (map m06_of_row rows)" if "newest_first rows" for rows
    using that by (simp add: newest_first_def sorted_wrt_map)
  have part: "length (page k) \<le> nat l \<and> sorted_wrt (\<lambda>a b. m06_CreatedAt b \<le> m06_CreatedAt a) (page k)
      \<and> set (page k) \<subseteq> set (m06_customers tbl d)" if "k < n" for k
    using ord(2) [OF that] mset_eq_setD [OF ord(1) [OF that]]
    by (auto simp: ord(3) [OF that] m06_customers_def intro!: sorted
        dest!: in_set_takeD in_set_dropD simp: newest_first_def sorted_wrt_take sorted_wrt_drop)
  have all: "mset (concat (map page [0..<n])) = mset (m06_customers tbl d)
      \<and> sorted_wrt (\<lambda>a b. m06_CreatedAt b \<le> m06_CreatedAt a) (concat (map page [0..<n]))"
    if inj: "inj_on row_created (set (tbl d))"
  proof (cases "n = 0")
    case False
    have pos: "0 < n" using False by simp
    have same: "ord k = ord 0" if k: "k < n" for k
    proof (rule newest_unique)
      show "mset (ord k) = mset (ord 0)" using ord(1) [OF k] ord(1) [OF pos] by simp
      show "inj_on row_created (set (ord k))" using inj unfolding mset_eq_setD [OF ord(1) [OF k]] .
    qed (rule ord(2) [OF k], rule ord(2) [OF pos])
    have "page k = map m06_of_row (take (nat l) (drop (k * nat l) (ord 0)))" if "k < n" for k
      using ord(3) [OF that] unfolding same [OF that] .
    then have pages: "map page [0..<n] = map (\<lambda>k. map m06_of_row (take (nat l) (drop (k * nat l) (ord 0)))) [0..<n]" by simp
    have "concat (map page [0..<n]) = map m06_of_row (take (n * nat l) (ord 0))"
      unfolding pages by (simp add: concat_pages [symmetric] map_concat comp_def)
    moreover have "length (ord 0) \<le> n * nat l"
      using assms(3) ord(1) [of 0] False by (metis m06_customers_def length_map size_mset gr0I)
    ultimately have "concat (map page [0..<n]) = map m06_of_row (ord 0)" by simp
    with ord(1,2) [of 0] False sorted show ?thesis by (simp add: m06_customers_def)
  qed (use assms(3) in simp)
  show ?thesis using part all by blast
qed

section \<open>A database with these laws\<close>

text \<open>Rows in a list, inserted at the time of their number; \<open>ord off\<close> orders them for a query with that offset.\<close>

definition demo6_insert :: "string list \<Rightarrow> m06_row list \<Rightarrow> (string, m06_row) go_result \<times> m06_row list" where
  "demo6_insert args rows =
     (case args of
        [i, e, n] \<Rightarrow>
          (if i \<in> row_key rows \<or> e \<in> row_email rows then (Inl (ErrOther ''23505'' ''unique violation''), rows)
           else let row = (i, e, n, int (length rows), int (length rows)) in (Inr row, rows @ [row]))
      | _ \<Rightarrow> (Inl (ErrNew [] ''arguments''), rows))"

definition demo6_select :: "string list \<Rightarrow> m06_row list \<Rightarrow> (string, m06_row) go_result" where
  "demo6_select args rows =
     (case List.find (\<lambda>row. args = [fst row]) rows of
        None \<Rightarrow> Inl (ErrNew pg_ErrNoRows ''no rows in result set'') | Some row \<Rightarrow> Inr row)"

definition demo6_list :: "(int \<Rightarrow> m06_row list \<Rightarrow> m06_row list) \<Rightarrow> int list \<Rightarrow> m06_row list
    \<Rightarrow> (string, (string, m06_row) go_result list \<times> string go_error option) go_result" where
  "demo6_list ord args rows =
     (case args of
        [l, off] \<Rightarrow> Inr (map Inr (take (nat l) (drop (nat off) (ord off rows))), None)
      | _ \<Rightarrow> Inl (ErrNew [] ''arguments''))"

definition demo6_pg :: "(int \<Rightarrow> m06_row list \<Rightarrow> m06_row list) \<Rightarrow> (string, m06_row list) pg" where
  "demo6_pg ord =
     \<lparr>pg_code = (\<lambda>x. Some x),
      pg_row = (\<lambda>q args rows. if q = q_insert_customer then demo6_insert args rows else (demo6_select args rows, rows)),
      pg_rows = (\<lambda>q args rows. demo6_list ord args rows),
      pg_int = (\<lambda>q args rows. Inl (ErrNew [] ''unknown statement'')),
      pg_exec = (\<lambda>q args rows. (Some (ErrNew [] ''unknown statement''), rows)),
      pg_begin = (\<lambda>rows. None), pg_commit = (\<lambda>rows view. (None, view))\<rparr>"

lemma demo6_laws:
  assumes "\<forall>off rows. mset (ord off rows) = mset rows \<and> newest_first (ord off rows)"
  shows "pg_customer_laws (demo6_pg ord) (\<lambda>rows. rows)"
  unfolding pg_customer_laws_def
proof (intro conjI)
  show "insert_law (demo6_pg ord) (\<lambda>rows. rows)"
    by (auto simp: insert_law_def row_inserted_def demo6_pg_def demo6_insert_def Let_def split: if_splits)
  have "q_customer_by_id \<noteq> q_insert_customer" by (simp add: q_customer_by_id_def q_insert_customer_def)
  then show "select_law (demo6_pg ord) (\<lambda>rows. rows)"
    by (auto simp: select_law_def demo6_pg_def demo6_select_def row_key_def find_None_iff split: option.split dest!: find_Some)
  have "list_all2 scanned_as (map Inr xs) (xs :: m06_row list)" for xs
    by (simp add: list_all2_map1 scanned_as_def list.rel_refl)
  then show "list_law (demo6_pg ord) (\<lambda>rows. rows)"
    unfolding list_law_def demo6_pg_def demo6_list_def using assms by fastforce
qed

definition demo6_stable :: "int \<Rightarrow> m06_row list \<Rightarrow> m06_row list" where
  "demo6_stable off rows = sort_key (\<lambda>row. - row_created row) rows"

lemma newest_first_sort: "newest_first (sort_key (\<lambda>row. - row_created row) rows)"
proof -
  have "sorted (map (\<lambda>row. - row_created row) (sort_key (\<lambda>row. - row_created row) rows))" by (rule sorted_sort_key)
  then show ?thesis by (simp add: newest_first_def sorted_map)
qed

lemma demo6_stable_laws: "pg_customer_laws (demo6_pg demo6_stable) (\<lambda>rows. rows)"
  by (rule demo6_laws) (simp add: demo6_stable_def newest_first_sort)


definition demo6_rows :: "m06_row list" where
  "demo6_rows = [(m06_newID [1], ''ada@pulse.dev'', ''Ada'', 0, 0), (m06_newID [2], ''bob@pulse.dev'', ''Bob'', 1, 1)]"



theorem m06_pages_witness:
  "\<exists>page. page 0 = [m06_of_row (demo6_rows ! 1)] \<and> page 1 = [m06_of_row (demo6_rows ! 0)]
    \<and> mset (concat (map page [0..<2])) = mset (m06_customers (\<lambda>rows. rows) demo6_rows)"
proof -
  let ?page = "\<lambda>k :: nat. if k = 0 then [m06_of_row (demo6_rows ! 1)] else [m06_of_row (demo6_rows ! 0)]"
  have pages: "\<forall>k < 2. m06_List (demo6_pg demo6_stable) 1 (int k * 1) demo6_rows = Inr (?page k)"
    by (auto simp: less_2_cases_iff m06_List_def demo6_pg_def demo6_list_def demo6_stable_def demo6_rows_def row_created_def)
  have inj: "inj_on row_created (set demo6_rows)" by (simp add: demo6_rows_def row_created_def)
  have len: "length (m06_customers (\<lambda>rows. rows) demo6_rows) \<le> 2 * nat 1" by (simp add: m06_customers_def demo6_rows_def)
  have pos: "(0::int) < 1" by simp
  from m06_pages [OF demo6_stable_laws pos len pages, THEN conjunct2] inj
  have "mset (concat (map ?page [0..<2])) = mset (m06_customers (\<lambda>rows. rows) demo6_rows)" by blast
  then show ?thesis by (intro exI [of _ ?page]) simp
qed

text \<open>
  Without distinct times the pages need not be a partition: a database may put two customers of one
  instant in one order for the first page and in the other for the second, and show one of them twice and
  the other never.
\<close>

definition demo6_moody :: "int \<Rightarrow> m06_row list \<Rightarrow> m06_row list" where
  "demo6_moody off rows = sort_key (\<lambda>row. - row_created row) (if off = 0 then rows else rev rows)"

theorem m06_pages_overlap:
  "pg_customer_laws (demo6_pg demo6_moody) (\<lambda>rows. rows)
    \<and> (let a = (''cus_a'', ''a@b'', ''A'', 0, 0); b = (''cus_b'', ''b@b'', ''B'', 0, 0) in
       m06_List (demo6_pg demo6_moody) 1 0 [a, b] = Inr [m06_of_row a]
       \<and> m06_List (demo6_pg demo6_moody) 1 1 [a, b] = Inr [m06_of_row a])"
proof
  show "pg_customer_laws (demo6_pg demo6_moody) (\<lambda>rows. rows)"
    by (rule demo6_laws) (simp add: demo6_moody_def newest_first_sort)
qed (simp add: m06_List_def demo6_pg_def demo6_list_def demo6_moody_def row_created_def Let_def)

end
