(* ===== verification/M07_Mongo.thy ===== *)
theory M07_Mongo
  imports Go_Errors Go_Maps Go_Time
begin

text \<open>
  \<open>m07-mongodb\<close>: profiles and events over MongoDB. The driver and the server are the parameter
  \<open>mg\<close>: the operations on a collection the code calls, with the filters, updates, pipelines and
  documents it gives them as BSON values. The struct tags of the source are the encodings and decodings
  between structs and documents.
\<close>

section \<open>BSON\<close>

text \<open>What the code puts into documents and reads from them; a date counts milliseconds.\<close>

datatype bson =
    BNull
  | BStr string
  | BInt int
  | BDate int
  | BDoc "(string \<times> bson) list"

type_synonym bson_doc = "(string \<times> bson) list"

definition bson_time :: "int \<Rightarrow> bson" where
  "bson_time t = BDate (t div millisecond)"

definition bson_strings :: "(string, string) gomap \<Rightarrow> bson" where
  "bson_strings m = BDoc (map (\<lambda>(k, v). (k, BStr v)) m)"

text \<open>Decoding a field into a string, a time and a map of strings: the zero value for a field that is
  missing or null, an error (\<open>None\<close>) for a value of another type.\<close>

definition to_string :: "bson option \<Rightarrow> string option" where
  "to_string v = (case v of None \<Rightarrow> Some [] | Some BNull \<Rightarrow> Some [] | Some (BStr s) \<Rightarrow> Some s | _ \<Rightarrow> None)"

definition to_time :: "bson option \<Rightarrow> int option" where
  "to_time v = (case v of None \<Rightarrow> Some zero_time | Some BNull \<Rightarrow> Some zero_time
     | Some (BDate ms) \<Rightarrow> Some (ms * millisecond) | _ \<Rightarrow> None)"

definition to_int :: "bson option \<Rightarrow> int option" where
  "to_int v = (case v of None \<Rightarrow> Some 0 | Some BNull \<Rightarrow> Some 0 | Some (BInt n) \<Rightarrow> Some n | _ \<Rightarrow> None)"

fun to_string_fields :: "bson_doc \<Rightarrow> (string, string) gomap option" where
  "to_string_fields [] = Some []"
| "to_string_fields ((k, v) # fs) =
     (case (to_string (Some v), to_string_fields fs) of (Some s, Some m) \<Rightarrow> Some ((k, s) # m) | _ \<Rightarrow> None)"

definition to_strings :: "bson option \<Rightarrow> (string, string) gomap option" where
  "to_strings v = (case v of None \<Rightarrow> Some [] | Some BNull \<Rightarrow> Some [] | Some (BDoc fs) \<Rightarrow> to_string_fields fs | _ \<Rightarrow> None)"

lemma to_strings_back [simp]: "to_strings (Some (bson_strings m)) = Some m"
  by (simp add: to_strings_def bson_strings_def, induction m) (auto simp: to_string_def)

lemma to_simps [simp]:
  "to_string (Some (BStr s)) = Some s" "to_time (Some (bson_time t)) = Some (t div millisecond * millisecond)"
  "to_int (Some (BInt n)) = Some n"
  by (simp_all add: to_string_def to_time_def to_int_def bson_time_def)

section \<open>The domain\<close>

record m07_Profile =
  m7_CustomerID :: string
  m7_Traits :: "(string, string) gomap"
  m7_UpdatedAt :: int

record m07_Event =
  m7e_ID :: string
  m7e_CustomerID :: string
  m7e_Type :: string
  m7e_OccurredAt :: int

definition m07_profile_of_doc :: "bson_doc \<Rightarrow> m07_Profile option" where
  "m07_profile_of_doc doc =
     (case (to_string (map_of doc ''_id''), to_strings (map_of doc ''traits''), to_time (map_of doc ''updated_at'')) of
        (Some i, Some traits, Some t) \<Rightarrow> Some \<lparr>m7_CustomerID = i, m7_Traits = traits, m7_UpdatedAt = t\<rparr>
      | _ \<Rightarrow> None)"

definition m07_event_of_doc :: "bson_doc \<Rightarrow> m07_Event option" where
  "m07_event_of_doc doc =
     (case (to_string (map_of doc ''_id''), to_string (map_of doc ''customer_id''), to_string (map_of doc ''type''),
            to_time (map_of doc ''occurred_at'')) of
        (Some i, Some c, Some typ, Some t) \<Rightarrow>
          Some \<lparr>m7e_ID = i, m7e_CustomerID = c, m7e_Type = typ, m7e_OccurredAt = t\<rparr>
      | _ \<Rightarrow> None)"

definition m07_doc_of_event :: "m07_Event \<Rightarrow> bson_doc" where
  "m07_doc_of_event e = [(''_id'', BStr (m7e_ID e)), (''customer_id'', BStr (m7e_CustomerID e)),
     (''type'', BStr (m7e_Type e)), (''occurred_at'', bson_time (m7e_OccurredAt e))]"

definition m07_row_of_doc :: "bson_doc \<Rightarrow> (string \<times> int) option" where
  "m07_row_of_doc doc =
     (case (to_string (map_of doc ''_id''), to_int (map_of doc ''count'')) of
        (Some typ, Some n) \<Rightarrow> Some (typ, n) | _ \<Rightarrow> None)"

lemma m07_event_back:
  "m07_event_of_doc (m07_doc_of_event e)
     = Some (e\<lparr>m7e_OccurredAt := m7e_OccurredAt e div millisecond * millisecond\<rparr>)"
  by (simp add: m07_event_of_doc_def m07_doc_of_event_def)

definition m07_ErrNotFound :: "'x go_error" where
  "m07_ErrNotFound = ErrNew ''m07/profile.ErrNotFound'' ''profile: not found''"

section \<open>The driver\<close>

definition mg_ErrNoDocuments :: string where
  "mg_ErrNoDocuments = ''mongo.ErrNoDocuments''"

text \<open>
  The first argument of each operation is the name of the collection; \<open>mg_All\<close> reads what a cursor has, as
  documents, and \<open>mg_decode\<close> is the error of a document that does not fit the struct.
\<close>

record ('x, 'd, 'u) mg =
  mg_CreateOne :: "string \<Rightarrow> (string \<times> int) list \<Rightarrow> string \<Rightarrow> 'd \<Rightarrow> 'x go_error option \<times> 'd"
  mg_UpdateOne :: "string \<Rightarrow> bson_doc \<Rightarrow> bson_doc \<Rightarrow> bool \<Rightarrow> 'd \<Rightarrow> 'x go_error option \<times> 'd"
  mg_FindOne :: "string \<Rightarrow> bson_doc \<Rightarrow> 'd \<Rightarrow> ('x, bson_doc) go_result"
  mg_InsertOne :: "string \<Rightarrow> bson_doc \<Rightarrow> 'd \<Rightarrow> 'x go_error option \<times> 'd"
  mg_Find :: "string \<Rightarrow> bson_doc \<Rightarrow> (string \<times> int) list \<Rightarrow> 'd \<Rightarrow> ('x, 'u) go_result"
  mg_Aggregate :: "string \<Rightarrow> bson_doc list \<Rightarrow> 'd \<Rightarrow> ('x, 'u) go_result"
  mg_All :: "'u \<Rightarrow> ('x, bson_doc list) go_result"
  mg_decode :: "bson_doc \<Rightarrow> 'x go_error"

definition decode_one :: "('x, 'd, 'u) mg \<Rightarrow> (bson_doc \<Rightarrow> 'a option) \<Rightarrow> bson_doc \<Rightarrow> ('x, 'a) go_result" where
  "decode_one mg f doc = (case f doc of None \<Rightarrow> Inl (mg_decode mg doc) | Some a \<Rightarrow> Inr a)"

fun decode_all :: "('x, 'd, 'u) mg \<Rightarrow> (bson_doc \<Rightarrow> 'a option) \<Rightarrow> bson_doc list \<Rightarrow> ('x, 'a list) go_result" where
  "decode_all mg f [] = Inr []"
| "decode_all mg f (doc # docs) =
     (case decode_one mg f doc of
        Inl e \<Rightarrow> Inl e
      | Inr a \<Rightarrow> (case decode_all mg f docs of Inl e \<Rightarrow> Inl e | Inr as \<Rightarrow> Inr (a # as)))"

definition go_bind :: "('x, 'a) go_result \<Rightarrow> ('a \<Rightarrow> ('x, 'b) go_result) \<Rightarrow> ('x, 'b) go_result" where
  "go_bind r f = (case r of Inl e \<Rightarrow> Inl e | Inr a \<Rightarrow> f a)"

lemma go_bind_simps [simp]: "go_bind (Inl e) f = Inl e" "go_bind (Inr a) f = f a"
  by (simp_all add: go_bind_def)

section \<open>The repository\<close>

definition m07_ensureIndexes :: "('x, 'd, 'u) mg \<Rightarrow> 'd \<Rightarrow> 'x go_error option \<times> 'd" where
  "m07_ensureIndexes mg d =
     mg_CreateOne mg ''events'' [(''customer_id'', 1), (''occurred_at'', -1)] ''by_customer_time'' d"

definition m07_NewMongoRepo :: "('x, 'd, 'u) mg \<Rightarrow> 'd \<Rightarrow> ('x, unit) go_result \<times> 'd" where
  "m07_NewMongoRepo mg d =
     (let (err, d) = m07_ensureIndexes mg d
      in case err of Some e \<Rightarrow> (Inl e, d) | None \<Rightarrow> (Inr (), d))"

definition m07_Upsert ::
  "('x, 'd, 'u) mg \<Rightarrow> int \<Rightarrow> m07_Profile \<Rightarrow> 'd \<Rightarrow> ('x, m07_Profile) go_result \<times> 'd" where
  "m07_Upsert mg now p d =
     (let p = p\<lparr>m7_UpdatedAt := now\<rparr>;
          (err, d) = mg_UpdateOne mg ''profiles''
            [(''_id'', BStr (m7_CustomerID p))]
            [(''$set'', BDoc [(''traits'', bson_strings (m7_Traits p)), (''updated_at'', bson_time (m7_UpdatedAt p))])]
            True d
      in case err of
           Some e \<Rightarrow> (Inl (ErrWrap ''upsert profile'' e), d)
         | None \<Rightarrow> (Inr p, d))"

definition m07_Get :: "('x, 'd, 'u) mg \<Rightarrow> string \<Rightarrow> 'd \<Rightarrow> ('x, m07_Profile) go_result" where
  "m07_Get mg customerID d =
     (let res = go_bind (mg_FindOne mg ''profiles'' [(''_id'', BStr customerID)] d) (decode_one mg m07_profile_of_doc)
      in if errors_is (res_err res) mg_ErrNoDocuments then Inl m07_ErrNotFound
         else case res of
                Inl e \<Rightarrow> Inl (ErrWrap ''get profile'' e)
              | Inr p \<Rightarrow> Inr p)"

definition m07_AppendEvent :: "('x, 'd, 'u) mg \<Rightarrow> m07_Event \<Rightarrow> 'd \<Rightarrow> 'x go_error option \<times> 'd" where
  "m07_AppendEvent mg e d =
     (let (err, d) = mg_InsertOne mg ''events'' (m07_doc_of_event e) d
      in case err of Some e \<Rightarrow> (Some (ErrWrap ''append event'' e), d) | None \<Rightarrow> (None, d))"

definition m07_Events :: "('x, 'd, 'u) mg \<Rightarrow> string \<Rightarrow> 'd \<Rightarrow> ('x, m07_Event list) go_result" where
  "m07_Events mg customerID d =
     (case mg_Find mg ''events'' [(''customer_id'', BStr customerID)] [(''occurred_at'', 1)] d of
        Inl e \<Rightarrow> Inl (ErrWrap ''find events'' e)
      | Inr cur \<Rightarrow>
          (case go_bind (mg_All mg cur) (decode_all mg m07_event_of_doc) of
             Inl e \<Rightarrow> Inl (ErrWrap ''decode events'' e)
           | Inr out \<Rightarrow> Inr out))"

definition m07_pipeline :: "string \<Rightarrow> bson_doc list" where
  "m07_pipeline customerID =
     [[(''$match'', BDoc [(''customer_id'', BStr customerID)])],
      [(''$group'', BDoc [(''_id'', BStr ''$type''), (''count'', BDoc [(''$sum'', BInt 1)])])]]"

definition m07_EventCountsByType ::
  "('x, 'd, 'u) mg \<Rightarrow> string \<Rightarrow> 'd \<Rightarrow> ('x, (string, int) gomap) go_result" where
  "m07_EventCountsByType mg customerID d =
     (case mg_Aggregate mg ''events'' (m07_pipeline customerID) d of
        Inl e \<Rightarrow> Inl (ErrWrap ''aggregate'' e)
      | Inr cur \<Rightarrow>
          (case go_bind (mg_All mg cur) (decode_all mg m07_row_of_doc) of
             Inl e \<Rightarrow> Inl (ErrWrap ''decode agg'' e)
           | Inr rows \<Rightarrow> Inr (foldl (\<lambda>out (t, n). map_put t n out) [] rows)))"

section \<open>solution-mongodb\<close>

text \<open>\<open>Connect\<close>: the second result says that a client that failed its ping was disconnected.\<close>

definition m07_Connect ::
  "(string \<Rightarrow> ('x, 'c) go_result) \<Rightarrow> ('c \<Rightarrow> 'x go_error option) \<Rightarrow> string \<Rightarrow> ('x, 'c) go_result \<times> bool"
where
  "m07_Connect connect ping uri =
     (case connect uri of
        Inl e \<Rightarrow> (Inl (ErrWrap ''connect'' e), False)
      | Inr client \<Rightarrow>
          (case ping client of
             Some e \<Rightarrow> (Inl (ErrWrap ''ping'' e), True)
           | None \<Rightarrow> (Inr client, False)))"

section \<open>What the driver is relied on for\<close>

text \<open>
  A database is a map from collections to documents by their \<open>_id\<close>, which is unique; the other fields are
  the value of the map. A filter of strings under plain names, without dots or operators, asks for equality of
  these fields; \<open>$set\<close> replaces or adds fields.
\<close>

type_synonym bson_collection = "bson \<Rightarrow> bson_doc option"

definition bson_full :: "bson \<Rightarrow> bson_doc \<Rightarrow> bson_doc" where
  "bson_full k x = (''_id'', k) # x"

definition bson_matches :: "bson_doc \<Rightarrow> bson_doc \<Rightarrow> bool" where
  "bson_matches f doc \<longleftrightarrow> (\<forall>(k, v) \<in> set f. map_of doc k = Some v)"

definition bson_set :: "bson_doc \<Rightarrow> bson_doc \<Rightarrow> bson_doc" where
  "bson_set fs x = fold (\<lambda>(k, v). map_put k v) fs x"

definition bson_rest :: "bson_doc \<Rightarrow> bson_doc" where
  "bson_rest doc = filter (\<lambda>(k, v). k \<noteq> ''_id'') doc"

definition plain_name :: "string \<Rightarrow> bool" where
  "plain_name k \<longleftrightarrow> k \<noteq> [] \<and> hd k \<noteq> CHR ''$'' \<and> CHR ''.'' \<notin> set k"

definition plain_filter :: "bson_doc \<Rightarrow> bool" where
  "plain_filter f \<longleftrightarrow> distinct (map fst f) \<and> (\<forall>(k, v) \<in> set f. plain_name k \<and> (\<exists>s. v = BStr s))"

definition plain_fields :: "bson_doc \<Rightarrow> bool" where
  "plain_fields fs \<longleftrightarrow> distinct (map fst fs) \<and> (\<forall>(k, v) \<in> set fs. plain_name k \<and> k \<noteq> ''_id'')"

lemma plain_simps [simp]:
  "plain_filter [(''_id'', BStr i)]" "plain_filter [(''customer_id'', BStr c)]" "plain_name ''type''"
  "plain_fields [(''traits'', v), (''updated_at'', w)]"
  "plain_fields [(''customer_id'', v), (''type'', w), (''occurred_at'', u)]"
  by (simp_all add: plain_filter_def plain_fields_def plain_name_def)

text \<open>A document of the collection that the filter matches, and there being none.\<close>

definition mg_hit :: "bson_collection \<Rightarrow> bson_doc \<Rightarrow> bson \<Rightarrow> bson_doc \<Rightarrow> bool" where
  "mg_hit coll f k x \<longleftrightarrow> coll k = Some x \<and> bson_matches f (bson_full k x)"

definition mg_miss :: "bson_collection \<Rightarrow> bson_doc \<Rightarrow> bool" where
  "mg_miss coll f \<longleftrightarrow> (\<forall>k x. \<not> mg_hit coll f k x)"

text \<open>
  Documented behaviour. An update with \<open>$set\<close> and upsert that reports no error has set the fields of one document the
  filter matches or, when it matches none, has added one with the fields of the filter and those set. \<open>FindOne\<close> returns a matching document, and \<open>ErrNoDocuments\<close> only
  when there is none; it may fail otherwise. An insert that reports no error has added its document, and there was none with its \<open>_id\<close>. Every operation
  leaves the other collections alone.
\<close>

definition update_law :: "('x, 'd, 'u) mg \<Rightarrow> ('d \<Rightarrow> string \<Rightarrow> bson_collection) \<Rightarrow> bool" where
  "update_law mg db \<longleftrightarrow> (\<forall>c f fs d d'. plain_filter f \<and> plain_fields fs
       \<and> mg_UpdateOne mg c f [(''$set'', BDoc fs)] True d = (None, d') \<longrightarrow>
     (\<exists>k x. mg_hit (db d c) f k x \<and> db d' = (db d)(c := (db d c)(k \<mapsto> bson_set fs x)))
     \<or> mg_miss (db d c) f \<and> (\<exists>k. db d c k = None \<and> (\<forall>i. map_of f ''_id'' = Some i \<longrightarrow> k = i)
          \<and> db d' = (db d)(c := (db d c)(k \<mapsto> bson_set fs (bson_rest f)))))"

definition find_law :: "('x, 'd, 'u) mg \<Rightarrow> ('d \<Rightarrow> string \<Rightarrow> bson_collection) \<Rightarrow> bool" where
  "find_law mg db \<longleftrightarrow> (\<forall>c f d. plain_filter f \<longrightarrow> (case mg_FindOne mg c f d of
        Inr doc \<Rightarrow> \<exists>k x. mg_hit (db d c) f k x \<and> doc = bson_full k x
      | Inl e \<Rightarrow> errors_is (Some e) mg_ErrNoDocuments \<longrightarrow> mg_miss (db d c) f))
     \<and> (\<forall>doc. \<not> errors_is (Some (mg_decode mg doc)) mg_ErrNoDocuments)"

definition insert_one_law :: "('x, 'd, 'u) mg \<Rightarrow> ('d \<Rightarrow> string \<Rightarrow> bson_collection) \<Rightarrow> bool" where
  "insert_one_law mg db \<longleftrightarrow> (\<forall>c k x d d'. plain_fields x \<and> mg_InsertOne mg c (bson_full k x) d = (None, d') \<longrightarrow>
     db d c k = None \<and> db d' = (db d)(c := (db d c)(k \<mapsto> x)))"

text \<open>
  Matching and then grouping by a field with a count of ones gives one document for each value the field has in the matching
  documents, a missing field counting as null: the value and the number of these documents.
\<close>

definition group_field :: "string \<Rightarrow> bson_doc \<Rightarrow> bson" where
  "group_field g doc = (case map_of doc g of None \<Rightarrow> BNull | Some v \<Rightarrow> v)"

definition group_of :: "bson_collection \<Rightarrow> bson_doc \<Rightarrow> string \<Rightarrow> bson \<Rightarrow> bson set" where
  "group_of coll f g v = {k. \<exists>x. mg_hit coll f k x \<and> group_field g (bson_full k x) = v}"

definition group_law :: "('x, 'd, 'u) mg \<Rightarrow> ('d \<Rightarrow> string \<Rightarrow> bson_collection) \<Rightarrow> bool" where
  "group_law mg db \<longleftrightarrow> (\<forall>c f g d cur rows. plain_filter f \<and> plain_name g \<and>
     mg_Aggregate mg c [[(''$match'', BDoc f)],
         [(''$group'', BDoc [(''_id'', BStr (CHR ''$'' # g)), (''count'', BDoc [(''$sum'', BInt 1)])])]] d = Inr cur
       \<and> mg_All mg cur = Inr rows \<longrightarrow>
     (\<exists>vs. distinct vs \<and> set vs = {v. group_of (db d c) f g v \<noteq> {}}
        \<and> rows = map (\<lambda>v. [(''_id'', v), (''count'', BInt (int (card (group_of (db d c) f g v))))]) vs))"

definition mg_laws :: "('x, 'd, 'u) mg \<Rightarrow> ('d \<Rightarrow> string \<Rightarrow> bson_collection) \<Rightarrow> bool" where
  "mg_laws mg db \<longleftrightarrow> update_law mg db \<and> find_law mg db \<and> insert_one_law mg db \<and> group_law mg db
     \<and> (\<forall>d c. finite (dom (db d c)))"

section \<open>Upsert and Get\<close>

lemma bson_matches_id: "bson_matches [(''_id'', v)] (bson_full k x) \<longleftrightarrow> k = v"
  by (auto simp: bson_matches_def bson_full_def)

lemma mg_hit_id: "mg_hit coll [(''_id'', v)] k x \<longleftrightarrow> k = v \<and> coll v = Some x"
  by (auto simp: mg_hit_def bson_matches_id)

lemma mg_miss_id: "mg_miss coll [(''_id'', v)] \<longleftrightarrow> coll v = None"
  by (auto simp: mg_miss_def mg_hit_id)

lemma map_of_bson_set:
  "map_of (bson_set [(a, v), (b, w)] x) n = (if n = b then Some w else if n = a then Some v else map_of x n)"
  by (simp add: bson_set_def)

text \<open>The profile of a customer, as the collection has it.\<close>

definition m07_stored :: "bson_collection \<Rightarrow> string \<Rightarrow> bson_doc option" where
  "m07_stored coll i = map_option (bson_full (BStr i)) (coll (BStr i))"

text \<open>What \<open>Get\<close> may answer when the collection has this document, or none: the profile it decodes to, \<open>ErrNotFound\<close> when there is none,
  or an error of the driver, wrapped, that is not the one for no documents.\<close>

definition m07_answers :: "m07_Profile option \<Rightarrow> ('x, m07_Profile) go_result \<Rightarrow> bool" where
  "m07_answers what res \<longleftrightarrow>
     res = (case what of Some p \<Rightarrow> Inr p | None \<Rightarrow> Inl m07_ErrNotFound)
     \<or> (\<exists>e. res = Inl (ErrWrap ''get profile'' e) \<and> \<not> errors_is (Some e) mg_ErrNoDocuments)"

lemma m07_Get_stored:
  assumes "mg_laws mg db"
  shows "m07_stored (db d ''profiles'') i = None \<Longrightarrow> m07_answers None (m07_Get mg i d)"
    and "m07_stored (db d ''profiles'') i = Some doc \<Longrightarrow> m07_profile_of_doc doc = Some p \<Longrightarrow> m07_answers (Some p) (m07_Get mg i d)"
    and "m07_Get mg i d = Inr p \<Longrightarrow> \<exists>doc. m07_stored (db d ''profiles'') i = Some doc \<and> m07_profile_of_doc doc = Some p"
    and "m07_Get mg i d = Inl m07_ErrNotFound \<Longrightarrow> m07_stored (db d ''profiles'') i = None"
proof -
  let ?r = "mg_FindOne mg ''profiles'' [(''_id'', BStr i)] d"
  have law: "case ?r of Inr doc \<Rightarrow> m07_stored (db d ''profiles'') i = Some doc
      | Inl e \<Rightarrow> errors_is (Some e) mg_ErrNoDocuments \<longrightarrow> m07_stored (db d ''profiles'') i = None"
    and decode: "\<not> errors_is (Some (mg_decode mg doc)) mg_ErrNoDocuments" for doc
  proof -
    have law: "find_law mg db" using assms by (simp add: mg_laws_def)
    show "case ?r of Inr doc \<Rightarrow> m07_stored (db d ''profiles'') i = Some doc
        | Inl e \<Rightarrow> errors_is (Some e) mg_ErrNoDocuments \<longrightarrow> m07_stored (db d ''profiles'') i = None"
      using mp [OF spec [OF spec [OF spec [OF law [unfolded find_law_def, THEN conjunct1], of "''profiles''"], of "[(''_id'', BStr i)]"], of d]
          plain_simps(1)]
      by (cases ?r) (auto simp: m07_stored_def mg_hit_id mg_miss_id)
    show "\<not> errors_is (Some (mg_decode mg doc)) mg_ErrNoDocuments" for doc
      using law by (simp add: find_law_def)
  qed
  show "m07_stored (db d ''profiles'') i = None \<Longrightarrow> m07_answers None (m07_Get mg i d)"
    using law by (cases ?r) (auto simp: m07_Get_def m07_answers_def Let_def)
  show "m07_stored (db d ''profiles'') i = Some doc \<Longrightarrow> m07_profile_of_doc doc = Some p \<Longrightarrow> m07_answers (Some p) (m07_Get mg i d)"
    using law by (cases ?r) (auto simp: m07_Get_def m07_answers_def decode_one_def Let_def)
  show "m07_Get mg i d = Inr p \<Longrightarrow> \<exists>doc. m07_stored (db d ''profiles'') i = Some doc \<and> m07_profile_of_doc doc = Some p"
    using law by (cases ?r) (auto simp: m07_Get_def decode_one_def Let_def split: if_splits option.splits)
  show "m07_Get mg i d = Inl m07_ErrNotFound \<Longrightarrow> m07_stored (db d ''profiles'') i = None"
    using law decode
    by (cases ?r) (auto simp: m07_Get_def decode_one_def m07_ErrNotFound_def Let_def split: if_splits option.splits)
qed

lemma m07_FindOne_decodes:
  assumes "mg_laws mg db" and "m07_stored (db d ''profiles'') i = Some doc" and "m07_profile_of_doc doc = Some p"
  shows "case mg_FindOne mg ''profiles'' [(''_id'', BStr i)] d of
      Inr x \<Rightarrow> x = doc | Inl e \<Rightarrow> \<not> errors_is (Some e) mg_ErrNoDocuments"
proof -
  have "find_law mg db" using assms(1) by (simp add: mg_laws_def)
  from mp [OF spec [OF spec [OF spec [OF this [unfolded find_law_def, THEN conjunct1], of "''profiles''"], of "[(''_id'', BStr i)]"], of d]
          plain_simps(1)]
  show ?thesis using assms(2)
    by (cases "mg_FindOne mg ''profiles'' [(''_id'', BStr i)] d") (auto simp: m07_stored_def mg_hit_id mg_miss_id)
qed

lemma m07_Upsert_stored:
  assumes "mg_laws mg db" and "m07_Upsert mg now p d = (Inr q, d')"
  shows "q = p\<lparr>m7_UpdatedAt := now\<rparr>
    \<and> (\<exists>doc. m07_stored (db d' ''profiles'') (m7_CustomerID p) = Some doc
         \<and> m07_profile_of_doc doc = Some (p\<lparr>m7_UpdatedAt := now div millisecond * millisecond\<rparr>))
    \<and> (\<forall>i. i \<noteq> m7_CustomerID p \<longrightarrow> m07_stored (db d' ''profiles'') i = m07_stored (db d ''profiles'') i)
    \<and> (\<forall>c. c \<noteq> ''profiles'' \<longrightarrow> db d' c = db d c)"
proof -
  let ?i = "BStr (m7_CustomerID p)"
  let ?fs = "[(''traits'', bson_strings (m7_Traits p)), (''updated_at'', bson_time now)]"
  have q: "q = p\<lparr>m7_UpdatedAt := now\<rparr>"
    and upd: "mg_UpdateOne mg ''profiles'' [(''_id'', ?i)] [(''$set'', BDoc ?fs)] True d = (None, d')"
    using assms(2) by (auto simp: m07_Upsert_def Let_def split: prod.splits option.splits)
  have "update_law mg db" using assms(1) by (simp add: mg_laws_def)
  from this [unfolded update_law_def, rule_format, OF conjI [OF plain_simps(1) conjI [OF plain_simps(4) upd]]]
  obtain x where x: "db d' = (db d)(''profiles'' := (db d ''profiles'')(?i \<mapsto> bson_set ?fs x))"
    by (auto simp: mg_hit_id)
  have "m07_profile_of_doc (bson_full ?i (bson_set ?fs x)) = Some (p\<lparr>m7_UpdatedAt := now div millisecond * millisecond\<rparr>)"
    by (simp add: m07_profile_of_doc_def bson_full_def map_of_bson_set)
  with q x show ?thesis by (simp add: m07_stored_def)
qed

section \<open>Properties\<close>

text \<open>C38 (roundtrip). After an \<open>Upsert\<close> that succeeds, \<open>Get\<close> answers the traits it was given under that customer, with the time of the
  upsert cut to a millisecond, so that the profile \<open>Upsert\<close> returned and the one \<open>Get\<close> returns differ in the time unless
  it was a whole millisecond. What \<open>Get\<close> finds of other customers, or that it does not find them, is the same
  before and after. Instead of any of these answers there may be an error of the driver, wrapped, but never
  \<open>ErrNotFound\<close> for a profile that is there.\<close>

theorem m07_upsert_get:
  assumes "mg_laws mg db" and "m07_Upsert mg now p d = (Inr q, d')"
  shows "q = p\<lparr>m7_UpdatedAt := now\<rparr>
    \<and> m07_answers (Some (p\<lparr>m7_UpdatedAt := now div millisecond * millisecond\<rparr>)) (m07_Get mg (m7_CustomerID p) d')
    \<and> (i \<noteq> m7_CustomerID p \<and> m07_Get mg i d = Inr r \<longrightarrow> m07_answers (Some r) (m07_Get mg i d'))
    \<and> (i \<noteq> m7_CustomerID p \<and> m07_Get mg i d = Inl m07_ErrNotFound \<longrightarrow> m07_answers None (m07_Get mg i d'))"
proof -
  note stored = m07_Upsert_stored [OF assms]
  then obtain doc where "m07_stored (db d' ''profiles'') (m7_CustomerID p) = Some doc"
    "m07_profile_of_doc doc = Some (p\<lparr>m7_UpdatedAt := now div millisecond * millisecond\<rparr>)" by blast
  then have "m07_answers (Some (p\<lparr>m7_UpdatedAt := now div millisecond * millisecond\<rparr>)) (m07_Get mg (m7_CustomerID p) d')"
    by (rule m07_Get_stored(2) [OF assms(1)])
  moreover have "m07_answers (Some r) (m07_Get mg i d')" if other: "i \<noteq> m7_CustomerID p" and got: "m07_Get mg i d = Inr r"
  proof -
    obtain x where "m07_stored (db d ''profiles'') i = Some x" "m07_profile_of_doc x = Some r"
      using m07_Get_stored(3) [OF assms(1) got] by blast
    then show ?thesis using stored other by (intro m07_Get_stored(2) [OF assms(1), of d' i x]) auto
  qed
  moreover have "m07_answers None (m07_Get mg i d')" if "i \<noteq> m7_CustomerID p" "m07_Get mg i d = Inl m07_ErrNotFound"
    using m07_Get_stored(4) [OF assms(1) that(2)] stored that(1)
    by (intro m07_Get_stored(1) [OF assms(1)]) simp
  ultimately show ?thesis using stored by blast
qed

section \<open>The counts\<close>

text \<open>The type of an event, unless it is missing, empty or no string; and how many events of a customer there are of a type.\<close>

definition m07_kind :: "bson_doc \<Rightarrow> string option" where
  "m07_kind doc = (case map_of doc ''type'' of Some (BStr t) \<Rightarrow> (if t = [] then None else Some t) | _ \<Rightarrow> None)"

definition m07_of_kind :: "bson_collection \<Rightarrow> string \<Rightarrow> string option \<Rightarrow> bson set" where
  "m07_of_kind coll c kind =
     {k. \<exists>x. mg_hit coll [(''customer_id'', BStr c)] k x \<and> m07_kind (bson_full k x) = kind}"

lemma m07_of_kind_finite: "finite (dom coll) \<Longrightarrow> finite (m07_of_kind coll c kind)"
  by (rule finite_subset [of _ "dom coll"]) (auto simp: m07_of_kind_def mg_hit_def)

lemma m07_kind_field: "t \<noteq> [] \<Longrightarrow> m07_kind doc = Some t \<longleftrightarrow> group_field ''type'' doc = BStr t"
  by (auto simp: m07_kind_def group_field_def split: option.splits bson.splits)

lemma m07_group_kind:
  "t \<noteq> [] \<Longrightarrow> group_of coll [(''customer_id'', BStr c)] ''type'' (BStr t) = m07_of_kind coll c (Some t)"
  by (simp add: group_of_def m07_of_kind_def m07_kind_field)

lemma fold_put_map_of:
  "map_of (foldl (\<lambda>out (t, n). map_put t n out) out rows) = map_of out ++ map_of (rev rows)"
proof (induction rows arbitrary: out)
  case (Cons row rows)
  then show ?case by (cases row) (auto simp: map_add_def split: option.splits)
qed simp

lemma map_of_rev_unique:
  assumes "\<forall>n \<in> {n. (t, n) \<in> set rows}. n = m"
  shows "map_of (rev rows) t = (if t \<in> fst ` set rows then Some m else None)"
proof (cases "map_of (rev rows) t")
  case None
  then show ?thesis by (simp add: map_of_eq_None_iff)
next
  case (Some n)
  then have "(t, n) \<in> set rows" by (auto dest: map_of_SomeD)
  with assms Some show ?thesis by force
qed

lemma decode_all_rows:
  "decode_all mg m07_row_of_doc (map (\<lambda>v. [(''_id'', v), (''count'', BInt (n v))]) vs) = Inr rows
    \<Longrightarrow> (\<forall>v \<in> set vs. to_string (Some v) \<noteq> None) \<and> rows = map (\<lambda>v. (the (to_string (Some v)), n v)) vs"
  by (induction vs arbitrary: rows)
    (auto simp: decode_one_def m07_row_of_doc_def split: sum.splits option.splits)

lemma to_string_named: "to_string (Some v) = Some t \<Longrightarrow> t \<noteq> [] \<Longrightarrow> v = BStr t"
  by (auto simp: to_string_def split: bson.splits)

text \<open>Remark (functional). \<open>EventCountsByType\<close> returns a map with one entry per type that occurs among
  the customer's events, with the number of these events, and none for the empty string if every event has a type.\<close>

theorem m07_counts_by_type:
  assumes "mg_laws mg db" and "m07_EventCountsByType mg c d = Inr out"
  shows "t \<noteq> [] \<Longrightarrow> map_of out t =
      (let n = card (m07_of_kind (db d ''events'') c (Some t)) in if n = 0 then None else Some (int n))"
    and "card (m07_of_kind (db d ''events'') c None) = 0 \<Longrightarrow> map_of out [] = None"
proof -
  let ?coll = "db d ''events''" and ?f = "[(''customer_id'', BStr c)]"
  obtain cur docs rows where run: "mg_Aggregate mg ''events'' (m07_pipeline c) d = Inr cur" "mg_All mg cur = Inr docs"
    "decode_all mg m07_row_of_doc docs = Inr rows" "out = foldl (\<lambda>out (t, n). map_put t n out) [] rows"
    using assms(2) by (auto simp: m07_EventCountsByType_def go_bind_def split: sum.splits)
  have "group_law mg db" and fin: "finite (dom ?coll)" using assms(1) by (simp_all add: mg_laws_def)
  then obtain vs where vs: "distinct vs" "set vs = {v. group_of ?coll ?f ''type'' v \<noteq> {}}"
    "docs = map (\<lambda>v. [(''_id'', v), (''count'', BInt (int (card (group_of ?coll ?f ''type'' v))))]) vs"
    using run(1,2) plain_simps(2,3) unfolding group_law_def m07_pipeline_def by blast
  from decode_all_rows [OF run(3) [unfolded vs(3)]]
  have strs: "\<forall>v \<in> set vs. to_string (Some v) \<noteq> None"
    and rows: "rows = map (\<lambda>v. (the (to_string (Some v)), int (card (group_of ?coll ?f ''type'' v)))) vs" by auto
  have out: "map_of out t = map_of (rev rows) t" for t by (simp add: run(4) fold_put_map_of)
  show "map_of out t = (let n = card (m07_of_kind ?coll c (Some t)) in if n = 0 then None else Some (int n))" if t: "t \<noteq> []"
  proof -
    have at_t: "to_string (Some v) = Some t \<longleftrightarrow> v = BStr t" for v using to_string_named [OF _ t] by auto
    have only: "v = BStr t" if "v \<in> set vs" "t = the (to_string (Some v))" for v
      using strs that at_t by (metis option.collapse)
    have "n = int (card (m07_of_kind ?coll c (Some t)))" if mem: "(t, n) \<in> set rows" for n
    proof -
      obtain v where v: "v \<in> set vs" "t = the (to_string (Some v))" "n = int (card (group_of ?coll ?f ''type'' v))"
        using mem unfolding rows by auto
      from only [OF v(1,2)] v(3) show ?thesis by (simp only: m07_group_kind [OF t])
    qed
    then have "\<forall>n \<in> {n. (t, n) \<in> set rows}. n = int (card (m07_of_kind ?coll c (Some t)))" by blast
    note looked = map_of_rev_unique [OF this]
    have "the (to_string (Some (BStr t))) = t" by simp
    then have "t \<in> fst ` set rows \<longleftrightarrow> BStr t \<in> set vs"
      using only unfolding rows set_map image_image fst_conv by (metis (mono_tags, lifting) imageE image_eqI)
    also have "... \<longleftrightarrow> m07_of_kind ?coll c (Some t) \<noteq> {}"
      unfolding vs(2) mem_Collect_eq m07_group_kind [OF t] ..
    also have "... \<longleftrightarrow> card (m07_of_kind ?coll c (Some t)) \<noteq> 0"
      using m07_of_kind_finite [OF fin, of c "Some t"] by (simp add: card_eq_0_iff)
    finally show ?thesis by (simp add: out looked Let_def)
  qed
  show "map_of out [] = None" if none: "card (m07_of_kind ?coll c None) = 0"
  proof -
    have empty: "m07_of_kind ?coll c None = {}" using none m07_of_kind_finite [OF fin] by simp
    have "to_string (Some v) \<noteq> Some []" if v: "v \<in> set vs" for v
    proof
      assume str: "to_string (Some v) = Some []"
      from v obtain k x where k: "mg_hit ?coll ?f k x" "group_field ''type'' (bson_full k x) = v"
        by (auto simp: vs(2) group_of_def)
      with str have "m07_kind (bson_full k x) = None"
        by (auto simp: m07_kind_def group_field_def to_string_def split: option.splits bson.splits if_splits)
      with k(1) have "k \<in> m07_of_kind ?coll c None" unfolding m07_of_kind_def by blast
      with empty show False by simp
    qed
    then have "\<forall>v \<in> set vs. [] \<noteq> the (to_string (Some v))" using strs by (metis option.collapse)
    then have "[] \<notin> fst ` set rows" by (auto simp: rows)
    then show ?thesis by (simp add: out map_of_eq_None_iff)
  qed
qed

text \<open>It answers, while the server does, if every event of the customer has a type.\<close>

lemma m07_counts_answers:
  assumes "mg_laws mg db" and "mg_Aggregate mg ''events'' (m07_pipeline c) d = Inr cur" and "mg_All mg cur = Inr docs"
    and "card (m07_of_kind (db d ''events'') c None) = 0"
  shows "\<exists>out. m07_EventCountsByType mg c d = Inr out \<and> map_wf out"
proof -
  let ?coll = "db d ''events''" and ?f = "[(''customer_id'', BStr c)]"
  have "group_law mg db" and fin: "finite (dom ?coll)" using assms(1) by (simp_all add: mg_laws_def)
  then obtain vs where vs: "set vs = {v. group_of ?coll ?f ''type'' v \<noteq> {}}"
    "docs = map (\<lambda>v. [(''_id'', v), (''count'', BInt (int (card (group_of ?coll ?f ''type'' v))))]) vs"
    using assms(2,3) plain_simps(2,3) unfolding group_law_def m07_pipeline_def by blast
  have empty: "m07_of_kind ?coll c None = {}" using assms(4) m07_of_kind_finite [OF fin] by simp
  have "\<exists>t. v = BStr t" if v: "v \<in> set vs" for v
  proof -
    obtain k x where k: "mg_hit ?coll ?f k x" "group_field ''type'' (bson_full k x) = v"
      using v by (auto simp: vs(1) group_of_def)
    have "k \<in> m07_of_kind ?coll c None" if "m07_kind (bson_full k x) = None"
      unfolding m07_of_kind_def using k(1) that by blast
    with empty have "m07_kind (bson_full k x) \<noteq> None" by blast
    with k(2) show ?thesis by (auto simp: m07_kind_def group_field_def split: option.splits bson.splits)
  qed
  then have "\<exists>rows. decode_all mg m07_row_of_doc (map (\<lambda>v. [(''_id'', v), (''count'', BInt (n v))]) vs) = Inr rows" for n
    by (induction vs) (fastforce simp: decode_one_def m07_row_of_doc_def)+
  from this [of "\<lambda>v. int (card (group_of ?coll ?f ''type'' v))"]
  obtain rows where "decode_all mg m07_row_of_doc docs = Inr rows" unfolding vs(2) by (elim exE)
  moreover have "map_wf m \<Longrightarrow> map_wf (foldl (\<lambda>out (t, n). map_put t n out) m rows)" for m :: "(string, int) gomap" and rows
    by (induction rows arbitrary: m) auto
  ultimately show ?thesis using assms(2,3) by (simp add: m07_EventCountsByType_def)
qed

section \<open>A database with these laws\<close>

text \<open>Each collection is a list of documents under their keys, the first of a key counting.\<close>

type_synonym demo_docs = "string \<Rightarrow> (bson \<times> bson_doc) list"

definition visible :: "(bson \<times> bson_doc) list \<Rightarrow> (bson \<times> bson_doc) list" where
  "visible l = map (\<lambda>k. (k, the (map_of l k))) (remdups (map fst l))"

definition demo_pick :: "bson_doc \<Rightarrow> (bson \<times> bson_doc) list \<Rightarrow> (bson \<times> bson_doc) list" where
  "demo_pick f l = filter (\<lambda>(k, x). bson_matches f (bson_full k x)) (visible l)"

definition demo_update :: "string \<Rightarrow> bson_doc \<Rightarrow> bson_doc \<Rightarrow> bool \<Rightarrow> demo_docs \<Rightarrow> unit go_error option \<times> demo_docs" where
  "demo_update c f u up d =
     (case u of
        [(_, BDoc fs)] \<Rightarrow>
          (case demo_pick f (d c) of
             (k, x) # _ \<Rightarrow> (None, d(c := map_put k (bson_set fs x) (d c)))
           | [] \<Rightarrow> (case map_of f ''_id'' of
                None \<Rightarrow> (Some (ErrNew [] ''no identifier''), d)
              | Some k \<Rightarrow> (if map_of (d c) k = None then (None, d(c := map_put k (bson_set fs (bson_rest f)) (d c)))
                          else (Some (ErrNew [] ''duplicate key''), d))))
      | _ \<Rightarrow> (Some (ErrNew [] ''unknown update''), d))"

definition demo_insert :: "string \<Rightarrow> bson_doc \<Rightarrow> demo_docs \<Rightarrow> unit go_error option \<times> demo_docs" where
  "demo_insert c doc d =
     (case map_of doc ''_id'' of
        None \<Rightarrow> (Some (ErrNew [] ''no identifier''), d)
      | Some k \<Rightarrow> (if map_of (d c) k = None then (None, d(c := map_put k (bson_rest doc) (d c)))
                  else (Some (ErrNew [] ''duplicate key''), d)))"

definition demo_group :: "string \<Rightarrow> bson_doc list \<Rightarrow> demo_docs \<Rightarrow> (unit, bson_doc list) go_result" where
  "demo_group c stages d =
     (case stages of
        [[(_, BDoc f)], [(_, BDoc [(_, BStr (_ # g)), _])]] \<Rightarrow>
          (let docs = map (\<lambda>(k, x). group_field g (bson_full k x)) (demo_pick f (d c))
           in Inr (map (\<lambda>v. [(''_id'', v), (''count'', BInt (int (count_list docs v)))]) (remdups docs)))
      | _ \<Rightarrow> Inl (ErrNew [] ''unknown pipeline''))"

definition demo_mg :: "(unit, demo_docs, bson_doc list) mg" where
  "demo_mg =
     \<lparr>mg_CreateOne = (\<lambda>c k n d. (None, d)), mg_UpdateOne = demo_update,
      mg_FindOne = (\<lambda>c f d. case demo_pick f (d c) of
        [] \<Rightarrow> Inl (ErrNew mg_ErrNoDocuments ''mongo: no documents in result'') | (k, x) # _ \<Rightarrow> Inr (bson_full k x)),
      mg_InsertOne = demo_insert,
      mg_Find = (\<lambda>c f s d. Inr (map (\<lambda>(k, x). bson_full k x) (demo_pick f (d c)))),
      mg_Aggregate = demo_group, mg_All = Inr,
      mg_decode = (\<lambda>doc. ErrNew [] ''cannot decode'')\<rparr>"

definition demo_db :: "demo_docs \<Rightarrow> string \<Rightarrow> bson_collection" where
  "demo_db d c = map_of (d c)"

lemma visible_set: "(k, x) \<in> set (visible l) \<longleftrightarrow> map_of l k = Some x"
proof -
  have "k \<in> fst ` set l \<longleftrightarrow> map_of l k \<noteq> None" by (simp add: map_of_eq_None_iff)
  then show ?thesis by (auto simp: visible_def)
qed

lemma demo_pick_set: "(k, x) \<in> set (demo_pick f (d c)) \<longleftrightarrow> mg_hit (demo_db d c) f k x"
  by (auto simp: demo_pick_def visible_set mg_hit_def demo_db_def)

lemma demo_pick_keys: "distinct (map fst (demo_pick f l))"
proof -
  have "map fst (visible l) = remdups (map fst l)" by (simp add: visible_def comp_def)
  then have "distinct (map fst (visible l))" by simp
  then show ?thesis by (simp add: demo_pick_def distinct_map_filter)
qed

lemma demo_miss: "demo_pick f (d c) = [] \<longleftrightarrow> mg_miss (demo_db d c) f"
  by (auto simp: mg_miss_def demo_pick_set [symmetric]) (metis list.set_intros(1) neq_Nil_conv surj_pair)

lemma demo_pick_Cons: "demo_pick f (d c) = (k, x) # ps \<Longrightarrow> mg_hit (demo_db d c) f k x"
  by (simp add: demo_pick_set [symmetric])

lemma demo_count:
  "int (count_list (map (\<lambda>(k, x). group_field g (bson_full k x)) (demo_pick f (d c))) v)
     = int (card (group_of (demo_db d c) f g v))"
proof -
  let ?ps = "filter (\<lambda>(k, x). group_field g (bson_full k x) = v) (demo_pick f (d c))"
  have "count_list (map h ps) v = length (filter (\<lambda>p. h p = v) ps)" for h :: "bson \<times> bson_doc \<Rightarrow> bson" and ps
    by (induction ps) auto
  then have "count_list (map (\<lambda>(k, x). group_field g (bson_full k x)) (demo_pick f (d c))) v = length (map fst ?ps)"
    by (simp add: case_prod_beta')
  also have "... = card (set (map fst ?ps))"
    using demo_pick_keys [of f "d c"] by (intro distinct_card [symmetric]) (rule distinct_map_filter)
  also have "set (map fst ?ps) = group_of (demo_db d c) f g v"
    by (force simp: group_of_def demo_pick_set [symmetric])
  finally show ?thesis by simp
qed

lemma demo_mg_laws: "mg_laws demo_mg demo_db"
  unfolding mg_laws_def
proof (intro conjI allI)
  have put: "demo_db (d(c := map_put k y (d c))) = (demo_db d)(c := (demo_db d c)(k \<mapsto> y))" for d c k y
    by (rule ext) (simp add: demo_db_def)
  show "update_law demo_mg demo_db"
    unfolding update_law_def
  proof (intro allI impI, elim conjE)
    fix c f fs d d'
    assume "mg_UpdateOne demo_mg c f [(''$set'', BDoc fs)] True d = (None, d')"
    then have run: "demo_update c f [(''$set'', BDoc fs)] True d = (None, d')" by (simp add: demo_mg_def)
    show "(\<exists>k x. mg_hit (demo_db d c) f k x \<and> demo_db d' = (demo_db d)(c := (demo_db d c)(k \<mapsto> bson_set fs x)))
       \<or> mg_miss (demo_db d c) f \<and> (\<exists>k. demo_db d c k = None \<and> (\<forall>i. map_of f ''_id'' = Some i \<longrightarrow> k = i)
            \<and> demo_db d' = (demo_db d)(c := (demo_db d c)(k \<mapsto> bson_set fs (bson_rest f))))"
    proof (cases "demo_pick f (d c)")
      case Nil
      with run obtain k where k: "map_of f ''_id'' = Some k" "map_of (d c) k = None"
        "d' = d(c := map_put k (bson_set fs (bson_rest f)) (d c))"
        by (auto simp: demo_update_def split: option.splits if_splits)
      have "demo_db d c k = None" using k(2) by (simp add: demo_db_def)
      moreover have "mg_miss (demo_db d c) f" using Nil by (simp only: demo_miss)
      moreover have "demo_db d' = (demo_db d)(c := (demo_db d c)(k \<mapsto> bson_set fs (bson_rest f)))"
        unfolding k(3) by (rule put)
      moreover have "\<forall>i. map_of f ''_id'' = Some i \<longrightarrow> k = i" using k(1) by simp
      ultimately show ?thesis by (intro disjI2 conjI exI [of _ k])
    next
      case (Cons p ps)
      obtain k x where p: "p = (k, x)" by (cases p)
      with run Cons have "d' = d(c := map_put k (bson_set fs x) (d c))" by (simp add: demo_update_def)
      then have "demo_db d' = (demo_db d)(c := (demo_db d c)(k \<mapsto> bson_set fs x))" by (simp only: put)
      with demo_pick_Cons [where d = d and c = c, OF Cons [unfolded p]] show ?thesis
        by (intro disjI1 exI [of _ k] exI [of _ x] conjI)
    qed
  qed
  show "find_law demo_mg demo_db"
    unfolding find_law_def
    by (auto simp: demo_mg_def demo_miss mg_ErrNoDocuments_def split: list.splits dest: demo_pick_Cons)
  show "insert_one_law demo_mg demo_db"
    unfolding insert_one_law_def
  proof (intro allI impI, elim conjE)
    fix c k x d d'
    assume run: "mg_InsertOne demo_mg c (bson_full k x) d = (None, d')" and plain: "plain_fields x"
    from plain have no: "map_of x ''_id'' = None" by (auto simp: plain_fields_def map_of_eq_None_iff)
    have "bson_rest (bson_full k x) = x"
      using no by (force simp: bson_rest_def bson_full_def map_of_eq_None_iff intro!: filter_True)
    with run have "map_of (d c) k = None \<and> d' = d(c := map_put k x (d c))"
      by (auto simp: demo_mg_def demo_insert_def bson_full_def split: if_splits)
    with put show "demo_db d c k = None \<and> demo_db d' = (demo_db d)(c := (demo_db d c)(k \<mapsto> x))"
      by (simp add: demo_db_def [of d])
  qed
  show "group_law demo_mg demo_db"
    unfolding group_law_def
  proof (intro allI impI, elim conjE)
    fix c f g d cur rows
    assume run: "mg_Aggregate demo_mg c [[(''$match'', BDoc f)],
         [(''$group'', BDoc [(''_id'', BStr (CHR ''$'' # g)), (''count'', BDoc [(''$sum'', BInt 1)])])]] d = Inr cur"
      "mg_All demo_mg cur = Inr rows"
    let ?docs = "map (\<lambda>(k, x). group_field g (bson_full k x)) (demo_pick f (d c))"
    have "rows = map (\<lambda>v. [(''_id'', v), (''count'', BInt (int (card (group_of (demo_db d c) f g v))))]) (remdups ?docs)"
      using run by (simp add: demo_mg_def demo_group_def demo_count Let_def)
    moreover have "set (remdups ?docs) = {v. group_of (demo_db d c) f g v \<noteq> {}}"
      by (force simp: group_of_def demo_pick_set [symmetric])
    ultimately show "\<exists>vs. distinct vs \<and> set vs = {v. group_of (demo_db d c) f g v \<noteq> {}}
        \<and> rows = map (\<lambda>v. [(''_id'', v), (''count'', BInt (int (card (group_of (demo_db d c) f g v))))]) vs"
      by (intro exI [of _ "remdups ?docs"]) simp
  qed
  show "finite (dom (demo_db d c))" for d c by (simp add: demo_db_def finite_dom_map_of)
qed

theorem m07_upsert_get_witness:
  "\<exists>d'. m07_Get demo_mg ''c1'' d' = Inr \<lparr>m7_CustomerID = ''c1'', m7_Traits = [(''tier'', ''gold'')],
     m7_UpdatedAt = 7000000\<rparr>"
proof -
  let ?p = "\<lparr>m7_CustomerID = ''c1'', m7_Traits = [(''tier'', ''gold'')], m7_UpdatedAt = 0\<rparr>"
  obtain q d' where up: "m07_Upsert demo_mg 7654321 ?p (\<lambda>c. []) = (Inr q, d')"
    by (simp add: m07_Upsert_def demo_mg_def demo_update_def demo_pick_def visible_def)
  have "m07_answers (Some (?p\<lparr>m7_UpdatedAt := 7000000\<rparr>)) (m07_Get demo_mg ''c1'' d')"
    using m07_upsert_get [OF demo_mg_laws up, of "''c2''"] by (simp add: millisecond_def)
  moreover have "m07_Get demo_mg ''c1'' d' \<noteq> Inl (ErrWrap ''get profile'' e)" if "\<not> errors_is (Some e) mg_ErrNoDocuments" for e
    using up that by (auto simp: m07_Get_def m07_Upsert_def demo_mg_def demo_update_def demo_pick_def visible_def bson_set_def
        bson_rest_def bson_matches_def bson_full_def decode_one_def m07_profile_of_doc_def Let_def)
  ultimately show ?thesis by (intro exI [of _ d']) (auto simp: m07_answers_def)
qed

definition demo_event :: "string \<Rightarrow> string \<Rightarrow> bson \<times> bson_doc" where
  "demo_event i t = (BStr i, [(''customer_id'', BStr ''c1''), (''type'', BStr t), (''occurred_at'', BDate 0)])"

theorem m07_counts_by_type_witness:
  "\<exists>out. m07_EventCountsByType demo_mg ''c1''
       (\<lambda>c. [demo_event ''1'' ''view'', demo_event ''2'' ''buy'', demo_event ''3'' ''view'']) = Inr out
     \<and> map_of out ''view'' = Some 2"
proof -
  let ?d = "\<lambda>c. [demo_event ''1'' ''view'', demo_event ''2'' ''buy'', demo_event ''3'' ''view'']"
  obtain out where run: "m07_EventCountsByType demo_mg ''c1'' ?d = Inr out"
    by (simp add: m07_EventCountsByType_def demo_mg_def demo_group_def m07_pipeline_def demo_pick_def visible_def demo_event_def
        bson_matches_def bson_full_def group_field_def decode_one_def m07_row_of_doc_def)
  have "m07_of_kind (demo_db ?d ''events'') ''c1'' (Some ''view'') = {BStr ''1'', BStr ''3''}"
    by (auto simp: m07_of_kind_def mg_hit_def demo_db_def demo_event_def m07_kind_def bson_matches_def bson_full_def split: if_splits)
  with m07_counts_by_type(1) [OF demo_mg_laws run, of "''view''"] run show ?thesis by simp
qed

end
