(* ===== verification/M07_Demo.thy ===== *)
theory M07_Demo
  imports M07_Mongo Go_Cmd Go_Fmt
begin

text \<open>
  The command of \<open>m07-mongodb\<close>: an upsert, four events, the profile and the counts. The text of
  \<open>cmd/demo\<close> and \<open>solution-cmd/demo\<close> is the same but for the packages \<open>mongodb\<close> and \<open>profile\<close> it imports,
  which are an argument of the model; for the reference the driver is the parameter of \<open>M07_Mongo\<close>. The
  clock is an argument.
\<close>

section \<open>The command, for any packages\<close>

record 'd m07_host = host +
  db7 :: 'd

text \<open>What the command uses of the packages, on the structs the exercise prescribes; \<open>'d\<close> is the server.\<close>

record ('x, 'c, 'r, 'd) m07_packages =
  p7_Connect :: "string \<Rightarrow> ('x, 'c) go_result"
  p7_Disconnect :: "'c \<Rightarrow> 'd \<Rightarrow> 'd"
  p7_NewMongoRepo :: "'c \<Rightarrow> string \<Rightarrow> 'd \<Rightarrow> ('x, 'r) go_result \<times> 'd"
  p7_Upsert :: "'r \<Rightarrow> int \<Rightarrow> m07_Profile \<Rightarrow> 'd \<Rightarrow> ('x, m07_Profile) go_result \<times> 'd"
  p7_AppendEvent :: "'r \<Rightarrow> m07_Event \<Rightarrow> 'd \<Rightarrow> 'x go_error option \<times> 'd"
  p7_Get :: "'r \<Rightarrow> string \<Rightarrow> 'd \<Rightarrow> ('x, m07_Profile) go_result"
  p7_EventCountsByType :: "'r \<Rightarrow> string \<Rightarrow> 'd \<Rightarrow> ('x, (string, int) gomap) go_result"

definition on7 :: "('d \<Rightarrow> 'd) \<Rightarrow> 'd m07_host \<Rightarrow> 'd m07_host" where
  "on7 f s = s\<lparr>db7 := f (db7 s)\<rparr>"

definition call7 :: "('d \<Rightarrow> 'a \<times> 'd) \<Rightarrow> ('a, 'd m07_host) cmd" where
  "call7 f = call (\<lambda>s. let (x, d) = f (db7 s) in (x, s\<lparr>db7 := d\<rparr>))"

definition m07_cust :: string where "m07_cust = ''cus_demo''"

definition m07_demo_profile :: m07_Profile where
  "m07_demo_profile = \<lparr>m7_CustomerID = m07_cust,
     m7_Traits = [(''tier'', ''gold''), (''channel'', ''email''), (''locale'', ''en-US'')], m7_UpdatedAt = zero_time\<rparr>"

definition m07_demo_types :: "string list" where
  "m07_demo_types = [''page_view'', ''page_view'', ''add_to_cart'', ''purchase'']"

definition m07_demo_event :: "int \<Rightarrow> nat \<times> string \<Rightarrow> m07_Event" where
  "m07_demo_event now it = \<lparr>m7e_ID = m07_cust @ ''_e'' @ fmt_d (int (fst it)) @ ''_'' @ fmt_d now,
     m7e_CustomerID = m07_cust, m7e_Type = snd it, m7e_OccurredAt = now + int (fst it) * second\<rparr>"

definition m07_no_profile :: m07_Profile where
  "m07_no_profile = \<lparr>m7_CustomerID = [], m7_Traits = [], m7_UpdatedAt = zero_time\<rparr>"

definition l07_append :: "('x, 'c, 'r, 'd) m07_packages \<Rightarrow> 'r \<Rightarrow> int \<Rightarrow> nat \<times> string \<Rightarrow> 'd m07_host \<Rightarrow> 'd m07_host" where
  "l07_append p repo now it = on7 (\<lambda>d. snd (p7_AppendEvent p repo (m07_demo_event now it) d))"

text \<open>The errors of all operations after \<open>NewMongoRepo\<close> are ignored; \<open>upd\<close> is the clock of the upsert.\<close>

definition l07_demo_run :: "('x, 'c, 'r, 'd) m07_packages \<Rightarrow> 'r \<Rightarrow> int \<Rightarrow> int \<Rightarrow> (unit, 'd m07_host) cmd" where
  "l07_demo_run p repo upd now =
     bind (call7 (p7_Upsert p repo upd m07_demo_profile)) (\<lambda>_.
     bind (in_order (map (\<lambda>it. act (l07_append p repo now it)) (List.enumerate 0 m07_demo_types))) (\<lambda>_.
     bind (call (\<lambda>s. (p7_Get p repo m07_cust (db7 s), s))) (\<lambda>res.
     let pf = (case res of Inl e \<Rightarrow> m07_no_profile | Inr pf \<Rightarrow> pf) in
     bind (act (stdout (''profile '' @ m7_CustomerID pf @ '' traits='' @ fmt_map id id (m7_Traits pf) @ nl))) (\<lambda>_.
     bind (call (\<lambda>s. (p7_EventCountsByType p repo m07_cust (db7 s), s))) (\<lambda>res.
     let counts = (case res of Inl e \<Rightarrow> [] | Inr m \<Rightarrow> m) in
     act (stdout (''event counts by type: '' @ fmt_map id fmt_d counts @ nl)))))))"

definition l07_demo_main ::
  "('x, 'c, 'r, 'd) m07_packages \<Rightarrow> (string \<Rightarrow> string) \<Rightarrow> int \<Rightarrow> int \<Rightarrow> (unit, 'd m07_host) cmd" where
  "l07_demo_main p getenv upd now =
     (let uri = getenv ''PULSE_MONGO_URI''
      in if uri = [] then fatal (stderr (''PULSE_MONGO_URI is required'' @ nl)) else
      bind (or_fatal stderr ''connect'' (p7_Connect p uri)) (\<lambda>client.
      deferring (on7 (p7_Disconnect p client)) (
      bind (call7 (p7_NewMongoRepo p client ''pulse'')) (\<lambda>res.
      bind (or_fatal stderr ''repo'' res) (\<lambda>repo.
      l07_demo_run p repo upd now)))))"

section \<open>What the exercises ask of the packages\<close>

text \<open>
  Over what the server holds, the profiles \<open>prof\<close>, the identifiers of events \<open>used\<close> and the numbers \<open>num\<close> of a customer's events of a
  type (\<open>None\<close> for those without one), while it answers: an upsert
  stores the traits it is given, \<open>Get\<close> finds them, an append adds its event if its identifier is free, and the counts are one
  entry per type that occurs.
\<close>

locale m07_exercise =
  fixes p :: "('x, 'c, 'r, 'd) m07_packages" and prof :: "'d \<Rightarrow> string \<Rightarrow> m07_Profile option"
    and used :: "'d \<Rightarrow> string \<Rightarrow> bool" and num :: "'d \<Rightarrow> string \<Rightarrow> string option \<Rightarrow> nat"
  assumes new_repo: "\<exists>repo d'. p7_NewMongoRepo p client n d = (Inr repo, d') \<and> used d' = used d \<and> num d' = num d"
    and upsert: "\<exists>res d' t. p7_Upsert p repo now pf d = (res, d') \<and> used d' = used d \<and> num d' = num d
      \<and> prof d' (m7_CustomerID pf) = Some (pf\<lparr>m7_UpdatedAt := t\<rparr>)"
    and append_event: "\<not> used d (m7e_ID e) \<Longrightarrow> m7e_Type e \<noteq> [] \<Longrightarrow>
      \<exists>d'. p7_AppendEvent p repo e d = (None, d') \<and> prof d' = prof d \<and> used d' = (used d)(m7e_ID e := True)
        \<and> (\<forall>c k. num d' c k = num d c k + (if c = m7e_CustomerID e \<and> k = Some (m7e_Type e) then 1 else 0))"
    and get: "prof d i = Some pf \<Longrightarrow> p7_Get p repo i d = Inr pf"
    and counts: "num d c None = 0 \<Longrightarrow> \<exists>out. p7_EventCountsByType p repo c d = Inr out \<and> map_wf out \<and> map_of out [] = None
      \<and> (\<forall>t. t \<noteq> [] \<longrightarrow> map_of out t = (let n = num d c (Some t) in if n = 0 then None else Some (int n)))"
begin

lemma appends:
  "distinct (map (m7e_ID \<circ> m07_demo_event now) its)
    \<Longrightarrow> \<forall>it \<in> set its. snd it \<noteq> [] \<and> \<not> used (db7 s) (m7e_ID (m07_demo_event now it))
    \<Longrightarrow> num (db7 (fold (l07_append p repo now) its s)) m07_cust k
        = num (db7 s) m07_cust k + length (filter (\<lambda>it. Some (snd it) = k) its)
      \<and> prof (db7 (fold (l07_append p repo now) its s)) = prof (db7 s)
      \<and> h_out (fold (l07_append p repo now) its s) = h_out s"
proof (induction its arbitrary: s)
  case (Cons it its)
  let ?e = "m07_demo_event now it"
  have fields: "m7e_Type ?e = snd it" "m7e_CustomerID ?e = m07_cust" by (simp_all add: m07_demo_event_def)
  obtain d' where d': "p7_AppendEvent p repo ?e (db7 s) = (None, d')" "prof d' = prof (db7 s)"
    "used d' = (used (db7 s))(m7e_ID ?e := True)"
    "\<forall>c k. num d' c k = num (db7 s) c k + (if c = m7e_CustomerID ?e \<and> k = Some (m7e_Type ?e) then 1 else 0)"
    using append_event [of "db7 s" ?e repo] Cons.prems(2) by (auto simp: fields(1))
  have run: "l07_append p repo now it s = s\<lparr>db7 := d'\<rparr>" by (simp add: l07_append_def on7_def d'(1))
  have "\<forall>i \<in> set its. snd i \<noteq> [] \<and> \<not> used (db7 (s\<lparr>db7 := d'\<rparr>)) (m7e_ID (m07_demo_event now i))"
    using Cons.prems d'(3) by (auto simp: image_iff)
  with Cons.IH [of "s\<lparr>db7 := d'\<rparr>"] Cons.prems(1) d'(2,4) run show ?case by (auto simp: fields)
qed simp

end

lemma m07_demo_texts:
  "fmt_map id id [(''tier'', ''gold''), (''channel'', ''email''), (''locale'', ''en-US'')]
     = ''map[channel:email locale:en-US tier:gold]''"
  "fmt_map id fmt_d [(''page_view'', 2), (''add_to_cart'', 1), (''purchase'', 1)]
     = ''map[add_to_cart:1 page_view:2 purchase:1]''"
  by code_simp+

lemma m07_demo_types_count:
  "length (filter (\<lambda>it. Some (snd it) = k) (List.enumerate 0 m07_demo_types))
     = (if k = Some ''page_view'' then 2 else if k = Some ''add_to_cart'' then 1 else if k = Some ''purchase'' then 1 else 0)"
  by (auto simp: m07_demo_types_def)

lemma m07_demo_ids:
  "distinct (map (m7e_ID \<circ> m07_demo_event now) (List.enumerate 0 m07_demo_types))"
  "prefix m07_cust (m7e_ID (m07_demo_event now it))"
proof -
  have digits: "fmt_d 0 = ''0''" "fmt_d 1 = ''1''" "fmt_d 2 = ''2''" "fmt_d 3 = ''3''" by code_simp+
  show "distinct (map (m7e_ID \<circ> m07_demo_event now) (List.enumerate 0 m07_demo_types))"
    by (simp add: m07_demo_types_def m07_demo_event_def digits)
  show "prefix m07_cust (m7e_ID (m07_demo_event now it))" by (simp add: m07_demo_event_def)
qed

text \<open>A server that holds nothing of the demo's customer.\<close>

definition m07_unknown :: "('d \<Rightarrow> string \<Rightarrow> bool) \<Rightarrow> ('d \<Rightarrow> string \<Rightarrow> string option \<Rightarrow> nat) \<Rightarrow> 'd \<Rightarrow> bool" where
  "m07_unknown used num d \<longleftrightarrow> (\<forall>i. prefix m07_cust i \<longrightarrow> \<not> used d i) \<and> (\<forall>k. num d m07_cust k = 0)"

context m07_exercise
begin

text \<open>The counts after the four events, and the run of the repository's part.\<close>

lemma demo_counted:
  assumes "\<forall>k. num d m07_cust k = length (filter (\<lambda>it. Some (snd it) = k) (List.enumerate 0 m07_demo_types))"
  obtains out where "p7_EventCountsByType p repo m07_cust d = Inr out"
    and "fmt_map id fmt_d out = ''map[add_to_cart:1 page_view:2 purchase:1]''"
proof -
  have num: "num d m07_cust k = (if k = Some ''page_view'' then 2 else if k = Some ''add_to_cart'' then 1
      else if k = Some ''purchase'' then 1 else 0)" for k
    using assms by (simp only: m07_demo_types_count)
  obtain out where out: "p7_EventCountsByType p repo m07_cust d = Inr out" "map_wf out" "map_of out [] = None"
    "\<forall>t. t \<noteq> [] \<longrightarrow> map_of out t = (let n = num d m07_cust (Some t) in if n = 0 then None else Some (int n))"
    using counts [of d m07_cust repo] num by auto
  have counted: "map_of out t = (if t = ''page_view'' then Some 2 else if t = ''add_to_cart'' then Some 1
      else if t = ''purchase'' then Some 1 else None)" for t
    using out(3) spec [OF out(4), of t] by (cases "t = []") (auto simp: num Let_def)
  have "fmt_map id fmt_d out = fmt_map id fmt_d [(''page_view'', 2), (''add_to_cart'', 1), (''purchase'', 1)]"
  proof (rule fmt_map_cong)
    show "map_of out = map_of [(''page_view'', 2), (''add_to_cart'', 1), (''purchase'', 1)]"
      by (rule ext) (simp add: counted)
  qed (simp_all add: out(2), simp add: map_wf_def)
  then show thesis by (intro that [OF out(1)]) (simp only: m07_demo_texts)
qed

lemma demo_run_output:
  assumes "m07_unknown used num (db7 s)"
  obtains s' where "l07_demo_run p repo upd now s = (Val (), s')"
    and "h_out s' = h_out s @ ''profile cus_demo traits=map[channel:email locale:en-US tier:gold]'' @ nl
        @ ''event counts by type: map[add_to_cart:1 page_view:2 purchase:1]'' @ nl"
proof -
  obtain res d2 t where d2: "p7_Upsert p repo upd m07_demo_profile (db7 s) = (res, d2)" "used d2 = used (db7 s)"
    "num d2 = num (db7 s)" "prof d2 m07_cust = Some (m07_demo_profile\<lparr>m7_UpdatedAt := t\<rparr>)"
    using upsert [of repo upd m07_demo_profile "db7 s"] by (auto simp: m07_demo_profile_def)
  let ?its = "List.enumerate 0 m07_demo_types"
  let ?s3 = "fold (l07_append p repo now) ?its (s\<lparr>db7 := d2\<rparr>)"
  have types: "snd it \<noteq> []" if "it \<in> set ?its" for it using that by (auto simp: m07_demo_types_def)
  have "\<forall>it \<in> set ?its. snd it \<noteq> [] \<and> \<not> used (db7 (s\<lparr>db7 := d2\<rparr>)) (m7e_ID (m07_demo_event now it))"
    using assms m07_demo_ids(2) types by (simp add: m07_unknown_def d2(2))
  note appended = appends [OF m07_demo_ids(1) this]
  have s3: "\<forall>k. num (db7 ?s3) m07_cust k = length (filter (\<lambda>it. Some (snd it) = k) ?its)" "prof (db7 ?s3) = prof d2" "h_out ?s3 = h_out s"
    using appended assms by (simp_all add: m07_unknown_def d2(3))
  have got: "p7_Get p repo m07_cust (db7 ?s3) = Inr (m07_demo_profile\<lparr>m7_UpdatedAt := t\<rparr>)"
    by (rule get) (simp add: s3(2) d2(4))
  obtain out where out: "p7_EventCountsByType p repo m07_cust (db7 ?s3) = Inr out"
    "fmt_map id fmt_d out = ''map[add_to_cart:1 page_view:2 purchase:1]''"
    by (rule demo_counted [OF s3(1)])
  have "db7 (stdout t s) = db7 s" for t and s :: "'d m07_host" by (simp add: stdout_def)
  with d2(1) got out(1) have "l07_demo_run p repo upd now s = (Val (),
      stdout (''event counts by type: '' @ fmt_map id fmt_d out @ nl)
        (stdout (''profile '' @ m07_cust @ '' traits='' @ fmt_map id id (m7_Traits m07_demo_profile) @ nl) ?s3))"
    by (simp add: l07_demo_run_def cmd_run call7_def Let_def m07_demo_profile_def)
  then show thesis
    by (rule that) (simp add: s3(3) out(2) m07_demo_profile_def m07_demo_texts m07_cust_def)
qed

lemma demo_output:
  assumes "getenv ''PULSE_MONGO_URI'' \<noteq> []" and "p7_Connect p (getenv ''PULSE_MONGO_URI'') = Inr client"
    and "m07_unknown used num (db7 s)"
  shows "\<exists>s'. l07_demo_main p getenv upd now s = (Val (), s')
    \<and> h_out s' = h_out s @ ''profile cus_demo traits=map[channel:email locale:en-US tier:gold]'' @ nl
        @ ''event counts by type: map[add_to_cart:1 page_view:2 purchase:1]'' @ nl"
proof -
  obtain repo d1 where d1: "p7_NewMongoRepo p client ''pulse'' (db7 s) = (Inr repo, d1)"
    "used d1 = used (db7 s)" "num d1 = num (db7 s)"
    using new_repo by blast
  have "m07_unknown used num (db7 (s\<lparr>db7 := d1\<rparr>))" using assms(3) d1(2,3) by (simp add: m07_unknown_def)
  then obtain s' where s': "l07_demo_run p repo upd now (s\<lparr>db7 := d1\<rparr>) = (Val (), s')"
    "h_out s' = h_out (s\<lparr>db7 := d1\<rparr>) @ ''profile cus_demo traits=map[channel:email locale:en-US tier:gold]'' @ nl
        @ ''event counts by type: map[add_to_cart:1 page_view:2 purchase:1]'' @ nl"
    by (rule demo_run_output)
  then have "l07_demo_main p getenv upd now s = (Val (), on7 (p7_Disconnect p client) s')"
    using assms(1,2) d1(1) by (simp add: l07_demo_main_def cmd_run call7_def Let_def)
  then show ?thesis by (intro exI conjI, assumption) (simp add: on7_def s'(2))
qed

end

text \<open>Remark (functional). With any packages that keep the contract, on a server without events of the demo's
  customer and their identifiers, the command prints the profile it stored and the counts of the four events it appended,
  in the order of the keys.\<close>

theorem l07_demo_output:
  assumes "m07_exercise p prof used num" and "getenv ''PULSE_MONGO_URI'' \<noteq> []"
    and "p7_Connect p (getenv ''PULSE_MONGO_URI'') = Inr client"
    and "m07_unknown used num (db7 s)"
  shows "\<exists>s'. l07_demo_main p getenv upd now s = (Val (), s')
    \<and> h_out s' = h_out s @ ''profile cus_demo traits=map[channel:email locale:en-US tier:gold]'' @ nl
        @ ''event counts by type: map[add_to_cart:1 page_view:2 purchase:1]'' @ nl"
  using assms by (rule m07_exercise.demo_output)

section \<open>The packages of the reference\<close>

record ('x, 'c, 'd, 'u) m07_services =
  v7_connect :: "string \<Rightarrow> ('x, 'c) go_result"
  v7_ping :: "'c \<Rightarrow> 'x go_error option"
  v7_disconnect :: "'c \<Rightarrow> 'd \<Rightarrow> 'd"
  v7_db :: "('x, 'd, 'u) mg"

text \<open>The repository holds the collections of the database, whose name the driver's parameter leaves out.\<close>

definition m07_solution :: "('x, 'c, 'd, 'u) m07_services \<Rightarrow> ('x, 'c, unit, 'd) m07_packages" where
  "m07_solution v = \<lparr>p7_Connect = (\<lambda>uri. fst (m07_Connect (v7_connect v) (v7_ping v) uri)),
     p7_Disconnect = v7_disconnect v, p7_NewMongoRepo = (\<lambda>client n. m07_NewMongoRepo (v7_db v)),
     p7_Upsert = (\<lambda>r. m07_Upsert (v7_db v)), p7_AppendEvent = (\<lambda>r. m07_AppendEvent (v7_db v)),
     p7_Get = (\<lambda>r. m07_Get (v7_db v)), p7_EventCountsByType = (\<lambda>r. m07_EventCountsByType (v7_db v))\<rparr>"

definition m07_demo_main ::
  "('x, 'c, 'd, 'u) m07_services \<Rightarrow> (string \<Rightarrow> string) \<Rightarrow> int \<Rightarrow> int \<Rightarrow> (unit, 'd m07_host) cmd" where
  "m07_demo_main v getenv upd now = l07_demo_main (m07_solution v) getenv upd now"

text \<open>What the server is relied on for beyond \<open>mg_laws\<close> while it answers: no operation of the demo fails
  but an insert whose identifier is taken.\<close>

locale mongo_up =
  fixes v :: "('x, 'c, 'd, 'u) m07_services" and db :: "'d \<Rightarrow> string \<Rightarrow> bson_collection"
  assumes laws: "mg_laws (v7_db v) db"
    and insert_up: "db d c k = None \<Longrightarrow> \<exists>d'. mg_InsertOne (v7_db v) c (bson_full k x) d = (None, d')"
    and update_up: "\<exists>d'. mg_UpdateOne (v7_db v) c [(''_id'', k)] [(''$set'', BDoc fs)] True d = (None, d')"
    and index_up: "\<exists>d'. mg_CreateOne (v7_db v) c ks n d = (None, d') \<and> db d' = db d"
    and find_up: "mg_FindOne (v7_db v) c f d = Inl e \<Longrightarrow> errors_is (Some e) mg_ErrNoDocuments"
    and group_up: "\<exists>cur docs. mg_Aggregate (v7_db v) c (m07_pipeline i) d = Inr cur \<and> mg_All (v7_db v) cur = Inr docs"

text \<open>The profiles, identifiers and numbers of the contract in the documents.\<close>

definition m07_prof :: "('d \<Rightarrow> string \<Rightarrow> bson_collection) \<Rightarrow> 'd \<Rightarrow> string \<Rightarrow> m07_Profile option" where
  "m07_prof db d i = Option.bind (m07_stored (db d ''profiles'') i) m07_profile_of_doc"

definition m07_used :: "('d \<Rightarrow> string \<Rightarrow> bson_collection) \<Rightarrow> 'd \<Rightarrow> string \<Rightarrow> bool" where
  "m07_used db d i \<longleftrightarrow> db d ''events'' (BStr i) \<noteq> None"

definition m07_num :: "('d \<Rightarrow> string \<Rightarrow> bson_collection) \<Rightarrow> 'd \<Rightarrow> string \<Rightarrow> string option \<Rightarrow> nat" where
  "m07_num db d c k = card (m07_of_kind (db d ''events'') c k)"

lemma m07_num_insert:
  assumes "finite (dom coll)" and "coll (BStr (m7e_ID e)) = None" and "m7e_Type e \<noteq> []"
  shows "card (m07_of_kind (coll(BStr (m7e_ID e) \<mapsto> bson_rest (m07_doc_of_event e))) c k)
    = card (m07_of_kind coll c k) + (if c = m7e_CustomerID e \<and> k = Some (m7e_Type e) then 1 else 0)"
proof -
  let ?k = "BStr (m7e_ID e)" and ?x = "bson_rest (m07_doc_of_event e)"
  have new: "bson_matches [(''customer_id'', BStr c)] (bson_full ?k ?x) \<and> m07_kind (bson_full ?k ?x) = k
      \<longleftrightarrow> c = m7e_CustomerID e \<and> k = Some (m7e_Type e)"
    using assms(3) by (auto simp: bson_matches_def bson_full_def bson_rest_def m07_doc_of_event_def m07_kind_def)
  have "?k \<notin> m07_of_kind coll c k" using assms(2) by (simp add: m07_of_kind_def mg_hit_def)
  moreover have "m07_of_kind (coll(?k \<mapsto> ?x)) c k = (if c = m7e_CustomerID e \<and> k = Some (m7e_Type e)
      then insert ?k (m07_of_kind coll c k) else m07_of_kind coll c k)"
    using assms(2) unfolding new [symmetric] by (auto simp: m07_of_kind_def mg_hit_def)
  ultimately show ?thesis
    using m07_of_kind_finite [OF assms(1), of c k] by (cases "c = m7e_CustomerID e \<and> k = Some (m7e_Type e)") auto
qed

sublocale mongo_up \<subseteq> reference: m07_exercise "m07_solution v" "m07_prof db" "m07_used db" "m07_num db"
proof
  fix client n d
  show "\<exists>repo d'. p7_NewMongoRepo (m07_solution v) client n d = (Inr repo, d') \<and> m07_used db d' = m07_used db d
      \<and> m07_num db d' = m07_num db d"
    using index_up [of "''events''" "[(''customer_id'', 1), (''occurred_at'', -1)]" "''by_customer_time''" d]
    by (auto simp: m07_solution_def m07_NewMongoRepo_def m07_ensureIndexes_def m07_used_def [abs_def] m07_num_def [abs_def])
next
  fix repo now d and pf :: m07_Profile
  obtain q d' where up: "m07_Upsert (v7_db v) now pf d = (Inr q, d')"
    using update_up [of "''profiles''" "BStr (m7_CustomerID pf)"
        "[(''traits'', bson_strings (m7_Traits pf)), (''updated_at'', bson_time now)]" d]
    by (auto simp: m07_Upsert_def Let_def)
  note stored = m07_Upsert_stored [OF laws up]
  then have "m07_prof db d' (m7_CustomerID pf) = Some (pf\<lparr>m7_UpdatedAt := now div millisecond * millisecond\<rparr>)"
    by (auto simp: m07_prof_def)
  moreover have "db d' ''events'' = db d ''events''" using stored by simp
  ultimately show "\<exists>res d' t. p7_Upsert (m07_solution v) repo now pf d = (res, d') \<and> m07_used db d' = m07_used db d
      \<and> m07_num db d' = m07_num db d \<and> m07_prof db d' (m7_CustomerID pf) = Some (pf\<lparr>m7_UpdatedAt := t\<rparr>)"
    using up by (auto simp: m07_solution_def m07_used_def [abs_def] m07_num_def [abs_def])
next
  fix repo d and e :: m07_Event
  assume new: "\<not> m07_used db d (m7e_ID e)" and typed: "m7e_Type e \<noteq> []"
  let ?k = "BStr (m7e_ID e)" and ?x = "bson_rest (m07_doc_of_event e)"
  have doc: "m07_doc_of_event e = bson_full ?k ?x" and plain: "plain_fields ?x"
    by (simp_all add: m07_doc_of_event_def bson_full_def bson_rest_def)
  have free: "db d ''events'' ?k = None" using new by (simp add: m07_used_def)
  then obtain d' where d': "mg_InsertOne (v7_db v) ''events'' (bson_full ?k ?x) d = (None, d')" using insert_up by blast
  from laws have "insert_one_law (v7_db v) db" by (simp add: mg_laws_def)
  with d' plain have db: "db d' = (db d)(''events'' := (db d ''events'')(?k \<mapsto> ?x))" unfolding insert_one_law_def by blast
  have fin: "finite (dom (db d ''events''))" using laws by (simp add: mg_laws_def)
  show "\<exists>d'. p7_AppendEvent (m07_solution v) repo e d = (None, d') \<and> m07_prof db d' = m07_prof db d
      \<and> m07_used db d' = (m07_used db d)(m7e_ID e := True)
      \<and> (\<forall>c k. m07_num db d' c k = m07_num db d c k + (if c = m7e_CustomerID e \<and> k = Some (m7e_Type e) then 1 else 0))"
  proof (intro exI [of _ d'] conjI allI)
    show "p7_AppendEvent (m07_solution v) repo e d = (None, d')"
      using d' by (simp add: m07_solution_def m07_AppendEvent_def doc [symmetric])
    show "m07_prof db d' = m07_prof db d" by (rule ext) (simp add: m07_prof_def m07_stored_def db)
    show "m07_used db d' = (m07_used db d)(m7e_ID e := True)" by (rule ext) (simp add: m07_used_def db)
    show "m07_num db d' c k = m07_num db d c k + (if c = m7e_CustomerID e \<and> k = Some (m7e_Type e) then 1 else 0)" for c k
      using m07_num_insert [OF fin free typed, of c k] by (simp only: m07_num_def db fun_upd_same)
  qed
next
  fix repo d i pf
  assume "m07_prof db d i = Some pf"
  then obtain doc where doc: "m07_stored (db d ''profiles'') i = Some doc" "m07_profile_of_doc doc = Some pf"
    by (auto simp: m07_prof_def bind_eq_Some_conv)
  have "m07_Get (v7_db v) i d \<noteq> Inl (ErrWrap ''get profile'' e)" if "\<not> errors_is (Some e) mg_ErrNoDocuments" for e
  proof
    assume "m07_Get (v7_db v) i d = Inl (ErrWrap ''get profile'' e)"
    with doc m07_FindOne_decodes [where d = d and i = i, OF laws doc] find_up [of "''profiles''" "[(''_id'', BStr i)]" d] show False
      by (cases "mg_FindOne (v7_db v) ''profiles'' [(''_id'', BStr i)] d")
        (auto simp: m07_Get_def m07_ErrNotFound_def decode_one_def Let_def split: if_splits)
  qed
  with m07_Get_stored(2) [where d = d and i = i, OF laws doc] show "p7_Get (m07_solution v) repo i d = Inr pf"
    by (auto simp: m07_solution_def m07_answers_def)
next
  fix repo c d
  assume none: "m07_num db d c None = 0"
  obtain cur docs where "mg_Aggregate (v7_db v) ''events'' (m07_pipeline c) d = Inr cur" "mg_All (v7_db v) cur = Inr docs"
    using group_up by blast
  from m07_counts_answers [OF laws this] none obtain out where
    out: "m07_EventCountsByType (v7_db v) c d = Inr out" "map_wf out" by (auto simp: m07_num_def)
  note by_type = m07_counts_by_type [OF laws out(1)]
  have "map_of out t = (let n = m07_num db d c (Some t) in if n = 0 then None else Some (int n))" if "t \<noteq> []" for t
    using by_type(1) [OF that] by (simp add: m07_num_def)
  moreover have "map_of out [] = None" using by_type(2) none by (simp add: m07_num_def)
  ultimately show "\<exists>out. p7_EventCountsByType (m07_solution v) repo c d = Inr out \<and> map_wf out \<and> map_of out [] = None
      \<and> (\<forall>t. t \<noteq> [] \<longrightarrow> map_of out t = (let n = m07_num db d c (Some t) in if n = 0 then None else Some (int n)))"
    using out by (auto simp: m07_solution_def)
qed

text \<open>The database of the model of the repository, with nothing in it.\<close>

definition demo7_services :: "(unit, unit, demo_docs, bson_doc list) m07_services" where
  "demo7_services = \<lparr>v7_connect = (\<lambda>uri. Inr ()), v7_ping = (\<lambda>c. None), v7_disconnect = (\<lambda>c d. d), v7_db = demo_mg\<rparr>"

lemma demo7_update: "\<exists>d'. demo_update c [(''_id'', k)] [(''$set'', BDoc fs)] True d = (None, d')"
proof (cases "demo_pick [(''_id'', k)] (d c)")
  case Nil
  then have "demo_db d c k = None" by (simp only: demo_miss mg_miss_id)
  with Nil show ?thesis by (simp add: demo_update_def demo_db_def)
qed (auto simp: demo_update_def)

interpretation demo7: mongo_up demo7_services demo_db
proof
  show "mg_laws (v7_db demo7_services) demo_db" by (simp add: demo7_services_def demo_mg_laws)
  show "\<exists>d'. mg_InsertOne (v7_db demo7_services) c (bson_full k x) d = (None, d')" if "demo_db d c k = None" for c k x d
    using that by (simp add: demo7_services_def demo_mg_def demo_insert_def bson_full_def demo_db_def)
  show "\<exists>d'. mg_UpdateOne (v7_db demo7_services) c [(''_id'', k)] [(''$set'', BDoc fs)] True d = (None, d')" for c k fs d
    using demo7_update by (simp add: demo7_services_def demo_mg_def)
  show "\<exists>d'. mg_CreateOne (v7_db demo7_services) c ks n d = (None, d') \<and> demo_db d' = demo_db d" for c ks n d
    by (simp add: demo7_services_def demo_mg_def)
  show "errors_is (Some e) mg_ErrNoDocuments" if "mg_FindOne (v7_db demo7_services) c f d = Inl e" for c f d e
    using that by (auto simp: demo7_services_def demo_mg_def split: list.splits)
  show "\<exists>cur docs. mg_Aggregate (v7_db demo7_services) c (m07_pipeline i) d = Inr cur \<and> mg_All (v7_db demo7_services) cur = Inr docs" for c i d
    by (simp add: demo7_services_def demo_mg_def demo_group_def m07_pipeline_def Let_def)
qed

theorem l07_demo_output_witness:
  "\<exists>s'. l07_demo_main (m07_solution demo7_services) (\<lambda>k. ''mongodb://localhost'') 7 9 \<lparr>h_out = [], h_err = [], db7 = (\<lambda>c. [])\<rparr>
       = (Val (), s')
     \<and> h_out s' = ''profile cus_demo traits=map[channel:email locale:en-US tier:gold]'' @ nl
         @ ''event counts by type: map[add_to_cart:1 page_view:2 purchase:1]'' @ nl"
proof -
  let ?s = "\<lparr>h_out = [], h_err = [], db7 = (\<lambda>c. []) :: demo_docs\<rparr>"
  have "m07_unknown (m07_used demo_db) (m07_num demo_db) (db7 ?s)"
    by (simp add: m07_unknown_def m07_used_def m07_num_def demo_db_def m07_of_kind_def mg_hit_def)
  with l07_demo_output [OF demo7.reference.m07_exercise_axioms, of "\<lambda>k. ''mongodb://localhost''" "()" ?s 7 9] show ?thesis
    by (simp add: m07_solution_def demo7_services_def m07_Connect_def)
qed

end
