(* ===== verification/M08_Bus.thy ===== *)
theory M08_Bus
  imports Go_Errors Go_Time
begin

text \<open>
  \<open>m08-nats-core\<close>: the events and the typed wrapper over a NATS connection. The connection (with
  the server behind it) is the parameter \<open>nats\<close>, the JSON codec of the generic type the
  parameters \<open>marshal\<close> and \<open>unmarshal\<close>. What a subscriber does is a function on the state \<open>'w\<close>
  its closure works on; which messages reach it, in which order, is left open.
\<close>

section \<open>solution-events\<close>

definition m08_SubjectCustomerCreated :: string where
  "m08_SubjectCustomerCreated = ''cxm.customer.created''"

definition m08_SubjectCustomerUpdated :: string where
  "m08_SubjectCustomerUpdated = ''cxm.customer.updated''"

definition m08_SubjectCustomerAll :: string where
  "m08_SubjectCustomerAll = ''cxm.customer.*''"

definition m08_SubjectProfileLookup :: string where
  "m08_SubjectProfileLookup = ''cxm.profile.lookup''"

record m08_CustomerEvent =
  e8_ID :: string
  e8_Email :: string
  e8_Name :: string
  e8_OccurredAt :: int

section \<open>solution-bus\<close>

record ('x, 'd, 'w, 'n) nats =
  nats_connect :: "string \<Rightarrow> string \<Rightarrow> int \<Rightarrow> int \<Rightarrow> ('x, 'n) go_result"
  nats_publish :: "string \<Rightarrow> 'd \<Rightarrow> 'n \<Rightarrow> 'x go_error option \<times> 'n"
  nats_subscribe :: "string \<Rightarrow> ('d \<Rightarrow> 'w \<Rightarrow> 'w) \<Rightarrow> 'n \<Rightarrow> 'x go_error option \<times> 'n"
  nats_queue_subscribe :: "string \<Rightarrow> string \<Rightarrow> ('d \<Rightarrow> 'w \<Rightarrow> 'w) \<Rightarrow> 'n \<Rightarrow> 'x go_error option \<times> 'n"
  nats_serve :: "string \<Rightarrow> ('d \<Rightarrow> 'd) \<Rightarrow> 'n \<Rightarrow> 'x go_error option \<times> 'n"
  nats_request :: "string \<Rightarrow> 'd \<Rightarrow> int \<Rightarrow> 'n \<Rightarrow> ('x, 'd) go_result \<times> 'n"
  nats_drain :: "'n \<Rightarrow> 'x go_error option \<times> 'n"
  nats_flush :: "'n \<Rightarrow> 'x go_error option \<times> 'n"

definition m08_Connect ::
  "('x, 'd, 'w, 'n) nats \<Rightarrow> string \<Rightarrow> string \<Rightarrow> ('x, 'n) go_result" where
  "m08_Connect n url name =
     (case nats_connect n url name (-1) second of
        Inl e \<Rightarrow> Inl (ErrWrap ''nats connect'' e)
      | Inr nc \<Rightarrow> Inr nc)"

definition m08_Drain :: "('x, 'd, 'w, 'n) nats \<Rightarrow> 'n \<Rightarrow> 'x go_error option \<times> 'n" where
  "m08_Drain n b = nats_drain n b"

definition m08_Flush :: "('x, 'd, 'w, 'n) nats \<Rightarrow> 'n \<Rightarrow> 'x go_error option \<times> 'n" where
  "m08_Flush n b = nats_flush n b"

definition m08_Publish ::
  "('x, 'd, 'w, 'n) nats \<Rightarrow> ('v \<Rightarrow> ('x, 'd) go_result) \<Rightarrow> string \<Rightarrow> 'v \<Rightarrow> 'n
     \<Rightarrow> 'x go_error option \<times> 'n" where
  "m08_Publish n marshal subject v b =
     (case marshal v of
        Inl e \<Rightarrow> (Some (ErrWrap ''marshal'' e), b)
      | Inr data \<Rightarrow> nats_publish n subject data b)"

text \<open>What a subscription does with a message: decode it, drop it if that fails, call \<open>fn\<close>.\<close>

definition m08_on_msg ::
  "('d \<Rightarrow> ('x, 'v) go_result) \<Rightarrow> ('v \<Rightarrow> 'w \<Rightarrow> 'w) \<Rightarrow> 'd \<Rightarrow> 'w \<Rightarrow> 'w" where
  "m08_on_msg unmarshal fn data w =
     (case unmarshal data of
        Inl e \<Rightarrow> w
      | Inr v \<Rightarrow> fn v w)"

definition m08_Subscribe ::
  "('x, 'd, 'w, 'n) nats \<Rightarrow> ('d \<Rightarrow> ('x, 'v) go_result) \<Rightarrow> string \<Rightarrow> ('v \<Rightarrow> 'w \<Rightarrow> 'w) \<Rightarrow> 'n
     \<Rightarrow> 'x go_error option \<times> 'n" where
  "m08_Subscribe n unmarshal subject fn b = nats_subscribe n subject (m08_on_msg unmarshal fn) b"

definition m08_QueueSubscribe ::
  "('x, 'd, 'w, 'n) nats \<Rightarrow> ('d \<Rightarrow> ('x, 'v) go_result) \<Rightarrow> string \<Rightarrow> string \<Rightarrow> ('v \<Rightarrow> 'w \<Rightarrow> 'w) \<Rightarrow> 'n
     \<Rightarrow> 'x go_error option \<times> 'n" where
  "m08_QueueSubscribe n unmarshal subject queue fn b =
     nats_queue_subscribe n subject queue (m08_on_msg unmarshal fn) b"

definition m08_Request ::
  "('x, 'd, 'w, 'n) nats \<Rightarrow> string \<Rightarrow> 'd \<Rightarrow> int \<Rightarrow> 'n \<Rightarrow> ('x, 'd) go_result \<times> 'n" where
  "m08_Request n subject payload timeout b =
     (let (res, b) = nats_request n subject payload timeout b
      in case res of
           Inl e \<Rightarrow> (Inl (ErrWrap (''request '' @ subject) e), b)
         | Inr data \<Rightarrow> (Inr data, b))"

definition m08_ServeReply ::
  "('x, 'd, 'w, 'n) nats \<Rightarrow> string \<Rightarrow> ('d \<Rightarrow> 'd) \<Rightarrow> 'n \<Rightarrow> 'x go_error option \<times> 'n" where
  "m08_ServeReply n subject handler b = nats_serve n subject handler b"

text \<open>A message that does not decode changes nothing, whatever the subscriber does.\<close>

lemma m08_on_msg_bad: "unmarshal data = Inl e \<Longrightarrow> m08_on_msg unmarshal fn data w = w"
  by (simp add: m08_on_msg_def)

end
