(* ===== verification/M08_Demo.thy ===== *)
theory M08_Demo
  imports M08_Bus Go_Cmd Go_Fmt
begin

text \<open>
  The command of \<open>m08-nats-core\<close>: two workers in a queue group, a responder, six published events and
  a lookup. The text of \<open>cmd/demo\<close> and \<open>solution-cmd/demo\<close> is the same but for the packages \<open>bus\<close> and
  \<open>events\<close> it imports, which are an argument of the model; for the reference the connection is the
  parameter of \<open>M08_Bus\<close>. Which message reaches which worker is an argument too: \<open>before\<close> are the
  deliveries up to the lookup, \<open>after\<close> those during the sleep.
\<close>

section \<open>The command, for any packages\<close>

text \<open>The process: its output, the map from workers to their counts, and the counter.\<close>

record m08_demo = host +
  d8_byWorker :: "(int, int) gomap"
  d8_handled :: int

text \<open>
  What the command uses of the packages, on the event the exercise prescribes; \<open>'n\<close> is the connection.
  \<open>p8_on_msg fn data\<close> is what a subscription with the callback \<open>fn\<close> does with a message.
\<close>

record ('x, 'd, 'n) m08_packages =
  p8_Connect :: "string \<Rightarrow> string \<Rightarrow> ('x, 'n) go_result"
  p8_Drain :: "'n \<Rightarrow> 'x go_error option \<times> 'n"
  p8_Flush :: "'n \<Rightarrow> 'x go_error option \<times> 'n"
  p8_Publish :: "string \<Rightarrow> m08_CustomerEvent \<Rightarrow> 'n \<Rightarrow> 'x go_error option \<times> 'n"
  p8_on_msg :: "(m08_CustomerEvent \<Rightarrow> m08_demo \<Rightarrow> m08_demo) \<Rightarrow> 'd \<Rightarrow> m08_demo \<Rightarrow> m08_demo"
  p8_QueueSubscribe :: "string \<Rightarrow> string \<Rightarrow> (m08_CustomerEvent \<Rightarrow> m08_demo \<Rightarrow> m08_demo) \<Rightarrow> 'n \<Rightarrow> 'x go_error option \<times> 'n"
  p8_Request :: "string \<Rightarrow> string \<Rightarrow> int \<Rightarrow> 'n \<Rightarrow> ('x, string) go_result \<times> 'n"
  p8_ServeReply :: "string \<Rightarrow> (string \<Rightarrow> string) \<Rightarrow> 'n \<Rightarrow> 'x go_error option \<times> 'n"
  p8_SubjectCustomerCreated :: string
  p8_SubjectProfileLookup :: string

definition m08_worker :: "int \<Rightarrow> m08_CustomerEvent \<Rightarrow> m08_demo \<Rightarrow> m08_demo" where
  "m08_worker w e s =
     (let n = (case map_of (d8_byWorker s) w of None \<Rightarrow> 0 | Some n \<Rightarrow> n);
          s = s\<lparr>d8_byWorker := map_put w (add64 n 1) (d8_byWorker s)\<rparr>;
          s = s\<lparr>d8_handled := add64 (d8_handled s) 1\<rparr>
      in stdout (''[worker '' @ fmt_d w @ ''] welcome notification -> '' @ e8_Name e @ '' ('' @ e8_Email e @ '')'' @ nl) s)"

definition m08_lookup :: "string \<Rightarrow> string" where
  "m08_lookup req = ''{'' @ fmt_q ''customer'' @ '':'' @ [CHR 0x22] @ req @ [CHR 0x22] @ '','' @ fmt_q ''tier'' @ '':''
     @ fmt_q ''gold'' @ ''}''"

definition m08_demo_event :: "(nat \<Rightarrow> int) \<Rightarrow> nat \<Rightarrow> m08_CustomerEvent" where
  "m08_demo_event now i = \<lparr>e8_ID = ''cus_'' @ fmt_0d 2 (int i), e8_Email = ''user'' @ fmt_d (int i) @ ''@pulse.dev'',
     e8_Name = ''User '' @ fmt_d (int i), e8_OccurredAt = now i\<rparr>"

text \<open>A run of the queue group: each message goes to one of its workers.\<close>

definition l08_group_run :: "('x, 'd, 'n) m08_packages \<Rightarrow> (int \<times> 'd) list \<Rightarrow> m08_demo \<Rightarrow> m08_demo" where
  "l08_group_run p deliveries s = fold (\<lambda>(w, data). p8_on_msg p (m08_worker w) data) deliveries s"

text \<open>The connection is threaded beside the process.\<close>

definition on8 :: "('n \<Rightarrow> 'a \<times> 'n) \<Rightarrow> ('a, m08_demo \<times> 'n) cmd" where
  "on8 f = call (\<lambda>(s, b). let (x, b) = f b in (x, (s, b)))"

definition in8 :: "(m08_demo \<Rightarrow> m08_demo) \<Rightarrow> (unit, m08_demo \<times> 'n) cmd" where
  "in8 f = act (\<lambda>(s, b). (f s, b))"

definition l08_publish :: "('x, 'd, 'n) m08_packages \<Rightarrow> (nat \<Rightarrow> int) \<Rightarrow> nat \<Rightarrow> m08_demo \<times> 'n \<Rightarrow> m08_demo \<times> 'n" where
  "l08_publish p now i = (\<lambda>(s, b). (s, snd (p8_Publish p (p8_SubjectCustomerCreated p) (m08_demo_event now i) b)))"

definition l08_demo_run ::
  "('x, 'd, 'n) m08_packages \<Rightarrow> (nat \<Rightarrow> int) \<Rightarrow> (int \<times> 'd) list \<Rightarrow> (int \<times> 'd) list \<Rightarrow> (unit, m08_demo \<times> 'n) cmd" where
  "l08_demo_run p now before after =
     bind (in8 (\<lambda>s. s\<lparr>d8_handled := 0, d8_byWorker := []\<rparr>)) (\<lambda>_.
     bind (on8 (p8_QueueSubscribe p (p8_SubjectCustomerCreated p) ''notify-workers'' (m08_worker 1))) (\<lambda>_.
     bind (on8 (p8_QueueSubscribe p (p8_SubjectCustomerCreated p) ''notify-workers'' (m08_worker 2))) (\<lambda>_.
     bind (on8 (p8_ServeReply p (p8_SubjectProfileLookup p) m08_lookup)) (\<lambda>_.
     bind (in_order (map (\<lambda>i. act (l08_publish p now i)) [1..<7])) (\<lambda>_.
     bind (on8 (p8_Flush p)) (\<lambda>_.
     bind (in8 (l08_group_run p before)) (\<lambda>_.
     bind (on8 (p8_Request p (p8_SubjectProfileLookup p) ''cus_01'' (2 * second))) (\<lambda>res.
     bind (or_fatal (\<lambda>t (s, b). (stderr t s, b)) ''lookup'' res) (\<lambda>resp.
     bind (in8 (l08_group_run p after)) (\<lambda>_.
     bind (in8 (stdout (nl @ ''lookup reply: '' @ resp @ nl))) (\<lambda>_.
     in8 (\<lambda>s. stdout (''events handled='' @ fmt_d (d8_handled s) @ '' distributed across workers=''
       @ fmt_map fmt_d fmt_d (d8_byWorker s) @ nl) s))))))))))))"

definition l08_demo_main ::
  "('x, 'd, 'n) m08_packages \<Rightarrow> (string \<Rightarrow> string) \<Rightarrow> (nat \<Rightarrow> int) \<Rightarrow> (int \<times> 'd) list \<Rightarrow> (int \<times> 'd) list \<Rightarrow> (unit, m08_demo) cmd" where
  "l08_demo_main p getenv now before after s =
     (let url = getenv ''PULSE_NATS_URL''
      in if url = [] then fatal (stderr (''PULSE_NATS_URL is required'' @ nl)) s
      else case p8_Connect p url ''pulse-demo'' of
             Inl e \<Rightarrow> fatal (stderr (''connect: '' @ err_msg e @ nl)) s
           | Inr b \<Rightarrow>
               (let (r, s, b) = deferring (\<lambda>(s, b). (s, snd (p8_Drain p b))) (l08_demo_run p now before after) (s, b)
                in (r, s)))"

section \<open>What the exercises ask of the packages\<close>

text \<open>
  A subscription calls its function with each message that decodes and drops the others; while the
  server is up, a request is answered by the function registered for its subject, which neither a
  publish nor a flush takes away. \<open>served b\<close> are the registered functions.
\<close>

locale m08_exercise =
  fixes p :: "('x, 'd, 'n) m08_packages" and decode :: "'d \<Rightarrow> m08_CustomerEvent option"
    and served :: "'n \<Rightarrow> string \<Rightarrow> (string \<Rightarrow> string) option"
  assumes on_msg: "p8_on_msg p fn data s = (case decode data of None \<Rightarrow> s | Some e \<Rightarrow> fn e s)"
    and serve: "served (snd (p8_ServeReply p subj h b)) subj = Some h"
    and publish: "served (snd (p8_Publish p subj e b)) = served b"
    and flush: "served (snd (p8_Flush p b)) = served b"
    and request: "served b subj = Some h \<Longrightarrow> fst (p8_Request p subj payload t b) = Inr (h payload)"

text \<open>The deliveries that decode, by worker, and the count of a worker.\<close>

definition m08_count :: "m08_demo \<Rightarrow> int \<Rightarrow> int" where
  "m08_count s w = (case map_of (d8_byWorker s) w of None \<Rightarrow> 0 | Some n \<Rightarrow> n)"

definition m08_decoded :: "('d \<Rightarrow> m08_CustomerEvent option) \<Rightarrow> (int \<times> 'd) list \<Rightarrow> int list" where
  "m08_decoded decode ds = map fst (filter (\<lambda>(w, data). decode data \<noteq> None) ds)"

lemma m08_demo_stdout:
  "d8_handled (stdout t s) = d8_handled s" "d8_byWorker (stdout t s) = d8_byWorker s" for s :: m08_demo
  by (simp_all add: stdout_def)

lemma fold_conn [cmd_run]: "fold (\<lambda>i (s, b). (s, f i b)) is (s, b) = (s, fold f is b)"
  by (induction "is" arbitrary: b) simp_all

context m08_exercise
begin

lemma group_run_counts:
  assumes "0 \<le> d8_handled s \<and> d8_handled s + int (length ds) \<le> max_int64"
    and "\<forall>w. 0 \<le> m08_count s w \<and> m08_count s w + int (length ds) \<le> max_int64"
  shows "m08_count (l08_group_run p ds s) w = m08_count s w + int (count_list (m08_decoded decode ds) w)
    \<and> d8_handled (l08_group_run p ds s) = d8_handled s + int (length (m08_decoded decode ds))
    \<and> set (map fst (d8_byWorker (l08_group_run p ds s)))
        = set (map fst (d8_byWorker s)) \<union> set (m08_decoded decode ds)"
  using assms
proof (induction ds arbitrary: s)
  case (Cons d ds)
  obtain v data where d: "d = (v, data)" by (cases d)
  show ?case
  proof (cases "decode data")
    case None
    then have "l08_group_run p (d # ds) s = l08_group_run p ds s" by (simp add: l08_group_run_def on_msg d)
    moreover have "0 \<le> m08_count s u \<and> m08_count s u + int (length ds) \<le> max_int64" for u
      using spec [OF Cons.prems(2), of u] by simp
    ultimately show ?thesis using Cons.IH [of s] Cons.prems(1) None d by (simp add: m08_decoded_def)
  next
    case (Some e)
    let ?s = "m08_worker v e s"
    have run: "l08_group_run p (d # ds) s = l08_group_run p ds ?s"
      using Some by (simp add: l08_group_run_def on_msg d)
    have "add64 (m08_count s v) 1 = m08_count s v + 1"
      using spec [OF Cons.prems(2), of v] by (simp add: add64_def wrap64_nonneg)
    then have by_w: "m08_count ?s u = m08_count s u + (if u = v then 1 else 0)" for u
      by (simp add: m08_worker_def m08_count_def Let_def stdout_def)
    have hd: "d8_handled ?s = d8_handled s + 1"
      using Cons.prems(1) by (simp add: m08_worker_def Let_def stdout_def add64_def wrap64_nonneg)
    have keys: "set (map fst (d8_byWorker ?s)) = insert v (set (map fst (d8_byWorker s)))"
      by (simp add: m08_worker_def Let_def stdout_def dom_update)
    have "0 \<le> m08_count ?s u \<and> m08_count ?s u + int (length ds) \<le> max_int64" for u
      using spec [OF Cons.prems(2), of u] spec [OF Cons.prems(2), of v] by (auto simp: by_w)
    with Cons.IH [of ?s] Cons.prems(1) run by_w hd keys Some d show ?thesis by (auto simp: m08_decoded_def)
  qed
qed (simp add: l08_group_run_def m08_decoded_def)

lemma group_run_append: "l08_group_run p (ds @ es) s = l08_group_run p es (l08_group_run p ds s)"
  by (simp add: l08_group_run_def)

lemma group_run_wf: "map_wf (d8_byWorker s) \<Longrightarrow> map_wf (d8_byWorker (l08_group_run p ds s))"
proof (induction ds arbitrary: s)
  case (Cons d ds)
  then show ?case
    by (cases d) (auto simp: l08_group_run_def on_msg m08_worker_def Let_def stdout_def split: option.split)
qed (simp add: l08_group_run_def)

text \<open>The map of the workers after all deliveries, as it is printed.\<close>

lemma group_run_printed:
  fixes ds :: "(int \<times> 'd) list" and s :: m08_demo
  defines "s' \<equiv> l08_group_run p ds (s\<lparr>d8_handled := 0, d8_byWorker := []\<rparr>)"
  assumes len: "length ds = 6" and workers: "set (map fst ds) \<subseteq> {1, 2}" and dec: "\<forall>(w, data) \<in> set ds. decode data \<noteq> None"
  obtains k1 k2 where "0 \<le> k1" "0 \<le> k2" "k1 + k2 = 6" "d8_handled s' = 6"
    "fmt_map fmt_d fmt_d (d8_byWorker s') = fmt_map fmt_d fmt_d (filter (\<lambda>(w, k). k \<noteq> 0) [(1, k1), (2, k2)])"
proof -
  let ?k = "\<lambda>w. int (count_list (map fst ds) w)" and ?m = "filter (\<lambda>(w, k). k \<noteq> 0)"
  have "m08_decoded decode ds = map fst ds"
    using dec unfolding m08_decoded_def by (subst filter_True) auto
  then have counts: "m08_count s' w = ?k w" "d8_handled s' = 6" "set (map fst (d8_byWorker s')) = set (map fst ds)" for w
    using group_run_counts [of "s\<lparr>d8_handled := 0, d8_byWorker := []\<rparr>" ds w] len
    by (simp_all add: s'_def m08_count_def max_int64_def)
  have "count_list ws 1 + count_list ws 2 = length ws" if "set ws \<subseteq> {1, 2}" for ws :: "int list"
    using that by (induction ws) auto
  from this [OF workers] len have sum: "?k 1 + ?k 2 = 6" by simp
  have "map_of (d8_byWorker s') = map_of (?m [(1, ?k 1), (2, ?k 2)])"
  proof
    fix w
    show "map_of (d8_byWorker s') w = map_of (?m [(1, ?k 1), (2, ?k 2)]) w"
    proof (cases "map_of (d8_byWorker s') w")
      case None
      then have "w \<notin> set (map fst ds)" using counts(3) by (simp add: map_of_eq_None_iff)
      with None show ?thesis by auto
    next
      case (Some m)
      then have mem: "w \<in> set (map fst ds)" using counts(3) by (force dest: map_of_SomeD)
      from Some counts(1) [of w] have m: "m = ?k w" by (simp add: m08_count_def)
      have "count_list ws w \<noteq> 0" if "w \<in> set ws" for ws :: "int list" using that by (simp add: count_list_0_iff)
      with mem have "?k w \<noteq> 0" by (metis of_nat_0_eq_iff)
      moreover have "w = 1 \<or> w = 2" using mem workers by blast
      ultimately show ?thesis unfolding Some m by (elim disjE) simp_all
    qed
  qed
  moreover have "map_wf (d8_byWorker s')" unfolding s'_def by (rule group_run_wf) simp
  ultimately have "fmt_map fmt_d fmt_d (d8_byWorker s') = fmt_map fmt_d fmt_d (?m [(1, ?k 1), (2, ?k 2)])"
    by (intro fmt_map_cong) (auto simp: map_wf_def)
  with counts(2) sum show thesis by (intro that [of "?k 1" "?k 2"]) simp_all
qed

lemma publish_all:
  "fst (fold (l08_publish p now) is (s, b)) = s \<and> served (snd (fold (l08_publish p now) is (s, b))) = served b"
  by (induction "is" arbitrary: b) (simp_all add: l08_publish_def publish)

lemma demo_output:
  assumes "getenv ''PULSE_NATS_URL'' \<noteq> []" and "p8_Connect p (getenv ''PULSE_NATS_URL'') ''pulse-demo'' = Inr b"
    and "length (before @ after) = 6" and "set (map fst (before @ after)) \<subseteq> {1, 2}"
    and "\<forall>(w, data) \<in> set (before @ after). decode data \<noteq> None"
  shows "\<exists>pre s' k1 k2. l08_demo_main p getenv now before after s = (Val (), s')
    \<and> 0 \<le> k1 \<and> 0 \<le> k2 \<and> k1 + k2 = 6
    \<and> h_out s' = pre @ nl @ ''lookup reply: '' @ m08_lookup ''cus_01'' @ nl
        @ ''events handled=6 distributed across workers=''
        @ fmt_map fmt_d fmt_d (filter (\<lambda>(w, k). k \<noteq> 0) [(1, k1), (2, k2)]) @ nl"
proof -
  let ?s0 = "s\<lparr>d8_handled := 0, d8_byWorker := []\<rparr>"
  let ?s2 = "l08_group_run p (before @ after) ?s0" and ?subj = "p8_SubjectProfileLookup p"
  obtain k1 k2 where k: "0 \<le> k1" "0 \<le> k2" "k1 + k2 = 6" "d8_handled ?s2 = 6"
    "fmt_map fmt_d fmt_d (d8_byWorker ?s2) = fmt_map fmt_d fmt_d (filter (\<lambda>(w, k). k \<noteq> 0) [(1, k1), (2, k2)])"
    by (rule group_run_printed [OF assms(3-5)])
  have six: "fmt_d 6 = ''6''" by code_simp
  let ?b = "snd (p8_QueueSubscribe p (p8_SubjectCustomerCreated p) ''notify-workers'' (m08_worker 2)
      (snd (p8_QueueSubscribe p (p8_SubjectCustomerCreated p) ''notify-workers'' (m08_worker 1) b)))"
  let ?b1 = "snd (p8_ServeReply p ?subj m08_lookup ?b)"
  obtain b2 where pub: "fold (l08_publish p now) [1..<7] (?s0, ?b1) = (?s0, b2)"
    using publish_all [of now "[1..<7]" ?s0 ?b1] by (metis prod.collapse)
  then have "served b2 ?subj = Some m08_lookup"
    using publish_all [of now "[1..<7]" ?s0 ?b1] serve by (simp del: upt_rec_numeral)
  then have reply: "fst (p8_Request p ?subj ''cus_01'' (2 * second) (snd (p8_Flush p b2))) = Inr (m08_lookup ''cus_01'')"
    by (intro request) (simp add: flush)
  let ?s3 = "stdout (nl @ ''lookup reply: '' @ m08_lookup ''cus_01'' @ nl) ?s2"
  let ?s4 = "stdout (''events handled=6 distributed across workers='' @ fmt_map fmt_d fmt_d (d8_byWorker ?s2) @ nl) ?s3"
  obtain b' where "l08_demo_run p now before after (s, b) = (Val (), ?s4, b')"
    using reply k(4) six pub
    by (simp add: l08_demo_run_def in8_def on8_def cmd_run case_prod_beta group_run_append m08_demo_stdout
        del: upt_rec_numeral)
  then have "l08_demo_main p getenv now before after s = (Val (), ?s4)"
    using assms(1,2) by (simp add: l08_demo_main_def cmd_run Let_def)
  with k show ?thesis
    by (intro exI [of _ "h_out ?s2"] exI [of _ ?s4] exI [of _ k1] exI [of _ k2]) simp
qed

end

text \<open>Remark (functional). With any packages that keep the contract, when the six messages reach the queue
  group, whichever worker each goes to and whether before or after the lookup, the command reports
  six handled events, the workers' counts add up to six, and the lookup is answered by the responder.\<close>

theorem l08_demo_output:
  assumes "m08_exercise p decode served"
    and "getenv ''PULSE_NATS_URL'' \<noteq> []" and "p8_Connect p (getenv ''PULSE_NATS_URL'') ''pulse-demo'' = Inr b"
    and "length (before @ after) = 6" and "set (map fst (before @ after)) \<subseteq> {1, 2}"
    and "\<forall>(w, data) \<in> set (before @ after). decode data \<noteq> None"
  shows "\<exists>pre s' k1 k2. l08_demo_main p getenv now before after s = (Val (), s')
    \<and> 0 \<le> k1 \<and> 0 \<le> k2 \<and> k1 + k2 = 6
    \<and> h_out s' = pre @ nl @ ''lookup reply: '' @ m08_lookup ''cus_01'' @ nl
        @ ''events handled=6 distributed across workers=''
        @ fmt_map fmt_d fmt_d (filter (\<lambda>(w, k). k \<noteq> 0) [(1, k1), (2, k2)]) @ nl"
  using assms by (rule m08_exercise.demo_output)

section \<open>The packages of the reference\<close>

definition m08_solution ::
  "('x, string, m08_demo, 'n) nats \<Rightarrow> (m08_CustomerEvent \<Rightarrow> ('x, string) go_result) \<Rightarrow> (string \<Rightarrow> ('x, m08_CustomerEvent) go_result)
     \<Rightarrow> ('x, string, 'n) m08_packages" where
  "m08_solution n marshal unmarshal = \<lparr>p8_Connect = m08_Connect n, p8_Drain = m08_Drain n, p8_Flush = m08_Flush n,
     p8_Publish = m08_Publish n marshal, p8_on_msg = m08_on_msg unmarshal,
     p8_QueueSubscribe = m08_QueueSubscribe n unmarshal, p8_Request = m08_Request n, p8_ServeReply = m08_ServeReply n,
     p8_SubjectCustomerCreated = m08_SubjectCustomerCreated, p8_SubjectProfileLookup = m08_SubjectProfileLookup\<rparr>"

definition m08_demo_main ::
  "('x, string, m08_demo, 'n) nats \<Rightarrow> (string \<Rightarrow> string) \<Rightarrow> (m08_CustomerEvent \<Rightarrow> ('x, string) go_result)
     \<Rightarrow> (string \<Rightarrow> ('x, m08_CustomerEvent) go_result) \<Rightarrow> (nat \<Rightarrow> int) \<Rightarrow> (int \<times> string) list \<Rightarrow> (int \<times> string) list
     \<Rightarrow> (unit, m08_demo) cmd" where
  "m08_demo_main n getenv marshal unmarshal now before after
     = l08_demo_main (m08_solution n marshal unmarshal) getenv now before after"

text \<open>What the server is relied on for while it is up.\<close>

locale nats_up =
  fixes n :: "('x, string, m08_demo, 'n) nats" and served :: "'n \<Rightarrow> string \<Rightarrow> (string \<Rightarrow> string) option"
  assumes serve_up: "served (snd (nats_serve n subj h b)) subj = Some h"
    and publish_keeps: "served (snd (nats_publish n subj data b)) = served b"
    and flush_keeps: "served (snd (nats_flush n b)) = served b"
    and request_up: "served b subj = Some h \<Longrightarrow> fst (nats_request n subj payload t b) = Inr (h payload)"

sublocale nats_up \<subseteq> reference: m08_exercise "m08_solution n marshal unmarshal"
  "\<lambda>data. case unmarshal data of Inl e \<Rightarrow> None | Inr v \<Rightarrow> Some v" served for marshal unmarshal
proof
  fix b subj h payload t
  assume "served b subj = Some h"
  from request_up [OF this, of payload t]
  show "fst (p8_Request (m08_solution n marshal unmarshal) subj payload t b) = Inr (h payload)"
    by (simp add: m08_solution_def m08_Request_def case_prod_beta)
qed (simp_all add: m08_solution_def m08_on_msg_def m08_ServeReply_def m08_Publish_def m08_Flush_def serve_up
    publish_keeps flush_keeps split: sum.split)

text \<open>A connection whose state are the functions it serves.\<close>

definition demo8_nats :: "(unit, string, m08_demo, (string \<times> (string \<Rightarrow> string)) list) nats" where
  "demo8_nats = \<lparr>nats_connect = (\<lambda>url name k d. Inr []), nats_publish = (\<lambda>s d b. (None, b)),
     nats_subscribe = (\<lambda>s h b. (None, b)), nats_queue_subscribe = (\<lambda>s q h b. (None, b)),
     nats_serve = (\<lambda>s h b. (None, map_put s h b)),
     nats_request = (\<lambda>s p t b. (case map_of b s of None \<Rightarrow> Inl (ErrNew ''nats.ErrNoResponders'' ''nats: no responders'')
       | Some h \<Rightarrow> Inr (h p), b)),
     nats_drain = (\<lambda>b. (None, b)), nats_flush = (\<lambda>b. (None, b))\<rparr>"

interpretation demo8: nats_up demo8_nats map_of
  by unfold_locales (simp_all add: demo8_nats_def)

definition demo8_event :: m08_CustomerEvent where
  "demo8_event = \<lparr>e8_ID = ''cus_01'', e8_Email = ''user1@pulse.dev'', e8_Name = ''User 1'', e8_OccurredAt = 0\<rparr>"

theorem l08_demo_output_witness:
  "\<exists>s'. l08_demo_main (m08_solution demo8_nats (\<lambda>e. Inr (e8_ID e)) (\<lambda>d. Inr demo8_event)) (\<lambda>k. ''nats://localhost:4222'')
      (\<lambda>_. 0) [(1, ''a''), (2, ''b''), (1, ''c'')] [(1, ''d''), (2, ''e''), (2, ''f'')]
      \<lparr>h_out = [], h_err = [], d8_byWorker = [], d8_handled = 0\<rparr> = (Val (), s')"
  using l08_demo_output [OF demo8.reference.m08_exercise_axioms [of "\<lambda>e. Inr (e8_ID e)" "\<lambda>d. Inr demo8_event"],
      of "\<lambda>k. ''nats://localhost:4222''" "[]" "[(1, ''a''), (2, ''b''), (1, ''c'')]" "[(1, ''d''), (2, ''e''), (2, ''f'')]"
      "\<lambda>_. 0" "\<lparr>h_out = [], h_err = [], d8_byWorker = [], d8_handled = 0\<rparr>"]
  by (auto simp: m08_solution_def demo8_nats_def m08_Connect_def)

end
