(* ===== verification/M08_Workers.thy ===== *)
theory M08_Workers
  imports M08_Demo Step_System
begin

text \<open>
  The two workers of the command of \<open>m08-nats-core\<close> at the same time: each subscription has its own
  goroutine, which calls the callback with one message after another. The callback locks \<open>mu\<close>, reads and writes
  the worker's entry of the map, unlocks, adds to the counter and prints; each of these is a step, and between
  any two the other worker may take its own. What comes of it is what \<open>M08_Demo\<close> takes each message for,
  one step per message, in the order of the prints.
\<close>

section \<open>The callbacks, access by access\<close>

datatype w8_place =
    W8Idle
  | W8Locked m08_CustomerEvent
  | W8Read m08_CustomerEvent int
  | W8Written m08_CustomerEvent
  | W8Unlocked m08_CustomerEvent
  | W8Counted m08_CustomerEvent

text \<open>A worker with the messages it has still to be given; the process; and, as a record of what happened,
  the messages in the order in which their lines were printed.\<close>

record w8_workers =
  w8_gos :: "(int \<times> m08_CustomerEvent list \<times> w8_place) list"
  w8_locked :: bool
  w8_demo :: m08_demo
  w8_printed :: "(int \<times> m08_CustomerEvent) list"

definition w8_set :: "nat \<Rightarrow> int \<times> m08_CustomerEvent list \<times> w8_place \<Rightarrow> w8_workers \<Rightarrow> w8_workers" where
  "w8_set i g q = q\<lparr>w8_gos := (w8_gos q)[i := g]\<rparr>"

definition w8_line :: "int \<times> m08_CustomerEvent \<Rightarrow> string" where
  "w8_line m = ''[worker '' @ fmt_d (fst m) @ ''] welcome notification -> '' @ e8_Name (snd m) @ '' ('' @ e8_Email (snd m) @ '')'' @ nl"

inductive w8_step :: "w8_workers \<Rightarrow> w8_workers \<Rightarrow> bool" where
  lock: "i < length (w8_gos q) \<Longrightarrow> w8_gos q ! i = (w, e # es, W8Idle) \<Longrightarrow> \<not> w8_locked q
    \<Longrightarrow> w8_step q (w8_set i (w, es, W8Locked e) (q\<lparr>w8_locked := True\<rparr>))"
| read: "i < length (w8_gos q) \<Longrightarrow> w8_gos q ! i = (w, es, W8Locked e)
    \<Longrightarrow> w8_step q (w8_set i (w, es, W8Read e (m08_count (w8_demo q) w)) q)"
| write_: "i < length (w8_gos q) \<Longrightarrow> w8_gos q ! i = (w, es, W8Read e n)
    \<Longrightarrow> w8_step q (w8_set i (w, es, W8Written e)
         (q\<lparr>w8_demo := (w8_demo q)\<lparr>d8_byWorker := map_put w (add64 n 1) (d8_byWorker (w8_demo q))\<rparr>\<rparr>))"
| unlock: "i < length (w8_gos q) \<Longrightarrow> w8_gos q ! i = (w, es, W8Written e)
    \<Longrightarrow> w8_step q (w8_set i (w, es, W8Unlocked e) (q\<lparr>w8_locked := False\<rparr>))"
| count: "i < length (w8_gos q) \<Longrightarrow> w8_gos q ! i = (w, es, W8Unlocked e)
    \<Longrightarrow> w8_step q (w8_set i (w, es, W8Counted e)
         (q\<lparr>w8_demo := (w8_demo q)\<lparr>d8_handled := add64 (d8_handled (w8_demo q)) 1\<rparr>\<rparr>))"
| print_: "i < length (w8_gos q) \<Longrightarrow> w8_gos q ! i = (w, es, W8Counted e)
    \<Longrightarrow> w8_step q (w8_set i (w, es, W8Idle)
         (q\<lparr>w8_demo := stdout (w8_line (w, e)) (w8_demo q), w8_printed := w8_printed q @ [(w, e)]\<rparr>))"

definition w8_init :: "(int \<times> m08_CustomerEvent list) list \<Rightarrow> m08_demo \<Rightarrow> w8_workers" where
  "w8_init ws s = \<lparr>w8_gos = map (\<lambda>(w, es). (w, es, W8Idle)) ws, w8_locked = False,
     w8_demo = s\<lparr>d8_handled := 0, d8_byWorker := []\<rparr>, w8_printed = []\<rparr>"

section \<open>The invariant\<close>

fun w8_in_hand :: "w8_place \<Rightarrow> m08_CustomerEvent list" where
  "w8_in_hand W8Idle = []"
| "w8_in_hand (W8Locked e) = [e]"
| "w8_in_hand (W8Read e n) = [e]"
| "w8_in_hand (W8Written e) = [e]"
| "w8_in_hand (W8Unlocked e) = [e]"
| "w8_in_hand (W8Counted e) = [e]"

text \<open>Whether a worker holds the mutex, has written its entry, has added to the counter, for the message in hand.\<close>

fun w8_inside :: "w8_place \<Rightarrow> nat" where
  "w8_inside (W8Locked e) = 1"
| "w8_inside (W8Read e n) = 1"
| "w8_inside (W8Written e) = 1"
| "w8_inside pl = 0"

fun w8_wrote :: "w8_place \<Rightarrow> nat" where
  "w8_wrote (W8Written e) = 1"
| "w8_wrote (W8Unlocked e) = 1"
| "w8_wrote (W8Counted e) = 1"
| "w8_wrote pl = 0"

fun w8_counted :: "w8_place \<Rightarrow> nat" where
  "w8_counted (W8Counted e) = 1"
| "w8_counted pl = 0"

text \<open>The lines a worker has printed, and an entry of the map after a number of increments.\<close>

definition w8_of :: "(int \<times> m08_CustomerEvent) list \<Rightarrow> int \<Rightarrow> m08_CustomerEvent list" where
  "w8_of ms w = map snd (filter (\<lambda>m. fst m = w) ms)"

lemma w8_of_simps [simp]:
  "w8_of [] w = []" "w8_of (ms @ [(w, e)]) w = w8_of ms w @ [e]" "v \<noteq> w \<Longrightarrow> w8_of (ms @ [(v, e)]) w = w8_of ms w"
  by (simp_all add: w8_of_def)

definition w8_entry :: "nat \<Rightarrow> int option" where
  "w8_entry k = (if k = 0 then None else Some (wrap64 (int k)))"

lemma w8_entry_next:
  "add64 (case w8_entry k of None \<Rightarrow> 0 | Some n \<Rightarrow> n) 1 = wrap64 (int (Suc k))" "w8_entry (Suc k) = Some (wrap64 (int (Suc k)))"
  using wrap64_step [of "int k"] by (auto simp: w8_entry_def add64_def add.commute)

lemma wrap64_step1: "wrap64 (1 + wrap64 k) = wrap64 (1 + k)"
  using wrap64_step [of k] by (simp add: add.commute)

fun w8_fine :: "m08_demo \<Rightarrow> (int \<times> m08_CustomerEvent) list \<Rightarrow> int \<times> m08_CustomerEvent list
    \<Rightarrow> int \<times> m08_CustomerEvent list \<times> w8_place \<Rightarrow> bool" where
  "w8_fine s ms (v, es0) (w, es, pl) \<longleftrightarrow> w = v \<and> es0 = w8_of ms w @ w8_in_hand pl @ es
     \<and> map_of (d8_byWorker s) w = w8_entry (length (w8_of ms w) + w8_wrote pl)
     \<and> (\<forall>e n. pl = W8Read e n \<longrightarrow> n = m08_count s w)"

lemma w8_fine_other:
  assumes "w8_fine s ms p (v, es, pl)" and "v \<noteq> w"
    and "map_of (d8_byWorker s') v = map_of (d8_byWorker s) v" and "w8_of ms' v = w8_of ms v"
  shows "w8_fine s' ms' p (v, es, pl)"
  using assms by (cases p; cases pl) (simp_all add: m08_count_def)

definition w8_inv :: "(int \<times> m08_CustomerEvent list) list \<Rightarrow> m08_demo \<Rightarrow> w8_workers \<Rightarrow> bool" where
  "w8_inv ws s q \<longleftrightarrow> list_all2 (w8_fine (w8_demo q) (w8_printed q)) ws (w8_gos q)
     \<and> sum_list (map (w8_inside \<circ> snd \<circ> snd) (w8_gos q)) = (if w8_locked q then 1 else 0)
     \<and> (\<forall>w. w \<notin> fst ` set ws \<longrightarrow> map_of (d8_byWorker (w8_demo q)) w = None)
     \<and> fst ` set (w8_printed q) \<subseteq> fst ` set ws
     \<and> d8_handled (w8_demo q) = wrap64 (int (length (w8_printed q) + sum_list (map (w8_counted \<circ> snd \<circ> snd) (w8_gos q))))
     \<and> h_out (w8_demo q) = h_out s @ concat (map w8_line (w8_printed q)) \<and> h_err (w8_demo q) = h_err s"

lemma w8_inv_init: "w8_inv ws s (w8_init ws s)"
proof -
  have "sum_list (map (w8_counted \<circ> snd \<circ> snd \<circ> (\<lambda>(w, es). (w, es, W8Idle))) ws) = 0"
    and "sum_list (map (w8_inside \<circ> snd \<circ> snd \<circ> (\<lambda>(w, es). (w, es, W8Idle))) ws) = 0"
    by (induction ws) auto
  then show ?thesis
    by (auto simp: w8_inv_def w8_init_def list_all2_conv_all_nth w8_entry_def wrap64_nonneg max_int64_def
        simp del: sum_list_eq_0_iff split: prod.split)
qed

text \<open>A step of worker \<open>i\<close>: what it must leave of its own and of the others' part.\<close>

lemma w8_inv_move:
  assumes "w8_inv ws s q" and "distinct (map fst ws)" and i: "i < length (w8_gos q)" and g: "w8_gos q ! i = (w, es, pl)"
    and q': "w8_gos q' = (w8_gos q)[i := (w, es', pl')]"
    and mine: "\<forall>es0. w8_fine (w8_demo q) (w8_printed q) (w, es0) (w, es, pl)
        \<longrightarrow> w8_fine (w8_demo q') (w8_printed q') (w, es0) (w, es', pl')"
    and others: "\<forall>v. v \<noteq> w \<longrightarrow> map_of (d8_byWorker (w8_demo q')) v = map_of (d8_byWorker (w8_demo q)) v
        \<and> w8_of (w8_printed q') v = w8_of (w8_printed q) v"
    and lock: "w8_inside pl' + (if w8_locked q then 1 else 0) = w8_inside pl + (if w8_locked q' then 1 else 0)"
    and printed: "fst ` set (w8_printed q') \<subseteq> insert w (fst ` set (w8_printed q))"
    and handled: "\<forall>k. d8_handled (w8_demo q) = wrap64 (int (length (w8_printed q) + (k + w8_counted pl)))
        \<longrightarrow> d8_handled (w8_demo q') = wrap64 (int (length (w8_printed q') + (k + w8_counted pl')))"
    and out: "h_out (w8_demo q) = h_out s @ concat (map w8_line (w8_printed q))
        \<longrightarrow> h_out (w8_demo q') = h_out s @ concat (map w8_line (w8_printed q'))" "h_err (w8_demo q') = h_err (w8_demo q)"
  shows "w8_inv ws s q'"
proof -
  have fine: "list_all2 (w8_fine (w8_demo q) (w8_printed q)) ws (w8_gos q)" using assms(1) by (simp add: w8_inv_def)
  then have len: "length ws = length (w8_gos q)" by (rule list_all2_lengthD)
  obtain v es0 where v: "ws ! i = (v, es0)" by (cases "ws ! i")
  have at_i: "w8_fine (w8_demo q) (w8_printed q) (ws ! i) (w, es, pl)" using list_all2_nthD2 [OF fine i] g by simp
  then have w: "ws ! i = (w, es0)" using v by simp
  then have w_in: "w \<in> fst ` set ws" using i len by (metis fst_conv image_eqI nth_mem)
  have names: "fst (w8_gos q ! j) = fst (ws ! j)" if "j < length ws" for j
    using list_all2_nthD [OF fine that] by (cases "ws ! j"; cases "w8_gos q ! j") auto
  have "w8_fine (w8_demo q') (w8_printed q') (ws ! j) (w8_gos q' ! j)" if j: "j < length ws" for j
  proof (cases "j = i")
    case True
    with mine at_i w q' i show ?thesis by simp
  next
    case False
    obtain u us pu where u: "w8_gos q ! j = (u, us, pu)" by (cases "w8_gos q ! j")
    have "u \<noteq> w" using names [OF j] u w False j i len nth_eq_iff_index_eq [OF assms(2), of j i] by simp
    with w8_fine_other [of "w8_demo q" "w8_printed q" "ws ! j" u us pu w] others list_all2_nthD [OF fine j] u q' False
    show ?thesis by simp
  qed
  then have "list_all2 (w8_fine (w8_demo q') (w8_printed q')) ws (w8_gos q')"
    using len q' by (simp add: list_all2_conv_all_nth)
  moreover have "sum_list (map (w8_inside \<circ> snd \<circ> snd) (w8_gos q')) = (if w8_locked q' then 1 else 0)"
    using sum_list_upd [OF i, of "w8_inside \<circ> snd \<circ> snd" "(w, es', pl')"] assms(1) g lock q'
    by (simp add: w8_inv_def split: if_splits)
  moreover have "d8_handled (w8_demo q')
      = wrap64 (int (length (w8_printed q') + sum_list (map (w8_counted \<circ> snd \<circ> snd) (w8_gos q'))))"
  proof -
    let ?sum = "\<lambda>gs. sum_list (map (w8_counted \<circ> snd \<circ> snd) gs)"
    have upd: "?sum (w8_gos q') + w8_counted pl = ?sum (w8_gos q) + w8_counted pl'"
      using sum_list_upd [OF i, of "w8_counted \<circ> snd \<circ> snd" "(w, es', pl')"] g q' by simp
    have "w8_counted pl \<le> ?sum (w8_gos q)"
      using member_le_sum_list [of "w8_counted pl" "map (w8_counted \<circ> snd \<circ> snd) (w8_gos q)"] i g
      by (force simp: in_set_conv_nth image_iff)
    then obtain k where k: "?sum (w8_gos q) = k + w8_counted pl" by (metis add.commute le_Suc_ex)
    then have "?sum (w8_gos q') = k + w8_counted pl'" using upd by simp
    with handled k assms(1) show ?thesis by (simp add: w8_inv_def)
  qed
  moreover have "fst ` set (w8_printed q') \<subseteq> fst ` set ws"
    using printed w_in assms(1) unfolding w8_inv_def by blast
  moreover have "\<forall>v. v \<notin> fst ` set ws \<longrightarrow> map_of (d8_byWorker (w8_demo q')) v = None"
    using others w_in assms(1) unfolding w8_inv_def by metis
  moreover have "h_out (w8_demo q') = h_out s @ concat (map w8_line (w8_printed q'))" "h_err (w8_demo q') = h_err s"
    using out assms(1) unfolding w8_inv_def by simp_all
  ultimately show ?thesis
    unfolding w8_inv_def by blast
qed

lemma w8_inv_step:
  assumes "w8_inv ws s q" and "distinct (map fst ws)" and "w8_step q q'"
  shows "w8_inv ws s q'"
  using assms(3)
proof cases
  case (lock i w e es)
  then show ?thesis
    by (intro w8_inv_move [OF assms(1,2) lock(2,3), where es' = es and pl' = "W8Locked e"]) (simp_all add: w8_set_def subset_insertI)
next
  case (read i w es e)
  then show ?thesis
    by (intro w8_inv_move [OF assms(1,2) read(2,3), where es' = es and pl' = "W8Read e (m08_count (w8_demo q) w)"])
      (simp_all add: w8_set_def subset_insertI)
next
  case (write_ i w es e n)
  then show ?thesis
    by (intro w8_inv_move [OF assms(1,2) write_(2,3), where es' = es and pl' = "W8Written e"])
      (simp_all add: w8_set_def subset_insertI m08_count_def w8_entry_next)
next
  case (unlock i w es e)
  have "w8_locked q"
  proof (rule ccontr)
    assume "\<not> w8_locked q"
    with assms(1) have "\<forall>g \<in> set (w8_gos q). w8_inside (snd (snd g)) = 0" by (simp add: w8_inv_def sum_list_zero_iff)
    with unlock(2,3) show False by (metis nth_mem One_nat_def snd_conv w8_inside.simps(3) zero_neq_one)
  qed
  with unlock show ?thesis
    by (intro w8_inv_move [OF assms(1,2) unlock(2,3), where es' = es and pl' = "W8Unlocked e"]) (simp_all add: w8_set_def subset_insertI)
next
  case (count i w es e)
  then show ?thesis
    by (intro w8_inv_move [OF assms(1,2) count(2,3), where es' = es and pl' = "W8Counted e"])
      (simp_all add: w8_set_def subset_insertI add64_def wrap64_step1 algebra_simps)
next
  case (print_ i w es e)
  then show ?thesis
    by (intro w8_inv_move [OF assms(1,2) print_(2,3), where es' = es and pl' = W8Idle])
      (auto simp: w8_set_def stdout_def m08_count_def)
qed

section \<open>It ends, with every message printed\<close>

text \<open>The steps a worker has still to take.\<close>

fun w8_left :: "int \<times> m08_CustomerEvent list \<times> w8_place \<Rightarrow> nat" where
  "w8_left (w, es, W8Idle) = 6 * length es"
| "w8_left (w, es, W8Locked e) = 6 * length es + 5"
| "w8_left (w, es, W8Read e n) = 6 * length es + 4"
| "w8_left (w, es, W8Written e) = 6 * length es + 3"
| "w8_left (w, es, W8Unlocked e) = 6 * length es + 2"
| "w8_left (w, es, W8Counted e) = 6 * length es + 1"

definition w8_meas :: "w8_workers \<Rightarrow> nat" where
  "w8_meas q = sum_list (map w8_left (w8_gos q))"

lemma w8_meas_move:
  assumes "i < length gs" and "gs ! i = g" and "w8_left g' < w8_left g"
  shows "sum_list (map w8_left (gs[i := g'])) < sum_list (map w8_left gs)"
  using sum_list_upd [OF assms(1), of w8_left g'] assms(2,3) by simp

lemma w8_meas_step: "w8_step q q' \<Longrightarrow> w8_meas q' < w8_meas q"
  by (induction rule: w8_step.induct) (auto simp: w8_meas_def w8_set_def intro!: w8_meas_move)

definition w8_done :: "w8_workers \<Rightarrow> bool" where
  "w8_done q \<longleftrightarrow> (\<forall>g \<in> set (w8_gos q). \<exists>w. g = (w, [], W8Idle))"

text \<open>A worker that is not idle can go on; so can an idle one with messages left, unless another holds the mutex.\<close>

lemma w8_goes_on:
  assumes "i < length (w8_gos q)" and "w8_gos q ! i = (w, es, pl)" and "pl \<noteq> W8Idle \<or> es \<noteq> [] \<and> \<not> w8_locked q"
  shows "\<exists>q'. w8_step q q'"
proof (cases pl)
  case W8Idle
  then obtain e es' where "es = e # es'" and "\<not> w8_locked q" using assms(3) by (cases es) auto
  with assms(1,2) W8Idle show ?thesis using w8_step.lock by blast
next
  case (W8Locked e)
  with assms(1,2) show ?thesis using w8_step.read by blast
next
  case (W8Read e n)
  with assms(1,2) show ?thesis using w8_step.write_ by blast
next
  case (W8Written e)
  with assms(1,2) show ?thesis using w8_step.unlock by blast
next
  case (W8Unlocked e)
  with assms(1,2) show ?thesis using w8_step.count by blast
next
  case (W8Counted e)
  with assms(1,2) show ?thesis using w8_step.print_ by blast
qed

lemma w8_stuck:
  assumes "w8_inv ws s q" and stuck: "\<forall>q'. \<not> w8_step q q'"
  shows "w8_done q"
  unfolding w8_done_def
proof
  have idle: "snd (snd g) = W8Idle" if "g \<in> set (w8_gos q)" for g
    using that stuck w8_goes_on by (metis in_set_conv_nth prod.collapse)
  then have "sum_list (map (w8_inside \<circ> snd \<circ> snd) (w8_gos q)) = 0" by (simp add: sum_list_zero_iff del: sum_list_eq_0_iff)
  moreover have "sum_list (map (w8_inside \<circ> snd \<circ> snd) (w8_gos q)) = (if w8_locked q then 1 else 0)"
    using assms(1) unfolding w8_inv_def by blast
  ultimately have "\<not> w8_locked q" by (metis zero_neq_one)
  then have "fst (snd g) = []" if "g \<in> set (w8_gos q)" for g
    using that stuck w8_goes_on by (metis in_set_conv_nth prod.collapse)
  with idle show "\<exists>w. g = (w, [], W8Idle)" if "g \<in> set (w8_gos q)" for g
    using that by (metis prod.collapse)
qed

text \<open>The steps from messages that are given to different workers are such a system.\<close>

definition w8_start_inv :: "(int \<times> m08_CustomerEvent list) list \<Rightarrow> m08_demo \<Rightarrow> w8_workers \<Rightarrow> bool" where
  "w8_start_inv ws s q \<longleftrightarrow> w8_inv ws s q \<and> distinct (map fst ws)"

interpretation w8: terminating_system w8_step "w8_init [(1, es1), (2, es2)] s" "w8_start_inv [(1, es1), (2, es2)] s" w8_meas
  for es1 es2 s
  by unfold_locales (auto simp: w8_start_inv_def w8_inv_init intro: w8_inv_step w8_meas_step)

section \<open>What comes of it\<close>

lemma m08_worker_out:
  "h_out (m08_worker w e s) = h_out s @ w8_line (w, e)" "h_err (m08_worker w e s) = h_err s"
  by (simp_all add: m08_worker_def w8_line_def Let_def stdout_def)

lemma m08_workers_one_by_one:
  fixes s :: m08_demo
  defines "t \<equiv> \<lambda>ms. fold (\<lambda>(w, e). m08_worker w e) ms (s\<lparr>d8_handled := 0, d8_byWorker := []\<rparr>)"
  shows "d8_handled (t ms) = wrap64 (int (length ms))
    \<and> map_of (d8_byWorker (t ms)) v = w8_entry (length (w8_of ms v))
    \<and> h_out (t ms) = h_out s @ concat (map w8_line ms) \<and> h_err (t ms) = h_err s"
proof (induction ms arbitrary: v rule: rev_induct)
  case Nil
  then show ?case by (simp add: t_def w8_entry_def wrap64_nonneg max_int64_def)
next
  case (snoc m ms)
  obtain w e where m: "m = (w, e)" by (cases m)
  have step: "t (ms @ [m]) = m08_worker w e (t ms)" by (simp add: t_def m)
  have "map_of (d8_byWorker (t (ms @ [m]))) v = w8_entry (length (w8_of (ms @ [m]) v))"
  proof (cases "v = w")
    case True
    with snoc [of w] show ?thesis
      unfolding step by (simp add: m m08_worker_def Let_def stdout_def m08_count_def w8_entry_next)
  next
    case False
    with snoc [of v] show ?thesis
      unfolding step by (simp add: m m08_worker_def Let_def stdout_def)
  qed
  moreover have "d8_handled (t (ms @ [m])) = wrap64 (int (length (ms @ [m])))"
    using snoc unfolding step by (simp add: m08_worker_def Let_def stdout_def add64_def wrap64_step1 algebra_simps)
  moreover have "h_out (t (ms @ [m])) = h_out s @ concat (map w8_line (ms @ [m]))" "h_err (t (ms @ [m])) = h_err s"
    using snoc unfolding step m08_worker_out by (simp_all add: m)
  ultimately show ?case by blast
qed

text \<open>However the two callbacks interleave, they end, and there is an order of all messages, each worker's
  own in the order it was given them, such that counter, map and output are what they are when the messages
  are handled one at a time in that order: the order that \<open>M08_Demo\<close> takes for granted.\<close>

theorem w8_one_at_a_time:
  fixes es1 es2 :: "m08_CustomerEvent list" and s :: m08_demo
  defines "one \<equiv> \<lambda>ms. fold (\<lambda>(w, e). m08_worker w e) ms (s\<lparr>d8_handled := 0, d8_byWorker := []\<rparr>)"
  assumes "w8_step\<^sup>*\<^sup>* (w8_init [(1, es1), (2, es2)] s) q"
  shows "\<exists>q'. w8_step\<^sup>*\<^sup>* q q' \<and> w8_done q'"
    and "w8_done q \<Longrightarrow> \<exists>ms. w8_of ms 1 = es1 \<and> w8_of ms 2 = es2 \<and> fst ` set ms \<subseteq> {1, 2}
      \<and> d8_handled (w8_demo q) = d8_handled (one ms)
      \<and> map_of (d8_byWorker (w8_demo q)) = map_of (d8_byWorker (one ms))
      \<and> h_out (w8_demo q) = h_out (one ms) \<and> h_err (w8_demo q) = h_err (one ms)"
proof -
  have inv: "w8_start_inv [(1, es1), (2, es2)] s q" by (rule w8.reach_inv [OF assms(2)])
  obtain q' where q': "w8_step\<^sup>*\<^sup>* q q'" "\<forall>u. \<not> w8_step q' u" using w8.reaches_stuck [OF inv] by blast
  have "w8_inv [(1, es1), (2, es2)] s q'"
    using w8.inv_steps [OF q'(1) inv] by (simp add: w8_start_inv_def)
  with q' w8_stuck show "\<exists>q'. w8_step\<^sup>*\<^sup>* q q' \<and> w8_done q'" by blast
  assume ended: "w8_done q"
  have i: "w8_inv [(1, es1), (2, es2)] s q" using inv by (simp add: w8_start_inv_def)
  obtain g1 g2 where g: "w8_gos q = [g1, g2]" and fine: "w8_fine (w8_demo q) (w8_printed q) (1, es1) g1"
      "w8_fine (w8_demo q) (w8_printed q) (2, es2) g2"
    using i by (auto simp: w8_inv_def list_all2_Cons1)
  have g': "g1 = (1, [], W8Idle)" "g2 = (2, [], W8Idle)" using ended g fine by (auto simp: w8_done_def)
  have maps: "map_of (d8_byWorker (w8_demo q)) w = w8_entry (length (w8_of (w8_printed q) w))" for w
  proof (cases "w = 1 \<or> w = 2")
    case True
    with fine g' show ?thesis by auto
  next
    case False
    then have "w8_of (w8_printed q) w = []" and "map_of (d8_byWorker (w8_demo q)) w = None"
      using i by (auto simp: w8_inv_def w8_of_def filter_empty_conv)
    then show ?thesis by (simp add: w8_entry_def)
  qed
  show "\<exists>ms. w8_of ms 1 = es1 \<and> w8_of ms 2 = es2 \<and> fst ` set ms \<subseteq> {1, 2}
      \<and> d8_handled (w8_demo q) = d8_handled (one ms)
      \<and> map_of (d8_byWorker (w8_demo q)) = map_of (d8_byWorker (one ms))
      \<and> h_out (w8_demo q) = h_out (one ms) \<and> h_err (w8_demo q) = h_err (one ms)"
    using i fine g g' maps m08_workers_one_by_one [where s = s]
    by (intro exI [of _ "w8_printed q"] conjI ext) (auto simp: w8_inv_def one_def)
qed

end
