(* ===== verification/M09_Race.thy ===== *)
theory M09_Race
  imports M09_Stream Step_System
begin

text \<open>
  The handler of \<open>m09-jetstream/solution-stream\<close> as its atomic actions. The store has a mutex, but
  the handler looks an identifier up, sends, and marks it in separate critical sections. Here
  \<open>n\<close> goroutines run the handler on the shared store, each with its own consumer, and a step is
  one action of one of them: the early returns, the check, the send, the mark.
\<close>

datatype 'd phase =
    Idle
  | Sending m09_CustomerEvent "'d jmsg"
  | Marking m09_CustomerEvent

inductive race_step ::
  "(nat \<Rightarrow> ('x, 'd, 'w, 'j) m09_Consumer) \<Rightarrow> 'd phase list \<times> ('d, 'w, 'j) m09_state
     \<Rightarrow> 'd phase list \<times> ('d, 'w, 'j) m09_state \<Rightarrow> bool"
  for cons where
  bad: "k < length ws \<Longrightarrow> ws ! k = Idle \<Longrightarrow> c9_unmarshal (cons k) (jm_data (m :: 'd jmsg)) = Inl err
    \<Longrightarrow> race_step cons (ws, s) (ws, s)"
| over: "k < length ws \<Longrightarrow> ws ! k = Idle \<Longrightarrow> c9_unmarshal (cons k) (jm_data m) = Inr e
    \<Longrightarrow> delivered_over (c9_maxDeliver (cons k)) m
    \<Longrightarrow> race_step cons (ws, s) (ws, m09_dead_letter (cons k) (jm_data m) s)"
| again: "k < length ws \<Longrightarrow> ws ! k = Idle \<Longrightarrow> c9_unmarshal (cons k) (jm_data m) = Inr e
    \<Longrightarrow> \<not> delivered_over (c9_maxDeliver (cons k)) m \<Longrightarrow> m09_Seen (e9_ID e) (s9_dedup s)
    \<Longrightarrow> race_step cons (ws, s) (ws, s)"
| check: "k < length ws \<Longrightarrow> ws ! k = Idle \<Longrightarrow> c9_unmarshal (cons k) (jm_data m) = Inr e
    \<Longrightarrow> \<not> delivered_over (c9_maxDeliver (cons k)) m \<Longrightarrow> \<not> m09_Seen (e9_ID e) (s9_dedup s)
    \<Longrightarrow> race_step cons (ws, s) (ws[k := Sending e m], s)"
| sent: "k < length ws \<Longrightarrow> ws ! k = Sending e m \<Longrightarrow> c9_send (cons k) e (s9_world s) = (None, w)
    \<Longrightarrow> race_step cons (ws, s) (ws[k := Marking e], s\<lparr>s9_world := w, g9_sent := g9_sent s @ [e]\<rparr>)"
| failed: "k < length ws \<Longrightarrow> ws ! k = Sending e m \<Longrightarrow> c9_send (cons k) e (s9_world s) = (Some er, w)
    \<Longrightarrow> race_step cons (ws, s) (ws[k := Idle],
          if last_attempt (c9_maxDeliver (cons k)) m
          then m09_dead_letter (cons k) (jm_data m) (s\<lparr>s9_world := w\<rparr>) else s\<lparr>s9_world := w\<rparr>)"
| mark: "k < length ws \<Longrightarrow> ws ! k = Marking e
    \<Longrightarrow> race_step cons (ws, s) (ws[k := Idle], s\<lparr>s9_dedup := m09_Mark (e9_ID e) (s9_dedup s)\<rparr>)"

inductive_cases race_stepE: "race_step cons (ws, s) (ws', s')"

section \<open>How often an event can be sent\<close>

text \<open>Whether a goroutine is between the check and the send, or between the send and the mark.\<close>

primrec sending :: "string \<Rightarrow> 'd phase \<Rightarrow> nat" where
  "sending i Idle = 0"
| "sending i (Sending e m) = (if e9_ID e = i then 1 else 0)"
| "sending i (Marking e) = 0"

primrec marking :: "string \<Rightarrow> 'd phase \<Rightarrow> nat" where
  "marking i Idle = 0"
| "marking i (Sending e m) = 0"
| "marking i (Marking e) = (if e9_ID e = i then 1 else 0)"

definition sends_of :: "string \<Rightarrow> ('d, 'w, 'j) m09_state \<Rightarrow> nat" where
  "sends_of i s = length (filter (\<lambda>e. e9_ID e = i) (g9_sent s))"

lemma phases_bound: "sum_list (map (sending i) ws) + sum_list (map (marking i) ws) \<le> length ws"
proof (induction ws)
  case (Cons p ws)
  then show ?case by (cases p) auto
qed simp

text \<open>
  An event that is not in the store has been sent exactly by the goroutines about to mark it;
  and the sends made and those to come are never more than the goroutines.
\<close>

definition race_ok :: "nat \<Rightarrow> 'd phase list \<Rightarrow> ('d, 'w, 'j) m09_state \<Rightarrow> string \<Rightarrow> bool" where
  "race_ok n ws s i \<longleftrightarrow> sends_of i s + sum_list (map (sending i) ws) \<le> n
     \<and> (\<not> m09_Seen i (s9_dedup s) \<longrightarrow> sends_of i s = sum_list (map (marking i) ws))"

definition race_inv :: "nat \<Rightarrow> 'd phase list \<times> ('d, 'w, 'j) m09_state \<Rightarrow> bool" where
  "race_inv n q \<longleftrightarrow> length (fst q) = n \<and> (\<forall>i. race_ok n (fst q) (snd q) i)"

lemma sends_of_simps [simp]:
  "sends_of i (m09_dead_letter c d s) = sends_of i s"
  "sends_of i (s\<lparr>s9_world := w\<rparr>) = sends_of i s"
  "sends_of i (s\<lparr>s9_dedup := q\<rparr>) = sends_of i s"
  "sends_of i (s\<lparr>s9_world := w, g9_sent := g9_sent s @ [e]\<rparr>) = sends_of i s + (if e9_ID e = i then 1 else 0)"
  by (simp_all add: sends_of_def m09_dead_letter_def)

lemma dead_letter_dedup [simp]: "s9_dedup (m09_dead_letter c d s) = s9_dedup s"
  by (simp add: m09_dead_letter_def)

text \<open>One goroutine's action changes the sums over all of them by its share.\<close>

lemma phase_sums:
  assumes "k < length ws"
  shows "sum_list (map (sending i) (ws[k := p])) + sending i (ws ! k)
      = sum_list (map (sending i) ws) + sending i p"
    and "sum_list (map (marking i) (ws[k := p])) + marking i (ws ! k)
      = sum_list (map (marking i) ws) + marking i p"
  using sum_list_upd [OF assms] by blast+

lemma race_ok_check:
  assumes "race_ok n ws s i" and "length ws = n" and "k < length ws" and "ws ! k = Idle"
    and "\<not> m09_Seen (e9_ID e) (s9_dedup s)"
  shows "race_ok n (ws[k := Sending e m]) s i"
proof -
  let ?ws = "ws[k := Sending e m]"
  have marks: "sum_list (map (marking i) ?ws) = sum_list (map (marking i) ws)"
    using phase_sums(2) [OF assms(3), of i "Sending e m"] assms(4) by simp
  have "sends_of i s + sum_list (map (sending i) ?ws) \<le> n"
  proof (cases "e9_ID e = i")
    case True
    with assms(1,5) marks have "sends_of i s = sum_list (map (marking i) ?ws)" by (simp add: race_ok_def)
    with phases_bound [of i ?ws] assms(2) show ?thesis by simp
  next
    case False
    with phase_sums(1) [OF assms(3), of i "Sending e m"] assms(1,4) show ?thesis
      by (simp add: race_ok_def)
  qed
  with assms(1) marks show ?thesis by (simp add: race_ok_def)
qed

lemma race_ok_sent:
  assumes "race_ok n ws s i" and "k < length ws" and "ws ! k = Sending e m"
  shows "race_ok n (ws[k := Marking e]) (s\<lparr>s9_world := w, g9_sent := g9_sent s @ [e]\<rparr>) i"
  using assms phase_sums [OF assms(2), of i "Marking e"]
  by (cases "e9_ID e = i") (auto simp: race_ok_def)

lemma race_ok_failed:
  assumes "race_ok n ws s i" and "k < length ws" and "ws ! k = Sending e m"
    and "sends_of i s' = sends_of i s" and "s9_dedup s' = s9_dedup s"
  shows "race_ok n (ws[k := Idle]) s' i"
  using assms phase_sums [OF assms(2), of i Idle] by (auto simp: race_ok_def)

lemma race_ok_mark:
  assumes "race_ok n ws s i" and "k < length ws" and "ws ! k = Marking e"
  shows "race_ok n (ws[k := Idle]) (s\<lparr>s9_dedup := m09_Mark (e9_ID e) (s9_dedup s)\<rparr>) i"
  using assms phase_sums [OF assms(2), of i Idle]
  by (cases "e9_ID e = i") (auto simp: race_ok_def m09_dedup.seen_mark)

lemma race_inv_step:
  assumes "race_inv n q" and "race_step cons q q'"
  shows "race_inv n q'"
  using assms(2,1)
proof cases
  case (check k ws m e s)
  with assms(1) show ?thesis by (auto simp: race_inv_def intro: race_ok_check)
next
  case (sent k ws e m s w)
  with assms(1) show ?thesis by (auto simp: race_inv_def intro: race_ok_sent)
next
  case (failed k ws e m s er w)
  with assms(1) show ?thesis by (auto simp: race_inv_def intro: race_ok_failed)
next
  case (mark k ws e s)
  with assms(1) show ?thesis by (auto simp: race_inv_def intro: race_ok_mark)
qed (use assms(1) in \<open>auto simp: race_inv_def race_ok_def\<close>)

interpretation race: step_system "race_step cons" "(replicate n Idle, m09_start w j)" "race_inv n"
  for cons n w j
proof
  show "race_inv n (replicate n Idle, m09_start w j)"
    by (simp add: race_inv_def race_ok_def m09_start_def sends_of_def sum_list_replicate)
qed (rule race_inv_step)

text \<open>C9 (bounds). However the goroutines interleave, whatever is delivered to them and however
  often sending fails, no event is sent more often than there are goroutines.\<close>

theorem m09_send_bound:
  assumes "(race_step cons)\<^sup>*\<^sup>* (replicate n Idle, m09_start w j) (ws, s)"
  shows "sends_of i s \<le> n"
proof -
  have "race_inv n (ws, s)" by (rule race.reach_inv [OF assms])
  then have "race_ok n ws s i" by (simp add: race_inv_def)
  then show ?thesis by (simp add: race_ok_def)
qed

section \<open>The race of two\<close>

lemma race_two_steps:
  assumes "\<forall>k < 2. c9_unmarshal (cons k) (jm_data m) = Inr e \<and> \<not> delivered_over (c9_maxDeliver (cons k)) m
      \<and> (\<forall>w. fst (c9_send (cons k) e w) = None)"
    and "\<not> m09_Seen (e9_ID e) (s9_dedup s)"
  shows "\<exists>s'. (race_step cons)\<^sup>*\<^sup>* ([Idle, Idle], s) ([Idle, Idle], s') \<and> g9_sent s' = g9_sent s @ [e, e]"
proof -
  have k: "c9_unmarshal (cons k) (jm_data m) = Inr e \<and> \<not> delivered_over (c9_maxDeliver (cons k)) m
      \<and> (\<forall>w. fst (c9_send (cons k) e w) = None)" if "k = 0 \<or> k = 1" for k
    using assms(1) that by auto
  have c: "c9_send (cons k) e w = (None, snd (c9_send (cons k) e w))" if "k = 0 \<or> k = 1" for k w
    using k [OF that] by (metis prod.collapse)
  let ?snd = "\<lambda>k s. s\<lparr>s9_world := snd (c9_send (cons k) e (s9_world s)), g9_sent := g9_sent s @ [e]\<rparr>"
  let ?mrk = "\<lambda>s. s\<lparr>s9_dedup := m09_Mark (e9_ID e) (s9_dedup s)\<rparr>"
  have "race_step cons ([Idle, Idle], s) ([Sending e m, Idle], s)"
    using race_step.check [where k = 0 and ws = "[Idle, Idle]" and cons = cons and m = m and e = e and s = s]
      k [of 0] assms(2) by simp
  moreover have "race_step cons ([Sending e m, Idle], s) ([Sending e m, Sending e m], s)"
    using race_step.check [where k = 1 and ws = "[Sending e m, Idle]" and cons = cons and m = m and e = e
        and s = s] k [of 1] assms(2) by simp
  moreover have "race_step cons ([Sending e m, Sending e m], s) ([Marking e, Sending e m], ?snd 0 s)"
    using race_step.sent [where cons = cons and k = 0 and ws = "[Sending e m, Sending e m]" and e = e and m = m
        and s = s and w = "snd (c9_send (cons 0) e (s9_world s))"] c [of 0] by simp
  moreover have "race_step cons ([Marking e, Sending e m], ?snd 0 s) ([Marking e, Marking e], ?snd 1 (?snd 0 s))"
    using race_step.sent [where cons = cons and k = 1 and ws = "[Marking e, Sending e m]" and e = e and m = m
        and s = "?snd 0 s" and w = "snd (c9_send (cons 1) e (s9_world (?snd 0 s)))"] c [of 1] by simp
  moreover have "race_step cons ([Marking e, Marking e], ?snd 1 (?snd 0 s)) ([Idle, Marking e], ?mrk (?snd 1 (?snd 0 s)))"
    using race_step.mark [where k = 0 and ws = "[Marking e, Marking e]" and cons = cons and e = e
        and s = "?snd 1 (?snd 0 s)"] by simp
  moreover have "race_step cons ([Idle, Marking e], ?mrk (?snd 1 (?snd 0 s))) ([Idle, Idle], ?mrk (?mrk (?snd 1 (?snd 0 s))))"
    using race_step.mark [where k = 1 and ws = "[Idle, Marking e]" and cons = cons and e = e
        and s = "?mrk (?snd 1 (?snd 0 s))"] by simp
  ultimately have "(race_step cons)\<^sup>*\<^sup>* ([Idle, Idle], s) ([Idle, Idle], ?mrk (?mrk (?snd 1 (?snd 0 s))))"
    by (meson converse_rtranclp_into_rtranclp rtranclp.rtrancl_refl)
  then show ?thesis by (intro exI [of _ "?mrk (?mrk (?snd 1 (?snd 0 s)))"]) simp
qed

text \<open>C10 (error). Two goroutines reach the bound: given the same message at the same time, both
  pass the check before either has marked the event, and it is sent twice although it was
  delivered to handlers that share the store.\<close>

theorem m09_race_sends_twice:
  assumes "\<forall>k < 2. c9_unmarshal (cons k) (jm_data m) = Inr e \<and> \<not> delivered_over (c9_maxDeliver (cons k)) m
      \<and> (\<forall>w. fst (c9_send (cons k) e w) = None)"
  shows "\<exists>s. (race_step cons)\<^sup>*\<^sup>* (replicate 2 Idle, m09_start w j) (replicate 2 Idle, s)
    \<and> sends_of (e9_ID e) s = 2"
proof -
  have "\<not> m09_Seen (e9_ID e) (s9_dedup (m09_start w j))" by (simp add: m09_start_def m09_dedup.seen_new)
  then obtain s where "(race_step cons)\<^sup>*\<^sup>* ([Idle, Idle], m09_start w j) ([Idle, Idle], s)" "g9_sent s = [e, e]"
    using race_two_steps [where s = "m09_start w j", OF assms] by (auto simp: m09_start_def)
  then show ?thesis by (intro exI [of _ s]) (simp add: sends_of_def numeral_2_eq_2)
qed

section \<open>One goroutine\<close>

text \<open>
  The client library calls the handler of a consumer for one message at a time. Then the actions
  of one message are not interleaved with others, and the handler may be taken as one step.
\<close>

definition seq_inv ::
  "('x, 'd, 'w, 'j) m09_Consumer \<Rightarrow> ('d, 'w, 'j) m09_state \<Rightarrow> 'd phase list \<times> ('d, 'w, 'j) m09_state \<Rightarrow> bool"
where
  "seq_inv c s0 q \<longleftrightarrow>
     (\<exists>p trace vs s1. fst q = [p] \<and> deliver (\<lambda>_::nat. m09_handle c) trace s0 = (vs, s1)
        \<and> (case p of
             Idle \<Rightarrow> snd q = s1
           | Sending e m \<Rightarrow> snd q = s1 \<and> c9_unmarshal c (jm_data m) = Inr e
               \<and> \<not> delivered_over (c9_maxDeliver c) m \<and> \<not> m09_Seen (e9_ID e) (s9_dedup s1)
           | Marking e \<Rightarrow> (\<exists>m w. c9_unmarshal c (jm_data m) = Inr e
               \<and> \<not> delivered_over (c9_maxDeliver c) m \<and> \<not> m09_Seen (e9_ID e) (s9_dedup s1)
               \<and> c9_send c e (s9_world s1) = (None, w)
               \<and> snd q = s1\<lparr>s9_world := w, g9_sent := g9_sent s1 @ [e]\<rparr>)))"

lemma deliver_snoc:
  assumes "deliver h trace s0 = (vs, s)" and "h c m s = (v, s')"
  shows "deliver h (trace @ [(c, m)]) s0 = (vs @ [v], s')"
  using assms by (simp add: deliver_append)

lemma seq_idleI:
  assumes "deliver (\<lambda>_::nat. m09_handle c) trace s0 = (vs, s1)" and "m09_handle c m s1 = (v, s)"
  shows "seq_inv c s0 ([Idle], s)"
proof -
  have "deliver (\<lambda>_::nat. m09_handle c) (trace @ [(0, m)]) s0 = (vs @ [v], s)"
    by (rule deliver_snoc [OF assms])
  then show ?thesis unfolding seq_inv_def by (intro exI conjI) (rule fst_conv, assumption, simp)
qed

lemma seq_inv_step:
  assumes "seq_inv (cons 0) s0 q" and "race_step cons q q'"
  shows "seq_inv (cons 0) s0 q'"
  using assms(2)
proof cases
  case (bad k ws m err s)
  with assms(1) show ?thesis by simp
next
  case (over k ws m e s)
  with assms(1) obtain trace vs where q: "k = 0" "ws = [Idle]"
    "deliver (\<lambda>_::nat. m09_handle (cons 0)) trace s0 = (vs, s)"
    by (auto simp: seq_inv_def)
  moreover have "m09_handle (cons 0) m s = (Term, m09_dead_letter (cons 0) (jm_data m) s)"
    using over q by (simp add: m09_handle_def)
  ultimately show ?thesis using over seq_idleI by simp
next
  case (again k ws m e s)
  with assms(1) show ?thesis by simp
next
  case (check k ws m e s)
  with assms(1) obtain trace vs where q: "k = 0" "ws = [Idle]"
    "deliver (\<lambda>_::nat. m09_handle (cons 0)) trace s0 = (vs, s)"
    by (auto simp: seq_inv_def)
  show ?thesis
    unfolding seq_inv_def using check q
    by (intro exI [of _ "Sending e m"] exI [of _ trace] exI [of _ vs] exI [of _ s]) simp
next
  case (sent k ws e m s w)
  with assms(1) obtain trace vs where q: "k = 0" "ws = [Sending e m]"
    "deliver (\<lambda>_::nat. m09_handle (cons 0)) trace s0 = (vs, s)"
    "c9_unmarshal (cons 0) (jm_data m) = Inr e" "\<not> delivered_over (c9_maxDeliver (cons 0)) m"
    "\<not> m09_Seen (e9_ID e) (s9_dedup s)"
    by (auto simp: seq_inv_def)
  show ?thesis
    unfolding seq_inv_def using sent q
    by (intro exI [of _ "Marking e"] exI [of _ trace] exI [of _ vs] exI [of _ s]) auto
next
  case (failed k ws e m s er w)
  with assms(1) obtain trace vs where q: "k = 0" "ws = [Sending e m]"
    "deliver (\<lambda>_::nat. m09_handle (cons 0)) trace s0 = (vs, s)"
    "c9_unmarshal (cons 0) (jm_data m) = Inr e" "\<not> delivered_over (c9_maxDeliver (cons 0)) m"
    "\<not> m09_Seen (e9_ID e) (s9_dedup s)"
    by (auto simp: seq_inv_def)
  obtain v where "m09_handle (cons 0) m s = (v, snd q')"
    using failed q by (cases "last_attempt (c9_maxDeliver (cons 0)) m") (simp_all add: m09_handle_def Let_def)
  then have "seq_inv (cons 0) s0 ([Idle], snd q')" by (rule seq_idleI [OF q(3)])
  with failed q show ?thesis by simp
next
  case (mark k ws e s)
  with assms(1) obtain trace vs s1 m w where q: "k = 0" "ws = [Marking e]"
    "deliver (\<lambda>_::nat. m09_handle (cons 0)) trace s0 = (vs, s1)"
    "c9_unmarshal (cons 0) (jm_data m) = Inr e" "\<not> delivered_over (c9_maxDeliver (cons 0)) m"
    "\<not> m09_Seen (e9_ID e) (s9_dedup s1)" "c9_send (cons 0) e (s9_world s1) = (None, w)"
    "s = s1\<lparr>s9_world := w, g9_sent := g9_sent s1 @ [e]\<rparr>"
    by (auto simp: seq_inv_def)
  then have "m09_handle (cons 0) m s1 = (Ack, s\<lparr>s9_dedup := m09_Mark (e9_ID e) (s9_dedup s)\<rparr>)"
    by (simp add: m09_handle_def Let_def)
  then have "seq_inv (cons 0) s0 ([Idle], s\<lparr>s9_dedup := m09_Mark (e9_ID e) (s9_dedup s)\<rparr>)"
    by (rule seq_idleI [OF q(3)])
  with mark q show ?thesis by simp
qed

text \<open>Conversely, the actions of one call of the handler are steps.\<close>

lemma handle_steps:
  assumes "m09_handle (cons 0) m s = (v, s')"
  shows "(race_step cons)\<^sup>*\<^sup>* ([Idle], s) ([Idle], s')"
proof -
  let ?c = "cons 0"
  note one = r_into_rtranclp [of "race_step cons"]
  consider (bad) err where "c9_unmarshal ?c (jm_data m) = Inl err"
    | (over) e where "c9_unmarshal ?c (jm_data m) = Inr e" "delivered_over (c9_maxDeliver ?c) m"
    | (again) e where "c9_unmarshal ?c (jm_data m) = Inr e" "\<not> delivered_over (c9_maxDeliver ?c) m"
        "m09_Seen (e9_ID e) (s9_dedup s)"
    | (new) e where "c9_unmarshal ?c (jm_data m) = Inr e" "\<not> delivered_over (c9_maxDeliver ?c) m"
        "\<not> m09_Seen (e9_ID e) (s9_dedup s)"
    by (cases "c9_unmarshal ?c (jm_data m)") auto
  then show ?thesis
  proof cases
    case bad
    with assms show ?thesis by (simp add: m09_handle_def)
  next
    case over
    with assms have "s' = m09_dead_letter ?c (jm_data m) s" by (simp add: m09_handle_def)
    with race_step.over [where cons = cons and k = 0 and ws = "[Idle]", OF _ _ over] show ?thesis
      by (auto intro: one)
  next
    case again
    with assms show ?thesis by (simp add: m09_handle_def)
  next
    case new
    obtain err w where snd_: "c9_send ?c e (s9_world s) = (err, w)" by (cases "c9_send ?c e (s9_world s)")
    have "race_step cons ([Idle], s) ([Sending e m], s)"
      using race_step.check [where cons = cons and k = 0 and ws = "[Idle]", OF _ _ new] by simp
    moreover have "(race_step cons)\<^sup>*\<^sup>* ([Sending e m], s) ([Idle], s')"
    proof (cases err)
      case None
      let ?s1 = "s\<lparr>s9_world := w, g9_sent := g9_sent s @ [e]\<rparr>"
      have "s' = ?s1\<lparr>s9_dedup := m09_Mark (e9_ID e) (s9_dedup ?s1)\<rparr>"
        using assms new snd_ None by (auto simp: m09_handle_def)
      moreover have "race_step cons ([Sending e m], s) ([Marking e], ?s1)"
        using race_step.sent [where cons = cons and k = 0 and ws = "[Sending e m]" and e = e and m = m and s = s
            and w = w] snd_ None by simp
      moreover have "race_step cons ([Marking e], ?s1) ([Idle], ?s1\<lparr>s9_dedup := m09_Mark (e9_ID e) (s9_dedup ?s1)\<rparr>)"
        using race_step.mark [where cons = cons and k = 0 and ws = "[Marking e]" and e = e and s = ?s1] by simp
      ultimately show ?thesis by (metis converse_rtranclp_into_rtranclp one)
    next
      case (Some er)
      with assms new snd_ have "s' = (if last_attempt (c9_maxDeliver ?c) m
          then m09_dead_letter ?c (jm_data m) (s\<lparr>s9_world := w\<rparr>) else s\<lparr>s9_world := w\<rparr>)"
        by (cases "last_attempt (c9_maxDeliver ?c) m") (simp_all add: m09_handle_def Let_def)
      with race_step.failed [where cons = cons and k = 0 and ws = "[Sending e m]" and e = e and m = m and s = s
          and w = w and er = er] snd_ Some show ?thesis by (intro one) simp
    qed
    ultimately show ?thesis by (rule converse_rtranclp_into_rtranclp)
  qed
qed

lemma deliver_steps:
  "deliver (\<lambda>_::nat. m09_handle (cons 0)) trace s = (vs, s') \<Longrightarrow> (race_step cons)\<^sup>*\<^sup>* ([Idle], s) ([Idle], s')"
proof (induction trace arbitrary: s vs)
  case (Cons p trace)
  obtain c m where p: "p = (c, m)" by (cases p)
  obtain v s1 where h: "m09_handle (cons 0) m s = (v, s1)" by (cases "m09_handle (cons 0) m s")
  obtain vs' where r: "deliver (\<lambda>_::nat. m09_handle (cons 0)) trace s1 = (vs', s')"
    using Cons.prems p h by (auto simp: Let_def split: prod.splits)
  from handle_steps [where cons = cons, OF h] Cons.IH [OF r] show ?case by (rule rtranclp_trans)
qed simp

text \<open>Remark (equivalence). With one goroutine, the states between messages are exactly those the
  handler reaches as one step per message: \<open>deliver\<close> loses nothing and adds nothing.\<close>

theorem m09_one_goroutine:
  "(race_step cons)\<^sup>*\<^sup>* ([Idle], s0) ([Idle], s)
     \<longleftrightarrow> (\<exists>trace vs. deliver (\<lambda>_::nat. m09_handle (cons 0)) trace s0 = (vs, s))"
proof
  assume "(race_step cons)\<^sup>*\<^sup>* ([Idle], s0) ([Idle], s)"
  moreover have "seq_inv (cons 0) s0 ([Idle], s0)"
    unfolding seq_inv_def by (intro exI [of _ Idle] exI [of _ "[]"] exI [of _ s0]) simp
  ultimately have "seq_inv (cons 0) s0 ([Idle], s)"
    by (induction rule: rtranclp_induct) (auto intro: seq_inv_step)
  then show "\<exists>trace vs. deliver (\<lambda>_::nat. m09_handle (cons 0)) trace s0 = (vs, s)"
    by (auto simp: seq_inv_def)
next
  assume "\<exists>trace vs. deliver (\<lambda>_::nat. m09_handle (cons 0)) trace s0 = (vs, s)"
  then show "(race_step cons)\<^sup>*\<^sup>* ([Idle], s0) ([Idle], s)" using deliver_steps by blast
qed

section \<open>Two concrete goroutines\<close>

definition race_send :: "nat \<Rightarrow> m09_CustomerEvent \<Rightarrow> nat \<Rightarrow> unit go_error option \<times> nat" where
  "race_send k e w = (None, Suc w)"

definition race_cons :: "nat \<Rightarrow> (unit, m09_CustomerEvent, nat, (string \<times> m09_CustomerEvent) list) m09_Consumer" where
  "race_cons k = m09_consumer demo_pub Inr 5 race_send k"

theorem m09_race_sends_twice_witness:
  "\<exists>s. (race_step race_cons)\<^sup>*\<^sup>* (replicate 2 Idle, m09_start 0 []) (replicate 2 Idle, s)
     \<and> sends_of ''cus_01'' s = 2"
proof -
  have "\<exists>s. (race_step race_cons)\<^sup>*\<^sup>* (replicate 2 Idle, m09_start 0 []) (replicate 2 Idle, s)
      \<and> sends_of (e9_ID demo_e) s = 2"
    by (rule m09_race_sends_twice [where m = "\<lparr>jm_data = demo_e, jm_delivered = Some 1\<rparr>"])
      (auto simp: race_cons_def m09_consumer_def delivered_over_def wrap64_def race_send_def)
  then show ?thesis by (simp add: demo_e_def)
qed

theorem m09_send_bound_witness:
  "\<exists>s. (race_step race_cons)\<^sup>*\<^sup>* (replicate 2 Idle, m09_start 0 []) (replicate 2 Idle, s)
     \<and> g9_sent s = [demo_e, demo_e] \<and> sends_of ''cus_01'' s \<le> 2"
proof -
  let ?s = "m09_start 0 [] :: (m09_CustomerEvent, nat, (string \<times> m09_CustomerEvent) list) m09_state"
    and ?m = "\<lparr>jm_data = demo_e, jm_delivered = Some 1\<rparr>"
  have new: "\<not> m09_Seen (e9_ID demo_e) (s9_dedup ?s)" by (simp add: m09_start_def m09_dedup.seen_new)
  have "\<forall>k < 2. c9_unmarshal (race_cons k) (jm_data ?m) = Inr demo_e \<and> \<not> delivered_over (c9_maxDeliver (race_cons k)) ?m
      \<and> (\<forall>w. fst (c9_send (race_cons k) demo_e w) = None)"
    by (simp add: race_cons_def m09_consumer_def delivered_over_def wrap64_def race_send_def)
  from race_two_steps [OF this new] obtain s where "(race_step race_cons)\<^sup>*\<^sup>* ([Idle, Idle], ?s) ([Idle, Idle], s)"
    "g9_sent s = [demo_e, demo_e]"
    by (auto simp: m09_start_def)
  then have s: "(race_step race_cons)\<^sup>*\<^sup>* (replicate 2 Idle, ?s) (replicate 2 Idle, s)" "g9_sent s = [demo_e, demo_e]"
    by (simp_all add: numeral_2_eq_2)
  with m09_send_bound [OF s(1)] show ?thesis by blast
qed

end
