(* ===== verification/M09_Demo.thy ===== *)
theory M09_Demo
  imports M09_Stream Go_Cmd
begin

text \<open>
  The command of \<open>m09-jetstream\<close>: five events and a duplicate are published while a first consumer works;
  then a second durable consumer replays the stream, sharing the store. The text of \<open>cmd/demo\<close> and
  \<open>solution-cmd/demo\<close> is the same but for the packages \<open>events\<close> and \<open>stream\<close> it imports, which are an
  argument of the model; for the reference the JetStream client is a parameter (\<open>m09_services\<close>). What the
  server delivers is an argument too: \<open>sched k\<close> are the deliveries to the first consumer after the \<open>k\<close>th
  publish, \<open>sched 7\<close> those between the report and the stop, \<open>replayed\<close> those to the second consumer.
\<close>

section \<open>The command, for any packages\<close>

text \<open>The counters of \<open>main\<close> and its output are the world the send functions work on.\<close>

record m09_host = host +
  m9_sends :: int
  m9_replaySends :: int

text \<open>The process: that world, the store its consumers share, and the server.\<close>

record ('q, 'j) l09_state =
  q9_world :: m09_host
  q9_dedup :: 'q
  q9_js :: 'j

text \<open>
  What the command uses of the packages, on the event the exercise prescribes, and of the client (\<open>Drain\<close>,
  \<open>DeleteStream\<close>, \<open>Info\<close>, and the stop function): \<open>'n\<close> is the connection, \<open>'c\<close> a consumer, \<open>'s\<close> the
  stream. \<open>p9_handle c\<close> is what a consumer \<open>c\<close> that was started does with a message.
\<close>

record ('x, 'n, 'd, 'q, 'j, 'c, 's, 'p) m09_packages =
  p9_Connect :: "string \<Rightarrow> ('x, 'n) go_result"
  p9_Drain :: "'n \<Rightarrow> 'j \<Rightarrow> 'j"
  p9_DeleteStream :: "string \<Rightarrow> 'j \<Rightarrow> 'j"
  p9_StreamName :: string
  p9_EnsureStream :: "'j \<Rightarrow> ('x, 's) go_result \<times> 'j"
  p9_NewDedupStore :: 'q
  p9_NewConsumer :: "int \<Rightarrow> (m09_CustomerEvent \<Rightarrow> m09_host \<Rightarrow> 'x go_error option \<times> m09_host) \<Rightarrow> 'c"
  p9_Start :: "'c \<Rightarrow> 's \<Rightarrow> string \<Rightarrow> ('x, 'p) go_result"
  p9_handle :: "'c \<Rightarrow> 'd jmsg \<Rightarrow> ('q, 'j) l09_state \<Rightarrow> verdict \<times> ('q, 'j) l09_state"
  p9_Stop :: "'p \<Rightarrow> 'j \<Rightarrow> 'j"
  p9_Publish :: "m09_CustomerEvent \<Rightarrow> 'j \<Rightarrow> 'x go_error option \<times> 'j"
  p9_Info :: "'s \<Rightarrow> 'j \<Rightarrow> ('x, int) go_result"

definition in9 :: "(m09_host \<Rightarrow> m09_host) \<Rightarrow> ('q, 'j) l09_state \<Rightarrow> ('q, 'j) l09_state" where
  "in9 f s = s\<lparr>q9_world := f (q9_world s)\<rparr>"

definition on9 :: "('j \<Rightarrow> 'j) \<Rightarrow> ('q, 'j) l09_state \<Rightarrow> ('q, 'j) l09_state" where
  "on9 f s = s\<lparr>q9_js := f (q9_js s)\<rparr>"

text \<open>The send functions of the two consumers.\<close>

definition m09_welcome :: "m09_CustomerEvent \<Rightarrow> string" where
  "m09_welcome e = ''  sent welcome -> '' @ e9_Name e @ '' ('' @ e9_Email e @ '')'' @ nl"

definition m09_demo_send :: "nat \<Rightarrow> m09_CustomerEvent \<Rightarrow> m09_host \<Rightarrow> 'x go_error option \<times> m09_host" where
  "m09_demo_send c e w =
     (if c = 0
      then let w = w\<lparr>m9_sends := add64 (m9_sends w) 1\<rparr> in (None, stdout (m09_welcome e) w)
      else (None, w\<lparr>m9_replaySends := add64 (m9_replaySends w) 1\<rparr>))"

definition l09_consumer where
  "l09_consumer p c = p9_NewConsumer p 5 (m09_demo_send (c :: nat))"

definition m09_demo_event :: "(nat \<Rightarrow> int) \<Rightarrow> nat \<Rightarrow> m09_CustomerEvent" where
  "m09_demo_event now i = \<lparr>e9_ID = ''cus_'' @ fmt_0d 2 (int i), e9_Email = ''u'' @ fmt_d (int i) @ ''@pulse.dev'',
     e9_Name = ''User '' @ fmt_d (int i), e9_OccurredAt = now i\<rparr>"

definition m09_demo_duplicate :: m09_CustomerEvent where
  "m09_demo_duplicate =
     \<lparr>e9_ID = ''cus_03'', e9_Email = ''u3@pulse.dev'', e9_Name = ''User 3'', e9_OccurredAt = zero_time\<rparr>"

text \<open>Deliveries to one of the consumers; one publish, its error ignored, and the deliveries until the next.\<close>

definition l09_work where
  "l09_work p c ms s = fold (\<lambda>m s. snd (p9_handle p (l09_consumer p c) m s)) ms s"

definition l09_publish where
  "l09_publish p sched k e s = l09_work p 0 (sched k) (on9 (\<lambda>j. snd (p9_Publish p e j)) s)"

text \<open>
  The first part: publishing while the first consumer works, its report, and \<open>stop()\<close>. The second
  part: the replay. \<open>main\<close> ignores the error of \<open>st.Info\<close> and dereferences its result.
\<close>

definition m09_print :: "string \<Rightarrow> (unit, ('q, 'j) l09_state) cmd" where
  "m09_print t = act (in9 (stdout t))"

definition l09_first where
  "l09_first p stop now sched =
     bind (m09_print (''publishing 5 events (one duplicated MsgID to show dedup)...'' @ nl)) (\<lambda>_.
     bind (in_order (map (\<lambda>i. act (l09_publish p sched i (m09_demo_event now i))) [1..<6])) (\<lambda>_.
     bind (act (l09_publish p sched 6 m09_demo_duplicate)) (\<lambda>_.
     bind (call (\<lambda>s. (m9_sends (q9_world s), s))) (\<lambda>sends.
     bind (m09_print (''after first consumer: '' @ fmt_d sends @ '' sends (expected 5, dup suppressed)'' @ nl @ nl)) (\<lambda>_.
     bind (act (l09_work p 0 (sched 7))) (\<lambda>_.
     act (on9 (p9_Stop p stop))))))))"

definition l09_replay where
  "l09_replay p st replayed =
     bind (m09_print (''starting REPLAY consumer (DeliverAll) sharing the dedup store...'' @ nl)) (\<lambda>_.
     bind (act (in9 (m9_replaySends_update (\<lambda>_. 0)))) (\<lambda>_.
     bind (or_fatal (\<lambda>t. in9 (stderr t)) ''replay'' (p9_Start p (l09_consumer p 1) st ''replay-audit'')) (\<lambda>rstop.
     deferring (on9 (p9_Stop p rstop)) (
     bind (act (l09_work p 1 replayed)) (\<lambda>_.
     bind (call (\<lambda>s. (p9_Info p st (q9_js s), s))) (\<lambda>info.
     bind (call (\<lambda>s. (m9_replaySends (q9_world s), s))) (\<lambda>replaySends.
     bind (m09_print (''replay reprocessed history; duplicate sends='' @ fmt_d replaySends @ '' (idempotent)'' @ nl)) (\<lambda>_.
     case info of
       Inl err \<Rightarrow> panics ''invalid memory address or nil pointer dereference''
     | Inr msgs \<Rightarrow>
         m09_print (''stream stored messages: '' @ fmt_d msgs
           @ '' (5 unique; duplicate cus_03 suppressed by MsgID dedup)'' @ nl)))))))))"

definition l09_main where
  "l09_main p getenv now sched replayed =
     (let url = getenv ''PULSE_NATS_URL''; say = (\<lambda>t. in9 (stderr t))
      in if url = [] then fatal (say (''PULSE_NATS_URL is required'' @ nl)) else
      bind (or_fatal say ''connect'' (p9_Connect p url)) (\<lambda>nc.
      deferring (on9 (p9_Drain p nc)) (
      bind (act (on9 (p9_DeleteStream p (p9_StreamName p)))) (\<lambda>_.
      bind (call (\<lambda>s. let (st, j) = p9_EnsureStream p (q9_js s) in (st, s\<lparr>q9_js := j\<rparr>))) (\<lambda>res.
      bind (or_fatal say ''stream'' res) (\<lambda>st.
      bind (act (in9 (m9_sends_update (\<lambda>_. 0)))) (\<lambda>_.
      bind (act (q9_dedup_update (\<lambda>_. p9_NewDedupStore p))) (\<lambda>_.
      bind (or_fatal say ''start'' (p9_Start p (l09_consumer p 0) st ''notify-workers'')) (\<lambda>stop.
      bind (l09_first p stop now sched) (\<lambda>_.
      l09_replay p st replayed))))))))))"

section \<open>What the exercises ask of the packages\<close>

text \<open>
  A consumer's handler, given a message that decodes and is within its bound: an event whose
  identifier is in the store is skipped; one that is sent successfully is put into the store.
  \<open>Publish\<close> stores an event that can be written once per identifier. \<open>seen\<close> reads the store, \<open>ids\<close>
  the message identifiers in the stream.
\<close>

locale m09_exercise =
  fixes p :: "('x, 'n, 'd, 'q, 'j, 'c, 's, 'p) m09_packages" and decode :: "'d \<Rightarrow> m09_CustomerEvent option"
    and writable :: "m09_CustomerEvent \<Rightarrow> bool" and seen :: "'q \<Rightarrow> string set" and ids :: "'j \<Rightarrow> string option list"
  assumes new_store: "seen (p9_NewDedupStore p) = {}"
    and again: "decode (jm_data m) = Some e \<Longrightarrow> \<not> delivered_over n m \<Longrightarrow> e9_ID e \<in> seen (q9_dedup s)
      \<Longrightarrow> snd (p9_handle p (p9_NewConsumer p n send) m s) = s"
    and sends: "decode (jm_data m) = Some e \<Longrightarrow> \<not> delivered_over n m \<Longrightarrow> e9_ID e \<notin> seen (q9_dedup s)
      \<Longrightarrow> send e (q9_world s) = (None, w)
      \<Longrightarrow> \<exists>q. snd (p9_handle p (p9_NewConsumer p n send) m s) = s\<lparr>q9_world := w, q9_dedup := q\<rparr>
            \<and> seen q = insert (e9_ID e) (seen (q9_dedup s))"
    and publishes: "writable e \<Longrightarrow> ids (snd (p9_Publish p e j))
      = ids j @ (if Some (e9_ID e) \<in> set (ids j) then [] else [Some (e9_ID e)])"

section \<open>What it prints\<close>

definition m09_demo_events :: "(nat \<Rightarrow> int) \<Rightarrow> m09_CustomerEvent list" where
  "m09_demo_events now = map (m09_demo_event now) [1..<6]"

lemma m09_demo_ids: "e9_ID (m09_demo_event now i) = e9_ID (m09_demo_event now k) \<longleftrightarrow> i = k"
  by (simp add: m09_demo_event_def fmt_0d_inject)

lemma m09_demo_events_inj:
  assumes "e \<in> set (m09_demo_events now)" and "e' \<in> set (m09_demo_events now)" and "e9_ID e = e9_ID e'"
  shows "e = e'"
  using assms by (auto simp: m09_demo_events_def m09_demo_ids)

text \<open>
  A delivery the run may contain; the state after the events \<open>es\<close> have been sent; and what the run
  assumes of its surroundings.
\<close>

definition m09_delivers :: "('d \<Rightarrow> m09_CustomerEvent option) \<Rightarrow> (nat \<Rightarrow> int) \<Rightarrow> 'd jmsg list \<Rightarrow> bool" where
  "m09_delivers decode now ms \<longleftrightarrow>
     (\<forall>m \<in> set ms. \<not> delivered_over 5 m \<and> (\<exists>e \<in> set (m09_demo_events now). decode (jm_data m) = Some e))"

definition m09_sent where
  "m09_sent seen now w es s \<longleftrightarrow> distinct (map e9_ID es) \<and> set es \<subseteq> set (m09_demo_events now)
     \<and> seen (q9_dedup s) = e9_ID ` set es
     \<and> q9_world s = w\<lparr>m9_sends := int (length es), h_out := h_out w @ concat (map m09_welcome es)\<rparr>"

definition l09_up where
  "l09_up p writable ids getenv now nc st a b \<longleftrightarrow>
     getenv ''PULSE_NATS_URL'' \<noteq> [] \<and> p9_Connect p (getenv ''PULSE_NATS_URL'') = Inr nc
     \<and> (\<forall>j. \<exists>j'. p9_EnsureStream p (p9_DeleteStream p (p9_StreamName p) j) = (Inr st, j') \<and> ids j' = [])
     \<and> p9_Start p (l09_consumer p 0) st ''notify-workers'' = Inr a
     \<and> p9_Start p (l09_consumer p 1) st ''replay-audit'' = Inr b
     \<and> (\<forall>j. p9_Info p st j = Inr (int (length (ids j)))) \<and> (\<forall>j. ids (p9_Stop p a j) = ids j)
     \<and> (\<forall>e \<in> set (m09_demo_duplicate # m09_demo_events now). writable e)"

lemma in9_simps [simp]:
  "q9_dedup (in9 f s) = q9_dedup s" "q9_js (in9 f s) = q9_js s" "q9_world (in9 f s) = f (q9_world s)"
  "q9_dedup (on9 g s) = q9_dedup s" "q9_js (on9 g s) = g (q9_js s)" "q9_world (on9 g s) = q9_world s"
  by (simp_all add: in9_def on9_def)

lemma m09_counters [simp]:
  "m9_sends (stdout t w) = m9_sends w" "m9_replaySends (stdout t w) = m9_replaySends w"
  by (simp_all add: stdout_def)

lemma m09_demo_digits: "fmt_d 5 = ''5''" "fmt_d 0 = ''0''"
  by code_simp+

lemma m09_demo_length:
  assumes "distinct (map e9_ID es)" and "set es \<subseteq> set (m09_demo_events now)"
  shows "length es \<le> 5"
proof -
  have "length es = card (set es)" using assms(1) by (simp add: distinct_map distinct_card)
  also have "... \<le> card (set (m09_demo_events now))" using assms(2) by (intro card_mono) simp_all
  also have "... \<le> 5" using card_length [of "m09_demo_events now"] by (simp add: m09_demo_events_def)
  finally show ?thesis .
qed

context m09_exercise
begin

lemma sent_none:
  assumes "seen (q9_dedup s) = {}" and "m9_sends (q9_world s) = 0"
  shows "m09_sent seen now (q9_world s) [] s"
  using assms by (cases "q9_world s") (simp add: m09_sent_def)

lemma handle_sent:
  assumes "m09_sent seen now w es s" and "decode (jm_data m) = Some e" and "\<not> delivered_over 5 m"
    and "e \<in> set (m09_demo_events now)"
  shows "m09_sent seen now w (if e \<in> set es then es else es @ [e]) (snd (p9_handle p (l09_consumer p 0) m s))
    \<and> q9_js (snd (p9_handle p (l09_consumer p 0) m s)) = q9_js s"
proof (cases "e \<in> set es")
  case True
  with assms(1) have "e9_ID e \<in> seen (q9_dedup s)" by (auto simp: m09_sent_def)
  from again [OF assms(2,3) this] True assms(1) show ?thesis by (simp add: l09_consumer_def)
next
  case False
  have ids: "e9_ID e \<notin> e9_ID ` set es"
    using m09_demo_events_inj [OF assms(4)] assms(1) False by (force simp: m09_sent_def)
  then have "e9_ID e \<notin> seen (q9_dedup s)" using assms(1) by (simp add: m09_sent_def)
  moreover have "m09_demo_send 0 e (q9_world s)
      = (None, stdout (m09_welcome e) ((q9_world s)\<lparr>m9_sends := add64 (m9_sends (q9_world s)) 1\<rparr>))"
    by (simp add: m09_demo_send_def Let_def)
  ultimately obtain q where s': "snd (p9_handle p (l09_consumer p 0) m s)
      = s\<lparr>q9_world := stdout (m09_welcome e) ((q9_world s)\<lparr>m9_sends := add64 (m9_sends (q9_world s)) 1\<rparr>), q9_dedup := q\<rparr>"
    "seen q = insert (e9_ID e) (seen (q9_dedup s))"
    using sends [OF assms(2,3), of s "m09_demo_send 0"] unfolding l09_consumer_def by blast
  have "length es \<le> 5" using assms(1) m09_demo_length by (auto simp: m09_sent_def)
  then have "add64 (int (length es)) 1 = int (length (es @ [e]))" by (simp add: go_arith wrap64_def)
  then show ?thesis
    using assms(1,4) ids False by (simp add: m09_sent_def s' stdout_def)
qed

lemma work_sent:
  assumes "m09_sent seen now w es s" and "m09_delivers decode now ms"
  shows "\<exists>fs. m09_sent seen now w fs (l09_work p 0 ms s) \<and> set es \<subseteq> set fs
    \<and> q9_js (l09_work p 0 ms s) = q9_js s \<and> (\<forall>m \<in> set ms. \<exists>e \<in> set fs. decode (jm_data m) = Some e)"
  using assms
proof (induction ms arbitrary: es s)
  case Nil
  then show ?case by (auto simp: l09_work_def)
next
  case (Cons m ms)
  from Cons.prems(2) obtain e where e: "\<not> delivered_over 5 m" "e \<in> set (m09_demo_events now)"
    "decode (jm_data m) = Some e" by (auto simp: m09_delivers_def)
  let ?es = "if e \<in> set es then es else es @ [e]" and ?s1 = "snd (p9_handle p (l09_consumer p 0) m s)"
  from handle_sent [OF Cons.prems(1) e(3,1,2)] have s1: "m09_sent seen now w ?es ?s1" "q9_js ?s1 = q9_js s"
    by auto
  have "l09_work p 0 (m # ms) s = l09_work p 0 ms ?s1" by (simp add: l09_work_def)
  moreover have "m09_delivers decode now ms" using Cons.prems(2) by (simp add: m09_delivers_def)
  moreover have "set es \<subseteq> set ?es" "e \<in> set ?es" by auto
  ultimately show ?case using Cons.IH [OF s1(1)] s1(2) e(3) by fastforce
qed

text \<open>The replay changes nothing: every event it is given has been sent.\<close>

lemma replay_silent:
  assumes "seen (q9_dedup s) = e9_ID ` set (m09_demo_events now)" and "m09_delivers decode now ms"
  shows "l09_work p c ms s = s"
  using assms(2)
proof (induction ms)
  case (Cons m ms)
  then obtain e where "\<not> delivered_over 5 m" "e \<in> set (m09_demo_events now)" "decode (jm_data m) = Some e"
    by (auto simp: m09_delivers_def)
  with again [of m e 5 s] assms(1) have "snd (p9_handle p (l09_consumer p c) m s) = s" by (simp add: l09_consumer_def)
  with Cons show ?case by (simp add: l09_work_def m09_delivers_def)
qed (simp add: l09_work_def)

lemma publish_sent:
  assumes "m09_sent seen now w es s" and "m09_delivers decode now (sched k)" and "writable e"
  shows "\<exists>fs. m09_sent seen now w fs (l09_publish p sched k e s) \<and> set es \<subseteq> set fs
    \<and> (\<forall>m \<in> set (sched k). \<exists>e \<in> set fs. decode (jm_data m) = Some e)
    \<and> ids (q9_js (l09_publish p sched k e s)) = ids (q9_js s)
        @ (if Some (e9_ID e) \<in> set (ids (q9_js s)) then [] else [Some (e9_ID e)])"
proof -
  let ?s1 = "on9 (\<lambda>j. snd (p9_Publish p e j)) s"
  have "m09_sent seen now w es ?s1" using assms(1) by (simp add: m09_sent_def)
  from work_sent [OF this assms(2)] publishes [OF assms(3), of "q9_js s"] show ?thesis
    by (auto simp: l09_publish_def)
qed

lemma publish_all:
  assumes "\<forall>k. m09_delivers decode now (sched k)"
  shows "m09_sent seen now w es s \<Longrightarrow> distinct ks
    \<Longrightarrow> (\<forall>i \<in> set ks. writable (m09_demo_event now i)) \<Longrightarrow> (\<forall>i \<in> set ks. Some (e9_ID (m09_demo_event now i)) \<notin> set (ids (q9_js s)))
    \<Longrightarrow> \<exists>fs. m09_sent seen now w fs (fold (\<lambda>i. l09_publish p sched i (m09_demo_event now i)) ks s)
      \<and> set es \<subseteq> set fs \<and> (\<forall>k \<in> set ks. \<forall>m \<in> set (sched k). \<exists>e \<in> set fs. decode (jm_data m) = Some e)
      \<and> ids (q9_js (fold (\<lambda>i. l09_publish p sched i (m09_demo_event now i)) ks s))
          = ids (q9_js s) @ map (\<lambda>i. Some (e9_ID (m09_demo_event now i))) ks"
proof (induction ks arbitrary: es s)
  case Nil
  then show ?case by auto
next
  case (Cons k ks)
  let ?s1 = "l09_publish p sched k (m09_demo_event now k) s"
  have "writable (m09_demo_event now k)" using Cons.prems(3) by simp
  from publish_sent [where sched = sched and k = k, OF Cons.prems(1) spec [OF assms] this]
  obtain fs where fs: "m09_sent seen now w fs ?s1" "set es \<subseteq> set fs"
    "\<forall>m \<in> set (sched k). \<exists>e \<in> set fs. decode (jm_data m) = Some e"
    "ids (q9_js ?s1) = ids (q9_js s) @ [Some (e9_ID (m09_demo_event now k))]"
    using Cons.prems(4) by auto
  have "\<forall>i \<in> set ks. Some (e9_ID (m09_demo_event now i)) \<notin> set (ids (q9_js ?s1))"
    using Cons.prems(2,4) by (auto simp: fs(4) m09_demo_ids)
  with Cons.IH [OF fs(1)] Cons.prems(2,3) obtain gs where gs:
    "m09_sent seen now w gs (fold (\<lambda>i. l09_publish p sched i (m09_demo_event now i)) ks ?s1)"
    "set fs \<subseteq> set gs" "\<forall>k \<in> set ks. \<forall>m \<in> set (sched k). \<exists>e \<in> set gs. decode (jm_data m) = Some e"
    "ids (q9_js (fold (\<lambda>i. l09_publish p sched i (m09_demo_event now i)) ks ?s1))
       = ids (q9_js ?s1) @ map (\<lambda>i. Some (e9_ID (m09_demo_event now i))) ks"
    by auto
  from gs fs show ?case by (intro exI [of _ gs]) (auto, blast)
qed

lemma first_run:
  assumes "l09_up p writable ids getenv now nc st a b" and "\<forall>k. m09_delivers decode now (sched k)"
    and "\<forall>e \<in> set (m09_demo_events now). \<exists>k \<in> {1..6}. \<exists>m \<in> set (sched k). decode (jm_data m) = Some e"
    and "seen (q9_dedup s) = {}" and "m9_sends (q9_world s) = 0" and "ids (q9_js s) = []"
  shows "\<exists>es s'. l09_first p a now sched s = (Val (), s') \<and> mset es = mset (m09_demo_events now)
    \<and> seen (q9_dedup s') = e9_ID ` set (m09_demo_events now) \<and> length (ids (q9_js s')) = 5
    \<and> h_out (q9_world s') = h_out (q9_world s)
        @ ''publishing 5 events (one duplicated MsgID to show dedup)...'' @ nl @ concat (map m09_welcome es)
        @ ''after first consumer: 5 sends (expected 5, dup suppressed)'' @ nl @ nl"
proof -
  let ?all = "\<lambda>ks. fold (\<lambda>i. l09_publish p sched i (m09_demo_event now i)) ks"
  let ?s1 = "in9 (stdout (''publishing 5 events (one duplicated MsgID to show dedup)...'' @ nl)) s"
  have writable: "\<forall>i \<in> set [1..<6]. writable (m09_demo_event now i)" "writable m09_demo_duplicate"
    using assms(1) by (auto simp: l09_up_def m09_demo_events_def)
  have "m09_sent seen now (q9_world ?s1) [] ?s1" "ids (q9_js ?s1) = []"
    using assms(4,5,6) sent_none [of ?s1 now] by simp_all
  with publish_all [OF assms(2), of "q9_world ?s1" "[]" ?s1 "[1..<6]"] writable(1)
  obtain fs where fs: "m09_sent seen now (q9_world ?s1) fs (?all [1..<6] ?s1)"
    "\<forall>k \<in> {1..<6}. \<forall>m \<in> set (sched k). \<exists>e \<in> set fs. decode (jm_data m) = Some e"
    "ids (q9_js (?all [1..<6] ?s1)) = map (\<lambda>i. Some (e9_ID (m09_demo_event now i))) [1..<6]"
    by auto
  define s2 where "s2 = l09_publish p sched 6 m09_demo_duplicate (?all [1..<6] ?s1)"
  have "Some (e9_ID m09_demo_duplicate) \<in> set (ids (q9_js (?all [1..<6] ?s1)))"
  proof -
    have "e9_ID m09_demo_duplicate = e9_ID (m09_demo_event now 3)"
      by (simp add: m09_demo_duplicate_def m09_demo_event_def) code_simp
    then show ?thesis unfolding fs(3) by (auto intro!: image_eqI [of _ _ 3])
  qed
  with publish_sent [where sched = sched and k = 6, OF fs(1) spec [OF assms(2)] writable(2)] fs(3)
  obtain es where es: "m09_sent seen now (q9_world ?s1) es s2" "set fs \<subseteq> set es"
    "\<forall>m \<in> set (sched 6). \<exists>e \<in> set es. decode (jm_data m) = Some e" "length (ids (q9_js s2)) = 5"
    unfolding s2_def by auto
  have "set (m09_demo_events now) \<subseteq> set es"
  proof
    fix e assume "e \<in> set (m09_demo_events now)"
    with assms(3) obtain k m where km: "k \<in> {1..6}" "m \<in> set (sched k)" "decode (jm_data m) = Some e"
      by blast
    then have "k \<in> {1..<6} \<or> k = 6" by auto
    with fs(2) es(2,3) km(2) have "\<exists>e' \<in> set es. decode (jm_data m) = Some e'" by blast
    with km(3) show "e \<in> set es" by auto
  qed
  with es(1) have set: "set es = set (m09_demo_events now)" by (auto simp: m09_sent_def)
  have dist: "distinct es" "distinct (m09_demo_events now)"
    using es(1) m09_demo_ids
    by (auto simp: m09_sent_def distinct_map m09_demo_events_def inj_on_def dest!: arg_cong [where f = e9_ID])
  with set have mset: "mset es = mset (m09_demo_events now)" by (simp add: set_eq_iff_mset_eq_distinct)
  then have "length es = length (m09_demo_events now)" by (metis size_mset)
  then have "length es = 5" by (simp add: m09_demo_events_def)
  then have w: "m9_sends (q9_world s2) = 5" "h_out (q9_world s2) = h_out (q9_world ?s1) @ concat (map m09_welcome es)"
    using es(1) by (simp_all add: m09_sent_def)
  let ?s3 = "in9 (stdout (''after first consumer: 5 sends (expected 5, dup suppressed)'' @ nl @ nl)) s2"
  have handled: "seen (q9_dedup ?s3) = e9_ID ` set (m09_demo_events now)"
    using es(1) set by (simp add: m09_sent_def)
  have "l09_work p 0 (sched 7) ?s3 = ?s3" by (rule replay_silent [OF handled spec [OF assms(2)]])
  then have run: "l09_first p a now sched s = (Val (), on9 (p9_Stop p a) ?s3)"
    using w(1) s2_def
    by (simp add: l09_first_def m09_print_def cmd_run m09_demo_digits del: upt_Suc)
  have "\<forall>j. ids (p9_Stop p a j) = ids j" using assms(1) by (simp add: l09_up_def)
  then have "length (ids (q9_js (on9 (p9_Stop p a) ?s3))) = 5" using es(4) by simp
  moreover have "h_out (q9_world (on9 (p9_Stop p a) ?s3)) = h_out (q9_world s2)
      @ ''after first consumer: 5 sends (expected 5, dup suppressed)'' @ nl @ nl"
    by simp
  moreover have "h_out (q9_world ?s1) = h_out (q9_world s)
      @ ''publishing 5 events (one duplicated MsgID to show dedup)...'' @ nl" by simp
  moreover have "seen (q9_dedup (on9 (p9_Stop p a) ?s3)) = e9_ID ` set (m09_demo_events now)"
    using handled by simp
  ultimately show ?thesis using run w(2) mset by (intro exI conjI) (assumption | simp)+
qed

lemma replay_run:
  assumes "l09_up p writable ids getenv now nc st a b" and "m09_delivers decode now replayed"
    and "seen (q9_dedup s) = e9_ID ` set (m09_demo_events now)" and "length (ids (q9_js s)) = 5"
  shows "\<exists>s'. l09_replay p st replayed s = (Val (), s')
    \<and> h_out (q9_world s') = h_out (q9_world s)
        @ ''starting REPLAY consumer (DeliverAll) sharing the dedup store...'' @ nl
        @ ''replay reprocessed history; duplicate sends=0 (idempotent)'' @ nl
        @ ''stream stored messages: 5 (5 unique; duplicate cus_03 suppressed by MsgID dedup)'' @ nl"
proof -
  let ?s1 = "in9 (m9_replaySends_update (\<lambda>_. 0))
      (in9 (stdout (''starting REPLAY consumer (DeliverAll) sharing the dedup store...'' @ nl)) s)"
  have "l09_work p 1 replayed ?s1 = ?s1" using assms(2,3) by (intro replay_silent) simp_all
  moreover have "p9_Start p (l09_consumer p 1) st ''replay-audit'' = Inr b"
    "\<forall>j. p9_Info p st j = Inr (int (length (ids j)))"
    using assms(1) by (simp_all add: l09_up_def)
  ultimately show ?thesis
    using assms(4) by (simp add: l09_replay_def m09_print_def cmd_run m09_demo_digits)
qed

lemma stream_demo_output:
  assumes "l09_up p writable ids getenv now nc st a b"
    and "\<forall>k. m09_delivers decode now (sched k)" and "m09_delivers decode now replayed"
    and "\<forall>e \<in> set (m09_demo_events now). \<exists>k \<in> {1..6}. \<exists>m \<in> set (sched k). decode (jm_data m) = Some e"
  shows "\<exists>es s'. l09_main p getenv now sched replayed s0 = (Val (), s')
    \<and> mset es = mset (m09_demo_events now)
    \<and> h_out (q9_world s') = h_out (q9_world s0)
        @ ''publishing 5 events (one duplicated MsgID to show dedup)...'' @ nl @ concat (map m09_welcome es)
        @ ''after first consumer: 5 sends (expected 5, dup suppressed)'' @ nl @ nl
        @ ''starting REPLAY consumer (DeliverAll) sharing the dedup store...'' @ nl
        @ ''replay reprocessed history; duplicate sends=0 (idempotent)'' @ nl
        @ ''stream stored messages: 5 (5 unique; duplicate cus_03 suppressed by MsgID dedup)'' @ nl"
proof -
  note up = assms(1) [unfolded l09_up_def]
  obtain j1 where j1: "p9_EnsureStream p (p9_DeleteStream p (p9_StreamName p) (q9_js s0)) = (Inr st, j1)" "ids j1 = []"
    using up by blast
  define s where "s = q9_dedup_update (\<lambda>_. p9_NewDedupStore p)
      (in9 (m9_sends_update (\<lambda>_. 0)) ((on9 (p9_DeleteStream p (p9_StreamName p)) s0)\<lparr>q9_js := j1\<rparr>))"
  have s: "seen (q9_dedup s) = {}" "m9_sends (q9_world s) = 0" "ids (q9_js s) = []" "h_out (q9_world s) = h_out (q9_world s0)"
    by (simp_all add: s_def in9_def on9_def new_store j1(2))
  from first_run [OF assms(1,2,4) s(1-3)] obtain es s1 where first:
    "l09_first p a now sched s = (Val (), s1)" "mset es = mset (m09_demo_events now)"
    "seen (q9_dedup s1) = e9_ID ` set (m09_demo_events now)" "length (ids (q9_js s1)) = 5"
    "h_out (q9_world s1) = h_out (q9_world s0)
      @ ''publishing 5 events (one duplicated MsgID to show dedup)...'' @ nl @ concat (map m09_welcome es)
      @ ''after first consumer: 5 sends (expected 5, dup suppressed)'' @ nl @ nl"
    unfolding s(4) by blast
  from replay_run [OF assms(1,3) first(3,4)] obtain s2 where replay:
    "l09_replay p st replayed s1 = (Val (), s2)"
    "h_out (q9_world s2) = h_out (q9_world s1)
      @ ''starting REPLAY consumer (DeliverAll) sharing the dedup store...'' @ nl
      @ ''replay reprocessed history; duplicate sends=0 (idempotent)'' @ nl
      @ ''stream stored messages: 5 (5 unique; duplicate cus_03 suppressed by MsgID dedup)'' @ nl"
    by blast
  have run: "l09_main p getenv now sched replayed s0 = (Val (), on9 (p9_Drain p nc) s2)"
    using up j1(1) first(1) replay(1) by (simp add: l09_main_def cmd_run Let_def s_def)
  show ?thesis
    by (intro exI conjI, rule run, rule first(2)) (simp add: replay(2) first(5))
qed

end

text \<open>Remark (functional). With any packages that keep the contract, and deliveries of the five events to the
  first consumer, in any order and each at least once before the report, the demo prints what it
  claims.\<close>

theorem l09_demo_output:
  assumes "m09_exercise p decode writable seen ids" and "l09_up p writable ids getenv now nc st a b"
    and "\<forall>k. m09_delivers decode now (sched k)" and "m09_delivers decode now replayed"
    and "\<forall>e \<in> set (m09_demo_events now). \<exists>k \<in> {1..6}. \<exists>m \<in> set (sched k). decode (jm_data m) = Some e"
  shows "\<exists>es s'. l09_main p getenv now sched replayed s0 = (Val (), s')
    \<and> mset es = mset (m09_demo_events now)
    \<and> h_out (q9_world s') = h_out (q9_world s0)
        @ ''publishing 5 events (one duplicated MsgID to show dedup)...'' @ nl @ concat (map m09_welcome es)
        @ ''after first consumer: 5 sends (expected 5, dup suppressed)'' @ nl @ nl
        @ ''starting REPLAY consumer (DeliverAll) sharing the dedup store...'' @ nl
        @ ''replay reprocessed history; duplicate sends=0 (idempotent)'' @ nl
        @ ''stream stored messages: 5 (5 unique; duplicate cus_03 suppressed by MsgID dedup)'' @ nl"
  using assms by (rule m09_exercise.stream_demo_output)

section \<open>The packages of the reference\<close>

text \<open>The JetStream client.\<close>

record ('x, 'n, 'h, 'd, 'j, 's, 'o, 'p) m09_services =
  v9_connect :: "string \<Rightarrow> ('x, 'n) go_result"
  v9_new :: "'n \<Rightarrow> ('x, 'h) go_result"
  v9_drain :: "'n \<Rightarrow> 'j \<Rightarrow> 'j"
  v9_delete :: "string \<Rightarrow> 'j \<Rightarrow> 'j"
  v9_ensure :: "stream_config \<Rightarrow> 'j \<Rightarrow> ('x, 's) go_result \<times> 'j"
  v9_publish :: "('x, 'd, 'j) publish_op"
  v9_create :: "'s \<Rightarrow> consumer_config \<Rightarrow> ('x, 'o) go_result"
  v9_consume :: "'o \<Rightarrow> ('d jmsg \<Rightarrow> ('d, m09_host, 'j) m09_state \<Rightarrow> verdict \<times> ('d, m09_host, 'j) m09_state) \<Rightarrow> ('x, 'p) go_result"
  v9_stop :: "'p \<Rightarrow> 'j \<Rightarrow> 'j"
  v9_info :: "'s \<Rightarrow> 'j \<Rightarrow> ('x, int) go_result"
  v9_marshal :: "m09_CustomerEvent \<Rightarrow> ('x, 'd) go_result"
  v9_unmarshal :: "'d \<Rightarrow> ('x, m09_CustomerEvent) go_result"

text \<open>The store with the history \<open>M09_Stream\<close> records beside it; the handler on the process's state.\<close>

type_synonym 'd m09_kept = "m09_DedupStore \<times> m09_CustomerEvent list \<times> 'd list"

definition as9 :: "('d m09_kept, 'j) l09_state \<Rightarrow> ('d, m09_host, 'j) m09_state" where
  "as9 s = (case q9_dedup s of (store, sent, dead) \<Rightarrow>
     \<lparr>s9_dedup = store, s9_world = q9_world s, s9_js = q9_js s, g9_sent = sent, g9_dead = dead\<rparr>)"

definition of9 :: "('d, m09_host, 'j) m09_state \<Rightarrow> ('d m09_kept, 'j) l09_state" where
  "of9 t = \<lparr>q9_world = s9_world t, q9_dedup = (s9_dedup t, g9_sent t, g9_dead t), q9_js = s9_js t\<rparr>"

definition m09_solution ::
  "('x, 'n, 'h, 'd, 'j, 's, 'o, 'p) m09_services
     \<Rightarrow> ('x, 'n \<times> 'h, 'd, 'd m09_kept, 'j, ('x, 'd, m09_host, 'j) m09_Consumer, 's, 'p) m09_packages" where
  "m09_solution v = \<lparr>p9_Connect = (\<lambda>url. fst (m09_Connect (v9_connect v) (v9_new v) url)),
     p9_Drain = (\<lambda>(nc, js). v9_drain v nc), p9_DeleteStream = v9_delete v, p9_StreamName = m09_StreamName,
     p9_EnsureStream = m09_EnsureStream (v9_ensure v), p9_NewDedupStore = (m09_NewDedupStore, [], []),
     p9_NewConsumer = (\<lambda>n send. m09_consumer (v9_publish v) (v9_unmarshal v) n (\<lambda>_. send) ()),
     p9_Start = (\<lambda>c st. m09_Start (v9_create v st) (v9_consume v) c),
     p9_handle = (\<lambda>c m s. map_prod (\<lambda>vd. vd) of9 (m09_handle c m (as9 s))),
     p9_Stop = v9_stop v, p9_Publish = m09_Publish (v9_publish v) (v9_marshal v), p9_Info = v9_info v\<rparr>"

definition m09_demo_main where
  "m09_demo_main v = l09_main (m09_solution v)"

definition m09_decode :: "('d \<Rightarrow> ('x, m09_CustomerEvent) go_result) \<Rightarrow> 'd \<Rightarrow> m09_CustomerEvent option" where
  "m09_decode unmarshal data = (case unmarshal data of Inl err \<Rightarrow> None | Inr e \<Rightarrow> Some e)"

lemma m09_decode_Some [simp]: "m09_decode unmarshal data = Some e \<longleftrightarrow> unmarshal data = Inr e"
  by (simp add: m09_decode_def split: sum.split)

definition m09_seen_ids :: "'d m09_kept \<Rightarrow> string set" where
  "m09_seen_ids k = {i. m09_Seen i (fst k)}"

definition m09_msg_ids :: "('j \<Rightarrow> (string \<times> 'd \<times> string option) list) \<Rightarrow> 'j \<Rightarrow> string option list" where
  "m09_msg_ids msgs j = map (snd \<circ> snd) (msgs j)"

lemma of9_as9 [simp]: "of9 (as9 s) = s"
  by (cases s) (auto simp: of9_def as9_def)

locale jetstream_up =
  fixes v :: "('x, 'n, 'h, 'd, 'j, 's, 'o, 'p) m09_services" and msgs :: "'j \<Rightarrow> (string \<times> 'd \<times> string option) list"
  assumes keeps: "jetstream_keeps (v9_publish v) msgs"

sublocale jetstream_up \<subseteq> reference: m09_exercise "m09_solution v" "m09_decode (v9_unmarshal v)"
  "\<lambda>e. \<exists>d. v9_marshal v e = Inr d" m09_seen_ids "m09_msg_ids msgs"
proof (unfold_locales, goal_cases)
  case 1
  show ?case by (simp add: m09_solution_def m09_seen_ids_def m09_dedup.seen_new)
next
  case (2 m e n s send)
  obtain store sent dead where s: "q9_dedup s = (store, sent, dead)" by (cases "q9_dedup s")
  with 2 have "m09_handle (m09_consumer (v9_publish v) (v9_unmarshal v) n (\<lambda>_. send) ()) m (as9 s) = (Ack, as9 s)"
    by (simp add: m09_handle_def m09_consumer_def m09_seen_ids_def as9_def)
  then show ?case by (simp add: m09_solution_def)
next
  case (3 m e n s send w)
  obtain store sent dead where s: "q9_dedup s = (store, sent, dead)" by (cases "q9_dedup s")
  let ?q = "(m09_Mark (e9_ID e) store, sent @ [e], dead)"
  from 3 s have "m09_handle (m09_consumer (v9_publish v) (v9_unmarshal v) n (\<lambda>_. send) ()) m (as9 s)
      = (Ack, (as9 s)\<lparr>s9_world := w, s9_dedup := m09_Mark (e9_ID e) store, g9_sent := sent @ [e]\<rparr>)"
    by (simp add: m09_handle_def m09_consumer_def m09_seen_ids_def as9_def Let_def)
  then have "snd (p9_handle (m09_solution v) (p9_NewConsumer (m09_solution v) n send) m s)
      = s\<lparr>q9_world := w, q9_dedup := ?q\<rparr>"
    using s by (simp add: m09_solution_def of9_def as9_def)
  moreover have "m09_seen_ids ?q = insert (e9_ID e) (m09_seen_ids (q9_dedup s))"
    by (auto simp: m09_seen_ids_def s m09_dedup.seen_mark)
  ultimately show ?case by blast
next
  case (4 e j)
  then show ?case
    using keeps by (auto simp: m09_solution_def m09_Publish_def jetstream_keeps_def m09_msg_ids_def) force
qed

context jetstream_up
begin

lemmas keeps_contract = reference.m09_exercise_axioms

end

text \<open>What the run assumes of its surroundings.\<close>

definition m09_demo_up where
  "m09_demo_up v getenv now nc js st p q msgs \<longleftrightarrow>
     getenv ''PULSE_NATS_URL'' \<noteq> [] \<and> v9_connect v (getenv ''PULSE_NATS_URL'') = Inr nc \<and> v9_new v nc = Inr js
     \<and> (\<forall>cfg j. \<exists>j'. v9_ensure v cfg (v9_delete v m09_StreamName j) = (Inr st, j') \<and> msgs j' = [])
     \<and> p9_Start (m09_solution v) (l09_consumer (m09_solution v) 0) st ''notify-workers'' = Inr p
     \<and> p9_Start (m09_solution v) (l09_consumer (m09_solution v) 1) st ''replay-audit'' = Inr q
     \<and> jetstream_keeps (v9_publish v) msgs \<and> (\<forall>j. v9_info v st j = Inr (int (length (msgs j))))
     \<and> (\<forall>j. msgs (v9_stop v p j) = msgs j)
     \<and> (\<forall>e \<in> set (m09_demo_duplicate # m09_demo_events now). \<exists>d. v9_marshal v e = Inr d)"

lemma m09_demo_up_reference:
  assumes "m09_demo_up v getenv now nc js st p q msgs"
  shows "l09_up (m09_solution v) (\<lambda>e. \<exists>d. v9_marshal v e = Inr d) (m09_msg_ids msgs) getenv now (nc, js) st p q"
  using assms
  by (auto simp: m09_demo_up_def l09_up_def m09_solution_def m09_Connect_def m09_EnsureStream_def m09_msg_ids_def)

text \<open>Remark (functional). The demo prints what it claims. With a server that keeps a message once per
  message ID, and deliveries of the five events to the first consumer, in any order and each at
  least once before the report, the first consumer sends each event once, the duplicate is
  suppressed, the replay sends nothing, and five messages are stored.\<close>

theorem m09_demo_output:
  fixes v :: "('x, 'n, 'h, 'd, 'j, 's, 'o, 'p) m09_services"
  assumes "m09_demo_up v getenv now nc js st p q msgs"
    and "\<forall>k. m09_delivers (m09_decode (v9_unmarshal v)) now (sched k)"
    and "m09_delivers (m09_decode (v9_unmarshal v)) now replayed"
    and "\<forall>e \<in> set (m09_demo_events now). \<exists>k \<in> {1..6}. \<exists>m \<in> set (sched k). v9_unmarshal v (jm_data m) = Inr e"
  shows "\<exists>es s'. m09_demo_main v getenv now sched replayed s0 = (Val (), s')
    \<and> mset es = mset (m09_demo_events now)
    \<and> h_out (q9_world s') = h_out (q9_world s0)
        @ ''publishing 5 events (one duplicated MsgID to show dedup)...'' @ nl @ concat (map m09_welcome es)
        @ ''after first consumer: 5 sends (expected 5, dup suppressed)'' @ nl @ nl
        @ ''starting REPLAY consumer (DeliverAll) sharing the dedup store...'' @ nl
        @ ''replay reprocessed history; duplicate sends=0 (idempotent)'' @ nl
        @ ''stream stored messages: 5 (5 unique; duplicate cus_03 suppressed by MsgID dedup)'' @ nl"
proof -
  have "jetstream_up v msgs" using assms(1) by (simp add: jetstream_up_def m09_demo_up_def)
  from m09_exercise.stream_demo_output [OF jetstream_up.keeps_contract [OF this]
      m09_demo_up_reference [OF assms(1)] assms(2,3)] assms(4)
  show ?thesis unfolding m09_demo_main_def by simp
qed

text \<open>Remark (error). \<open>main\<close> ignores the error of \<open>st.Info\<close> and dereferences its result: when the
  server does not answer, the process panics after its first report. The deferred calls run; a
  \<open>log.Fatal\<close>, on the other hand, leaves the connection undrained.\<close>

lemma m09_demo_info_panics:
  assumes "p9_Start p (l09_consumer p 1) st ''replay-audit'' = Inr q" and "\<forall>j. p9_Info p st j = Inl err"
  shows "\<exists>s'. l09_replay p st replayed s
    = (Panic ''invalid memory address or nil pointer dereference'', on9 (p9_Stop p q) s')"
  using assms by (simp add: l09_replay_def m09_print_def cmd_run) (rule exI, rule refl)

lemma m09_demo_fatal_undrained:
  assumes "getenv ''PULSE_NATS_URL'' \<noteq> []" and "p9_Connect p (getenv ''PULSE_NATS_URL'') = Inr nc"
    and "p9_EnsureStream p (p9_DeleteStream p (p9_StreamName p) (q9_js s)) = (Inl e, j1)"
  shows "l09_main p getenv now sched replayed s
    = (Exit 1, in9 (stderr (''stream: '' @ err_msg e @ nl)) (s\<lparr>q9_js := j1\<rparr>))"
  using assms by (simp add: l09_main_def cmd_run Let_def nl_def on9_def)

section \<open>A concrete run\<close>

text \<open>A server that keeps its messages in a list, events as their own payloads; the queue delivers
  everything twice after the last publish, the second time in reverse, and everything to the replay.\<close>

definition demo9_services ::
  "(unit, unit, unit, m09_CustomerEvent, (string \<times> m09_CustomerEvent \<times> string option) list, unit, unit, unit) m09_services"
where
  "demo9_services = \<lparr>v9_connect = (\<lambda>url. Inr ()), v9_new = Inr, v9_drain = (\<lambda>n j. j), v9_delete = (\<lambda>nm j. []),
     v9_ensure = (\<lambda>cfg j. (Inr (), j)),
     v9_publish = (\<lambda>subject d i j. (None, if i \<noteq> None \<and> i \<in> (snd \<circ> snd) ` set j then j else j @ [(subject, d, i)])),
     v9_create = (\<lambda>st cfg. Inr ()), v9_consume = (\<lambda>cons h. Inr ()), v9_stop = (\<lambda>p j. j),
     v9_info = (\<lambda>st j. Inr (int (length j))), v9_marshal = Inr, v9_unmarshal = Inr\<rparr>"

interpretation demo9: jetstream_up demo9_services "\<lambda>j. j"
  by unfold_locales (simp add: demo9_services_def jetstream_keeps_def)

definition demo9_all :: "m09_CustomerEvent jmsg list" where
  "demo9_all = map (\<lambda>e. \<lparr>jm_data = e, jm_delivered = Some 1\<rparr>) (m09_demo_events (\<lambda>_. 0))"

definition demo9_sched :: "nat \<Rightarrow> m09_CustomerEvent jmsg list" where
  "demo9_sched k = (if k = 6 then demo9_all @ rev demo9_all else [])"

definition demo9_start :: "(m09_CustomerEvent m09_kept, (string \<times> m09_CustomerEvent \<times> string option) list) l09_state" where
  "demo9_start = \<lparr>q9_world = \<lparr>h_out = [], h_err = [], m9_sends = 0, m9_replaySends = 0\<rparr>,
     q9_dedup = (m09_NewDedupStore, [], []), q9_js = []\<rparr>"

lemma demo9_run:
  "m09_demo_up demo9_services (\<lambda>k. ''nats://localhost:4222'') (\<lambda>_. 0) () () () () () (\<lambda>j. j)"
  "\<forall>k. m09_delivers (m09_decode (v9_unmarshal demo9_services)) (\<lambda>_. 0) (demo9_sched k)"
  "m09_delivers (m09_decode (v9_unmarshal demo9_services)) (\<lambda>_. 0) demo9_all"
  "\<forall>e \<in> set (m09_demo_events (\<lambda>_. 0)). \<exists>k \<in> {1..6}. \<exists>m \<in> set (demo9_sched k). v9_unmarshal demo9_services (jm_data m) = Inr e"
proof -
  show "m09_demo_up demo9_services (\<lambda>k. ''nats://localhost:4222'') (\<lambda>_. 0) () () () () () (\<lambda>j. j)"
    using demo9.keeps by (simp add: m09_demo_up_def demo9_services_def m09_solution_def m09_Start_def)
  show all: "m09_delivers (m09_decode (v9_unmarshal demo9_services)) (\<lambda>_. 0) demo9_all"
    by (simp add: m09_delivers_def demo9_all_def demo9_services_def delivered_over_def wrap64_def)
  then show "\<forall>k. m09_delivers (m09_decode (v9_unmarshal demo9_services)) (\<lambda>_. 0) (demo9_sched k)"
    by (auto simp: demo9_sched_def m09_delivers_def)
  show "\<forall>e \<in> set (m09_demo_events (\<lambda>_. 0)). \<exists>k \<in> {1..6}. \<exists>m \<in> set (demo9_sched k).
      v9_unmarshal demo9_services (jm_data m) = Inr e"
    by (intro ballI bexI [of _ 6]) (auto simp: demo9_sched_def demo9_all_def demo9_services_def)
qed

theorem m09_demo_output_witness:
  "\<exists>s'. m09_demo_main demo9_services (\<lambda>k. ''nats://localhost:4222'') (\<lambda>_. 0) demo9_sched demo9_all demo9_start = (Val (), s')"
  using m09_demo_output [OF demo9_run, of demo9_start] by blast

theorem l09_demo_output_witness:
  "\<exists>s'. l09_main (m09_solution demo9_services) (\<lambda>k. ''nats://localhost:4222'') (\<lambda>_. 0) demo9_sched demo9_all demo9_start
     = (Val (), s')"
  using l09_demo_output [OF demo9.reference.m09_exercise_axioms m09_demo_up_reference [OF demo9_run(1)] demo9_run(2,3),
      of demo9_start] demo9_run(4) by auto

end
