(* ===== verification/M10_Cmd.thy ===== *)
theory M10_Cmd
  imports M10_Pulse
begin

text \<open>
  The commands of \<open>m10-project-structure/pulse\<close>: \<open>customer-api\<close> wires the service and runs the
  server; \<open>profile-svc\<close> and \<open>notification-svc\<close> are skeletons that log a line. A logger is its
  level; a line below the level is not written.
\<close>

definition log_at :: "slog_level \<Rightarrow> slog_level \<Rightarrow> log_line \<Rightarrow> log_line list" where
  "log_at logger level l = (if slog_enabled logger level then [l] else [])"

text \<open>What \<open>main\<close> of \<open>customer-api\<close> builds: the server, its logger, and the handler's repository.\<close>

record m10_wiring =
  w10_server :: m10_http_Server
  w10_logger :: slog_level
  w10_repo :: m10_InMemoryRepo

definition m10_wire :: "(string \<Rightarrow> string option) \<Rightarrow> m10_wiring" where
  "m10_wire env =
     (let cfg = m10_Load env; logger = m10_log_New (m10_LogLevel cfg)
      in \<lparr>w10_server = m10_NewServer (m10_HTTPAddr cfg), w10_logger = logger, w10_repo = m10_NewInMemoryRepo\<rparr>)"

text \<open>\<open>result\<close> is what \<open>srv.Run()\<close> returns; the last lines logged and the exit status.\<close>

definition m10_customer_api_main ::
  "(string \<Rightarrow> string option) \<Rightarrow> 'x go_error option \<Rightarrow> log_line list \<times> int" where
  "m10_customer_api_main env result =
     (case result of
        Some err \<Rightarrow> (log_at (w10_logger (m10_wire env)) LevelError (''server exited with error'', [(''err'', err_msg err)]),
                     m10_exit result)
      | None \<Rightarrow> ([], m10_exit result))"

definition m10_profile_main :: "(string \<Rightarrow> string option) \<Rightarrow> log_line list" where
  "m10_profile_main env =
     (let cfg = m10_Load env; logger = m10_log_New (m10_LogLevel cfg)
      in log_at logger LevelInfo (''profile-svc skeleton; gRPC server wired in the capstone (M14)'',
           [(''grpc_addr'', m10_GRPCAddr cfg)]))"

definition m10_notification_main :: "(string \<Rightarrow> string option) \<Rightarrow> log_line list" where
  "m10_notification_main env =
     (let cfg = m10_Load env; logger = m10_log_New (m10_LogLevel cfg)
      in log_at logger LevelInfo (''notification-svc skeleton; JetStream consumer wired in the capstone (M14)'',
           [(''nats_url'', m10_NATSURL cfg)]))"

text \<open>An error is logged whatever the level, and the exit status says whether there was one.\<close>

lemma m10_customer_api_errors:
  "m10_customer_api_main env result = (case result of
     None \<Rightarrow> ([], 0) | Some err \<Rightarrow> ([(''server exited with error'', [(''err'', err_msg err)])], 1))"
  by (auto simp: m10_customer_api_main_def log_at_def slog_enabled_def less_eq_slog_level_def m10_exit_def m10_wire_def
      m10_log_New_def Let_def split: option.split)

text \<open>A graceful shutdown in time ends \<open>customer-api\<close> with status 0 and no line.\<close>

lemma m10_customer_api_clean:
  assumes "m10_Run served shutdown result" and "shutdown (30 * second) = None" and "served = None"
  shows "m10_customer_api_main env result = ([], 0)"
  using assms by (auto simp: m10_customer_api_errors m10_Run_iff)

end
