(* ===== verification/M10_Serving.thy ===== *)
theory M10_Serving
  imports Guarded_Stores Go_Serving
begin

text \<open>
  The API of \<open>m10-project-structure/pulse\<close> under requests handled at the same time. As in \<open>M04_Serving\<close>,
  each handler of \<open>internal/customer/customer.go\<close> is split at its call of the repository, here behind
  \<open>http.ServeMux\<close>.
\<close>

section \<open>A request before and after its call\<close>

datatype m10_endpoint = AtHealthz | AtCreate | AtGet string

definition m10_endpoints :: "(string \<times> seg list \<times> ((string \<Rightarrow> string) \<Rightarrow> m10_endpoint)) list" where
  "m10_endpoints =
     [(''GET'', [Lit [], Lit ''healthz''], \<lambda>pv. AtHealthz),
      (''POST'', [Lit [], Lit ''v1'', Lit ''customers''], \<lambda>pv. AtCreate),
      (''GET'', [Lit [], Lit ''v1'', Lit ''customers'', Wild ''id''], \<lambda>pv. AtGet (pv ''id''))]"

type_synonym m10_request = "nat \<times> int \<times> http_req"
type_synonym m10_reply = "int option \<times> chunk list"
type_synonym m10_call = "(m10_Customer, string) repo_call"
type_synonym m10_ret = "(unit, m10_Customer, (unit, m10_Customer) go_result) repo_ret"

definition m10_err_reply :: "unit go_error \<Rightarrow> m10_reply" where
  "m10_err_reply e = (Some (m10_HTTPStatus (Some e)), [CJson (m10_error_json (m10_Code (Some e))
     (if m10_HTTPStatus (Some e) = 500 then ''internal server error'' else err_msg e))])"

definition m10_text_reply :: "string \<Rightarrow> int \<Rightarrow> m10_reply" where
  "m10_text_reply msg code = (Some code, [CText (msg @ [CHR 0x0A])])"

definition m10_before :: "m10_request \<Rightarrow> m10_reply + m10_call" where
  "m10_before q =
     (case q of (j, now, r) \<Rightarrow>
        (let ss = split_on CHR ''/'' (rq_path r)
         in case mux_find m10_endpoints (rq_method r) ss of
              None \<Rightarrow> Inl (if \<exists>(pm, segs, h) \<in> set m10_endpoints. match_segs segs ss \<noteq> None
                  then m10_text_reply ''Method Not Allowed'' 405 else m10_text_reply ''404 page not found'' 404)
            | Some AtHealthz \<Rightarrow> Inl (Some 200, [CJson (JObj [(''status'', JStr ''ok'')])])
            | Some AtCreate \<Rightarrow>
                (case decoder_decode None False ''createReq'' [''email'', ''name''] (rq_body r) of
                   Inl err \<Rightarrow> Inl (m10_err_reply (ErrCoded m10_CodeValidation err))
                 | Inr req \<Rightarrow>
                     (let c = \<lparr>m10_ID = [], m10_Email = field req ''email'', m10_Name = field req ''name'', m10_CreatedAt = zero_time\<rparr>
                      in case m10_Validate c of
                           Some err \<Rightarrow> Inl (m10_err_reply (ErrCoded m10_CodeValidation err))
                         | None \<Rightarrow> Inr (CallCreate now c j)))
            | Some (AtGet i) \<Rightarrow> Inr (CallRead i)))"

fun m10_after :: "m10_request \<Rightarrow> m10_ret \<Rightarrow> m10_reply" where
  "m10_after q (RetCreate res) =
     (case res of Inl err \<Rightarrow> m10_err_reply err | Inr c \<Rightarrow> (Some 201, [CJson (m10_resp c)]))"
| "m10_after q (RetRead res) =
     (case res of
        Inl err \<Rightarrow> m10_err_reply (if errors_is (Some err) ''m10/customer.ErrNotFound'' then ErrCoded m10_CodeNotFound err else err)
      | Inr c \<Rightarrow> (Some 200, [CJson (m10_resp c)]))"

text \<open>The whole server on one request, from a fresh response.\<close>

definition m10_serve :: "m10_request \<Rightarrow> m10_InMemoryRepo \<Rightarrow> m10_reply \<times> m10_InMemoryRepo" where
  "m10_serve q repo =
     (case q of (j, now, r) \<Rightarrow>
        (let s = snd (m10_Routes now r \<lparr>sv_rw = new_rw, sv_log = [], sv_rid = 0, sv_st = repo\<rparr>) in (answer s, sv_st s)))"

section \<open>The two halves are the handler\<close>

primrec m10_endpoint_handler :: "int \<Rightarrow> m10_endpoint \<Rightarrow> m10_handler" where
  "m10_endpoint_handler now AtHealthz = m10_healthz"
| "m10_endpoint_handler now AtCreate = m10_create now"
| "m10_endpoint_handler now (AtGet i) = m10_get (\<lambda>_. i)"

lemma mux_find_map:
  "mux_find (map (\<lambda>(pm, segs, h). (pm, segs, \<lambda>pv. f (h pv))) rs) m ss = map_option f (mux_find rs m ss)"
  by (induction rs) (auto split: option.split)

lemma m10_Routes_endpoints:
  "m10_Routes now = mux (map (\<lambda>(pm, segs, h). (pm, segs, \<lambda>pv. m10_endpoint_handler now (h pv))) m10_endpoints)"
proof -
  have get: "m10_get = (\<lambda>pv. m10_get (\<lambda>_. pv ''id''))" by (simp add: m10_get_def fun_eq_iff)
  show ?thesis by (simp add: m10_Routes_def m10_endpoints_def flip: get)
qed

definition m10_outcome :: "m10_request \<Rightarrow> m10_InMemoryRepo \<Rightarrow> m10_reply \<times> m10_InMemoryRepo" where
  "m10_outcome q repo =
     (case m10_before q of
        Inl a \<Rightarrow> (a, repo)
      | Inr c \<Rightarrow> (let (v, repo') = repo_atomic m10_Create m10_ByID c repo in (m10_after q v, repo')))"

lemma m10_served:
  assumes "answer s = (None, [])"
  shows "(answer (snd (m10_Routes now r s)), sv_st (snd (m10_Routes now r s))) = m10_outcome (j, now, r) (sv_st s)"
proof -
  let ?ss = "split_on CHR ''/'' (rq_path r)"
  have plain: "answer (on_rw (http_error msg code) s) = m10_text_reply msg code" "sv_st (on_rw (http_error msg code) s) = sv_st s" for msg code
    using assms by (simp_all add: answer_def http_error_def http_defs m10_text_reply_def)
  have known: "(\<exists>(pm, segs, h) \<in> set (map (\<lambda>(pm, segs, h). (pm, segs, \<lambda>pv. m10_endpoint_handler now (h pv))) m10_endpoints). match_segs segs ?ss \<noteq> None)
      \<longleftrightarrow> (\<exists>(pm, segs, h) \<in> set m10_endpoints. match_segs segs ?ss \<noteq> None)"
    by (auto simp: m10_endpoints_def)
  show ?thesis
  proof (cases "mux_find m10_endpoints (rq_method r) ?ss")
    case None
    then show ?thesis
      unfolding m10_Routes_endpoints mux_def Let_def mux_find_map known by (simp add: m10_outcome_def m10_before_def plain)
  next
    case (Some at)
    then have "m10_Routes now r s = m10_endpoint_handler now at r s"
      unfolding m10_Routes_endpoints mux_def Let_def mux_find_map known by simp
    with Some assms show ?thesis
      by (cases at)
        (auto simp: m10_outcome_def m10_before_def m10_healthz_def m10_create_def m10_get_def m10_Service_Create_def
          m10_Service_Get_def m10_err_reply_def case_prod_beta Let_def split: sum.split option.split)
  qed
qed

section \<open>Requests at the same time\<close>

interpretation m10_server: one_call_server "m10_method ord" "repo_atomic m10_Create m10_ByID"
  "\<lambda>r. map_wf (m10_m r) \<and> (\<forall>j. range_order (ord j))" m10_serve m10_before m10_after
  for ord
proof -
  have fresh: "answer \<lparr>sv_rw = new_rw, sv_log = [], sv_rid = 0, sv_st = repo\<rparr> = (None, [])" for repo :: m10_InMemoryRepo
    by (simp add: answer_def new_rw_def)
  have serve: "m10_serve q r = m10_outcome q r" for q r
    using m10_served [OF fresh] by (cases q) (simp add: m10_serve_def Let_def)
  show "one_call_server (m10_method ord) (repo_atomic m10_Create m10_ByID)
      (\<lambda>r. map_wf (m10_m r) \<and> (\<forall>j. range_order (ord j))) m10_serve m10_before m10_after"
    by unfold_locales
      (use m10_conc.run_op m10_conc.readers_read m10_conc.inv_atomic in \<open>auto simp: serve m10_outcome_def case_prod_beta\<close>)
qed

text \<open>As in M4, requests handled at the same time are answered as in some order of handling them one after
  another, which leaves the same repository.\<close>

lemma m10_requests_linearize:
  assumes "map_wf (m10_m repo)" and "\<forall>j. range_order (ord j)"
    and "(mutex_step (m10_method ord) (one_call m10_before qs))\<^sup>*\<^sup>* (quiet (replicate (length qs) []) repo) (quiet rss repo')"
    and "all_returned m10_before qs rss"
  shows "\<exists>is. distinct is \<and> set is = {..<length qs}
    \<and> serve_all m10_serve (map ((!) qs) is) repo = (map (\<lambda>i. answer_to m10_before m10_after (qs ! i) (rss ! i)) is, repo')"
  by (rule m10_server.concurrent_requests [of _ ord]) (use assms in simp_all)

end
