(* ===== verification/M11_Notify.thy ===== *)
theory M11_Notify
  imports M00_Start
begin

text \<open>
  \<open>m11-testing/solution-notify\<close>: a notifier over a \<open>Sender\<close> and a retry loop. The sender is a
  parameter: \<open>send m w\<close> acts on the outside world \<open>w\<close>. \<open>select attempt\<close> is the branch the select
  after a failed attempt takes: \<open>Some e\<close> when the context is done with the error \<open>e\<close>, \<open>None\<close> when
  the timer fires.
\<close>

record m11_Customer =
  m11_Email :: string
  m11_Name :: string

record m11_Message =
  msg_To :: string
  msg_Body :: string

type_synonym ('x, 'w) m11_Sender = "m11_Message \<Rightarrow> 'w \<Rightarrow> 'x go_error option \<times> 'w"

definition m11_Welcome ::
  "('x, 'w) m11_Sender \<Rightarrow> m11_Customer \<Rightarrow> 'w \<Rightarrow> 'x go_error option \<times> 'w" where
  "m11_Welcome send c w =
     (if \<not> contains (m11_Email c) ''@''
      then (Some (ErrNew [] (''invalid email '' @ fmt_q (m11_Email c))), w)
      else send \<lparr>msg_To = m11_Email c, msg_Body = ''Welcome to Pulse, '' @ m11_Name c @ ''!''\<rparr> w)"

definition nil_panic :: panic where
  "nil_panic = ''invalid memory address or nil pointer dereference''"

text \<open>
  The loop; \<open>err\<close> is the variable of the function, nil before the first attempt. The counter
  stays below \<open>maxAttempts\<close>, so adding one to it never wraps.
\<close>

function m11_attempts ::
  "(int \<Rightarrow> 'x go_error option) \<Rightarrow> ('x, 'w) m11_Sender \<Rightarrow> m11_Message \<Rightarrow> int \<Rightarrow> int \<Rightarrow> 'x go_error option \<Rightarrow> 'w
     \<Rightarrow> (panic + 'x go_error option) \<times> 'w" where
  "m11_attempts select send m maxAttempts attempt err w =
     (if attempt < maxAttempts
      then (let (err, w) = send m w
            in case err of
                 None \<Rightarrow> (Inr None, w)
               | Some e \<Rightarrow>
                   (case select attempt of
                      Some d \<Rightarrow> (Inr (Some d), w)
                    | None \<Rightarrow> m11_attempts select send m maxAttempts (attempt + 1) err w))
      else (case err of
              None \<Rightarrow> (Inl nil_panic, w)
            | Some e \<Rightarrow> (Inr (Some (ErrNew [] (''exhausted retries: '' @ err_msg e))), w)))"
  by auto
termination
  by (relation "measure (\<lambda>(select, send, m, maxAttempts, attempt, err, w). nat (maxAttempts - attempt))")
    auto

declare m11_attempts.simps [simp del]

definition m11_SendWithRetry ::
  "(int \<Rightarrow> 'x go_error option) \<Rightarrow> ('x, 'w) m11_Sender \<Rightarrow> m11_Message \<Rightarrow> int \<Rightarrow> 'w
     \<Rightarrow> (panic + 'x go_error option) \<times> 'w" where
  "m11_SendWithRetry select send m maxAttempts w = m11_attempts select send m maxAttempts 0 None w"

section \<open>Properties\<close>

text \<open>The world after \<open>k\<close> sends, and what the next one returns.\<close>

fun after_sends :: "('x, 'w) m11_Sender \<Rightarrow> m11_Message \<Rightarrow> nat \<Rightarrow> 'w \<Rightarrow> 'w" where
  "after_sends send m 0 w = w"
| "after_sends send m (Suc k) w = after_sends send m k (snd (send m w))"

definition nth_send :: "('x, 'w) m11_Sender \<Rightarrow> m11_Message \<Rightarrow> nat \<Rightarrow> 'w \<Rightarrow> 'x go_error option" where
  "nth_send send m k w = fst (send m (after_sends send m k w))"

lemma nth_send_Suc: "nth_send send m (Suc k) w = nth_send send m k (snd (send m w))"
  by (simp add: nth_send_def)

lemma m11_attempts_succeed:
  "\<forall>i<k. nth_send send m i w \<noteq> None \<and> select (attempt + int i) = None
     \<Longrightarrow> nth_send send m k w = None \<Longrightarrow> attempt + int k < maxAttempts
     \<Longrightarrow> m11_attempts select send m maxAttempts attempt err w = (Inr None, after_sends send m (Suc k) w)"
proof (induction k arbitrary: attempt err w)
  case 0
  then show ?case by (subst m11_attempts.simps) (simp add: nth_send_def Let_def case_prod_beta)
next
  case (Suc k)
  have first: "fst (send m w) \<noteq> None" "select attempt = None"
    using Suc.prems(1) by (auto simp: nth_send_def dest: spec [of _ 0])
  have "\<forall>i<k. nth_send send m i (snd (send m w)) \<noteq> None \<and> select ((attempt + 1) + int i) = None"
  proof (intro allI impI)
    fix i assume "i < k"
    with Suc.prems(1) show "nth_send send m i (snd (send m w)) \<noteq> None \<and> select ((attempt + 1) + int i) = None"
      by (auto simp: nth_send_Suc ac_simps dest: spec [of _ "Suc i"])
  qed
  from Suc.IH [OF this] Suc.prems(2,3) first show ?case
    by (subst m11_attempts.simps) (auto simp: Let_def case_prod_beta nth_send_Suc)
qed

lemma m11_attempts_exhaust:
  "\<forall>i<k. nth_send send m i w \<noteq> None \<and> select (attempt + int i) = None \<Longrightarrow> attempt + int k = maxAttempts
     \<Longrightarrow> m11_attempts select send m maxAttempts attempt err w =
          ((case (if k = 0 then err else nth_send send m (k - 1) w) of
              None \<Rightarrow> Inl nil_panic
            | Some e \<Rightarrow> Inr (Some (ErrNew [] (''exhausted retries: '' @ err_msg e)))),
           after_sends send m k w)"
proof (induction k arbitrary: attempt err w)
  case 0
  then show ?case by (subst m11_attempts.simps) (simp split: option.splits)
next
  case (Suc k)
  have first: "fst (send m w) \<noteq> None" "select attempt = None"
    using Suc.prems(1) by (auto simp: nth_send_def dest: spec [of _ 0])
  have "\<forall>i<k. nth_send send m i (snd (send m w)) \<noteq> None \<and> select ((attempt + 1) + int i) = None"
  proof (intro allI impI)
    fix i assume "i < k"
    with Suc.prems(1) show "nth_send send m i (snd (send m w)) \<noteq> None \<and> select ((attempt + 1) + int i) = None"
      by (auto simp: nth_send_Suc ac_simps dest: spec [of _ "Suc i"])
  qed
  from Suc.IH [OF this, of "fst (send m w)"] Suc.prems(2) first show ?case
    by (subst m11_attempts.simps)
      (cases k, auto simp: Let_def case_prod_beta nth_send_Suc nth_send_def)
qed

text \<open>C36 (functional). If the context is not done while it runs, \<open>SendWithRetry\<close> stops at the first attempt that
  succeeds, having sent exactly that often; when all \<open>maxAttempts\<close> attempts fail it returns a new error whose
  text ends in that of the last one; and with \<open>maxAttempts\<close> zero or negative it never sends, and panics on the nil error.\<close>

theorem m11_SendWithRetry_result:
  assumes "\<forall>a. select a = None"
  shows "(\<forall>k. int k < maxAttempts \<and> nth_send send m k w = None \<and> (\<forall>i<k. nth_send send m i w \<noteq> None)
      \<longrightarrow> m11_SendWithRetry select send m maxAttempts w = (Inr None, after_sends send m (Suc k) w))
    \<and> (\<forall>e. 0 < maxAttempts \<and> (\<forall>i<nat maxAttempts. nth_send send m i w \<noteq> None)
         \<and> nth_send send m (nat maxAttempts - 1) w = Some e
      \<longrightarrow> m11_SendWithRetry select send m maxAttempts w =
           (Inr (Some (ErrNew [] (''exhausted retries: '' @ err_msg e))),
            after_sends send m (nat maxAttempts) w))
    \<and> (maxAttempts \<le> 0 \<longrightarrow> m11_SendWithRetry select send m maxAttempts w = (Inl nil_panic, w))"
proof (intro conjI allI impI)
  fix k assume "int k < maxAttempts \<and> nth_send send m k w = None \<and> (\<forall>i<k. nth_send send m i w \<noteq> None)"
  then show "m11_SendWithRetry select send m maxAttempts w = (Inr None, after_sends send m (Suc k) w)"
    unfolding m11_SendWithRetry_def using assms by (intro m11_attempts_succeed) auto
next
  fix e assume "0 < maxAttempts \<and> (\<forall>i<nat maxAttempts. nth_send send m i w \<noteq> None)
    \<and> nth_send send m (nat maxAttempts - 1) w = Some e"
  with m11_attempts_exhaust [of "nat maxAttempts" send m w select 0 maxAttempts None] assms
  show "m11_SendWithRetry select send m maxAttempts w =
      (Inr (Some (ErrNew [] (''exhausted retries: '' @ err_msg e))), after_sends send m (nat maxAttempts) w)"
    by (simp add: m11_SendWithRetry_def)
next
  assume "maxAttempts \<le> 0"
  then show "m11_SendWithRetry select send m maxAttempts w = (Inl nil_panic, w)"
    by (simp add: m11_SendWithRetry_def m11_attempts.simps)
qed

text \<open>\<open>Welcome\<close> sends exactly when the address has an at sign, and then to that address.\<close>

lemma m11_Welcome_sends:
  "m11_Welcome send c w =
     (if CHR ''@'' \<in> set (m11_Email c)
      then send \<lparr>msg_To = m11_Email c, msg_Body = ''Welcome to Pulse, '' @ m11_Name c @ ''!''\<rparr> w
      else (Some (ErrNew [] (''invalid email '' @ fmt_q (m11_Email c))), w))"
  by (simp add: m11_Welcome_def)

text \<open>A sender that fails the first \<open>failTimes\<close> calls and records the rest.\<close>

definition fake_send :: "nat \<Rightarrow> (unit, nat \<times> m11_Message list) m11_Sender" where
  "fake_send failTimes m w =
     (if fst w < failTimes then (Some (ErrNew [] ''transient send failure''), (fst w + 1, snd w))
      else (None, (fst w + 1, snd w @ [m])))"

theorem m11_SendWithRetry_result_witness:
  "m11_SendWithRetry (\<lambda>_. None) (fake_send 2) \<lparr>msg_To = ''a@b.com'', msg_Body = []\<rparr> 3 (0, [])
     = (Inr None, (3, [\<lparr>msg_To = ''a@b.com'', msg_Body = []\<rparr>]))
   \<and> fst (m11_SendWithRetry (\<lambda>_. None) (fake_send 0) \<lparr>msg_To = [], msg_Body = []\<rparr> 0 (0, [])) = Inl nil_panic"
proof -
  let ?m = "\<lparr>msg_To = ''a@b.com'', msg_Body = []\<rparr>"
  have s: "nth_send (fake_send 2) ?m k (0, []) = (if k < 2 then Some (ErrNew [] ''transient send failure'') else None)"
    if "k \<le> 2" for k
  proof -
    from that consider "k = 0" | "k = 1" | "k = 2" by linarith
    then show ?thesis
      by cases (simp_all add: nth_send_def fake_send_def numeral_2_eq_2)
  qed
  have all: "\<forall>a. (\<lambda>_::int. None :: unit go_error option) a = None" by simp
  have "m11_SendWithRetry (\<lambda>_. None) (fake_send 2) ?m 3 (0, [])
      = (Inr None, after_sends (fake_send 2) ?m (Suc 2) (0, []))"
    by (rule conjunct1 [OF m11_SendWithRetry_result [OF all], THEN spec [of _ 2], THEN mp])
      (use s in auto)
  moreover have "after_sends (fake_send 2) ?m (Suc 2) (0, []) = (3, [?m])"
    by (simp add: numeral_2_eq_2 fake_send_def)
  moreover have "m11_SendWithRetry (\<lambda>_. None) (fake_send 0) \<lparr>msg_To = [], msg_Body = []\<rparr> 0 (0, []) = (Inl nil_panic, (0, []))"
    using m11_SendWithRetry_result [OF all, of 0 "fake_send 0" "\<lparr>msg_To = [], msg_Body = []\<rparr>" "(0, [])"] by simp
  ultimately show ?thesis by simp
qed

end
