(* ===== verification/M12_Main.thy ===== *)
theory M12_Main
  imports Go_Http
begin

text \<open>
  \<open>m12-cicd/main.go\<close>: the minimal service that is put into a container. \<open>version\<close> is the package
  variable the linker sets; \<open>served\<close> is what \<open>ListenAndServe\<close> returns.
\<close>

definition m12_writeJSON :: "json \<Rightarrow> 's srv \<Rightarrow> 's srv" where
  "m12_writeJSON v =
     on_rw (\<lambda>w. write_chunk (CJson v) (header_set ''Content-Type'' ''application/json'' w))"

definition m12_routes :: "string \<Rightarrow> 's handler" where
  "m12_routes version = mux
     [(''GET'', [Lit [], Lit ''healthz''],
       \<lambda>pv r s. (None, m12_writeJSON (JObj [(''status'', JStr ''ok'')]) s)),
      (''GET'', [Lit [], Lit ''version''],
       \<lambda>pv r s. (None, m12_writeJSON (JObj [(''version'', JStr version)]) s))]"

definition m12_main :: "string \<Rightarrow> 'x go_error option \<Rightarrow> log_line list \<times> int option" where
  "m12_main version served =
     (let log = [(''listening'', [(''addr'', '':8080''), (''version'', version)])]
      in case served of
           None \<Rightarrow> (log, None)
         | Some err \<Rightarrow> (log @ [(''server error'', [(''err'', err_msg err)])], Some 1))"

text \<open>Without a \<open>WriteHeader\<close>, the first write sends status 200; other methods get 405.\<close>

lemma m12_version:
  "answer s = (None, []) \<Longrightarrow> rq_path r = ''/version'' \<Longrightarrow>
     answer (snd (m12_routes version r s)) =
       (if rq_method r \<in> {''GET'', ''HEAD''} then (Some 200, [CJson (JObj [(''version'', JStr version)])])
        else (Some 405, [CText (''Method Not Allowed'' @ [CHR 0x0A])]))"
  by (auto simp: m12_routes_def mux_def method_ok_def m12_writeJSON_def answer_def http_defs
      http_error_def)

end
