(* ===== verification/M13_Obs.thy ===== *)
theory M13_Obs
  imports Go_Http Go_Time
begin

text \<open>
  \<open>m13-observability/solution-obs\<close>: the logger, the request counters, and the
  middleware that ties logs, metrics and traces together. Prometheus and OpenTelemetry are
  parameters, the operations of a record \<open>'p m13_telemetry\<close> on their common state \<open>'p\<close>; durations
  are an argument. The value of the logger key in a request's context (\<open>m13_ctx\<close>) is the list of
  attributes the request's logger adds, or absent.
\<close>

section \<open>Logging\<close>

definition m13_NewLogger :: "string \<Rightarrow> slog_level" where
  "m13_NewLogger level =
     (if level = ''debug'' then LevelDebug else if level = ''warn'' then LevelWarn
      else if level = ''error'' then LevelError else LevelInfo)"

type_synonym m13_logger = "(string \<times> string) list"
type_synonym m13_ctx = "m13_logger option"
type_synonym 'p m13_handler = "m13_ctx \<Rightarrow> 'p handler"

definition m13_LoggerFrom :: "m13_ctx \<Rightarrow> m13_logger" where
  "m13_LoggerFrom ctx = (case ctx of Some l \<Rightarrow> l | None \<Rightarrow> [])"

section \<open>Metrics and tracing\<close>

record metric =
  mt_Name :: string
  mt_Labels :: "string list"

definition m13_HTTPRequests :: metric where
  "m13_HTTPRequests = \<lparr>mt_Name = ''http_requests_total'', mt_Labels = [''method'', ''route'', ''status'']\<rparr>"

definition m13_HTTPDuration :: metric where
  "m13_HTTPDuration = \<lparr>mt_Name = ''http_request_duration_seconds'', mt_Labels = [''method'', ''route'']\<rparr>"

definition m13_NotificationsSent :: metric where
  "m13_NotificationsSent = \<lparr>mt_Name = ''notifications_sent_total'', mt_Labels = []\<rparr>"

text \<open>
  \<open>tel_inc m vs\<close> is \<open>m.WithLabelValues(vs).Inc()\<close>, \<open>tel_observe m vs d\<close> the observation of a
  duration of \<open>d\<close> nanoseconds; \<open>tel_start name\<close> starts a span and yields its trace ID, if any.
\<close>

record 'p m13_telemetry =
  tel_inc :: "metric \<Rightarrow> string list \<Rightarrow> 'p \<Rightarrow> 'p"
  tel_observe :: "metric \<Rightarrow> string list \<Rightarrow> int \<Rightarrow> 'p \<Rightarrow> 'p"
  tel_start :: "string \<Rightarrow> 'p \<Rightarrow> string option \<times> 'p"
  tel_set_attr :: "string \<Rightarrow> string \<Rightarrow> 'p \<Rightarrow> 'p"
  tel_end :: "'p \<Rightarrow> 'p"

definition m13_Registry :: "(metric list \<Rightarrow> 'g) \<Rightarrow> ('g \<Rightarrow> 'p handler) \<Rightarrow> 'g \<times> 'p handler" where
  "m13_Registry register handler_for =
     (let reg = register [m13_HTTPRequests, m13_HTTPDuration, m13_NotificationsSent]
      in (reg, handler_for reg))"

definition m13_InitTracer ::
  "('x, 'e) go_result \<Rightarrow> (string \<Rightarrow> ('x, 'r) go_result) \<Rightarrow> ('e \<Rightarrow> 'r \<Rightarrow> 'shutdown) \<Rightarrow> string
     \<Rightarrow> ('x, 'shutdown) go_result" where
  "m13_InitTracer exporter new_resource provider serviceName =
     (case exporter of
        Inl err \<Rightarrow> Inl err
      | Inr exp \<Rightarrow>
          (case new_resource serviceName of
             Inl err \<Rightarrow> Inl err
           | Inr res \<Rightarrow> Inr (provider exp res)))"

section \<open>The middleware\<close>

definition on_tel :: "('p \<Rightarrow> 'p) \<Rightarrow> 'p srv \<Rightarrow> 'p srv" where
  "on_tel f s = s\<lparr>sv_st := f (sv_st s)\<rparr>"

text \<open>The deferred end of the span runs also when the handler panics; what follows does not.\<close>

definition m13_Instrument ::
  "'p m13_telemetry \<Rightarrow> m13_logger \<Rightarrow> int \<Rightarrow> string \<Rightarrow> 'p m13_handler \<Rightarrow> 'p handler" where
  "m13_Instrument t base elapsed route next r s =
     (let (trace_id, p) = tel_start t (rq_method r @ '' '' @ route) (sv_st s);
          s = s\<lparr>sv_st := p\<rparr>;
          s = on_tel (tel_set_attr t ''http.route'' route) s;
          l = (case trace_id of None \<Rightarrow> base | Some i \<Rightarrow> base @ [(''trace_id'', i)]);
          (panicked, s) = next (Some l) r (on_rw (push_rec 200) s);
          (status, w) = pop_rec (sv_rw s);
          s = s\<lparr>sv_rw := w\<rparr>
      in case panicked of
           Some e \<Rightarrow> (Some e, on_tel (tel_end t) s)
         | None \<Rightarrow>
             (let s = on_tel (tel_inc t m13_HTTPRequests [rq_method r, route, fmt_d status]) s;
                  s = on_tel (tel_observe t m13_HTTPDuration [rq_method r, route] elapsed) s;
                  s = add_log (''request'', l @ [(''method'', rq_method r), (''route'', route),
                        (''status'', fmt_d status)]) s
              in (None, on_tel (tel_end t) s)))"

section \<open>Properties\<close>

text \<open>
  What the model relies on of Prometheus, for a reading \<open>value m vs p\<close> of a counter: an increment
  adds one to its own series, and nothing else moves a counter.
\<close>

definition counts :: "'p m13_telemetry \<Rightarrow> (metric \<Rightarrow> string list \<Rightarrow> 'p \<Rightarrow> nat) \<Rightarrow> bool" where
  "counts t value \<longleftrightarrow>
     (\<forall>m vs n us p. value n us (tel_inc t m vs p) = value n us p + (if m = n \<and> vs = us then 1 else 0))
   \<and> (\<forall>m vs d n us p. value n us (tel_observe t m vs d p) = value n us p)
   \<and> (\<forall>name n us p. value n us (snd (tel_start t name p)) = value n us p)
   \<and> (\<forall>k v n us p. value n us (tel_set_attr t k v p) = value n us p)
   \<and> (\<forall>n us p. value n us (tel_end t p) = value n us p)"

text \<open>A handler that panics leaves the counters as they were and no log line of the request.\<close>

lemma m13_panic_uncounted:
  assumes "counts t value" and "\<forall>ctx s. next ctx r s = (Some e, s)"
  shows "\<exists>s'. m13_Instrument t base elapsed route next r s = (Some e, s')
    \<and> value m vs (sv_st s') = value m vs (sv_st s) \<and> sv_log s' = sv_log s"
  using assms
  by (simp add: m13_Instrument_def Let_def case_prod_beta counts_def on_tel_def on_rw_def)

text \<open>Telemetry over the counters alone.\<close>

definition demo_tel :: "(metric \<Rightarrow> string list \<Rightarrow> nat) m13_telemetry" where
  "demo_tel = \<lparr>tel_inc = (\<lambda>m vs p n us. p n us + (if m = n \<and> vs = us then 1 else 0)),
     tel_observe = (\<lambda>m vs d p. p), tel_start = (\<lambda>name p. (Some ''4bf9'', p)),
     tel_set_attr = (\<lambda>k v p. p), tel_end = (\<lambda>p. p)\<rparr>"

end
