(* ===== verification/M13_Server.thy ===== *)
theory M13_Server
  imports M13_Obs Go_Serve
begin

text \<open>
  The command of \<open>m13-observability\<close>: start-up, the mux, and the process with its serving goroutine. The
  text of \<open>cmd/server\<close> and \<open>solution-cmd/server\<close> is the same but for the package \<open>obs\<close> it imports, which
  is an argument of the model. \<open>served\<close> is what \<open>ListenAndServe\<close> returns, if it does; \<open>srv.Shutdown\<close> and
  the flush of the spans, whose errors \<open>main\<close> ignores, are the two steps after the signal.
\<close>

section \<open>The command, for any package\<close>

text \<open>
  What the command uses of the package: \<open>'l\<close> is the type of loggers, \<open>'c\<close> of request contexts, \<open>'p\<close> the
  state of the telemetry, \<open>'d\<close> the function \<open>InitTracer\<close> returns. \<open>p13_level\<close> is the level from which a
  logger writes, \<open>p13_LoggerFrom\<close> the attributes the logger of a context adds, \<open>p13_Registry\<close> the
  handler \<open>Registry()\<close> returns, \<open>p13_sent\<close> the increment of \<open>NotificationsSent\<close>.
\<close>

record ('x, 'p, 'c, 'l, 'd) m13_packages =
  p13_NewLogger :: "string \<Rightarrow> 'l"
  p13_level :: "'l \<Rightarrow> slog_level"
  p13_InitTracer :: "string \<Rightarrow> ('x, 'd) go_result"
  p13_Registry :: "'p handler"
  p13_Instrument :: "'l \<Rightarrow> string \<Rightarrow> ('c \<Rightarrow> 'p handler) \<Rightarrow> 'p handler"
  p13_LoggerFrom :: "'c \<Rightarrow> (string \<times> string) list"
  p13_sent :: "'p \<Rightarrow> 'p"

definition m13_greeted :: "http_req \<Rightarrow> string" where
  "m13_greeted r = (let name = get_default (rq_query r) ''name'' in if name = [] then ''world'' else name)"

definition l13_hello :: "('x, 'p, 'c, 'l, 'd) m13_packages \<Rightarrow> 'c \<Rightarrow> 'p handler" where
  "l13_hello p ctx r s =
     (let name = m13_greeted r;
          s = add_log (''greeting'', p13_LoggerFrom p ctx @ [(''name'', name)]) s;
          s = on_tel (p13_sent p) s
      in (None, on_rw (write_chunk (CText (''hello, '' @ name @ [CHR 0x0A]))) s))"

definition l13_server_mux :: "('x, 'p, 'c, 'l, 'd) m13_packages \<Rightarrow> 'p handler" where
  "l13_server_mux p = mux
     [([], [Lit [], Lit ''metrics''], \<lambda>pv. p13_Registry p),
      ([], [Lit [], Lit ''hello''], \<lambda>pv. p13_Instrument p (p13_NewLogger p ''info'') ''/hello'' (l13_hello p))]"

definition m13_server :: http_Server where
  "m13_server = \<lparr>hs_Addr = '':8080'', hs_ReadHeaderTimeout = 5 * second, hs_ReadTimeout = 0,
     hs_WriteTimeout = 0, hs_IdleTimeout = 0\<rparr>"

text \<open>A line of \<open>main\<close>'s logger.\<close>

definition l13_say :: "('x, 'p, 'c, 'l, 'd) m13_packages \<Rightarrow> slog_level \<Rightarrow> log_line \<Rightarrow> proc \<Rightarrow> proc" where
  "l13_say p lvl line q = (if slog_enabled (p13_level p (p13_NewLogger p ''info'')) lvl then say line q else q)"

text \<open>A start-up that fails, with its log and exit status, or the process it starts.\<close>

definition l13_main :: "('x, 'p, 'c, 'l, 'd) m13_packages \<Rightarrow> (log_line list \<times> int) + proc" where
  "l13_main p =
     (case p13_InitTracer p ''pulse-demo'' of
        Inl err \<Rightarrow> Inl (pc_log (l13_say p LevelError (''tracer init'', [(''err'', err_msg err)]) proc_start), 1)
      | Inr shutdown_tracer \<Rightarrow> Inr proc_start)"

inductive l13_main_step :: "('x, 'p, 'c, 'l, 'd) m13_packages \<Rightarrow> 'x go_error option \<Rightarrow> proc \<Rightarrow> proc \<Rightarrow> bool" for p served where
  listening: "pc_exit q = None \<Longrightarrow> pc_serve q = Starting
    \<Longrightarrow> l13_main_step p served q
          (l13_say p LevelInfo (''listening'', [(''addr'', hs_Addr m13_server)]) (q\<lparr>pc_serve := Listening\<rparr>))"
| failed: "pc_exit q = None \<Longrightarrow> pc_serve q = Listening \<Longrightarrow> served = Some err \<Longrightarrow> serve_failed served
    \<Longrightarrow> l13_main_step p served q (l13_say p LevelError (''serve'', [(''err'', err_msg err)]) (q\<lparr>pc_serve := ServeDone\<rparr>))"
| closed: "pc_exit q = None \<Longrightarrow> pc_serve q = Listening \<Longrightarrow> \<not> serve_failed served
    \<Longrightarrow> l13_main_step p served q (q\<lparr>pc_serve := ServeDone\<rparr>)"
| signal: "pc_exit q = None \<Longrightarrow> pc_main q = Waiting
    \<Longrightarrow> l13_main_step p served q (l13_say p LevelInfo (''shutting down'', []) (q\<lparr>pc_main := Stopping\<rparr>))"
| drained: "pc_exit q = None \<Longrightarrow> pc_main q = Stopping \<Longrightarrow> l13_main_step p served q (q\<lparr>pc_main := Flushing\<rparr>)"
| flushed: "pc_exit q = None \<Longrightarrow> pc_main q = Flushing
    \<Longrightarrow> l13_main_step p served q
          (l13_say p LevelInfo (''stopped'', []) (q\<lparr>pc_main := Returned, pc_exit := Some 0\<rparr>))"

inductive_simps l13_main_step_iff: "l13_main_step p served q q'"

section \<open>What the exercise asks of the package\<close>

text \<open>
  The logger for \<open>info\<close> writes from that level on. For a reading \<open>value m vs\<close> of the counters: sending a
  notification counts one, and an instrumented handler that writes one chunk and raises the counters
  by \<open>d\<close> is answered as without the middleware, with one more request of its route counted, and all
  that it logs.
\<close>

locale m13_logging =
  fixes p :: "('x, 'p, 'c, 'l, 'd) m13_packages"
  assumes info: "p13_level p (p13_NewLogger p ''info'') = LevelInfo"

definition m13_writes ::
  "(metric \<Rightarrow> string list \<Rightarrow> 'p \<Rightarrow> nat) \<Rightarrow> chunk \<Rightarrow> (metric \<Rightarrow> string list \<Rightarrow> nat) \<Rightarrow> log_line \<Rightarrow> panic option \<times> 'p srv
     \<Rightarrow> 'p srv \<Rightarrow> bool" where
  "m13_writes value c d line out s \<longleftrightarrow>
     fst out = None \<and> sv_rw (snd out) = write_chunk c (sv_rw s) \<and> line \<in> set (sv_log (snd out))
     \<and> (\<forall>m vs. value m vs (sv_st (snd out)) = value m vs (sv_st s) + d m vs)"

locale m13_exercise = m13_logging +
  fixes "value" :: "metric \<Rightarrow> string list \<Rightarrow> 'p \<Rightarrow> nat"
  assumes sent: "value m vs (p13_sent p x) = value m vs x + (if m = m13_NotificationsSent \<and> vs = [] then 1 else 0)"
    and instrument: "\<forall>ctx s. \<exists>line \<in> lines. m13_writes value c d line (h ctx r s) s
      \<Longrightarrow> \<exists>line \<in> lines. m13_writes value c
            (\<lambda>m vs. d m vs + (if m = m13_HTTPRequests \<and> vs = [rq_method r, route, ''200''] then 1 else 0))
            line (p13_Instrument p l route h r s) s"

lemma m13_metrics_differ [simp]: "m13_HTTPRequests \<noteq> m13_NotificationsSent" "m13_NotificationsSent \<noteq> m13_HTTPRequests"
  by (simp_all add: m13_HTTPRequests_def m13_NotificationsSent_def)

text \<open>Requests served one after the other, each with a response of its own: the answers, and the server.\<close>

fun serve_each :: "'p handler \<Rightarrow> http_req list \<Rightarrow> 'p srv \<Rightarrow> (int option \<times> chunk list) list \<times> 'p srv" where
  "serve_each h [] s = ([], s)"
| "serve_each h (r # rs) s =
     (let s = snd (h r (s\<lparr>sv_rw := new_rw\<rparr>)); (as, t) = serve_each h rs s in (answer s # as, t))"

definition m13_greeting :: "http_req \<Rightarrow> int option \<times> chunk list" where
  "m13_greeting r = (Some 200, [CText (''hello, '' @ m13_greeted r @ [CHR 0x0A])])"

context m13_exercise
begin

lemma hello_served:
  assumes "rq_path r = ''/hello''"
  shows "\<exists>attrs. m13_writes value (CText (''hello, '' @ m13_greeted r @ [CHR 0x0A]))
    (\<lambda>m vs. (if m = m13_NotificationsSent \<and> vs = [] then 1 else 0)
       + (if m = m13_HTTPRequests \<and> vs = [rq_method r, ''/hello'', ''200''] then 1 else 0))
    (''greeting'', attrs @ [(''name'', m13_greeted r)]) (l13_server_mux p r s) s"
proof -
  let ?lines = "range (\<lambda>attrs. (''greeting'', attrs @ [(''name'', m13_greeted r)]))"
    and ?c = "CText (''hello, '' @ m13_greeted r @ [CHR 0x0A])" and ?d = "\<lambda>m vs. if m = m13_NotificationsSent \<and> vs = [] then 1 else 0"
  have "\<exists>line \<in> ?lines. m13_writes value ?c ?d line (l13_hello p ctx r s) s" for ctx s
    by (intro bexI [of _ "(''greeting'', p13_LoggerFrom p ctx @ [(''name'', m13_greeted r)])"])
      (simp_all add: m13_writes_def l13_hello_def Let_def on_tel_def on_rw_def add_log_def sent)
  then have "\<exists>line \<in> ?lines. m13_writes value ?c
      (\<lambda>m vs. ?d m vs + (if m = m13_HTTPRequests \<and> vs = [rq_method r, ''/hello'', ''200''] then 1 else 0))
      line (p13_Instrument p (p13_NewLogger p ''info'') ''/hello'' (l13_hello p) r s) s"
    by (intro instrument allI)
  then show ?thesis
    using assms by (auto simp: l13_server_mux_def mux_def method_ok_def)
qed

lemma hellos_served:
  assumes "\<forall>r \<in> set rs. rq_path r = ''/hello''"
  shows "fst (serve_each (l13_server_mux p) rs s) = map m13_greeting rs
    \<and> value m vs (sv_st (snd (serve_each (l13_server_mux p) rs s))) = value m vs (sv_st s)
        + (if m = m13_HTTPRequests then length (filter (\<lambda>r. vs = [rq_method r, ''/hello'', ''200'']) rs)
           else if m = m13_NotificationsSent \<and> vs = [] then length rs else 0)"
  using assms
proof (induction rs arbitrary: s)
  case (Cons r rs)
  let ?s = "s\<lparr>sv_rw := new_rw\<rparr>"
  obtain attrs where "m13_writes value (CText (''hello, '' @ m13_greeted r @ [CHR 0x0A]))
      (\<lambda>m vs. (if m = m13_NotificationsSent \<and> vs = [] then 1 else 0)
         + (if m = m13_HTTPRequests \<and> vs = [rq_method r, ''/hello'', ''200''] then 1 else 0))
      (''greeting'', attrs @ [(''name'', m13_greeted r)]) (l13_server_mux p r ?s) ?s"
    using hello_served [of r ?s] Cons.prems by auto
  then show ?case
    using Cons.IH [of "snd (l13_server_mux p r ?s)"] Cons.prems
    by (auto simp: m13_writes_def m13_greeting_def answer_def write_chunk_def new_rw_def Let_def case_prod_beta)
qed simp

end

text \<open>Remark (functional). With any package that keeps the contract, requests to \<open>/hello\<close> are all greeted, and
  after them the counter of sent notifications has grown by their number, the counter of each
  method's requests with status 200 by the number of those requests, and no other counter has moved.\<close>

theorem l13_hello_counts:
  assumes "m13_exercise p value" and "\<forall>r \<in> set rs. rq_path r = ''/hello''"
  shows "fst (serve_each (l13_server_mux p) rs s) = map m13_greeting rs
    \<and> value m vs (sv_st (snd (serve_each (l13_server_mux p) rs s))) = value m vs (sv_st s)
        + (if m = m13_HTTPRequests then length (filter (\<lambda>r. vs = [rq_method r, ''/hello'', ''200'']) rs)
           else if m = m13_NotificationsSent \<and> vs = [] then length rs else 0)"
  using assms by (rule m13_exercise.hellos_served)

section \<open>The process\<close>

definition m13_main_inv :: "proc \<Rightarrow> bool" where
  "m13_main_inv q \<longleftrightarrow> (logged ''shutting down'' q \<longleftrightarrow> pc_main q \<noteq> Waiting)
     \<and> (logged ''stopped'' q \<longleftrightarrow> pc_main q = Returned)
     \<and> (if pc_main q = Returned then pc_exit q = Some 0 else pc_exit q = None)"


context m13_logging
begin

lemma l13_says [simp]: "l13_say p LevelInfo line q = say line q" "l13_say p LevelError line q = say line q"
  by (simp_all add: l13_say_def info slog_enabled_def less_eq_slog_level_def)

lemma main_inv_step: "m13_main_inv q \<Longrightarrow> l13_main_step p served q q' \<Longrightarrow> m13_main_inv q'"
  by (erule l13_main_step.cases) (auto simp: m13_main_inv_def)

end

sublocale m13_logging \<subseteq> process: step_system "l13_main_step p served" proc_start m13_main_inv for served
proof
  show "m13_main_inv proc_start" by (simp add: m13_main_inv_def) (simp add: proc_start_def)
qed (rule main_inv_step)

context m13_logging
begin

lemma serve_failure_hangs:
  assumes "(l13_main_step p served)\<^sup>*\<^sup>* proc_start q"
  shows "(pc_exit q = None \<or> pc_exit q = Some 0 \<and> logged ''shutting down'' q)
    \<and> (pc_serve q = ServeDone \<and> pc_main q = Waiting
        \<longrightarrow> pc_exit q = None \<and> (\<forall>q'. l13_main_step p served q q' \<longleftrightarrow> q' = say (''shutting down'', []) (q\<lparr>pc_main := Stopping\<rparr>)))"
proof -
  have "m13_main_inv q" by (rule process.reach_inv [OF assms])
  then show ?thesis by (auto simp: m13_main_inv_def l13_main_step_iff split: if_splits)
qed

end

section \<open>The package of the reference\<close>

definition m13_solution ::
  "'p m13_telemetry \<Rightarrow> (string \<Rightarrow> ('x, 'd) go_result) \<Rightarrow> 'p handler \<Rightarrow> int
     \<Rightarrow> ('x, 'p, m13_ctx, slog_level \<times> m13_logger, 'd) m13_packages" where
  "m13_solution t tracer metricsHandler elapsed = \<lparr>p13_NewLogger = (\<lambda>level. (m13_NewLogger level, [])),
     p13_level = fst, p13_InitTracer = tracer, p13_Registry = metricsHandler,
     p13_Instrument = (\<lambda>l route. m13_Instrument t (snd l) elapsed route), p13_LoggerFrom = m13_LoggerFrom,
     p13_sent = tel_inc t m13_NotificationsSent []\<rparr>"

text \<open>The tracer and the handler for the metrics are those \<open>InitTracer\<close> and \<open>Registry\<close> make.\<close>

definition m13_reference ::
  "'p m13_telemetry \<Rightarrow> ('x, 'e) go_result \<Rightarrow> (string \<Rightarrow> ('x, 'r) go_result) \<Rightarrow> ('e \<Rightarrow> 'r \<Rightarrow> 'd)
     \<Rightarrow> (metric list \<Rightarrow> 'g) \<Rightarrow> ('g \<Rightarrow> 'p handler) \<Rightarrow> int \<Rightarrow> ('x, 'p, m13_ctx, slog_level \<times> m13_logger, 'd) m13_packages" where
  "m13_reference t exporter new_resource provider register handler_for elapsed =
     m13_solution t (m13_InitTracer exporter new_resource provider) (snd (m13_Registry register handler_for)) elapsed"

definition m13_main where
  "m13_main t exporter new_resource provider register handler_for elapsed =
     l13_main (m13_reference t exporter new_resource provider register handler_for elapsed)"

definition m13_server_mux :: "'p m13_telemetry \<Rightarrow> 'p handler \<Rightarrow> int \<Rightarrow> 'p handler" where
  "m13_server_mux t metricsHandler elapsed =
     l13_server_mux (m13_solution t (\<lambda>_. Inr () :: (unit, unit) go_result) metricsHandler elapsed)"

interpretation m13_logger: m13_logging "m13_solution t tracer metricsHandler elapsed"
  for t tracer metricsHandler elapsed
  by unfold_locales (simp add: m13_solution_def m13_NewLogger_def)

text \<open>Start-up fails exactly when the exporter or the resource does, with one line and status 1.\<close>

lemma m13_start:
  "m13_main t exporter new_resource provider register handler_for elapsed =
     (case m13_InitTracer exporter new_resource provider ''pulse-demo'' of
        Inl err \<Rightarrow> Inl ([(''tracer init'', [(''err'', err_msg err)])], 1) | Inr shutdown \<Rightarrow> Inr proc_start)"
  unfolding m13_main_def m13_reference_def l13_main_def m13_logger.l13_says
  by (simp add: m13_solution_def proc_start_def split: sum.split)

locale m13_telemetry_up =
  fixes t :: "'p m13_telemetry" and "value" :: "metric \<Rightarrow> string list \<Rightarrow> 'p \<Rightarrow> nat"
  assumes reads: "counts t value"

sublocale m13_telemetry_up \<subseteq> reference: m13_exercise "m13_solution t tracer metricsHandler elapsed" "value"
  for tracer metricsHandler elapsed
proof
  fix m vs x
  show "value m vs (p13_sent (m13_solution t tracer metricsHandler elapsed) x)
      = value m vs x + (if m = m13_NotificationsSent \<and> vs = [] then 1 else 0)"
    using reads by (auto simp: m13_solution_def counts_def)
next
  fix lines c d s route and l :: "slog_level \<times> m13_logger" and r :: http_req and h :: "m13_ctx \<Rightarrow> 'p handler"
  assume h: "\<forall>ctx s. \<exists>line \<in> lines. m13_writes value c d line (h ctx r s) s"
  define q where "q = on_rw (push_rec 200) (on_tel (tel_set_attr t ''http.route'' route)
      (s\<lparr>sv_st := snd (tel_start t (rq_method r @ '' '' @ route) (sv_st s))\<rparr>))"
  define ctx where "ctx = Some (case fst (tel_start t (rq_method r @ '' '' @ route) (sv_st s)) of
      None \<Rightarrow> snd l | Some i \<Rightarrow> snd l @ [(''trace_id'', i)])"
  obtain line where line: "line \<in> lines" "m13_writes value c d line (h ctx r q) q" using h by blast
  obtain s1 where s1: "h ctx r q = (None, s1)" using line(2) by (cases "h ctx r q") (simp add: m13_writes_def)
  have "fmt_d 200 = ''200''" by code_simp
  with line s1 reads show "\<exists>line \<in> lines. m13_writes value c
        (\<lambda>m vs. d m vs + (if m = m13_HTTPRequests \<and> vs = [rq_method r, route, ''200''] then 1 else 0))
        line (p13_Instrument (m13_solution t tracer metricsHandler elapsed) l route h r s) s"
    by (intro bexI [of _ line])
      (auto simp: m13_solution_def m13_Instrument_def m13_writes_def counts_def Let_def case_prod_beta
        q_def ctx_def on_tel_def http_defs)
qed

text \<open>Telemetry that counts, and three requests.\<close>

interpretation demo_telemetry: m13_telemetry_up demo_tel "\<lambda>m vs p. p m vs"
  by unfold_locales (simp add: counts_def demo_tel_def)

definition demo_hello :: http_req where
  "demo_hello = \<lparr>rq_method = ''GET'', rq_path = ''/hello'', rq_header = [], rq_query = [],
     rq_body = BodyBad ''EOF'', rq_rid = None\<rparr>"

theorem l13_hello_counts_witness:
  "sv_st (snd (serve_each (m13_server_mux demo_tel (\<lambda>r s. (None, s)) 5) [demo_hello, demo_hello]
      \<lparr>sv_rw = new_rw, sv_log = [], sv_rid = 0, sv_st = (\<lambda>m vs. 0)\<rparr>)) m13_NotificationsSent [] = 2"
proof -
  let ?s = "\<lparr>sv_rw = new_rw, sv_log = [], sv_rid = 0, sv_st = (\<lambda>m vs. 0)\<rparr> :: (metric \<Rightarrow> string list \<Rightarrow> nat) srv"
  have "\<forall>r \<in> set [demo_hello, demo_hello]. rq_path r = ''/hello''" by (simp add: demo_hello_def)
  from l13_hello_counts [of "m13_solution demo_tel (\<lambda>_. Inr () :: (unit, unit) go_result) (\<lambda>r s. (None, s)) 5"
      "\<lambda>m vs p. p m vs", OF demo_telemetry.reference.m13_exercise_axioms this, of ?s m13_NotificationsSent "[]"]
  show ?thesis unfolding m13_server_mux_def by (simp del: serve_each.simps)
qed

text \<open>Remark (error). A server that cannot listen does not end: its goroutine logs the error and ends,
  \<open>main\<close> goes on waiting for a signal, and no run ends with a status other than 0, whatever
  happened to the server, and whatever the package.\<close>

theorem m13_serve_failure_hangs:
  assumes "m13_logging p" and "(l13_main_step p served)\<^sup>*\<^sup>* proc_start q"
  shows "(pc_exit q = None \<or> pc_exit q = Some 0 \<and> logged ''shutting down'' q)
    \<and> (pc_serve q = ServeDone \<and> pc_main q = Waiting
        \<longrightarrow> pc_exit q = None \<and> (\<forall>q'. l13_main_step p served q q' \<longleftrightarrow> q' = say (''shutting down'', []) (q\<lparr>pc_main := Stopping\<rparr>)))"
  using assms by (rule m13_logging.serve_failure_hangs)

definition m13_main_step :: "'p m13_telemetry \<Rightarrow> 'x go_error option \<Rightarrow> proc \<Rightarrow> proc \<Rightarrow> bool" where
  "m13_main_step t = l13_main_step (m13_solution t (\<lambda>_. Inr ()) (\<lambda>r s. (None, s)) 0)"

text \<open>A run of the reference in which the port is taken.\<close>

theorem m13_serve_failure_hangs_witness:
  "\<exists>(served :: unit go_error option) q. (m13_main_step demo_tel served)\<^sup>*\<^sup>* proc_start q \<and> logged ''serve'' q
     \<and> pc_exit q = None
     \<and> (\<forall>q'. m13_main_step demo_tel served q q' \<longleftrightarrow> q' = say (''shutting down'', []) (q\<lparr>pc_main := Stopping\<rparr>))"
proof -
  let ?err = "ErrNew ''net.OpError'' ''listen tcp :8080: bind: address already in use'' :: unit go_error"
  let ?step = "m13_main_step demo_tel (Some ?err)"
  let ?q1 = "say (''listening'', [(''addr'', hs_Addr m13_server)]) (proc_start\<lparr>pc_serve := Listening\<rparr>)"
  let ?q2 = "say (''serve'', [(''err'', err_msg ?err)]) (?q1\<lparr>pc_serve := ServeDone\<rparr>)"
  have s: "pc_exit proc_start = None" "pc_serve proc_start = Starting" "pc_main proc_start = Waiting"
    by (simp_all add: proc_start_def)
  have "?step proc_start ?q1" by (simp add: m13_main_step_def l13_main_step_iff s)
  moreover have "?step ?q1 ?q2" by (simp add: m13_main_step_def l13_main_step_iff s serve_failed_def)
  ultimately have run: "?step\<^sup>*\<^sup>* proc_start ?q2"
    by (meson converse_rtranclp_into_rtranclp rtranclp.rtrancl_refl)
  from m13_serve_failure_hangs [OF m13_logger.m13_logging_axioms run [unfolded m13_main_step_def]] run show ?thesis
    by (intro exI [of _ "Some ?err"] exI [of _ ?q2]) (simp add: s m13_main_step_def)
qed

end
