(* ===== verification/M14_Main.thy ===== *)
theory M14_Main
  imports M14_Capstone Go_Cmd
begin

text \<open>
  The command \<open>m14-capstone/cmd/pulse\<close>: the vertical slice in one process. The JetStream client,
  the clock, the random bytes and the deliveries are parameters: \<open>sched k\<close> are the deliveries to
  the consumer after the \<open>k\<close>th POST and, later, during the \<open>k\<close>th turn of the waiting loop.
\<close>

section \<open>The command\<close>

text \<open>The process: its output, the consumer with the server, the handler's map, the loop's turns.\<close>

record ('d, 'j) m14_proc = host +
  pr_cons :: "('d, m14_LoggingSender, 'j) m14_state"
  pr_byID :: "(string, m14_Customer) gomap"
  pr_turn :: nat

record ('x, 'n, 'h, 'd, 'j, 's, 'o, 'p) m14_services =
  v14_connect :: "string \<Rightarrow> ('x, 'n) go_result"
  v14_new :: "'n \<Rightarrow> ('x, 'h) go_result"
  v14_drain :: "'n \<Rightarrow> 'j \<Rightarrow> 'j"
  v14_delete :: "string \<Rightarrow> 'j \<Rightarrow> 'j"
  v14_ensure :: "stream_config \<Rightarrow> 'j \<Rightarrow> ('x, 's) go_result \<times> 'j"
  v14_publish :: "('x, 'd, 'j) publish_op"
  v14_create :: "'s \<Rightarrow> consumer_config \<Rightarrow> ('x, 'o) go_result"
  v14_consume :: "'o \<Rightarrow> ('d jmsg \<Rightarrow> ('d, m14_LoggingSender, 'j) m14_state \<Rightarrow> verdict \<times> ('d, m14_LoggingSender, 'j) m14_state) \<Rightarrow> ('x, 'p) go_result"
  v14_stop :: "'p \<Rightarrow> 'j \<Rightarrow> 'j"
  v14_info :: "'s \<Rightarrow> 'j \<Rightarrow> ('x, int) go_result"
  v14_marshal :: "m14_CustomerEvent \<Rightarrow> ('x, 'd) go_result"
  v14_unmarshal :: "'d \<Rightarrow> ('x, m14_CustomerEvent) go_result"

definition on14 :: "('j \<Rightarrow> 'j) \<Rightarrow> ('d, 'j) m14_proc \<Rightarrow> ('d, 'j) m14_proc" where
  "on14 f p = p\<lparr>pr_cons := (pr_cons p)\<lparr>s14_js := f (s14_js (pr_cons p))\<rparr>\<rparr>"

text \<open>Deliveries; each line the sender hands to its \<open>out\<close> function is printed with two blanks.\<close>

definition m14_pulse_work where
  "m14_pulse_work v ms p =
     (let c = snd (deliver (\<lambda>_::unit. m14_handle (m14_consumer (v14_publish v) (v14_unmarshal v)))
                (map (Pair ()) ms) (pr_cons p));
          lines = drop (length (ls_lines (s14_world (pr_cons p)))) (ls_lines (s14_world c))
      in stdout (concat (map (\<lambda>l. ''  '' @ l @ nl) lines)) (p\<lparr>pr_cons := c\<rparr>))"

text \<open>One request to the handler, recorded; then the deliveries until the next.\<close>

definition m14_request :: "string \<times> string \<Rightarrow> http_req" where
  "m14_request b = \<lparr>rq_method = ''POST'', rq_path = ''/v1/customers'', rq_header = [], rq_query = [],
     rq_body = BodyJson (JObj [(''email'', JStr (fst b)), (''name'', JStr (snd b))])
       (22 + length (fst b) + length (snd b)) [], rq_rid = None\<rparr>"

definition rec_code :: "'s srv \<Rightarrow> int" where
  "rec_code s = (case fst (answer s) of None \<Rightarrow> 200 | Some c \<Rightarrow> c)"

definition m14_pulse_post ::
  "('x, 'n, 'h, 'd, 'j, 's, 'o, 'p) m14_services \<Rightarrow> (chunk list \<Rightarrow> string) \<Rightarrow> (nat \<Rightarrow> int) \<Rightarrow> (nat \<Rightarrow> nat list)
     \<Rightarrow> (nat \<Rightarrow> 'd jmsg list) \<Rightarrow> nat \<times> string \<times> string \<Rightarrow> (unit, ('d, 'j) m14_proc) cmd" where
  "m14_pulse_post v render now rnd sched ib p =
     (let (i, b) = ib;
          h = \<lparr>m14_byID = pr_byID p, m14_js = s14_js (pr_cons p)\<rparr>;
          (pnc, s) = m14_Routes (m14_PublishCustomerCreated (v14_publish v) (v14_marshal v)) (now i) (rnd i)
             (m14_request b) \<lparr>sv_rw = new_rw, sv_log = [], sv_rid = 0, sv_st = h\<rparr>;
          p = on14 (\<lambda>_. m14_js (sv_st s)) (p\<lparr>pr_byID := m14_byID (sv_st s)\<rparr>)
      in case pnc of
           Some e \<Rightarrow> (Panic e, p)
         | None \<Rightarrow>
             if rec_code s \<noteq> 201
             then fatal (stderr (''create failed: '' @ fmt_d (rec_code s) @ '' ''
                    @ render (snd (answer s)) @ nl)) p
             else (Val (), m14_pulse_work v (sched i) p))"

text \<open>The loop that waits for the notifications, at most five seconds by the clock.\<close>

definition m14_pulse_wait where
  "m14_pulse_wait v clock wsched deadline =
     loop (\<lambda>p. ls_Sent (s14_world (pr_cons p)) < 5 \<and> clock (pr_turn p) < (deadline :: int))
       (\<lambda>p. (m14_pulse_work v (wsched (pr_turn p)) p)\<lparr>pr_turn := Suc (pr_turn p)\<rparr>)"

text \<open>The requests, the wait and the report; \<open>main\<close> ignores the error of \<open>stream.Info\<close>.\<close>

definition m14_pulse_report where
  "m14_pulse_report v st =
     bind (call (\<lambda>p. (v14_info v st (s14_js (pr_cons p)), p))) (\<lambda>info.
     bind (act (stdout (nl @ ''=== flow complete ==='' @ nl))) (\<lambda>_.
     bind (call (\<lambda>p. (ls_Sent (s14_world (pr_cons p)), p))) (\<lambda>sent.
     bind (act (println (''welcome notifications sent: '' @ fmt_d sent))) (\<lambda>_.
     case info of
       Inl err \<Rightarrow> panics ''invalid memory address or nil pointer dereference''
     | Inr msgs \<Rightarrow> act (println (''events stored in stream:    '' @ fmt_d msgs))))))"

definition m14_pulse_flow where
  "m14_pulse_flow v render now rnd sched clock wsched st =
     bind (act (\<lambda>p. p\<lparr>pr_byID := []\<rparr>)) (\<lambda>_.
     bind (act (println ''creating 5 customers via REST -> durable events -> welcome sends...'')) (\<lambda>_.
     bind (in_order (map (m14_pulse_post v render now rnd sched) (List.enumerate 0 m14_bodies))) (\<lambda>_.
     bind (act (\<lambda>p. p\<lparr>pr_turn := 1\<rparr>)) (\<lambda>_.
     bind (m14_pulse_wait v clock wsched (clock 0 + 5 * second)) (\<lambda>_.
     m14_pulse_report v st)))))"

definition m14_pulse_main where
  "m14_pulse_main v getenv render now rnd sched clock wsched =
     (let url = getenv ''PULSE_NATS_URL''
      in if url = [] then fatal (stderr (''PULSE_NATS_URL is required'' @ nl)) else
      bind (or_fatal stderr ''connect'' (fst (m14_Connect (v14_connect v) (v14_new v) url))) (\<lambda>(nc, js).
      deferring (on14 (v14_drain v nc)) (
      bind (act (on14 (v14_delete v m14_StreamName))) (\<lambda>_.
      bind (call (\<lambda>p. let (st, j) = m14_EnsureStream (v14_ensure v) (s14_js (pr_cons p)) in (st, on14 (\<lambda>_. j) p))) (\<lambda>res.
      bind (or_fatal stderr ''stream'' res) (\<lambda>st.
      bind (act (\<lambda>p. p\<lparr>pr_cons := (pr_cons p)\<lparr>s14_dedup := m14_NewDedupStore,
              s14_world := m14_NewLoggingSender True\<rparr>\<rparr>)) (\<lambda>_.
      bind (or_fatal stderr ''consumer'' (m14_Start (v14_create v st) (v14_consume v)
              (m14_consumer (v14_publish v) (v14_unmarshal v)) ''notify-workers'')) (\<lambda>stop.
      deferring (on14 (v14_stop v stop)) (
      m14_pulse_flow v render now rnd sched clock wsched st)))))))))"

section \<open>It returns, and what it reports\<close>

text \<open>The sender never fails, so no delivery makes the consumer publish.\<close>

lemma m14_work_js: "s14_js (pr_cons (m14_pulse_work v ms p)) = s14_js (pr_cons p)"
proof -
  let ?h = "m14_handle (m14_consumer (v14_publish v) (v14_unmarshal v))"
  have "s14_js (snd (?h m s)) = s14_js s" for m s
    by (simp add: m14_handle_def m14_consumer_def m14_Send_def Let_def split: sum.split)
  then have "s14_js (snd (deliver (\<lambda>_::unit. ?h) (map (Pair ()) ms) s)) = s14_js s" for s
    by (induction ms arbitrary: s) (auto simp: Let_def case_prod_beta)
  then show ?thesis by (simp add: m14_pulse_work_def stdout_def Let_def)
qed

lemma m14_work_turn [simp]: "pr_turn (m14_pulse_work v ms p) = pr_turn p"
  by (simp add: m14_pulse_work_def stdout_def Let_def)

text \<open>With a clock that advances by the sleep in every turn the loop returns, whatever is delivered.\<close>

lemma m14_wait_returns:
  assumes "\<forall>k. clock (Suc k) \<ge> clock k + 50 * millisecond" and "P p"
    and "\<And>k p. P p \<Longrightarrow> P ((m14_pulse_work v (wsched k) p)\<lparr>pr_turn := Suc (pr_turn p)\<rparr>)"
  shows "\<exists>p'. m14_pulse_wait v clock wsched deadline p = (Val (), p') \<and> P p'
    \<and> (ls_Sent (s14_world (pr_cons p')) \<ge> 5 \<or> clock (pr_turn p') \<ge> deadline)"
proof -
  have "\<exists>p'. m14_pulse_wait v clock wsched deadline p = (Val (), p') \<and> P p'
      \<and> \<not> (ls_Sent (s14_world (pr_cons p')) < 5 \<and> clock (pr_turn p') < deadline)"
    unfolding m14_pulse_wait_def
    by (rule loop_returns [where P = P and t = "\<lambda>p. clock (pr_turn p)" and step = "50 * millisecond"
          and limit = deadline])
      (use assms in \<open>auto simp: millisecond_def\<close>)
  then show ?thesis by auto
qed

text \<open>The customer of a body, and what its request does.\<close>

definition m14_pulse_customer :: "(nat \<Rightarrow> int) \<Rightarrow> (nat \<Rightarrow> nat list) \<Rightarrow> nat \<times> string \<times> string \<Rightarrow> m14_Customer" where
  "m14_pulse_customer now rnd ib = \<lparr>m14_ID = ''cus_'' @ hex_encode (rnd (fst ib)), m14_Email = fst (snd ib),
     m14_Name = snd (snd ib), m14_CreatedAt = now (fst ib)\<rparr>"

definition m14_pulse_publish where
  "m14_pulse_publish v now rnd ib p =
     (let c = m14_pulse_customer now rnd ib
      in on14 (\<lambda>j. snd (m14_PublishCustomerCreated (v14_publish v) (v14_marshal v) (m14_event c) j))
           (p\<lparr>pr_byID := map_put (m14_ID c) c (pr_byID p)\<rparr>))"

definition m14_pulse_step where
  "m14_pulse_step v now rnd sched ib p = m14_pulse_work v (sched (fst ib)) (m14_pulse_publish v now rnd ib p)"

definition m14_body_ok :: "nat \<times> string \<times> string \<Rightarrow> bool" where
  "m14_body_ok ib \<longleftrightarrow> CHR ''@'' \<in> set (fst (snd ib)) \<and> trim_space (snd (snd ib)) \<noteq> []"

lemma m14_bodies_ok: "\<forall>ib \<in> set (List.enumerate 0 m14_bodies). m14_body_ok ib"
  by (simp add: m14_bodies_def m14_body_ok_def demo14_names)

lemma m14_pulse_post_run:
  fixes p :: "('d, 'j) m14_proc"
  assumes "m14_body_ok ib"
  shows "m14_pulse_post v render now rnd sched ib p = (Val (), m14_pulse_step v now rnd sched ib p)"
proof -
  obtain i b where ib: "ib = (i, b)" by (cases ib)
  let ?c = "m14_pulse_customer now rnd ib"
  let ?s = "\<lparr>sv_rw = new_rw, sv_log = [], sv_rid = 0,
    sv_st = \<lparr>m14_byID = pr_byID p, m14_js = s14_js (pr_cons p)\<rparr>\<rparr>"
  have acc: "m14_accepts (now i) (rnd i) (m14_request b) = Some ?c"
    using assms by (simp add: m14_accepts_def m14_request_def decoder_decode_def decode_struct_def
        decode_field_def match_field_def field_def m14_pulse_customer_def m14_body_ok_def ib)
  have post: "rq_method (m14_request b) = ''POST''" "rq_path (m14_request b) = ''/v1/customers''"
    by (simp_all add: m14_request_def)
  let ?pub = "m14_PublishCustomerCreated (v14_publish v) (v14_marshal v)"
  have "answer \<lparr>sv_rw = new_rw, sv_log = [], sv_rid = 0, sv_st = h\<rparr> = (None, [])" for h :: "'j m14_Handler"
    by (simp add: answer_def new_rw_def)
  then obtain s1 where s1: "m14_Routes ?pub (now i) (rnd i) (m14_request b) ?s = (None, s1)"
    "fst (answer s1) = Some 201" "m14_byID (sv_st s1) = map_put (m14_ID ?c) ?c (pr_byID p)"
    "m14_js (sv_st s1) = snd (?pub (m14_event ?c) (s14_js (pr_cons p)))"
    unfolding m14_route_create [OF post] m14_create_eq acc by simp
  then show ?thesis
    by (simp add: m14_pulse_post_def ib m14_pulse_step_def m14_pulse_publish_def rec_code_def on14_def Let_def)
qed

lemma m14_pulse_posts_run:
  "\<forall>ib \<in> set ibs. m14_body_ok ib \<Longrightarrow> in_order (map (m14_pulse_post v render now rnd sched) ibs) p
     = (Val (), fold (m14_pulse_step v now rnd sched) ibs p)"
  by (induction ibs arbitrary: p) (simp_all add: cmd_run m14_pulse_post_run)

text \<open>What the run assumes of the services when all of them are up.\<close>

definition m14_pulse_up where
  "m14_pulse_up v getenv nc js st q \<longleftrightarrow>
     getenv ''PULSE_NATS_URL'' \<noteq> [] \<and> v14_connect v (getenv ''PULSE_NATS_URL'') = Inr nc \<and> v14_new v nc = Inr js
     \<and> (\<forall>cfg j. \<exists>j'. v14_ensure v cfg j = (Inr st, j'))
     \<and> m14_Start (v14_create v st) (v14_consume v) (m14_consumer (v14_publish v) (v14_unmarshal v)) ''notify-workers'' = Inr q
     \<and> (\<forall>j. \<exists>n. v14_info v st j = Inr n)"

text \<open>The state before the first request.\<close>

definition m14_pulse_init where
  "m14_pulse_init j p = println ''creating 5 customers via REST -> durable events -> welcome sends...''
     (p\<lparr>pr_cons := (pr_cons p)\<lparr>s14_js := j, s14_dedup := m14_NewDedupStore, s14_world := m14_NewLoggingSender True\<rparr>,
        pr_byID := []\<rparr>)"

definition m14_pulse_end where
  "m14_pulse_end n stored p = println (''events stored in stream:    '' @ fmt_d stored)
     (println (''welcome notifications sent: '' @ fmt_d n) (stdout (nl @ ''=== flow complete ==='' @ nl) p))"

definition m14_pulse_final :: "int \<Rightarrow> int \<Rightarrow> string" where
  "m14_pulse_final n stored = nl @ ''=== flow complete ==='' @ nl
     @ ''welcome notifications sent: '' @ fmt_d n @ nl @ ''events stored in stream:    '' @ fmt_d stored @ nl"

lemma m14_pulse_end_out: "h_out (on14 f (on14 g (m14_pulse_end n stored p))) = h_out p @ m14_pulse_final n stored"
  by (simp add: on14_def m14_pulse_end_def m14_pulse_final_def nl_def)

lemma m14_println_cons [simp]: "pr_cons (println t p) = pr_cons p" "pr_cons (stdout t p) = pr_cons p"
  by (simp_all add: println_def stdout_def)

lemma m14_pulse_report_run:
  assumes "v14_info v st (s14_js (pr_cons p)) = Inr stored"
  shows "m14_pulse_report v st p = (Val (), m14_pulse_end (ls_Sent (s14_world (pr_cons p))) stored p)"
  using assms by (simp add: m14_pulse_report_def m14_pulse_end_def cmd_run)

lemma m14_pulse_run:
  assumes up: "m14_pulse_up v getenv nc js st q"
  shows "\<exists>j1. v14_ensure v \<lparr>sc_Name = m14_StreamName, sc_Subjects = [m14_SubjectCustomerAll], sc_Retention = LimitsPolicy,
      sc_MaxAge = 24 * 3600 * second\<rparr> (v14_delete v m14_StreamName (s14_js (pr_cons p))) = (Inr st, j1)
    \<and> (\<forall>p' stored. m14_pulse_wait v clock wsched (clock 0 + 5 * second)
        ((fold (m14_pulse_step v now rnd sched) (List.enumerate 0 m14_bodies) (m14_pulse_init j1 p))\<lparr>pr_turn := 1\<rparr>)
          = (Val (), p') \<longrightarrow> v14_info v st (s14_js (pr_cons p')) = Inr stored
      \<longrightarrow> m14_pulse_main v getenv render now rnd sched clock wsched p = (Val (), on14 (v14_drain v nc)
           (on14 (v14_stop v q) (m14_pulse_end (ls_Sent (s14_world (pr_cons p'))) stored p'))))"
proof -
  note up = up [unfolded m14_pulse_up_def]
  obtain j1 where j1: "v14_ensure v \<lparr>sc_Name = m14_StreamName, sc_Subjects = [m14_SubjectCustomerAll], sc_Retention = LimitsPolicy,
      sc_MaxAge = 24 * 3600 * second\<rparr> (v14_delete v m14_StreamName (s14_js (pr_cons p))) = (Inr st, j1)"
    using up by blast
  let ?p1 = "p\<lparr>pr_cons := (pr_cons p)\<lparr>s14_js := j1, s14_dedup := m14_NewDedupStore,
      s14_world := m14_NewLoggingSender True\<rparr>\<rparr>"
  show ?thesis
  proof (intro exI [of _ j1] conjI allI impI, rule j1)
    fix p' stored
    assume wait: "m14_pulse_wait v clock wsched (clock 0 + 5 * second)
        ((fold (m14_pulse_step v now rnd sched) (List.enumerate 0 m14_bodies) (m14_pulse_init j1 p))\<lparr>pr_turn := 1\<rparr>)
          = (Val (), p')"
      and info: "v14_info v st (s14_js (pr_cons p')) = Inr stored"
    let ?fin = "m14_pulse_end (ls_Sent (s14_world (pr_cons p'))) stored p'"
    have "println ''creating 5 customers via REST -> durable events -> welcome sends...''
        (?p1\<lparr>pr_byID := []\<rparr>) = m14_pulse_init j1 p"
      by (simp add: m14_pulse_init_def)
    then have flow: "m14_pulse_flow v render now rnd sched clock wsched st ?p1 = (Val (), ?fin)"
      unfolding m14_pulse_flow_def
      by (simp only: bind_run(1) [OF cmd_simps(2)] bind_run(1) [where m = "in_order _", OF m14_pulse_posts_run [OF m14_bodies_ok]]
          bind_run(1) [where m = "m14_pulse_wait v clock wsched (clock 0 + 5 * second)", OF wait] m14_pulse_report_run [OF info])
    have ens: "m14_EnsureStream (v14_ensure v) (v14_delete v m14_StreamName (s14_js (pr_cons p))) = (Inr st, j1)"
      using j1 by (simp add: m14_EnsureStream_def)
    show "m14_pulse_main v getenv render now rnd sched clock wsched p
        = (Val (), on14 (v14_drain v nc) (on14 (v14_stop v q) ?fin))"
      using up ens flow by (simp add: m14_pulse_main_def cmd_run Let_def m14_Connect_def on14_def)
  qed
qed

text \<open>C16 (termination). With the services up and a clock that advances by the sleep in every turn,
  the command returns normally and says how many notifications were sent and how many events
  are stored: no delivery, lost delivery or failing publish makes it hang, panic or exit.\<close>

theorem m14_pulse_returns:
  assumes "m14_pulse_up v getenv nc js st q" and "\<forall>k. clock (Suc k) \<ge> clock k + 50 * millisecond"
  shows "\<exists>before p' sent stored. m14_pulse_main v getenv render now rnd sched clock wsched p = (Val (), p')
    \<and> h_out p' = before @ m14_pulse_final sent stored"
proof -
  obtain j1 where run: "\<forall>p' stored. m14_pulse_wait v clock wsched (clock 0 + 5 * second)
      ((fold (m14_pulse_step v now rnd sched) (List.enumerate 0 m14_bodies) (m14_pulse_init j1 p))\<lparr>pr_turn := 1\<rparr>)
        = (Val (), p') \<longrightarrow> v14_info v st (s14_js (pr_cons p')) = Inr stored
    \<longrightarrow> m14_pulse_main v getenv render now rnd sched clock wsched p = (Val (), on14 (v14_drain v nc)
         (on14 (v14_stop v q) (m14_pulse_end (ls_Sent (s14_world (pr_cons p'))) stored p')))"
    using m14_pulse_run [OF assms(1)] by blast
  obtain p1 where p1: "m14_pulse_wait v clock wsched (clock 0 + 5 * second)
      ((fold (m14_pulse_step v now rnd sched) (List.enumerate 0 m14_bodies) (m14_pulse_init j1 p))\<lparr>pr_turn := 1\<rparr>)
        = (Val (), p1)"
    using m14_wait_returns [where P = "\<lambda>_. True", OF assms(2)] by blast
  obtain stored where "v14_info v st (s14_js (pr_cons p1)) = Inr stored"
    using assms(1) unfolding m14_pulse_up_def by blast
  from run [rule_format, OF p1 this] show ?thesis
    by (intro exI conjI) (assumption, rule m14_pulse_end_out)
qed

section \<open>What is sent\<close>

definition m14_pulse_events where
  "m14_pulse_events now rnd = map (m14_event \<circ> m14_pulse_customer now rnd) (List.enumerate 0 m14_bodies)"

definition m14_pulse_delivers where
  "m14_pulse_delivers v es ms \<longleftrightarrow> (\<forall>m \<in> set ms. \<exists>e \<in> set es. v14_unmarshal v (jm_data m) = Inr e)"

definition m14_pulse_inv where
  "m14_pulse_inv es p \<longleftrightarrow> m14_accounts (pr_cons p) \<and> distinct (m14_sent_ids (pr_cons p))
     \<and> set (m14_sent_ids (pr_cons p)) = m14_handled (pr_cons p) \<and> set (g14_sent (pr_cons p)) \<subseteq> set es"

lemma m14_pulse_work_cons:
  "pr_cons (m14_pulse_work v ms p) = snd (deliver (m14_handlers (v14_publish v) (v14_unmarshal v) 5 (\<lambda>_::unit. m14_Send))
     (map (Pair ()) ms) (pr_cons p))"
  by (simp add: m14_pulse_work_def m14_handlers_def [abs_def] m14_consumer_def Let_def)

lemma m14_pulse_work_inv:
  assumes "m14_pulse_inv es p" and "distinct (map e14_ID es)" and "m14_pulse_delivers v es ms"
  shows "m14_pulse_inv es (m14_pulse_work v ms p)"
    and "set (g14_sent (pr_cons p)) \<subseteq> set (g14_sent (pr_cons (m14_pulse_work v ms p)))"
    and "m \<in> set ms \<Longrightarrow> v14_unmarshal v (jm_data m) = Inr e \<Longrightarrow> e \<in> set (g14_sent (pr_cons (m14_pulse_work v ms p)))"
proof -
  let ?h = "m14_handlers (v14_publish v) (v14_unmarshal v) 5 (\<lambda>_::unit. m14_Send)"
  obtain vs c where run: "deliver ?h (map (Pair ()) ms) (pr_cons p) = (vs, c)"
    by (cases "deliver ?h (map (Pair ()) ms) (pr_cons p)")
  then have c: "pr_cons (m14_pulse_work v ms p) = c" by (simp add: m14_pulse_work_cons)
  have sound: "\<forall>(c, m) \<in> set (map (Pair ()) ms). \<exists>e \<in> set es. v14_unmarshal v (jm_data m) = Inr e"
    using assms(3) by (auto simp: m14_pulse_delivers_def)
  note inv = assms(1) [unfolded m14_pulse_inv_def]
  have acc: "m14_accounts c" "set vs \<subseteq> {Ack}" "set (g14_sent c) \<subseteq> set es"
    using m14_deliver_accounts [OF run _ sound] inv by auto
  have ids: "distinct (m14_sent_ids c)" "set (m14_sent_ids c) = m14_handled c"
    using m14.sent_once [OF run] inv by auto
  show "m14_pulse_inv es (m14_pulse_work v ms p)" using acc ids by (simp add: m14_pulse_inv_def c)
  have eq: "e = e'" if "e \<in> set es" "e' \<in> set es" "e14_ID e = e14_ID e'" for e e'
    using that assms(2) by (auto simp: distinct_map dest: inj_onD)
  show "set (g14_sent (pr_cons p)) \<subseteq> set (g14_sent (pr_cons (m14_pulse_work v ms p)))"
  proof
    fix e assume e: "e \<in> set (g14_sent (pr_cons p))"
    have "e14_ID e \<in> set (m14_sent_ids c)"
      using m14.deliver_keeps [OF run] e by (auto simp: m14_sent_ids_def)
    then obtain e' where "e' \<in> set (g14_sent c)" "e14_ID e = e14_ID e'" by (auto simp: m14_sent_ids_def)
    with eq [of e e'] e inv acc(3) show "e \<in> set (g14_sent (pr_cons (m14_pulse_work v ms p)))"
      by (auto simp: c)
  qed
  show "e \<in> set (g14_sent (pr_cons (m14_pulse_work v ms p)))"
    if m: "m \<in> set ms" "v14_unmarshal v (jm_data m) = Inr e"
  proof -
    obtain k where k: "k < length ms" "ms ! k = m" using m(1) by (auto simp: in_set_conv_nth)
    have "k < length vs" using k(1) m14.length_deliver [of "v14_publish v" "v14_unmarshal v" 5 "\<lambda>_. m14_Send"] run
      by (metis fst_conv length_map)
    then have "vs ! k = Ack" using acc(2) nth_mem by blast
    moreover have "m14_id (v14_unmarshal v) (jm_data m) = Some (e14_ID e)" using m(2) by (simp add: m14_id_def)
    ultimately have "e14_ID e \<in> m14_handled c \<or> jm_data m \<in> set (g14_dead c)"
      using m14.never_lost [OF run, of k "e14_ID e"] k by simp
    with acc(1) ids(2) have "e14_ID e \<in> set (m14_sent_ids c)" by (auto simp: m14_accounts_def)
    then obtain e' where "e' \<in> set (g14_sent c)" "e14_ID e = e14_ID e'" by (auto simp: m14_sent_ids_def)
    moreover have "e \<in> set es" using assms(3) m by (auto simp: m14_pulse_delivers_def)
    ultimately show ?thesis using eq [of e e'] acc(3) by (auto simp: c)
  qed
qed

lemma m14_pulse_step_inv:
  assumes "m14_pulse_inv es p" and "distinct (map e14_ID es)" and "m14_pulse_delivers v es (sched (fst ib))"
  shows "m14_pulse_inv es (m14_pulse_step v now rnd sched ib p)"
    and "set (g14_sent (pr_cons p)) \<subseteq> set (g14_sent (pr_cons (m14_pulse_step v now rnd sched ib p)))"
    and "m \<in> set (sched (fst ib)) \<Longrightarrow> v14_unmarshal v (jm_data m) = Inr e
      \<Longrightarrow> e \<in> set (g14_sent (pr_cons (m14_pulse_step v now rnd sched ib p)))"
proof -
  let ?p = "m14_pulse_publish v now rnd ib p"
  have inv: "m14_pulse_inv es ?p" and sent: "g14_sent (pr_cons ?p) = g14_sent (pr_cons p)"
    using assms(1)
    by (simp_all add: m14_pulse_publish_def m14_pulse_inv_def on14_def Let_def m14_accounts_def m14_sent_ids_def m14_handled_def)
  note work = m14_pulse_work_inv [OF inv assms(2,3)]
  from work(1) show "m14_pulse_inv es (m14_pulse_step v now rnd sched ib p)" by (simp add: m14_pulse_step_def)
  from work(2) show "set (g14_sent (pr_cons p)) \<subseteq> set (g14_sent (pr_cons (m14_pulse_step v now rnd sched ib p)))"
    by (simp add: m14_pulse_step_def sent)
  from work(3) show "m \<in> set (sched (fst ib)) \<Longrightarrow> v14_unmarshal v (jm_data m) = Inr e
      \<Longrightarrow> e \<in> set (g14_sent (pr_cons (m14_pulse_step v now rnd sched ib p)))"
    by (simp add: m14_pulse_step_def)
qed

lemma m14_pulse_posts_inv:
  assumes "distinct (map e14_ID es)" and "\<forall>k. m14_pulse_delivers v es (sched k)"
  shows "m14_pulse_inv es p \<Longrightarrow> m14_pulse_inv es (fold (m14_pulse_step v now rnd sched) ibs p)
      \<and> set (g14_sent (pr_cons p)) \<subseteq> set (g14_sent (pr_cons (fold (m14_pulse_step v now rnd sched) ibs p)))
      \<and> (\<forall>ib \<in> set ibs. \<forall>m \<in> set (sched (fst ib)). \<forall>e. v14_unmarshal v (jm_data m) = Inr e
           \<longrightarrow> e \<in> set (g14_sent (pr_cons (fold (m14_pulse_step v now rnd sched) ibs p))))"
proof (induction ibs arbitrary: p)
  case (Cons ib ibs)
  note step = m14_pulse_step_inv [where sched = sched and ib = ib and now = now and rnd = rnd, OF Cons.prems assms(1) spec [OF assms(2)]]
  from Cons.IH [OF step(1)] step(2,3) show ?case by auto
qed simp

text \<open>What the five requests leave of JetStream: the customers are published one after another.\<close>

lemma m14_pulse_posts_js:
  "s14_js (pr_cons (fold (m14_pulse_step v now rnd sched) ibs p))
    = fold (m14_published (v14_publish v) (v14_marshal v)) (map (m14_pulse_customer now rnd) ibs) (s14_js (pr_cons p))"
  by (induction ibs arbitrary: p)
    (simp_all add: m14_pulse_step_def m14_work_js m14_pulse_publish_def on14_def Let_def m14_published_def)

definition m14_pulse_customers where
  "m14_pulse_customers now rnd = map (m14_pulse_customer now rnd) (List.enumerate 0 m14_bodies)"

definition m14_pulse_stream where
  "m14_pulse_stream v now rnd j = fold (m14_published (v14_publish v) (v14_marshal v)) (m14_pulse_customers now rnd) j"

lemma m14_pulse_customers: "length (m14_pulse_customers now rnd) = 5"
  "map m14_ID (m14_pulse_customers now rnd) = map e14_ID (m14_pulse_events now rnd)"
  by (simp_all add: m14_pulse_customers_def m14_pulse_events_def m14_bodies_def m14_event_def)

text \<open>The deliveries of a run, and a server whose stream counts its messages.\<close>

definition m14_pulse_sound where
  "m14_pulse_sound v es sched wsched \<longleftrightarrow> (\<forall>k. m14_pulse_delivers v es (sched k) \<and> m14_pulse_delivers v es (wsched k))"

definition m14_pulse_counts where
  "m14_pulse_counts v st msgs \<longleftrightarrow> jetstream_log (v14_publish v) msgs
     \<and> (\<forall>j. v14_info v st j = Inr (int (length (msgs j))))"

text \<open>The state after the five requests, and after the wait.\<close>

lemma m14_pulse_posted:
  assumes "distinct (map e14_ID es)" and "m14_pulse_sound v es sched wsched" and "pr_cons p = m14_start w j"
  shows "m14_pulse_inv es (fold (m14_pulse_step v now rnd sched) (List.enumerate 0 m14_bodies) (m14_pulse_init j1 p))
    \<and> s14_js (pr_cons (fold (m14_pulse_step v now rnd sched) (List.enumerate 0 m14_bodies) (m14_pulse_init j1 p)))
        = m14_pulse_stream v now rnd j1
    \<and> (\<forall>ib \<in> set (List.enumerate 0 m14_bodies). \<forall>m \<in> set (sched (fst ib)). \<forall>e. v14_unmarshal v (jm_data m) = Inr e
        \<longrightarrow> e \<in> set (g14_sent (pr_cons
              (fold (m14_pulse_step v now rnd sched) (List.enumerate 0 m14_bodies) (m14_pulse_init j1 p)))))"
proof -
  have inv0: "m14_pulse_inv es (m14_pulse_init j1 p)"
    by (simp add: m14_pulse_inv_def m14_pulse_init_def assms(3) m14_start_def m14_accounts_def
        m14_NewLoggingSender_def m14_sent_ids_def m14_handled_def m14_dedup.seen_new wrap64_def)
  have "\<forall>k. m14_pulse_delivers v es (sched k)" using assms(2) by (simp add: m14_pulse_sound_def)
  note m14_pulse_posts_inv [OF assms(1) this inv0]
  moreover have "s14_js (pr_cons (m14_pulse_init j1 p)) = j1" by (simp add: m14_pulse_init_def)
  ultimately show ?thesis unfolding m14_pulse_posts_js by (simp add: m14_pulse_stream_def m14_pulse_customers_def)
qed

lemma m14_pulse_waited:
  assumes "\<forall>k. clock (Suc k) \<ge> clock k + 50 * millisecond" and "distinct (map e14_ID es)"
    and "m14_pulse_sound v es sched wsched" and "m14_pulse_inv es p1"
  obtains p2 where "m14_pulse_wait v clock wsched (clock 0 + 5 * second) (p1\<lparr>pr_turn := 1\<rparr>) = (Val (), p2)"
    and "m14_pulse_inv es p2" and "s14_js (pr_cons p2) = s14_js (pr_cons p1)"
    and "set (g14_sent (pr_cons p1)) \<subseteq> set (g14_sent (pr_cons p2))"
proof -
  let ?P = "\<lambda>p. m14_pulse_inv es p \<and> s14_js (pr_cons p) = s14_js (pr_cons p1)
      \<and> set (g14_sent (pr_cons p1)) \<subseteq> set (g14_sent (pr_cons p))"
  have sound: "\<And>k. m14_pulse_delivers v es (wsched k)" using assms(3) by (simp add: m14_pulse_sound_def)
  have turn: "?P (p\<lparr>pr_turn := k\<rparr>) = ?P p" for p k by (simp add: m14_pulse_inv_def)
  have "?P ((m14_pulse_work v (wsched k) p)\<lparr>pr_turn := Suc (pr_turn p)\<rparr>)" if "?P p" for k p
    unfolding turn using m14_pulse_work_inv(1,2) [OF _ assms(2) sound [of k], of p] that by (auto simp: m14_work_js)
  moreover have "?P (p1\<lparr>pr_turn := 1\<rparr>)" unfolding turn using assms(4) by simp
  ultimately show thesis
    using m14_wait_returns [where P = ?P and p = "p1\<lparr>pr_turn := 1\<rparr>", OF assms(1)] that by blast
qed

text \<open>The counter while the invariant holds, five events being all there are.\<close>

lemma m14_pulse_number:
  assumes "m14_pulse_inv es p" and "distinct (map e14_ID es)" and "length es = 5"
  shows "0 \<le> ls_Sent (s14_world (pr_cons p))" and "ls_Sent (s14_world (pr_cons p)) \<le> 5"
    and "set es \<subseteq> set (g14_sent (pr_cons p)) \<Longrightarrow> ls_Sent (s14_world (pr_cons p)) = 5"
proof -
  have sent: "distinct (g14_sent (pr_cons p))" "set (g14_sent (pr_cons p)) \<subseteq> set es"
    "ls_Sent (s14_world (pr_cons p)) = wrap64 (int (length (g14_sent (pr_cons p))))"
    using assms(1) by (auto simp: m14_pulse_inv_def m14_sent_ids_def m14_accounts_def distinct_map)
  have dist: "distinct es" using assms(2) by (simp add: distinct_map)
  have "length (g14_sent (pr_cons p)) \<le> 5"
    using card_mono [OF _ sent(2)] distinct_card [OF sent(1)] distinct_card [OF dist] assms(3) by simp
  then have n: "ls_Sent (s14_world (pr_cons p)) = int (length (g14_sent (pr_cons p)))"
    "ls_Sent (s14_world (pr_cons p)) \<le> 5" by (simp_all add: sent(3) wrap64_def)
  then show "0 \<le> ls_Sent (s14_world (pr_cons p))" "ls_Sent (s14_world (pr_cons p)) \<le> 5" by simp_all
  assume "set es \<subseteq> set (g14_sent (pr_cons p))"
  with sent(2) have "set (g14_sent (pr_cons p)) = set es" by blast
  then have "length (g14_sent (pr_cons p)) = 5"
    using distinct_card [OF sent(1)] distinct_card [OF dist] assms(3) by simp
  with n(1) show "ls_Sent (s14_world (pr_cons p)) = 5" by simp
qed

text \<open>C6 (functional). What the command reports, whatever publishes fail and however often and in whatever order
  its events are delivered. The stream is the one that \<open>EnsureStream\<close> yields, empty or not, after the five
  customers have been published one after another: the number of stored events reported is that of its messages,
  at most five more than there were, and exactly five more when no publish fails and no message ID was there
  before. At most five notifications are reported, and five when each event has been delivered once before the
  wait; delivering late or never, as an event that was lost is, only lowers the number.\<close>

theorem m14_pulse_output:
  assumes "m14_pulse_up v getenv nc js st q" and "\<forall>k. clock (Suc k) \<ge> clock k + 50 * millisecond"
    and "es = m14_pulse_events now rnd" and "distinct (map e14_ID es)"
    and "m14_pulse_counts v st msgs" and "m14_pulse_sound v es sched wsched"
    and "pr_cons p = m14_start w j"
  shows "\<exists>j1 before p' n. m14_EnsureStream (v14_ensure v) (v14_delete v m14_StreamName j) = (Inr st, j1)
    \<and> m14_pulse_main v getenv render now rnd sched clock wsched p = (Val (), p')
    \<and> h_out p' = before @ m14_pulse_final n (int (length (msgs (m14_pulse_stream v now rnd j1))))
    \<and> length (msgs j1) \<le> length (msgs (m14_pulse_stream v now rnd j1))
    \<and> length (msgs (m14_pulse_stream v now rnd j1)) \<le> length (msgs j1) + 5
    \<and> (m14_refused (v14_publish v) (v14_marshal v) (m14_pulse_customers now rnd) j1 = []
         \<and> (\<forall>c \<in> set (m14_pulse_customers now rnd). Some (m14_ID c) \<notin> msg_ids (msgs j1))
         \<longrightarrow> length (msgs (m14_pulse_stream v now rnd j1)) = length (msgs j1) + 5)
    \<and> 0 \<le> n \<and> n \<le> 5
    \<and> ((\<forall>e \<in> set es. \<exists>k < 5. \<exists>m \<in> set (sched k). v14_unmarshal v (jm_data m) = Inr e) \<longrightarrow> n = 5)"
proof -
  let ?ibs = "List.enumerate 0 m14_bodies"
  have start: "s14_js (pr_cons p) = j" by (simp add: assms(7) m14_start_def)
  obtain j1 where j1: "v14_ensure v \<lparr>sc_Name = m14_StreamName, sc_Subjects = [m14_SubjectCustomerAll], sc_Retention = LimitsPolicy,
      sc_MaxAge = 24 * 3600 * second\<rparr> (v14_delete v m14_StreamName j) = (Inr st, j1)"
    and run: "\<forall>p' stored. m14_pulse_wait v clock wsched (clock 0 + 5 * second)
      ((fold (m14_pulse_step v now rnd sched) ?ibs (m14_pulse_init j1 p))\<lparr>pr_turn := 1\<rparr>)
        = (Val (), p') \<longrightarrow> v14_info v st (s14_js (pr_cons p')) = Inr stored
    \<longrightarrow> m14_pulse_main v getenv render now rnd sched clock wsched p = (Val (), on14 (v14_drain v nc)
         (on14 (v14_stop v q) (m14_pulse_end (ls_Sent (s14_world (pr_cons p'))) stored p')))"
    using m14_pulse_run [OF assms(1), where p = p] unfolding start by blast
  let ?p1 = "fold (m14_pulse_step v now rnd sched) ?ibs (m14_pulse_init j1 p)"
  note posts = m14_pulse_posted [OF assms(4,6,7), of now rnd j1]
  obtain p2 where p2: "m14_pulse_wait v clock wsched (clock 0 + 5 * second) (?p1\<lparr>pr_turn := 1\<rparr>) = (Val (), p2)"
    "m14_pulse_inv es p2" "s14_js (pr_cons p2) = s14_js (pr_cons ?p1)"
    "set (g14_sent (pr_cons ?p1)) \<subseteq> set (g14_sent (pr_cons p2))"
    using m14_pulse_waited [OF assms(2,4,6) conjunct1 [OF posts]] by blast
  let ?n = "ls_Sent (s14_world (pr_cons p2))" and ?j2 = "m14_pulse_stream v now rnd j1"
  have "length es = 5" by (simp add: assms(3) m14_pulse_events_def m14_bodies_def)
  note n = m14_pulse_number [OF p2(2) assms(4) this]
  have all: "set es \<subseteq> set (g14_sent (pr_cons p2))"
    if "\<forall>e \<in> set es. \<exists>k < 5. \<exists>m \<in> set (sched k). v14_unmarshal v (jm_data m) = Inr e"
  proof
    fix e assume "e \<in> set es"
    with that obtain k m where km: "k < 5" "m \<in> set (sched k)" "v14_unmarshal v (jm_data m) = Inr e" by blast
    moreover have "fst ` set ?ibs = {..<5}" by (auto simp: m14_bodies_def)
    ultimately obtain ib where "ib \<in> set ?ibs" "fst ib = k" by (metis imageE lessThan_iff)
    with posts km p2(4) show "e \<in> set (g14_sent (pr_cons p2))" by blast
  qed
  have log: "jetstream_log (v14_publish v) msgs" and info: "v14_info v st ?j2 = Inr (int (length (msgs ?j2)))"
    using assms(5) by (simp_all add: m14_pulse_counts_def)
  have js: "s14_js (pr_cons p2) = ?j2" using p2(3) posts by simp
  note length = m14_published_length [OF log, of j1 "v14_marshal v" "m14_pulse_customers now rnd",
      folded m14_pulse_stream_def, unfolded m14_pulse_customers(1)]
  have distinct: "distinct (map m14_ID (m14_pulse_customers now rnd))" using assms(3,4) by (simp add: m14_pulse_customers(2))
  note full = m14_published_unrefused [OF log distinct, where j = j1 and marshal = "v14_marshal v",
      folded m14_pulse_stream_def, unfolded m14_pulse_customers(1)]
  have ens: "m14_EnsureStream (v14_ensure v) (v14_delete v m14_StreamName j) = (Inr st, j1)"
    using j1 by (simp add: m14_EnsureStream_def)
  from run [rule_format, OF p2(1), unfolded js, OF info]
  have out: "m14_pulse_main v getenv render now rnd sched clock wsched p = (Val (), on14 (v14_drain v nc)
      (on14 (v14_stop v q) (m14_pulse_end ?n (int (length (msgs ?j2))) p2)))" .
  show ?thesis
    by (rule exI [of _ j1], rule exI [of _ "h_out p2"], rule exI, rule exI [of _ ?n], intro conjI,
        rule ens, rule out, rule m14_pulse_end_out) (use length full n all in blast)+
qed

section \<open>A concrete run\<close>

text \<open>A server that keeps its messages in a list, events as their own payloads; the queue delivers
  everything twice after the last request, the second time in reverse.\<close>

definition demo14_services ::
  "(unit, unit, unit, m14_CustomerEvent, (string \<times> m14_CustomerEvent \<times> string option) list, unit, unit, unit) m14_services"
where
  "demo14_services = \<lparr>v14_connect = (\<lambda>url. Inr ()), v14_new = Inr, v14_drain = (\<lambda>n j. j), v14_delete = (\<lambda>nm j. []),
     v14_ensure = (\<lambda>cfg j. (Inr (), j)), v14_publish = demo14_pub, v14_create = (\<lambda>st cfg. Inr ()),
     v14_consume = (\<lambda>cons h. Inr ()), v14_stop = (\<lambda>p j. j), v14_info = (\<lambda>st j. Inr (int (length j))),
     v14_marshal = Inr, v14_unmarshal = Inr\<rparr>"

definition demo14_rnd :: "nat \<Rightarrow> nat list" where
  "demo14_rnd k = [0, 0, 0, 0, 0, k]"

definition demo14_all :: "m14_CustomerEvent jmsg list" where
  "demo14_all = map (\<lambda>e. \<lparr>jm_data = e, jm_delivered = Some 1\<rparr>) (m14_pulse_events (\<lambda>_. 0) demo14_rnd)"

definition demo14_sched :: "nat \<Rightarrow> m14_CustomerEvent jmsg list" where
  "demo14_sched k = (if k = 4 then demo14_all @ rev demo14_all else [])"

definition demo14_proc :: "(m14_CustomerEvent, (string \<times> m14_CustomerEvent \<times> string option) list) m14_proc" where
  "demo14_proc = \<lparr>h_out = [], h_err = [], pr_cons = m14_start (m14_NewLoggingSender True) [], pr_byID = [], pr_turn = 0\<rparr>"

lemma demo14_up: "m14_pulse_up demo14_services (\<lambda>k. ''nats://localhost:4222'') () () () ()"
  by (simp add: m14_pulse_up_def demo14_services_def m14_Start_def)

definition demo14_clock :: "nat \<Rightarrow> int" where
  "demo14_clock k = 50 * millisecond * int k"

lemma demo14_clock_advances: "\<forall>k. demo14_clock (Suc k) \<ge> demo14_clock k + 50 * millisecond"
  by (simp add: demo14_clock_def millisecond_def)

theorem m14_pulse_returns_witness:
  "\<exists>p'. m14_pulse_main demo14_services (\<lambda>k. ''nats://localhost:4222'') (\<lambda>_. []) (\<lambda>_. 0) demo14_rnd (\<lambda>_. []) demo14_clock
     (\<lambda>_. []) demo14_proc = (Val (), p')"
  using m14_pulse_returns [OF demo14_up demo14_clock_advances] by blast

theorem m14_pulse_output_witness:
  "\<exists>before p'. m14_pulse_main demo14_services (\<lambda>k. ''nats://localhost:4222'') (\<lambda>_. []) (\<lambda>_. 0) demo14_rnd demo14_sched
     demo14_clock (\<lambda>_. []) demo14_proc = (Val (), p') \<and> h_out p' = before @ m14_pulse_final 5 5"
proof -
  let ?es = "m14_pulse_events (\<lambda>_. 0) demo14_rnd"
  have dist: "distinct (map e14_ID ?es)"
    by (simp add: m14_pulse_events_def m14_bodies_def m14_event_def m14_pulse_customer_def demo14_rnd_def hex_encode_inject)
  have counts: "m14_pulse_counts demo14_services () (\<lambda>j. j)"
    by (auto simp: m14_pulse_counts_def demo14_services_def jetstream_log_def msg_ids_def demo14_pub_def)
  have sound: "m14_pulse_sound demo14_services ?es demo14_sched (\<lambda>_. [])"
    by (auto simp: m14_pulse_sound_def m14_pulse_delivers_def demo14_sched_def demo14_all_def demo14_services_def)
  have complete: "\<forall>e \<in> set ?es. \<exists>k < 5. \<exists>m \<in> set (demo14_sched k). v14_unmarshal demo14_services (jm_data m) = Inr e"
    by (intro ballI exI [of _ 4]) (auto simp: demo14_sched_def demo14_all_def demo14_services_def)
  have unrefused: "m14_refused (v14_publish demo14_services) (v14_marshal demo14_services) cs j = []" for cs j
    by (rule m14_refused_none) (simp add: m14_PublishCustomerCreated_def demo14_services_def demo14_pub_def)
  have "pr_cons demo14_proc = m14_start (m14_NewLoggingSender True) []" by (simp add: demo14_proc_def)
  from m14_pulse_output [OF demo14_up demo14_clock_advances refl dist counts sound this, where render = "\<lambda>_. []"]
  obtain j1 before p' n where run: "m14_EnsureStream (v14_ensure demo14_services) (v14_delete demo14_services m14_StreamName []) = (Inr (), j1)"
    "m14_pulse_main demo14_services (\<lambda>k. ''nats://localhost:4222'') (\<lambda>_. []) (\<lambda>_. 0) demo14_rnd demo14_sched
       demo14_clock (\<lambda>_. []) demo14_proc = (Val (), p')"
    "h_out p' = before @ m14_pulse_final n (int (length (m14_pulse_stream demo14_services (\<lambda>_. 0) demo14_rnd j1)))"
    "(\<forall>c \<in> set (m14_pulse_customers (\<lambda>_. 0) demo14_rnd). Some (m14_ID c) \<notin> msg_ids j1)
       \<longrightarrow> length (m14_pulse_stream demo14_services (\<lambda>_. 0) demo14_rnd j1) = length j1 + 5"
    "n = 5"
    using complete unrefused by blast
  have "j1 = []" using run(1) by (simp add: m14_EnsureStream_def demo14_services_def)
  with run show ?thesis by (intro exI [of _ before] exI [of _ p']) (simp add: msg_ids_def)
qed

end
