(* ===== verification/M14_Serving.thy ===== *)
theory M14_Serving
  imports M14_Capstone Go_Serving
begin

text \<open>
  The capstone while it runs: requests to \<open>api/handler.go\<close>, each handled by its own goroutine, and the
  consumer of \<open>events/events.go\<close>, at the same time. A request is decoded and checked, locks \<open>h.mu\<close>, stores
  the customer, unlocks, publishes the event and answers; each of these is a step, and between any two the
  other goroutines and the consumer may take theirs. The stream may deliver any of its messages at any
  time, with any delivery number. A delivery is one step: its goroutine shares with the requests only the
  connection to JetStream, which it uses at most once, in the dead-letter publish.
\<close>

section \<open>A request's pieces\<close>

text \<open>A request with the time its goroutine reads and the six random bytes.\<close>

type_synonym m14_post = "int \<times> nat list \<times> http_req"

text \<open>Up to the lock: a refusal, or the customer to store.\<close>

definition m14_check :: "m14_post \<Rightarrow> (int \<times> json) + m14_Customer" where
  "m14_check p = (case p of (now, rnd, r) \<Rightarrow>
     (case (decoder_decode None False ''createReq'' [''email'', ''name''] (rq_body r)
            :: (unit, (string \<times> string) list) go_result) of
        Inl err \<Rightarrow> Inl (400, m14_errBody ''VALIDATION'' ''invalid JSON'')
      | Inr req \<Rightarrow>
          (if \<not> contains (field req ''email'') ''@'' \<or> trim_space (field req ''name'') = []
           then Inl (400, m14_errBody ''VALIDATION'' ''email and name required'')
           else Inr \<lparr>m14_ID = ''cus_'' @ m14_randHex rnd, m14_Email = field req ''email'',
                     m14_Name = field req ''name'', m14_CreatedAt = now\<rparr>)))"

text \<open>Between the lock and the unlock; and the publish, whose error is dropped.\<close>

definition m14_put :: "m14_Customer \<Rightarrow> (string, m14_Customer) gomap \<Rightarrow> (string, m14_Customer) gomap" where
  "m14_put c m = map_put (m14_ID c) c m"

definition m14_emit ::
  "('x, 'd, 'j) publish_op \<Rightarrow> (m14_CustomerEvent \<Rightarrow> ('x, 'd) go_result) \<Rightarrow> m14_Customer \<Rightarrow> 'j \<Rightarrow> 'j" where
  "m14_emit pub marshal c j =
     snd (m14_PublishCustomerCreated pub marshal \<lparr>e14_ID = m14_ID c, e14_Email = m14_Email c,
            e14_Name = m14_Name c, e14_OccurredAt = m14_CreatedAt c\<rparr> j)"

definition m14_reply :: "m14_post \<Rightarrow> int option \<times> chunk list" where
  "m14_reply p = (case m14_check p of Inl (status, v) \<Rightarrow> (Some status, [CJson v])
     | Inr c \<Rightarrow> (Some 201, [CJson (m14_customerJSON c)]))"

text \<open>Together they are the handler.\<close>

lemma m14_create_pieces:
  "m14_create (m14_PublishCustomerCreated pub marshal) now rnd r s =
     (case m14_check (now, rnd, r) of
        Inl (status, v) \<Rightarrow> (None, m14_writeJSON status v s)
      | Inr c \<Rightarrow> (None, m14_writeJSON 201 (m14_customerJSON c)
          (s\<lparr>sv_st := (sv_st s)\<lparr>m14_byID := m14_put c (m14_byID (sv_st s)),
                                m14_js := m14_emit pub marshal c (m14_js (sv_st s))\<rparr>\<rparr>)))"
  by (simp add: m14_create_def m14_check_def m14_put_def m14_emit_def Let_def case_prod_beta split: sum.split)

definition m14_takes :: "m14_post \<Rightarrow> m14_Customer option" where
  "m14_takes p = (case p of (now, rnd, r) \<Rightarrow> m14_accepts now rnd r)"

lemma m14_takes_check: "m14_takes p = (case m14_check p of Inl _ \<Rightarrow> None | Inr c \<Rightarrow> Some c)"
  by (auto simp: m14_takes_def m14_check_def m14_accepts_def m14_randHex_def split: sum.split prod.split)

lemma m14_takes_iff: "m14_takes p = Some c \<longleftrightarrow> m14_check p = Inr c"
  by (auto simp: m14_takes_check split: sum.splits)

lemma m14_check_refuses: "m14_check p = Inl (status, v) \<Longrightarrow> status = 400"
  by (auto simp: m14_check_def split: prod.splits sum.splits if_splits)

lemma m14_reply_created:
  "m14_reply p = (Some 201, b) \<longleftrightarrow> (\<exists>c. m14_takes p = Some c \<and> b = [CJson (m14_customerJSON c)])"
  by (auto simp: m14_reply_def m14_takes_check split: sum.split dest: m14_check_refuses)

text \<open>A whole request on its own: the answer, from a fresh response, and the handler's state.\<close>

definition m14_serve_one ::
  "(m14_CustomerEvent \<Rightarrow> 'j \<Rightarrow> 'x go_error option \<times> 'j) \<Rightarrow> m14_post \<Rightarrow> 'j m14_Handler
     \<Rightarrow> (int option \<times> chunk list) \<times> 'j m14_Handler" where
  "m14_serve_one publish p h = (case p of (now, rnd, r) \<Rightarrow>
     (let s = snd (m14_Routes publish now rnd r \<lparr>sv_rw = new_rw, sv_log = [], sv_rid = 0, sv_st = h\<rparr>)
      in (answer s, sv_st s)))"

abbreviation post_of :: "m14_post \<Rightarrow> bool" where
  "post_of p \<equiv> is_post (snd (snd p))"

lemma m14_serve_one_eq:
  assumes "post_of p"
  shows "m14_serve_one (m14_PublishCustomerCreated pub marshal) p h
    = (m14_reply p, (case m14_takes p of None \<Rightarrow> h
        | Some c \<Rightarrow> h\<lparr>m14_byID := m14_put c (m14_byID h), m14_js := m14_emit pub marshal c (m14_js h)\<rparr>))"
proof -
  obtain now rnd r where p: "p = (now, rnd, r)" by (cases p)
  with assms have "rq_method r = ''POST''" "rq_path r = ''/v1/customers''" by (auto simp: is_post_def)
  note route = m14_route_create [OF this]
  have "answer \<lparr>sv_rw = new_rw, sv_log = [], sv_rid = 0, sv_st = h'\<rparr> = (None, [])" for h' :: "'a m14_Handler"
    by (simp add: answer_def new_rw_def)
  then show ?thesis
    by (auto simp: p m14_serve_one_def route m14_create_pieces m14_reply_def m14_takes_check Let_def split: sum.split)
qed

text \<open>Requests one after another, as in \<open>M14_Capstone\<close>.\<close>

lemma m14_serve_all:
  "\<forall>p \<in> set posts. post_of p \<Longrightarrow>
     sv_st (m14_serve (m14_PublishCustomerCreated pub marshal) posts s)
       = snd (serve_all (m14_serve_one (m14_PublishCustomerCreated pub marshal)) posts (sv_st s))"
proof (induction posts arbitrary: s)
  case (Cons p posts)
  obtain now rnd r where p: "p = (now, rnd, r)" by (cases p)
  with Cons.prems have "rq_method r = ''POST''" "rq_path r = ''/v1/customers''" by (auto simp: is_post_def)
  note route = m14_route_create [OF this]
  have "sv_st (snd (m14_Routes (m14_PublishCustomerCreated pub marshal) now rnd r (s\<lparr>sv_rw := new_rw\<rparr>)))
      = snd (m14_serve_one (m14_PublishCustomerCreated pub marshal) p (sv_st s))"
    using Cons.prems by (auto simp: m14_serve_one_eq p route m14_create_pieces m14_takes_check split: sum.split)
  with Cons show ?case by (simp add: p case_prod_beta Let_def)
qed simp

section \<open>Requests and deliveries as steps\<close>

datatype m14_place =
    PostArrived
  | PostLocking m14_Customer
  | PostStoring m14_Customer
  | PostUnlocking m14_Customer
  | PostPublishing m14_Customer
  | PostResponding m14_Customer
  | PostAnswered "int option \<times> chunk list"

text \<open>
  The handler's mutex and map, and the consumer's state, whose \<open>s14_js\<close> is JetStream for the publishers
  too; \<open>y_trace\<close> records the deliveries.
\<close>

record ('d, 'j) m14_running =
  y_gos :: "m14_place list"
  y_locked :: bool
  y_byID :: "(string, m14_Customer) gomap"
  y_cons :: "('d, m14_LoggingSender, 'j) m14_state"
  y_trace :: "'d jmsg list"

definition y_set :: "nat \<Rightarrow> m14_place \<Rightarrow> ('d, 'j) m14_running \<Rightarrow> ('d, 'j) m14_running" where
  "y_set i pl q = q\<lparr>y_gos := (y_gos q)[i := pl]\<rparr>"

abbreviation y_js :: "('d, 'j) m14_running \<Rightarrow> 'j" where
  "y_js q \<equiv> s14_js (y_cons q)"

inductive m14_post_step ::
  "('x, 'd, 'j) publish_op \<Rightarrow> (m14_CustomerEvent \<Rightarrow> ('x, 'd) go_result) \<Rightarrow> m14_post list
     \<Rightarrow> ('d, 'j) m14_running \<Rightarrow> ('d, 'j) m14_running \<Rightarrow> bool"
  for pub marshal posts where
  refuse: "i < length (y_gos q) \<Longrightarrow> y_gos q ! i = PostArrived \<Longrightarrow> m14_check (posts ! i) = Inl (status, v)
    \<Longrightarrow> m14_post_step pub marshal posts q (y_set i (PostAnswered (Some status, [CJson v])) q)"
| accept: "i < length (y_gos q) \<Longrightarrow> y_gos q ! i = PostArrived \<Longrightarrow> m14_check (posts ! i) = Inr c
    \<Longrightarrow> m14_post_step pub marshal posts q (y_set i (PostLocking c) q)"
| lock: "i < length (y_gos q) \<Longrightarrow> y_gos q ! i = PostLocking c \<Longrightarrow> \<not> y_locked q
    \<Longrightarrow> m14_post_step pub marshal posts q (y_set i (PostStoring c) (q\<lparr>y_locked := True\<rparr>))"
| store: "i < length (y_gos q) \<Longrightarrow> y_gos q ! i = PostStoring c
    \<Longrightarrow> m14_post_step pub marshal posts q (y_set i (PostUnlocking c) (q\<lparr>y_byID := m14_put c (y_byID q)\<rparr>))"
| unlock: "i < length (y_gos q) \<Longrightarrow> y_gos q ! i = PostUnlocking c
    \<Longrightarrow> m14_post_step pub marshal posts q (y_set i (PostPublishing c) (q\<lparr>y_locked := False\<rparr>))"
| publish: "i < length (y_gos q) \<Longrightarrow> y_gos q ! i = PostPublishing c
    \<Longrightarrow> m14_post_step pub marshal posts q
         (y_set i (PostResponding c) (q\<lparr>y_cons := (y_cons q)\<lparr>s14_js := m14_emit pub marshal c (y_js q)\<rparr>\<rparr>))"
| respond: "i < length (y_gos q) \<Longrightarrow> y_gos q ! i = PostResponding c
    \<Longrightarrow> m14_post_step pub marshal posts q
         (y_set i (PostAnswered (Some 201, [CJson (m14_customerJSON c)])) q)"

text \<open>\<open>msgs\<close> reads the stream's messages; the consumer filters on the subject.\<close>

inductive m14_deliver_step ::
  "('x, 'd, 'j) publish_op \<Rightarrow> ('d \<Rightarrow> ('x, m14_CustomerEvent) go_result)
     \<Rightarrow> ('j \<Rightarrow> (string \<times> 'd \<times> string option) list) \<Rightarrow> ('d, 'j) m14_running \<Rightarrow> ('d, 'j) m14_running \<Rightarrow> bool"
  for pub unmarshal msgs where
  deliver: "(m14_SubjectCustomerCreated, d, mid) \<in> set (msgs (y_js q))
    \<Longrightarrow> m14_handle (m14_consumer pub unmarshal) \<lparr>jm_data = d, jm_delivered = k\<rparr> (y_cons q) = (v, s)
    \<Longrightarrow> m14_deliver_step pub unmarshal msgs q
         (q\<lparr>y_cons := s, y_trace := y_trace q @ [\<lparr>jm_data = d, jm_delivered = k\<rparr>]\<rparr>)"

definition m14_run_step where
  "m14_run_step pub marshal unmarshal msgs posts q q' \<longleftrightarrow>
     m14_post_step pub marshal posts q q' \<or> m14_deliver_step pub unmarshal msgs q q'"

text \<open>The requests have arrived, the stream and the consumer are new; \<open>j\<close> is the JetStream they start from.\<close>

definition m14_run_init :: "m14_post list \<Rightarrow> 'j \<Rightarrow> ('d, 'j) m14_running" where
  "m14_run_init posts j = \<lparr>y_gos = replicate (length posts) PostArrived, y_locked = False, y_byID = [],
     y_cons = m14_start (m14_NewLoggingSender True) j, y_trace = []\<rparr>"

section \<open>The handler's invariant\<close>

text \<open>Where a goroutine is agrees with its request.\<close>

fun m14_place_ok :: "m14_post \<Rightarrow> m14_place \<Rightarrow> bool" where
  "m14_place_ok p PostArrived = True"
| "m14_place_ok p (PostLocking c) = (m14_takes p = Some c)"
| "m14_place_ok p (PostStoring c) = (m14_takes p = Some c)"
| "m14_place_ok p (PostUnlocking c) = (m14_takes p = Some c)"
| "m14_place_ok p (PostPublishing c) = (m14_takes p = Some c)"
| "m14_place_ok p (PostResponding c) = (m14_takes p = Some c)"
| "m14_place_ok p (PostAnswered a) = (a = m14_reply p)"

text \<open>Who holds the mutex, who has stored its customer, who has published it.\<close>

fun m14_inside :: "m14_place \<Rightarrow> nat" where
  "m14_inside (PostStoring c) = 1"
| "m14_inside (PostUnlocking c) = 1"
| "m14_inside pl = 0"

fun m14_past_store :: "m14_place \<Rightarrow> bool" where
  "m14_past_store PostArrived = False"
| "m14_past_store (PostLocking c) = False"
| "m14_past_store (PostStoring c) = False"
| "m14_past_store pl = True"

fun m14_past_publish :: "m14_place \<Rightarrow> bool" where
  "m14_past_publish (PostResponding c) = True"
| "m14_past_publish (PostAnswered a) = True"
| "m14_past_publish pl = False"

lemma m14_published_stored: "m14_past_publish pl \<Longrightarrow> m14_past_store pl"
  by (cases pl) auto

text \<open>The requests, among those with the property \<open>P\<close>, whose customer has a property.\<close>

definition m14_who :: "m14_post list \<Rightarrow> (m14_place \<Rightarrow> bool) \<Rightarrow> m14_place list \<Rightarrow> (nat \<times> m14_Customer) set" where
  "m14_who posts P gos = {(i, c). i < length gos \<and> P (gos ! i) \<and> m14_takes (posts ! i) = Some c}"

lemma m14_who_upd:
  assumes "i < length gos"
  shows "m14_who posts P (gos[i := pl]) = (if P pl then {(i, c) | c. m14_takes (posts ! i) = Some c} else {})
    \<union> {x \<in> m14_who posts P gos. fst x \<noteq> i}"
  using assms by (auto simp: m14_who_def nth_list_update split: if_splits)

lemma m14_who_same:
  "i < length gos \<Longrightarrow> P pl = P (gos ! i) \<Longrightarrow> m14_who posts P (gos[i := pl]) = m14_who posts P gos"
  by (auto simp: m14_who_def nth_list_update split: if_splits)

lemma m14_who_refused:
  "i < length gos \<Longrightarrow> m14_takes (posts ! i) = None \<Longrightarrow> m14_who posts P (gos[i := pl]) = m14_who posts P gos"
  by (auto simp: m14_who_def nth_list_update split: if_splits)

lemma m14_who_new:
  "i < length gos \<Longrightarrow> P pl \<Longrightarrow> \<not> P (gos ! i) \<Longrightarrow> m14_takes (posts ! i) = Some c
    \<Longrightarrow> m14_who posts P (gos[i := pl]) = insert (i, c) (m14_who posts P gos)"
  by (auto simp: m14_who_def nth_list_update split: if_splits)

definition m14_distinct :: "m14_post list \<Rightarrow> bool" where
  "m14_distinct posts \<longleftrightarrow> (\<forall>i j c d. i < length posts \<longrightarrow> j < length posts \<longrightarrow> m14_takes (posts ! i) = Some c
     \<longrightarrow> m14_takes (posts ! j) = Some d \<longrightarrow> m14_ID c = m14_ID d \<longrightarrow> i = j)"

text \<open>
  The mutex is held by the goroutine in the critical section, if any; the map has the customers stored so
  far, under their identifiers; the stream is what the publishes so far leave, in their order.
\<close>

definition m14_lock_inv :: "m14_post list \<Rightarrow> ('d, 'j) m14_running \<Rightarrow> bool" where
  "m14_lock_inv posts q \<longleftrightarrow> list_all2 m14_place_ok posts (y_gos q)
     \<and> sum_list (map m14_inside (y_gos q)) = (if y_locked q then 1 else 0)"

definition m14_map_inv :: "m14_post list \<Rightarrow> ('d, 'j) m14_running \<Rightarrow> bool" where
  "m14_map_inv posts q \<longleftrightarrow> (\<forall>x c. map_of (y_byID q) x = Some c
     \<longleftrightarrow> (\<exists>i. (i, c) \<in> m14_who posts m14_past_store (y_gos q) \<and> m14_ID c = x))"

definition m14_stream_inv where
  "m14_stream_inv pub marshal posts j q \<longleftrightarrow>
     (\<exists>ics. distinct ics \<and> set ics = m14_who posts m14_past_publish (y_gos q)
        \<and> y_js q = fold (m14_emit pub marshal \<circ> snd) ics j)"

lemmas y_defs = y_set_def m14_run_init_def

lemma m14_lock_inv_init: "m14_lock_inv posts (m14_run_init posts j)"
  by (auto simp: m14_lock_inv_def m14_run_init_def list_all2_conv_all_nth)

lemma m14_map_inv_init: "m14_map_inv posts (m14_run_init posts j)"
  by (auto simp: m14_map_inv_def m14_run_init_def m14_who_def)

lemma m14_stream_inv_init: "m14_stream_inv pub marshal posts j (m14_run_init posts j)"
  by (auto simp: m14_stream_inv_def m14_run_init_def m14_who_def m14_start_def intro!: exI [of _ "[]"])

lemma m14_places_upd:
  "list_all2 m14_place_ok posts gos \<Longrightarrow> i < length gos \<Longrightarrow> m14_place_ok (posts ! i) pl
    \<Longrightarrow> list_all2 m14_place_ok posts (gos[i := pl])"
  by (auto simp: list_all2_conv_all_nth nth_list_update)

lemma m14_place_at:
  "m14_lock_inv posts q \<Longrightarrow> i < length (y_gos q) \<Longrightarrow> y_gos q ! i = pl \<Longrightarrow> m14_place_ok (posts ! i) pl"
  by (auto simp: m14_lock_inv_def list_all2_conv_all_nth)

lemma m14_length: "m14_lock_inv posts q \<Longrightarrow> length (y_gos q) = length posts"
  by (auto simp: m14_lock_inv_def dest: list_all2_lengthD)

lemma m14_answered_reply:
  "m14_lock_inv posts q \<Longrightarrow> i < length posts \<Longrightarrow> y_gos q ! i = PostAnswered a \<Longrightarrow> a = m14_reply (posts ! i)"
  using m14_place_at [of posts q i "PostAnswered a"] by (simp add: m14_length)

text \<open>The goroutines and the mutex.\<close>

lemma m14_lock_inv_move:
  assumes "m14_lock_inv posts q" and "i < length (y_gos q)" and "m14_place_ok (posts ! i) pl"
    and "y_gos q' = (y_gos q)[i := pl]"
    and "m14_inside pl + (if y_locked q then 1 else 0) = m14_inside (y_gos q ! i) + (if y_locked q' then 1 else 0)"
  shows "m14_lock_inv posts q'"
proof -
  have "sum_list (map m14_inside ((y_gos q)[i := pl])) = (if y_locked q' then 1 else 0)"
    using sum_list_upd [OF assms(2), of m14_inside pl] assms(1,5) by (simp add: m14_lock_inv_def split: if_splits)
  then show ?thesis
    using assms(1,4) m14_places_upd [OF _ assms(2,3)] by (simp add: m14_lock_inv_def)
qed

lemma m14_inside_locked:
  assumes "m14_lock_inv posts q" and "i < length (y_gos q)" and "m14_inside (y_gos q ! i) = 1"
  shows "y_locked q"
proof (rule ccontr)
  assume "\<not> y_locked q"
  with assms(1) have "\<forall>pl \<in> set (y_gos q). m14_inside pl = 0"
    by (simp add: m14_lock_inv_def sum_list_zero_iff)
  with assms(2,3) show False by simp
qed

lemma m14_lock_inv_post:
  assumes "m14_lock_inv posts q" and "m14_post_step pub marshal posts q q'"
  shows "m14_lock_inv posts q'"
  using assms(2)
proof cases
  case (refuse i status v)
  then show ?thesis
    by (intro m14_lock_inv_move [OF assms(1), where i = i and pl = "PostAnswered (Some status, [CJson v])"])
      (simp_all add: y_set_def m14_reply_def)
next
  case (accept i c)
  then show ?thesis
    by (intro m14_lock_inv_move [OF assms(1), where i = i and pl = "PostLocking c"]) (simp_all add: y_set_def m14_takes_iff)
next
  case (lock i c)
  with m14_place_at [OF assms(1) lock(2,3)] show ?thesis
    by (intro m14_lock_inv_move [OF assms(1), where i = i and pl = "PostStoring c"]) (simp_all add: y_set_def)
next
  case (store i c)
  with m14_place_at [OF assms(1) store(2,3)] show ?thesis
    by (intro m14_lock_inv_move [OF assms(1), where i = i and pl = "PostUnlocking c"]) (simp_all add: y_set_def)
next
  case (unlock i c)
  then have "y_locked q" by (intro m14_inside_locked [OF assms(1), of i]) simp_all
  with unlock m14_place_at [OF assms(1) unlock(2,3)] show ?thesis
    by (intro m14_lock_inv_move [OF assms(1), where i = i and pl = "PostPublishing c"]) (simp_all add: y_set_def)
next
  case (publish i c)
  with m14_place_at [OF assms(1) publish(2,3)] show ?thesis
    by (intro m14_lock_inv_move [OF assms(1), where i = i and pl = "PostResponding c"]) (simp_all add: y_set_def)
next
  case (respond i c)
  from m14_place_at [OF assms(1) respond(2,3)] have "m14_check (posts ! i) = Inr c" by (simp add: m14_takes_iff)
  with respond show ?thesis
    by (intro m14_lock_inv_move [OF assms(1), where i = i and pl = "PostAnswered (Some 201, [CJson (m14_customerJSON c)])"])
      (simp_all add: y_set_def m14_reply_def)
qed

text \<open>A step that changes neither the set of requests past a point nor, then, what they did.\<close>

lemma m14_who_post:
  assumes "m14_lock_inv posts q" and "m14_post_step pub marshal posts q q'"
  obtains (stores) i c where "i < length (y_gos q)" "y_gos q ! i = PostStoring c" "m14_takes (posts ! i) = Some c"
      "q' = y_set i (PostUnlocking c) (q\<lparr>y_byID := m14_put c (y_byID q)\<rparr>)"
  | (publishes) i c where "i < length (y_gos q)" "y_gos q ! i = PostPublishing c" "m14_takes (posts ! i) = Some c"
      "q' = y_set i (PostResponding c) (q\<lparr>y_cons := (y_cons q)\<lparr>s14_js := m14_emit pub marshal c (y_js q)\<rparr>\<rparr>)"
  | (moves) "m14_who posts m14_past_store (y_gos q') = m14_who posts m14_past_store (y_gos q)"
      "m14_who posts m14_past_publish (y_gos q') = m14_who posts m14_past_publish (y_gos q)"
      "y_byID q' = y_byID q" "y_cons q' = y_cons q"
  using assms(2)
proof cases
  case (refuse i status v)
  then have "m14_takes (posts ! i) = None" by (simp add: m14_takes_check)
  with refuse show ?thesis by (intro moves) (simp_all add: y_set_def m14_who_refused)
next
  case (store i c)
  with m14_place_at [OF assms(1) store(2,3)] show ?thesis by (intro stores) simp_all
next
  case (publish i c)
  with m14_place_at [OF assms(1) publish(2,3)] show ?thesis by (intro publishes) simp_all
qed (rule moves; simp add: y_set_def m14_who_same)+

lemma m14_map_inv_post:
  assumes "m14_lock_inv posts q" and "m14_map_inv posts q" and "m14_distinct posts"
    and "m14_post_step pub marshal posts q q'"
  shows "m14_map_inv posts q'"
  using assms(1,4)
proof (cases rule: m14_who_post)
  case (stores i c)
  let ?who = "m14_who posts m14_past_store"
  have who: "?who ((y_gos q)[i := PostUnlocking c]) = insert (i, c) (?who (y_gos q))"
    by (rule m14_who_new) (use stores in auto)
  have "length (y_gos q) = length posts" using m14_length [OF assms(1)] by simp
  then have "k = i" if "(k, d) \<in> ?who (y_gos q)" and "m14_ID d = m14_ID c" for k d
    using that assms(3) stores(1,3) unfolding m14_who_def m14_distinct_def by simp
  then have new: "(k, d) \<notin> ?who (y_gos q)" if "m14_ID d = m14_ID c" for k d
    using that stores(2) by (force simp: m14_who_def)
  show ?thesis
    using assms(2) new unfolding stores(4) m14_map_inv_def by (auto simp: who m14_put_def y_set_def)
next
  case (publishes i c)
  then show ?thesis using assms(2) by (simp add: m14_map_inv_def y_set_def m14_who_same)
qed (use assms(2) in \<open>simp add: m14_map_inv_def\<close>)

lemma m14_stream_inv_post:
  assumes "m14_lock_inv posts q" and "m14_stream_inv pub marshal posts j q" and "m14_post_step pub marshal posts q q'"
  shows "m14_stream_inv pub marshal posts j q'"
  using assms(1,3)
proof (cases rule: m14_who_post)
  case (publishes i c)
  let ?who = "m14_who posts m14_past_publish"
  from assms(2) obtain ics where ics: "distinct ics" "set ics = ?who (y_gos q)"
    "y_js q = fold (m14_emit pub marshal \<circ> snd) ics j" by (auto simp: m14_stream_inv_def)
  have "?who ((y_gos q)[i := PostResponding c]) = insert (i, c) (?who (y_gos q))"
    by (rule m14_who_new) (use publishes in auto)
  moreover have "(i, c) \<notin> ?who (y_gos q)" using publishes(2) by (simp add: m14_who_def)
  ultimately show ?thesis using ics publishes(4)
    by (auto simp: m14_stream_inv_def y_set_def intro!: exI [of _ "ics @ [(i, c)]"])
next
  case (stores i c)
  then show ?thesis using assms(2) by (simp add: m14_stream_inv_def y_set_def m14_who_same)
qed (use assms(2) in \<open>simp add: m14_stream_inv_def\<close>)

section \<open>The consumer\<close>

text \<open>
  With its logging sender, which never fails, the consumer does not use JetStream: its state is that of
  \<open>deliver\<close> on the deliveries so far, whatever has been published between them.
\<close>

abbreviation m14_delivers where
  "m14_delivers pub unmarshal \<equiv> m14_handlers pub unmarshal 5 (\<lambda>_ :: nat. m14_Send)"

lemma m14_consumer_handles: "m14_handle (m14_consumer pub unmarshal) = m14_delivers pub unmarshal 0"
  by (simp add: m14_handlers_def m14_consumer_def)

lemma m14_handle_js:
  "m14_delivers pub unmarshal c m (s\<lparr>s14_js := j\<rparr>)
     = (let (v, s') = m14_delivers pub unmarshal c m s in (v, s'\<lparr>s14_js := j\<rparr>))"
  "s14_js (snd (m14_delivers pub unmarshal c m s)) = s14_js s"
  by (simp_all add: m14_handlers_def m14_handle_def m14_Send_def Let_def split: sum.split)

definition m14_cons_inv where
  "m14_cons_inv pub unmarshal msgs j q \<longleftrightarrow>
     (y_cons q)\<lparr>s14_js := j\<rparr> = snd (deliver (m14_delivers pub unmarshal) (map (Pair 0) (y_trace q))
                                     (m14_start (m14_NewLoggingSender True) j))
     \<and> (\<forall>m \<in> set (y_trace q). \<exists>mid. (m14_SubjectCustomerCreated, jm_data m, mid) \<in> set (msgs (y_js q)))"

lemma m14_cons_inv_init: "m14_cons_inv pub unmarshal msgs j (m14_run_init posts j)"
  by (simp add: m14_cons_inv_def m14_run_init_def m14_start_def)

lemma m14_emit_published: "m14_emit pub marshal = m14_published pub marshal"
  by (simp add: m14_emit_def m14_published_def m14_event_def fun_eq_iff)

lemma m14_emit_keeps:
  assumes "jetstream_log pub msgs"
  shows "set (msgs j) \<subseteq> set (msgs (m14_emit pub marshal c j))"
  unfolding m14_emit_published
  by (rule m14_published_one [OF assms, where c = c and j = j and marshal = marshal]) auto

lemma m14_cons_inv_post:
  assumes "m14_cons_inv pub unmarshal msgs j q" and "jetstream_log pub msgs" and "m14_post_step pub marshal posts q q'"
  shows "m14_cons_inv pub unmarshal msgs j q'"
proof -
  have "(y_cons q')\<lparr>s14_js := j\<rparr> = (y_cons q)\<lparr>s14_js := j\<rparr> \<and> y_trace q' = y_trace q \<and> set (msgs (y_js q)) \<subseteq> set (msgs (y_js q'))"
    using assms(3) by cases (use m14_emit_keeps [OF assms(2)] in \<open>auto simp: y_set_def\<close>)
  with assms(1) show ?thesis by (fastforce simp: m14_cons_inv_def)
qed

lemma m14_cons_inv_deliver:
  assumes "m14_cons_inv pub unmarshal msgs j q" and "m14_deliver_step pub unmarshal msgs q q'"
  shows "m14_cons_inv pub unmarshal msgs j q'"
  using assms(2)
proof cases
  case (deliver d mid k v s)
  let ?m = "\<lparr>jm_data = d, jm_delivered = k\<rparr>"
  have h: "m14_delivers pub unmarshal 0 ?m (y_cons q) = (v, s)" using deliver(3) by (simp add: m14_consumer_handles)
  then have js: "s14_js s = y_js q" by (metis m14_handle_js(2) snd_conv)
  have "s\<lparr>s14_js := j\<rparr> = snd (m14_delivers pub unmarshal 0 ?m ((y_cons q)\<lparr>s14_js := j\<rparr>))"
    by (simp add: m14_handle_js h)
  with assms(1) deliver(1,2) js show ?thesis
    by (auto simp: m14_cons_inv_def deliver_append Let_def case_prod_beta)
qed

text \<open>A delivery leaves the requests and JetStream alone.\<close>

lemma m14_deliver_frame:
  assumes "m14_deliver_step pub unmarshal msgs q q'"
  shows "y_gos q' = y_gos q \<and> y_locked q' = y_locked q \<and> y_byID q' = y_byID q \<and> y_js q' = y_js q"
  using assms
proof cases
  case (deliver d mid k v s)
  then have "s14_js s = y_js q" by (metis m14_consumer_handles m14_handle_js(2) snd_conv)
  with deliver(1) show ?thesis by simp
qed

lemma m14_deliver_keeps:
  assumes "m14_deliver_step pub unmarshal msgs q q'"
  shows "m14_lock_inv posts q \<Longrightarrow> m14_lock_inv posts q'" and "m14_map_inv posts q \<Longrightarrow> m14_map_inv posts q'"
    and "m14_stream_inv pub marshal posts j q \<Longrightarrow> m14_stream_inv pub marshal posts j q'"
  using m14_deliver_frame [OF assms] by (simp_all add: m14_lock_inv_def m14_map_inv_def m14_stream_inv_def)

section \<open>The running program\<close>

text \<open>What is relied on: identifiers do not repeat, and a publish adds its message to the stream or nothing.\<close>

definition m14_run_inv where
  "m14_run_inv pub marshal unmarshal msgs posts j q \<longleftrightarrow>
     m14_lock_inv posts q \<and> m14_stream_inv pub marshal posts j q
     \<and> (m14_distinct posts \<longrightarrow> m14_map_inv posts q)
     \<and> (jetstream_log pub msgs \<longrightarrow> m14_cons_inv pub unmarshal msgs j q)"

interpretation m14_running: step_system "m14_run_step pub marshal unmarshal msgs posts" "m14_run_init posts j"
    "m14_run_inv pub marshal unmarshal msgs posts j"
  for pub marshal unmarshal msgs posts j
proof (unfold_locales, goal_cases)
  case 1
  show ?case
    by (simp add: m14_run_inv_def m14_lock_inv_init m14_stream_inv_init m14_map_inv_init m14_cons_inv_init)
next
  case (2 q q')
  then show ?case
    unfolding m14_run_step_def m14_run_inv_def
    using m14_lock_inv_post m14_stream_inv_post m14_map_inv_post m14_cons_inv_post
      m14_deliver_keeps m14_cons_inv_deliver by metis
qed

section \<open>Every request is answered\<close>

fun m14_left :: "m14_place \<Rightarrow> nat" where
  "m14_left PostArrived = 6"
| "m14_left (PostLocking c) = 5"
| "m14_left (PostStoring c) = 4"
| "m14_left (PostUnlocking c) = 3"
| "m14_left (PostPublishing c) = 2"
| "m14_left (PostResponding c) = 1"
| "m14_left (PostAnswered a) = 0"

abbreviation m14_to_go :: "('d, 'j) m14_running \<Rightarrow> nat" where
  "m14_to_go q \<equiv> sum_list (map m14_left (y_gos q))"

lemma m14_post_less: "m14_post_step pub marshal posts q q' \<Longrightarrow> m14_to_go q' < m14_to_go q"
proof -
  have move: "sum_list (map m14_left ((y_gos q)[i := pl])) < m14_to_go q"
    if "i < length (y_gos q)" "m14_left pl < m14_left (y_gos q ! i)" for i pl
    using sum_list_upd [OF that(1), of m14_left pl] that(2) by simp
  show "m14_post_step pub marshal posts q q' \<Longrightarrow> ?thesis"
    by (cases rule: m14_post_step.cases) (auto simp: y_set_def intro!: move)
qed

lemma m14_run_less:
  assumes "m14_run_step pub marshal unmarshal msgs posts q q'"
  shows "m14_to_go q' + (if m14_post_step pub marshal posts q q' then 1 else 0) \<le> m14_to_go q"
  using assms m14_post_less m14_deliver_frame unfolding m14_run_step_def by fastforce

text \<open>Among any first steps of a run, those of requests are at most as many as are left to make.\<close>

lemma m14_posts_bounded:
  assumes "\<forall>k < n. m14_run_step pub marshal unmarshal msgs posts (f k) (f (Suc k))"
  shows "card {k. k < n \<and> m14_post_step pub marshal posts (f k) (f (Suc k))} + m14_to_go (f n) \<le> m14_to_go (f 0)"
  using assms
proof (induction n)
  case (Suc n)
  let ?S = "\<lambda>n. {k. k < n \<and> m14_post_step pub marshal posts (f k) (f (Suc k))}"
  have "?S (Suc n) = (if m14_post_step pub marshal posts (f n) (f (Suc n)) then insert n (?S n) else ?S n)"
    by (auto simp: less_Suc_eq)
  moreover have "finite (?S n)" "n \<notin> ?S n" by auto
  ultimately have "card (?S (Suc n)) = card (?S n) + (if m14_post_step pub marshal posts (f n) (f (Suc n)) then 1 else 0)"
    by simp
  with Suc m14_run_less [of pub marshal unmarshal msgs posts "f n" "f (Suc n)"] show ?case by fastforce
qed simp

lemma m14_some_step:
  assumes "m14_lock_inv posts q" and "i < length (y_gos q)" and "\<forall>a. y_gos q ! i \<noteq> PostAnswered a"
  shows "\<exists>q'. m14_post_step pub marshal posts q q'"
proof (cases "y_locked q")
  case True
  then have "\<not> (\<forall>pl \<in> set (y_gos q). m14_inside pl = 0)"
    using assms(1) unfolding sum_list_zero_iff [symmetric] m14_lock_inv_def by simp
  then obtain k where k: "k < length (y_gos q)" "m14_inside (y_gos q ! k) \<noteq> 0" by (auto simp: in_set_conv_nth)
  then show ?thesis by (cases "y_gos q ! k") (auto intro: m14_post_step.store m14_post_step.unlock)
next
  case False
  show ?thesis
  proof (cases "y_gos q ! i")
    case PostArrived
    show ?thesis
    proof (cases "m14_check (posts ! i)")
      case (Inl e)
      then obtain status v where "m14_check (posts ! i) = Inl (status, v)" by (cases e) auto
      with assms(2) PostArrived show ?thesis by (blast intro: m14_post_step.refuse)
    next
      case (Inr c)
      with assms(2) PostArrived show ?thesis by (blast intro: m14_post_step.accept)
    qed
  qed (use assms(2,3) False in \<open>blast intro: m14_post_step.lock m14_post_step.store m14_post_step.unlock
    m14_post_step.publish m14_post_step.respond\<close>)+
qed

text \<open>The next step of a goroutine, if it has one.\<close>

definition m14_next ::
  "('x, 'd, 'j) publish_op \<Rightarrow> (m14_CustomerEvent \<Rightarrow> ('x, 'd) go_result) \<Rightarrow> m14_post list \<Rightarrow> nat
     \<Rightarrow> ('d, 'j) m14_running \<Rightarrow> ('d, 'j) m14_running option" where
  "m14_next pub marshal posts i q =
     (case y_gos q ! i of
        PostArrived \<Rightarrow> Some (case m14_check (posts ! i) of
            Inl (status, v) \<Rightarrow> y_set i (PostAnswered (Some status, [CJson v])) q
          | Inr c \<Rightarrow> y_set i (PostLocking c) q)
      | PostLocking c \<Rightarrow> if y_locked q then None else Some (y_set i (PostStoring c) (q\<lparr>y_locked := True\<rparr>))
      | PostStoring c \<Rightarrow> Some (y_set i (PostUnlocking c) (q\<lparr>y_byID := m14_put c (y_byID q)\<rparr>))
      | PostUnlocking c \<Rightarrow> Some (y_set i (PostPublishing c) (q\<lparr>y_locked := False\<rparr>))
      | PostPublishing c \<Rightarrow> Some (y_set i (PostResponding c)
            (q\<lparr>y_cons := (y_cons q)\<lparr>s14_js := m14_emit pub marshal c (y_js q)\<rparr>\<rparr>))
      | PostResponding c \<Rightarrow> Some (y_set i (PostAnswered (Some 201, [CJson (m14_customerJSON c)])) q)
      | PostAnswered a \<Rightarrow> None)"

lemma m14_post_step_iff:
  "m14_post_step pub marshal posts q q' \<longleftrightarrow> (\<exists>i < length (y_gos q). m14_next pub marshal posts i q = Some q')"
proof
  show "m14_post_step pub marshal posts q q' \<Longrightarrow> \<exists>i < length (y_gos q). m14_next pub marshal posts i q = Some q'"
    by (cases rule: m14_post_step.cases) (auto simp: m14_next_def)
next
  assume "\<exists>i < length (y_gos q). m14_next pub marshal posts i q = Some q'"
  then obtain i where i: "i < length (y_gos q)" "m14_next pub marshal posts i q = Some q'" by blast
  then show "m14_post_step pub marshal posts q q'"
    by (auto simp: m14_next_def split: m14_place.splits sum.splits prod.splits if_splits intro: m14_post_step.intros)
qed

primrec m14_schedule where
  "m14_schedule pub marshal posts [] q = Some q"
| "m14_schedule pub marshal posts (i # is) q =
     (if i < length (y_gos q) then Option.bind (m14_next pub marshal posts i q) (m14_schedule pub marshal posts is) else None)"

lemma m14_schedule_run:
  "m14_schedule pub marshal posts is q = Some q' \<Longrightarrow> (m14_run_step pub marshal unmarshal msgs posts)\<^sup>*\<^sup>* q q'"
proof (induction "is" arbitrary: q)
  case (Cons i "is")
  then obtain q1 where q1: "i < length (y_gos q)" "m14_next pub marshal posts i q = Some q1"
    "m14_schedule pub marshal posts is q1 = Some q'" by (auto simp: bind_eq_Some_conv split: if_splits)
  then have "m14_run_step pub marshal unmarshal msgs posts q q1"
    unfolding m14_run_step_def m14_post_step_iff by blast
  then show ?case using Cons.IH [OF q1(3)] by (rule rtranclp_step)
qed simp

lemma m14_run_lock: "(m14_run_step pub marshal unmarshal msgs posts)\<^sup>*\<^sup>* (m14_run_init posts j) q \<Longrightarrow> m14_lock_inv posts q"
  using m14_running.reach_inv [where pub = pub and marshal = marshal and unmarshal = unmarshal and msgs = msgs]
  by (auto simp: m14_run_inv_def)

text \<open>C5 (liveness). Requests to the capstone's API that arrive together are all answered, however the
  scheduler interleaves them with each other and with deliveries to the consumer: until then a goroutine of
  one of them can take a step, and together they take at most six each. The answers are those of the
  requests alone.\<close>

theorem m14_requests_answered:
  assumes "(m14_run_step pub marshal unmarshal msgs posts)\<^sup>*\<^sup>* (m14_run_init posts j) q"
  shows "((\<forall>i < length posts. y_gos q ! i = PostAnswered (m14_reply (posts ! i)))
      \<or> (\<exists>q'. m14_post_step pub marshal posts q q'))
    \<and> (\<forall>f n. f 0 = q \<and> (\<forall>k < n. m14_run_step pub marshal unmarshal msgs posts (f k) (f (Suc k)))
        \<longrightarrow> card {k. k < n \<and> m14_post_step pub marshal posts (f k) (f (Suc k))} \<le> 6 * length posts)"
proof
  have inv: "m14_lock_inv posts q" by (rule m14_run_lock [OF assms])
  show "(\<forall>i < length posts. y_gos q ! i = PostAnswered (m14_reply (posts ! i))) \<or> (\<exists>q'. m14_post_step pub marshal posts q q')"
  proof (cases "\<exists>i < length posts. \<forall>a. y_gos q ! i \<noteq> PostAnswered a")
    case True
    then show ?thesis using m14_some_step [OF inv] m14_length [OF inv] by metis
  next
    case False
    with m14_answered_reply [OF inv] show ?thesis by metis
  qed
  have "m14_left pl \<le> 6" for pl by (cases pl) auto
  then have "m14_to_go q \<le> 6 * length (y_gos q)"
    using sum_list_mono [of "y_gos q" m14_left "\<lambda>_. 6"] by (simp add: sum_list_triv)
  then have most: "m14_to_go q \<le> 6 * length posts" by (simp add: m14_length [OF inv])
  show "\<forall>f n. f 0 = q \<and> (\<forall>k < n. m14_run_step pub marshal unmarshal msgs posts (f k) (f (Suc k)))
        \<longrightarrow> card {k. k < n \<and> m14_post_step pub marshal posts (f k) (f (Suc k))} \<le> 6 * length posts"
  proof (intro allI impI, elim conjE)
    fix f :: "nat \<Rightarrow> ('a, 'b) m14_running" and n
    assume f: "f 0 = q" "\<forall>k < n. m14_run_step pub marshal unmarshal msgs posts (f k) (f (Suc k))"
    from m14_posts_bounded [OF f(2)] most show "card {k. k < n \<and> m14_post_step pub marshal posts (f k) (f (Suc k))} \<le> 6 * length posts"
      unfolding f(1) by linarith
  qed
qed

section \<open>The order of the publishes\<close>

lemma m14_accepted_eq: "m14_accepted posts = List.map_filter m14_takes posts"
  by (induction posts rule: m14_accepted.induct) (auto simp: m14_takes_def map_filter_simps split: option.splits)

lemma m14_takes_accepted: "p \<in> set posts \<Longrightarrow> m14_takes p = Some c \<Longrightarrow> c \<in> set (m14_accepted posts)"
  by (force simp: m14_accepted_eq map_filter_def)

lemma m14_distinctI: "distinct (map m14_ID (m14_accepted posts)) \<Longrightarrow> m14_distinct posts"
proof (induction posts)
  case (Cons p posts)
  have IH: "m14_distinct posts"
    using Cons by (auto simp: m14_accepted_eq map_filter_simps split: option.splits)
  have new: "m14_ID c \<noteq> m14_ID d" if "m14_takes p = Some c" "k < length posts" "m14_takes (posts ! k) = Some d" for c d k
    using Cons.prems that m14_takes_accepted [of "posts ! k" posts d]
    by (auto simp: m14_accepted_eq map_filter_simps)
  show ?case
    unfolding m14_distinct_def
  proof (intro allI impI)
    fix i k c d
    assume "i < length (p # posts)" "k < length (p # posts)" "m14_takes ((p # posts) ! i) = Some c"
      "m14_takes ((p # posts) ! k) = Some d" "m14_ID c = m14_ID d"
    with IH new show "i = k"
      by (cases i; cases k) (fastforce simp: m14_distinct_def)+
  qed
qed (simp add: m14_distinct_def)

lemma m14_serve_all_eq:
  "\<forall>p \<in> set ps. post_of p \<Longrightarrow>
    serve_all (m14_serve_one (m14_PublishCustomerCreated pub marshal)) ps h
      = (map m14_reply ps, h\<lparr>m14_byID := fold m14_put (m14_accepted ps) (m14_byID h),
          m14_js := fold (m14_emit pub marshal) (m14_accepted ps) (m14_js h)\<rparr>)"
  by (induction ps arbitrary: h)
    (auto simp: m14_accepted_eq map_filter_simps m14_serve_one_eq Let_def split: option.split)

lemma m14_lookup_fold:
  assumes "distinct (map m14_ID cs)"
  shows "map_of (fold m14_put cs []) x = Some c \<longleftrightarrow> c \<in> set cs \<and> m14_ID c = x"
  using assms
proof (induction cs rule: rev_induct)
  case (snoc d cs)
  then show ?case by (auto simp: m14_put_def) (metis image_eqI)
qed simp

text \<open>Requests by their numbers, the accepted ones first.\<close>

definition m14_order :: "m14_post list \<Rightarrow> (nat \<times> m14_Customer) list \<Rightarrow> nat list" where
  "m14_order posts ics = map fst ics @ filter (\<lambda>i. m14_takes (posts ! i) = None) [0..<length posts]"

lemma m14_order:
  assumes "distinct ics" and "set ics = {(i, c). i < length posts \<and> m14_takes (posts ! i) = Some c}"
  shows "distinct (m14_order posts ics)" and "set (m14_order posts ics) = {..<length posts}"
    and "m14_accepted (map ((!) posts) (m14_order posts ics)) = map snd ics"
proof -
  have "inj_on fst (set ics)" by (rule inj_onI) (auto simp: assms(2))
  then show "distinct (m14_order posts ics)"
    using assms by (auto simp: m14_order_def distinct_map)
  show "set (m14_order posts ics) = {..<length posts}"
    using assms(2) by (force simp: m14_order_def image_iff)
  have "\<forall>(i, c) \<in> set ics. m14_takes (posts ! i) = Some c" by (auto simp: assms(2))
  then have "m14_accepted (map ((!) posts) (map fst ics)) = map snd ics"
    by (induction ics) (auto simp: m14_accepted_eq map_filter_simps)
  moreover have "m14_accepted (map ((!) posts) (filter (\<lambda>i. m14_takes (posts ! i) = None) [0..<length posts])) = []"
    by (auto simp: m14_accepted_eq map_filter_def filter_empty_conv)
  ultimately show "m14_accepted (map ((!) posts) (m14_order posts ics)) = map snd ics"
    by (simp add: m14_accepted_eq m14_order_def map_filter_def)
qed

lemma m14_distinct_ids:
  assumes "m14_distinct posts" and "distinct ics" and "set ics \<subseteq> {(i, c). i < length posts \<and> m14_takes (posts ! i) = Some c}"
  shows "distinct (map (m14_ID \<circ> snd) ics)"
proof -
  have "inj_on (m14_ID \<circ> snd) (set ics)"
  proof (rule inj_onI)
    fix x y assume in_ics: "x \<in> set ics" "y \<in> set ics" and same: "(m14_ID \<circ> snd) x = (m14_ID \<circ> snd) y"
    obtain i c k d where xy: "x = (i, c)" "y = (k, d)" by (cases x; cases y)
    with in_ics assms(3) have takes: "i < length posts" "k < length posts"
      "m14_takes (posts ! i) = Some c" "m14_takes (posts ! k) = Some d" by auto
    with assms(1) same xy have "i = k" unfolding m14_distinct_def comp_def by auto
    with takes xy show "x = y" by simp
  qed
  with assms(2) show ?thesis by (simp add: distinct_map)
qed

lemma some_eqI: "(\<And>c. x = Some c \<longleftrightarrow> y = Some c) \<Longrightarrow> x = y"
  by (cases x; cases y) auto

lemma m14_answered_who:
  assumes "m14_lock_inv posts q" and "\<forall>i < length posts. \<exists>a. y_gos q ! i = PostAnswered a" and "\<forall>a. P (PostAnswered a)"
  shows "m14_who posts P (y_gos q) = {(i, c). i < length posts \<and> m14_takes (posts ! i) = Some c}"
  using assms(2,3) m14_length [OF assms(1)] unfolding m14_who_def by force

text \<open>C4 (equivalence). Requests handled at the same time, while the consumer is fed from the stream: once
  all are answered, there is an order in which the API, handling the same requests one after another,
  gives each of them the same answer, publishes to JetStream what was published and stores the same
  customers. Only the identifiers of the accepted customers are assumed to be distinct.\<close>

theorem m14_posts_serialize:
  assumes "\<forall>p \<in> set posts. post_of p" and "distinct (map m14_ID (m14_accepted posts))"
    and "(m14_run_step pub marshal unmarshal msgs posts)\<^sup>*\<^sup>* (m14_run_init posts j) q"
    and "\<forall>i < length posts. \<exists>a. y_gos q ! i = PostAnswered a"
  shows "\<exists>is as h. distinct is \<and> set is = {..<length posts}
    \<and> serve_all (m14_serve_one (m14_PublishCustomerCreated pub marshal)) (map ((!) posts) is) (m14_NewHandler j) = (as, h)
    \<and> map ((!) (y_gos q)) is = map PostAnswered as
    \<and> m14_js h = y_js q \<and> map_of (m14_byID h) = map_of (y_byID q)"
proof -
  note distinct = m14_distinctI [OF assms(2)]
  from m14_running.reach_inv [OF assms(3)] distinct have inv: "m14_lock_inv posts q"
    "m14_stream_inv pub marshal posts j q" "m14_map_inv posts q" by (simp_all add: m14_run_inv_def)
  note who = m14_answered_who [OF inv(1) assms(4)]
  obtain ics where ics: "distinct ics" "set ics = {(i, c). i < length posts \<and> m14_takes (posts ! i) = Some c}"
    "y_js q = fold (m14_emit pub marshal \<circ> snd) ics j"
    using inv(2) by (auto simp: m14_stream_inv_def who)
  let ?is = "m14_order posts ics"
  note order = m14_order [OF ics(1,2)]
  have posts: "\<forall>p \<in> set (map ((!) posts) ?is). post_of p" using assms(1) order(2) by auto
  have "distinct (map m14_ID (map snd ics))" using m14_distinct_ids [OF distinct ics(1)] ics(2) by simp
  note stored = m14_lookup_fold [OF this]
  have "map_of (y_byID q) x = Some c \<longleftrightarrow> (\<exists>i. (i, c) \<in> set ics \<and> m14_ID c = x)" for x c
    using inv(3) by (simp add: m14_map_inv_def who ics(2))
  then have "map_of (fold m14_put (map snd ics) []) x = map_of (y_byID q) x" for x
    by (intro some_eqI) (force simp: stored)
  then have byID: "map_of (fold m14_put (map snd ics) []) = map_of (y_byID q)" by blast
  have answers: "y_gos q ! i = PostAnswered (m14_reply (posts ! i))" if "i < length posts" for i
    using assms(4) that m14_answered_reply [OF inv(1)] by metis
  have "\<forall>i \<in> set ?is. y_gos q ! i = PostAnswered (m14_reply (posts ! i))" using answers order(2) by simp
  then have "map ((!) (y_gos q)) ?is = map PostAnswered (map m14_reply (map ((!) posts) ?is))" by simp
  moreover have "serve_all (m14_serve_one (m14_PublishCustomerCreated pub marshal)) (map ((!) posts) ?is) (m14_NewHandler j)
      = (map m14_reply (map ((!) posts) ?is), \<lparr>m14_byID = fold m14_put (map snd ics) [], m14_js = y_js q\<rparr>)"
    by (simp add: m14_serve_all_eq [OF posts] order(3) m14_NewHandler_def fold_map ics(3))
  ultimately show ?thesis using order(1,2) byID
    by (intro exI [of _ ?is] exI [of _ "map m14_reply (map ((!) posts) ?is)"]
      exI [of _ "\<lparr>m14_byID = fold m14_put (map snd ics) [], m14_js = y_js q\<rparr>"] conjI) simp_all
qed

text \<open>Two of the demo's requests: the first is stored first and published last.\<close>

definition demo14_two :: "m14_post list" where
  "demo14_two = take 2 demo14_posts"

definition demo14_Ada :: m14_Customer where
  "demo14_Ada = \<lparr>m14_ID = ''cus_000000000001'', m14_Email = ''ada@pulse.dev'', m14_Name = ''Ada'', m14_CreatedAt = 0\<rparr>"

definition demo14_Bob :: m14_Customer where
  "demo14_Bob = \<lparr>m14_ID = ''cus_000000000002'', m14_Email = ''bob@pulse.dev'', m14_Name = ''Bob'', m14_CreatedAt = 0\<rparr>"

definition demo14_end :: "(m14_CustomerEvent, (string \<times> m14_CustomerEvent \<times> string option) list) m14_running" where
  "demo14_end = \<lparr>y_gos = map (\<lambda>c. PostAnswered (Some 201, [CJson (m14_customerJSON c)])) [demo14_Ada, demo14_Bob],
     y_locked = False, y_byID = [(m14_ID demo14_Ada, demo14_Ada), (m14_ID demo14_Bob, demo14_Bob)],
     y_cons = m14_start (m14_NewLoggingSender True)
       (map (\<lambda>c. (m14_SubjectCustomerCreated, m14_event c, Some (m14_ID c))) [demo14_Bob, demo14_Ada]),
     y_trace = []\<rparr>"

lemma demo14_check:
  "m14_check (0, [0, 0, 0, 0, 0, 1], demo14_req (''ada@pulse.dev'', ''Ada'')) = Inr demo14_Ada"
  "m14_check (0, [0, 0, 0, 0, 0, 2], demo14_req (''bob@pulse.dev'', ''Bob'')) = Inr demo14_Bob"
proof -
  have "hex_encode [0, 0, 0, 0, 0, 1] = ''000000000001''" "hex_encode [0, 0, 0, 0, 0, 2] = ''000000000002''"
    by code_simp+
  then show "m14_check (0, [0, 0, 0, 0, 0, 1], demo14_req (''ada@pulse.dev'', ''Ada'')) = Inr demo14_Ada"
    "m14_check (0, [0, 0, 0, 0, 0, 2], demo14_req (''bob@pulse.dev'', ''Bob'')) = Inr demo14_Bob"
    unfolding m14_takes_iff [symmetric] m14_takes_def demo14_Ada_def demo14_Bob_def
    by (simp_all add: demo14_accepts demo14_names)
qed

lemma demo14_two:
  "demo14_two = [(0, [0, 0, 0, 0, 0, 1], demo14_req (''ada@pulse.dev'', ''Ada'')),
     (0, [0, 0, 0, 0, 0, 2], demo14_req (''bob@pulse.dev'', ''Bob''))]"
  by (simp add: demo14_two_def demo14_posts_def m14_bodies_def)

lemma demo14_two_accepted: "m14_accepted demo14_two = [demo14_Ada, demo14_Bob]"
  using demo14_check by (simp add: demo14_two m14_accepted_eq map_filter_simps m14_takes_check)

lemma demo14_emit:
  "m14_emit demo14_pub Inr c j = (if Some (m14_ID c) \<in> (snd \<circ> snd) ` set j then j
     else j @ [(m14_SubjectCustomerCreated, m14_event c, Some (m14_ID c))])"
  by (simp add: m14_emit_published m14_published_def m14_PublishCustomerCreated_def demo14_pub_def m14_event_def)

lemma demo14_run:
  "m14_schedule demo14_pub Inr demo14_two [0, 1, 0, 0, 0, 1, 1, 1, 1, 1, 0, 0] (m14_run_init demo14_two []) = Some demo14_end"
proof -
  have start: "m14_run_init demo14_two [] = (\<lparr>y_gos = [PostArrived, PostArrived], y_locked = False, y_byID = [],
      y_cons = m14_start (m14_NewLoggingSender True) [], y_trace = []\<rparr>
      :: (m14_CustomerEvent, (string \<times> m14_CustomerEvent \<times> string option) list) m14_running)"
    by (simp add: m14_run_init_def demo14_two)
  have ids: "m14_ID demo14_Ada \<noteq> m14_ID demo14_Bob" by (simp add: demo14_Ada_def demo14_Bob_def)
  show ?thesis
    unfolding start using ids demo14_check
    by (simp add: m14_next_def demo14_two y_set_def m14_put_def demo14_emit demo14_end_def m14_start_def)
qed

theorem m14_posts_serialize_witness:
  "\<exists>is as h. distinct is \<and> set is = {..<2}
    \<and> serve_all (m14_serve_one (m14_PublishCustomerCreated demo14_pub Inr)) (map ((!) demo14_two) is) (m14_NewHandler []) = (as, h)
    \<and> map (fst \<circ> snd) (m14_js h) = map m14_event [demo14_Bob, demo14_Ada]"
proof -
  have run: "(m14_run_step demo14_pub Inr Inr (\<lambda>j. j) demo14_two)\<^sup>*\<^sup>* (m14_run_init demo14_two []) demo14_end"
    by (rule m14_schedule_run [OF demo14_run])
  have posts: "\<forall>p \<in> set demo14_two. post_of p"
    by (simp add: demo14_two is_post_def demo14_req_def)
  have ids: "distinct (map m14_ID (m14_accepted demo14_two))"
    by (simp add: demo14_two_accepted demo14_Ada_def demo14_Bob_def)
  have answered: "\<forall>i < length demo14_two. \<exists>a. y_gos demo14_end ! i = PostAnswered a"
    by (simp add: demo14_two demo14_end_def less_Suc_eq)
  have "length demo14_two = 2" by (simp add: demo14_two)
  with m14_posts_serialize [OF posts ids run answered] show ?thesis
    by (auto simp: demo14_end_def m14_start_def)
qed

text \<open>The second request waits for the mutex the first one holds.\<close>

theorem m14_requests_answered_witness:
  "\<exists>q. (m14_run_step demo14_pub Inr Inr (\<lambda>j. j) demo14_two)\<^sup>*\<^sup>* (m14_run_init demo14_two []) q
    \<and> y_gos q = [PostStoring demo14_Ada, PostLocking demo14_Bob] \<and> m14_next demo14_pub Inr demo14_two 1 q = None
    \<and> (\<exists>q'. m14_post_step demo14_pub Inr demo14_two q q')"
proof -
  obtain q where q: "m14_schedule demo14_pub Inr demo14_two [0, 1, 0] (m14_run_init demo14_two []) = Some q"
    "y_gos q = [PostStoring demo14_Ada, PostLocking demo14_Bob]" "y_locked q"
    using demo14_check by (simp add: m14_run_init_def m14_next_def demo14_two y_set_def)
  from m14_schedule_run [OF q(1)]
  have run: "(m14_run_step demo14_pub Inr Inr (\<lambda>j. j) demo14_two)\<^sup>*\<^sup>* (m14_run_init demo14_two []) q" .
  have "\<not> (\<forall>i < length demo14_two. y_gos q ! i = PostAnswered (m14_reply (demo14_two ! i)))"
    by (auto simp: demo14_two q(2) intro!: exI [of _ 0])
  with m14_requests_answered [OF run] run q(2,3) show ?thesis
    by (intro exI [of _ q]) (auto simp: m14_next_def)
qed

end
