(* ===== verification/M14_Running.thy ===== *)
theory M14_Running
  imports M14_Serving
begin

text \<open>
  What the running capstone of \<open>M14_Serving\<close> guarantees: who has been welcomed has been stored, nobody is
  welcomed twice, and in the end everybody whose event reached the stream has been welcomed once. A publish may
  fail; the handler drops its error and answers 201 all the same.
\<close>

section \<open>Stored before welcomed\<close>

text \<open>A customer whose event, if it can be encoded, is decoded again as it was.\<close>

definition m14_reads_back ::
  "(m14_CustomerEvent \<Rightarrow> ('x, 'd) go_result) \<Rightarrow> ('d \<Rightarrow> ('x, m14_CustomerEvent) go_result) \<Rightarrow> m14_Customer \<Rightarrow> bool" where
  "m14_reads_back marshal unmarshal c \<longleftrightarrow>
     (case marshal (m14_event c) of Inl _ \<Rightarrow> True | Inr d \<Rightarrow> unmarshal d = Inr (m14_event c))"

text \<open>
  A reachable state: the customers published so far, in that order, their messages, and the consumer,
  which has seen some of them.
\<close>

lemma m14_reached:
  assumes "jetstream_log pub msgs" and "distinct (map m14_ID (m14_accepted posts))" and "msgs j = []"
    and "\<forall>c \<in> set (m14_accepted posts). m14_reads_back marshal unmarshal c"
    and "(m14_run_step pub marshal unmarshal msgs posts)\<^sup>*\<^sup>* (m14_run_init posts j) q"
  obtains cs kept ms vs where "distinct (map m14_ID cs)"
    and "set cs = snd ` m14_who posts m14_past_publish (y_gos q)"
    and "set cs \<subseteq> set (m14_accepted posts)"
    and "y_js q = fold (m14_published pub marshal) cs j"
    and "subseq kept cs" and "set cs \<subseteq> set kept \<union> set (m14_refused pub marshal cs j)"
    and "list_all2 (m14_message marshal) kept ms" and "msgs (y_js q) = ms"
    and "\<forall>c \<in> set cs. map_of (y_byID q) (m14_ID c) = Some c"
    and "deliver (m14_delivers pub unmarshal) (map (Pair 0) (y_trace q)) (m14_start (m14_NewLoggingSender True) j)
           = (vs, (y_cons q)\<lparr>s14_js := j\<rparr>)"
    and "\<forall>m \<in> set (y_trace q). \<exists>c \<in> set kept. unmarshal (jm_data m) = Inr (m14_event c)"
proof -
  note distinct = m14_distinctI [OF assms(2)]
  from m14_running.reach_inv [OF assms(5)] distinct assms(1) have inv: "m14_lock_inv posts q"
    "m14_stream_inv pub marshal posts j q" "m14_map_inv posts q" "m14_cons_inv pub unmarshal msgs j q"
    by (simp_all add: m14_run_inv_def)
  obtain ics where ics: "distinct ics" "set ics = m14_who posts m14_past_publish (y_gos q)"
    "y_js q = fold (m14_emit pub marshal \<circ> snd) ics j"
    using inv(2) by (auto simp: m14_stream_inv_def)
  have who: "set ics \<subseteq> {(i, c). i < length posts \<and> m14_takes (posts ! i) = Some c}"
    using ics(2) m14_length [OF inv(1)] by (auto simp: m14_who_def)
  have ids: "distinct (map m14_ID (map snd ics))" using m14_distinct_ids [OF distinct ics(1) who] by simp
  have accepted: "set (map snd ics) \<subseteq> set (m14_accepted posts)"
    using who m14_takes_accepted [OF nth_mem] by auto
  have js: "y_js q = fold (m14_published pub marshal) (map snd ics) j"
    by (simp add: ics(3) m14_emit_published fold_map)
  have fresh: "\<forall>c \<in> set (map snd ics). Some (m14_ID c) \<notin> msg_ids (msgs j)" by (simp add: assms(3) msg_ids_def)
  from m14_published_all [OF assms(1) ids fresh, of marshal] obtain kept ms where
    ms: "subseq kept (map snd ics)" "list_all2 (m14_message marshal) kept ms" "msgs (y_js q) = ms"
      "set (map snd ics) \<subseteq> set kept \<union> set (m14_refused pub marshal (map snd ics) j)"
    unfolding js assms(3) append_Nil by blast
  have stored: "\<forall>c \<in> set (map snd ics). map_of (y_byID q) (m14_ID c) = Some c"
    using inv(3) ics(2) m14_published_stored by (fastforce simp: m14_map_inv_def m14_who_def)
  have sound: "\<exists>c \<in> set kept. unmarshal (jm_data m) = Inr (m14_event c)" if m: "m \<in> set (y_trace q)" for m
  proof -
    have "\<forall>m \<in> set (y_trace q). \<exists>mid. (m14_SubjectCustomerCreated, jm_data m, mid) \<in> set ms"
      using inv(4) unfolding m14_cons_inv_def ms(3) by (rule conjunct2)
    with m obtain mid where "(m14_SubjectCustomerCreated, jm_data m, mid) \<in> set ms" by blast
    from list_all2_right [OF ms(2) this] obtain c where c: "c \<in> set kept" "marshal (m14_event c) = Inr (jm_data m)"
      by (auto simp: m14_message_def)
    then have "c \<in> set (m14_accepted posts)" using accepted list_emb_set [OF ms(1)] by blast
    with assms(4) have "unmarshal (jm_data m) = Inr (m14_event c)" using c(2) by (fastforce simp: m14_reads_back_def)
    with c(1) show ?thesis by blast
  qed
  obtain vs where "deliver (m14_delivers pub unmarshal) (map (Pair 0) (y_trace q)) (m14_start (m14_NewLoggingSender True) j)
      = (vs, (y_cons q)\<lparr>s14_js := j\<rparr>)"
    using inv(4) by (metis m14_cons_inv_def prod.collapse)
  with ids accepted js ms stored sound ics(2) show ?thesis by (intro that [of "map snd ics" kept ms vs]) auto
qed

text \<open>C3 (safety). At every moment of the running capstone, whatever publishes have failed: nobody is
  welcomed twice, and whoever has been welcomed is an accepted customer, stored under its identifier, whose
  message is in the stream. Of a request that has been answered 201 the customer is stored, and its message is
  in the stream unless the publish of the message returned an error, which the handler does not look at:
  \<open>cs\<close> are the customers published so far, one after another.\<close>

theorem m14_welcomed_stored:
  assumes "jetstream_log pub msgs" and "distinct (map m14_ID (m14_accepted posts))" and "msgs j = []"
    and "\<forall>c \<in> set (m14_accepted posts). m14_reads_back marshal unmarshal c"
    and "(m14_run_step pub marshal unmarshal msgs posts)\<^sup>*\<^sup>* (m14_run_init posts j) q"
  shows "ls_lines (s14_world (y_cons q)) = map m14_welcome (g14_sent (y_cons q))
    \<and> distinct (m14_sent_ids (y_cons q))
    \<and> (\<forall>e \<in> set (g14_sent (y_cons q)). \<exists>c \<in> set (m14_accepted posts). e = m14_event c
         \<and> map_of (y_byID q) (m14_ID c) = Some c \<and> (\<exists>m \<in> set (msgs (y_js q)). m14_message marshal c m))
    \<and> (\<exists>cs. distinct (map m14_ID cs) \<and> y_js q = fold (m14_published pub marshal) cs j
         \<and> (\<forall>i < length posts. \<forall>b. y_gos q ! i = PostAnswered (Some 201, b) \<longrightarrow>
              (\<exists>c \<in> set cs. m14_takes (posts ! i) = Some c \<and> b = [CJson (m14_customerJSON c)]
                 \<and> map_of (y_byID q) (m14_ID c) = Some c
                 \<and> (c \<in> set (m14_refused pub marshal cs j) \<or> (\<exists>m \<in> set (msgs (y_js q)). m14_message marshal c m)))))"
proof -
  obtain cs kept ms vs where r: "distinct (map m14_ID cs)" "set cs = snd ` m14_who posts m14_past_publish (y_gos q)"
    "set cs \<subseteq> set (m14_accepted posts)" "y_js q = fold (m14_published pub marshal) cs j"
    "subseq kept cs" "set cs \<subseteq> set kept \<union> set (m14_refused pub marshal cs j)"
    "list_all2 (m14_message marshal) kept ms" "msgs (y_js q) = ms"
    "\<forall>c \<in> set cs. map_of (y_byID q) (m14_ID c) = Some c"
    "deliver (m14_delivers pub unmarshal) (map (Pair 0) (y_trace q)) (m14_start (m14_NewLoggingSender True) j)
      = (vs, (y_cons q)\<lparr>s14_js := j\<rparr>)"
    "\<forall>m \<in> set (y_trace q). \<exists>c \<in> set kept. unmarshal (jm_data m) = Inr (m14_event c)"
    by (rule m14_reached [OF assms])
  have sound: "\<forall>(k, m) \<in> set (map (Pair 0) (y_trace q)). \<exists>e \<in> m14_event ` set kept. unmarshal (jm_data m) = Inr e"
    using r(11) by fastforce
  from m14_deliver_accounts [OF r(10) m14_accounts_start sound]
  have sent: "ls_lines (s14_world (y_cons q)) = map m14_welcome (g14_sent (y_cons q))"
    "set (g14_sent (y_cons q)) \<subseteq> m14_event ` set kept"
    by (simp_all add: m14_accounts_def m14_start_def)
  from m14.sent_once [OF r(10) m14_start_facts] have once: "distinct (m14_sent_ids (y_cons q))"
    by (simp add: m14_sent_ids_def)
  have streamed: "\<exists>m \<in> set (msgs (y_js q)). m14_message marshal c m" if "c \<in> set kept" for c
    using that r(8) list_all2_left [OF r(7)] by blast
  have inv: "m14_lock_inv posts q" by (rule m14_run_lock [OF assms(5)])
  have answered: "\<exists>c \<in> set cs. m14_takes (posts ! i) = Some c \<and> b = [CJson (m14_customerJSON c)]
      \<and> map_of (y_byID q) (m14_ID c) = Some c
      \<and> (c \<in> set (m14_refused pub marshal cs j) \<or> (\<exists>m \<in> set (msgs (y_js q)). m14_message marshal c m))"
    if "i < length posts" "y_gos q ! i = PostAnswered (Some 201, b)" for i b
  proof -
    have "m14_reply (posts ! i) = (Some 201, b)" using m14_answered_reply [OF inv that] by simp
    then obtain c where c: "m14_takes (posts ! i) = Some c" "b = [CJson (m14_customerJSON c)]"
      by (auto simp: m14_reply_created)
    with that have "(i, c) \<in> m14_who posts m14_past_publish (y_gos q)"
      using m14_length [OF inv] by (simp add: m14_who_def)
    then have "c \<in> set cs" using r(2) by force
    with c r(6,9) streamed show ?thesis by blast
  qed
  have welcomed: "\<exists>c \<in> set (m14_accepted posts). e = m14_event c \<and> map_of (y_byID q) (m14_ID c) = Some c
      \<and> (\<exists>m \<in> set (msgs (y_js q)). m14_message marshal c m)" if "e \<in> set (g14_sent (y_cons q))" for e
    using that sent(2) r(3,9) streamed m14_kept_in [OF r(5)] by blast
  show ?thesis
    by (intro conjI allI impI ballI sent(1) once exI [of _ cs] r(1,4)) (use welcomed answered in blast)+
qed

section \<open>Everyone is welcomed once\<close>

text \<open>A run can always go on until every request is answered and every message delivered.\<close>

lemma m14_answer_all:
  "(m14_run_step pub marshal unmarshal msgs posts)\<^sup>*\<^sup>* (m14_run_init posts j) q
    \<Longrightarrow> \<exists>q'. (m14_run_step pub marshal unmarshal msgs posts)\<^sup>*\<^sup>* q q'
         \<and> (\<forall>i < length posts. y_gos q' ! i = PostAnswered (m14_reply (posts ! i)))"
proof (induction "m14_to_go q" arbitrary: q rule: less_induct)
  case less
  have inv: "m14_lock_inv posts q" by (rule m14_run_lock [OF less.prems])
  show ?case
  proof (cases "\<exists>i < length posts. \<forall>a. y_gos q ! i \<noteq> PostAnswered a")
    case True
    then obtain q1 where q1: "m14_post_step pub marshal posts q q1"
      using m14_some_step [OF inv] m14_length [OF inv] by metis
    then have go: "m14_run_step pub marshal unmarshal msgs posts q q1" by (simp add: m14_run_step_def)
    have "(m14_run_step pub marshal unmarshal msgs posts)\<^sup>*\<^sup>* (m14_run_init posts j) q1"
      using less.prems go by (rule rtranclp.rtrancl_into_rtrancl)
    from less.hyps [OF m14_post_less [OF q1] this] obtain q2 where
      q2: "(m14_run_step pub marshal unmarshal msgs posts)\<^sup>*\<^sup>* q1 q2"
        "\<forall>i < length posts. y_gos q2 ! i = PostAnswered (m14_reply (posts ! i))" by blast
    have "(m14_run_step pub marshal unmarshal msgs posts)\<^sup>*\<^sup>* q q2" using go q2(1) by (rule rtranclp_step)
    with q2(2) show ?thesis by blast
  next
    case False
    then have "\<forall>i < length posts. y_gos q ! i = PostAnswered (m14_reply (posts ! i))"
      using m14_answered_reply [OF inv] by metis
    then show ?thesis by blast
  qed
qed

lemma m14_deliver_all:
  "\<forall>m \<in> set ms. fst m = m14_SubjectCustomerCreated \<and> m \<in> set (msgs (y_js q))
    \<Longrightarrow> \<exists>q'. (m14_run_step pub marshal unmarshal msgs posts)\<^sup>*\<^sup>* q q' \<and> y_gos q' = y_gos q \<and> y_js q' = y_js q
         \<and> set (y_trace q) \<subseteq> set (y_trace q') \<and> (\<forall>m \<in> set ms. \<exists>t \<in> set (y_trace q'). jm_data t = fst (snd m))"
proof (induction ms arbitrary: q)
  case (Cons m ms)
  let ?t = "\<lparr>jm_data = fst (snd m), jm_delivered = Some 1\<rparr>"
  obtain v s where h: "m14_handle (m14_consumer pub unmarshal) ?t (y_cons q) = (v, s)"
    by (cases "m14_handle (m14_consumer pub unmarshal) ?t (y_cons q)")
  let ?q = "q\<lparr>y_cons := s, y_trace := y_trace q @ [?t]\<rparr>"
  have "(m14_SubjectCustomerCreated, fst (snd m), snd (snd m)) \<in> set (msgs (y_js q))"
    using Cons.prems by (metis list.set_intros(1) prod.collapse)
  then have d: "m14_deliver_step pub unmarshal msgs q ?q" using h by (rule m14_deliver_step.deliver)
  then have go: "m14_run_step pub marshal unmarshal msgs posts q ?q" by (simp add: m14_run_step_def)
  from m14_deliver_frame [OF d] have js: "y_js ?q = y_js q" by blast
  from Cons.IH [of ?q] Cons.prems js obtain q' where
    q': "(m14_run_step pub marshal unmarshal msgs posts)\<^sup>*\<^sup>* ?q q'" "y_gos q' = y_gos ?q" "y_js q' = y_js ?q"
      "set (y_trace ?q) \<subseteq> set (y_trace q')" "\<forall>m \<in> set ms. \<exists>t \<in> set (y_trace q'). jm_data t = fst (snd m)" by auto
  have "?t \<in> set (y_trace q')" using q'(4) by auto
  then have "\<forall>m \<in> set (m # ms). \<exists>t \<in> set (y_trace q'). jm_data t = fst (snd m)"
    using q'(5) by (auto intro: bexI [of _ ?t])
  moreover have "(m14_run_step pub marshal unmarshal msgs posts)\<^sup>*\<^sup>* q q'" using go q'(1) by (rule rtranclp_step)
  ultimately show ?case using q'(2-4) js by (intro exI [of _ q']) auto
qed auto

lemma m14_run_completes:
  assumes "jetstream_log pub msgs" and "distinct (map m14_ID (m14_accepted posts))" and "msgs j = []"
    and "\<forall>c \<in> set (m14_accepted posts). m14_reads_back marshal unmarshal c"
    and "(m14_run_step pub marshal unmarshal msgs posts)\<^sup>*\<^sup>* (m14_run_init posts j) q"
  shows "\<exists>q'. (m14_run_step pub marshal unmarshal msgs posts)\<^sup>*\<^sup>* q q'
      \<and> (\<forall>i < length posts. \<exists>a. y_gos q' ! i = PostAnswered a)
      \<and> (\<forall>(subject, d, mid) \<in> set (msgs (y_js q')). \<exists>m \<in> set (y_trace q'). jm_data m = d)"
proof -
  obtain q1 where q1: "(m14_run_step pub marshal unmarshal msgs posts)\<^sup>*\<^sup>* q q1"
    "\<forall>i < length posts. y_gos q1 ! i = PostAnswered (m14_reply (posts ! i))"
    using m14_answer_all [OF assms(5)] by blast
  have reach: "(m14_run_step pub marshal unmarshal msgs posts)\<^sup>*\<^sup>* (m14_run_init posts j) q1"
    using assms(5) q1(1) by (rule rtranclp_trans)
  have "\<forall>m \<in> set (msgs (y_js q1)). fst m = m14_SubjectCustomerCreated \<and> m \<in> set (msgs (y_js q1))"
    by (rule m14_reached [OF assms(1-4) reach]) (auto simp: m14_message_def dest!: list_all2_right)
  from m14_deliver_all [where pub = pub and marshal = marshal and unmarshal = unmarshal and posts = posts and msgs = msgs, OF this]
  obtain q2 where
    q2: "(m14_run_step pub marshal unmarshal msgs posts)\<^sup>*\<^sup>* q1 q2" "y_gos q2 = y_gos q1" "y_js q2 = y_js q1"
      "\<forall>m \<in> set (msgs (y_js q1)). \<exists>t \<in> set (y_trace q2). jm_data t = fst (snd m)" by blast
  have "(m14_run_step pub marshal unmarshal msgs posts)\<^sup>*\<^sup>* q q2" using q1(1) q2(1) by (rule rtranclp_trans)
  with q1(2) q2(2-4) show ?thesis by (intro exI [of _ q2]) (auto simp: case_prod_beta)
qed

text \<open>C2 (functional). Whatever the interleaving of requests and deliveries, and whatever publishes fail: once
  every request has been answered and every message of the stream delivered at least once, the accepted
  customers have been published in some order \<open>cs\<close>; those whose event reached the stream, \<open>kept\<close>, have been
  welcomed exactly once and nobody else has, and the stream and the sender's counter count them. For each of the
  others the publish returned an error; its customer has been answered 201 like the rest and is never welcomed.
  When no publish fails everybody is welcomed.\<close>

theorem m14_running_welcomes:
  assumes "jetstream_log pub msgs" and "distinct (map m14_ID (m14_accepted posts))" and "msgs j = []"
    and "\<forall>c \<in> set (m14_accepted posts). m14_reads_back marshal unmarshal c"
    and "length posts \<le> 9223372036854775807"
    and "(m14_run_step pub marshal unmarshal msgs posts)\<^sup>*\<^sup>* (m14_run_init posts j) q"
    and "\<forall>i < length posts. \<exists>a. y_gos q ! i = PostAnswered a"
    and "\<forall>(subject, d, mid) \<in> set (msgs (y_js q)). \<exists>m \<in> set (y_trace q). jm_data m = d"
  shows "\<exists>cs kept. mset cs = mset (m14_accepted posts) \<and> y_js q = fold (m14_published pub marshal) cs j
    \<and> subseq kept cs \<and> set cs \<subseteq> set kept \<union> set (m14_refused pub marshal cs j)
    \<and> (m14_refused pub marshal cs j = [] \<longrightarrow> kept = cs)
    \<and> list_all2 (m14_message marshal) kept (msgs (y_js q))
    \<and> ls_Sent (s14_world (y_cons q)) = int (length kept)
    \<and> mset (ls_lines (s14_world (y_cons q))) = mset (map (m14_welcome \<circ> m14_event) kept)
    \<and> (\<forall>i < length posts. y_gos q ! i = PostAnswered (m14_reply (posts ! i)))"
proof -
  obtain cs kept ms vs where r: "distinct (map m14_ID cs)" "set cs = snd ` m14_who posts m14_past_publish (y_gos q)"
    "y_js q = fold (m14_published pub marshal) cs j"
    "subseq kept cs" "set cs \<subseteq> set kept \<union> set (m14_refused pub marshal cs j)"
    "list_all2 (m14_message marshal) kept ms" "msgs (y_js q) = ms"
    "deliver (m14_delivers pub unmarshal) (map (Pair 0) (y_trace q)) (m14_start (m14_NewLoggingSender True) j)
      = (vs, (y_cons q)\<lparr>s14_js := j\<rparr>)"
    "\<forall>m \<in> set (y_trace q). \<exists>c \<in> set kept. unmarshal (jm_data m) = Inr (m14_event c)"
    by (rule m14_reached [OF assms(1-4,6)])
  have inv: "m14_lock_inv posts q" by (rule m14_run_lock [OF assms(6)])
  have all: "set cs = set (m14_accepted posts)"
    by (force simp: r(2) m14_answered_who [OF inv assms(7)] m14_accepted_eq map_filter_def in_set_conv_nth)
  then have same: "mset cs = mset (m14_accepted posts)"
    using r(1) assms(2) by (simp add: set_eq_iff_mset_eq_distinct distinct_map)
  have ids: "distinct (map e14_ID (map m14_event kept))"
    using m14_kept_distinct [OF r(4,1)] by (simp add: comp_def m14_event_def)
  have sound: "\<forall>(k, m) \<in> set (map (Pair 0) (y_trace q)). \<exists>e \<in> set (map m14_event kept). unmarshal (jm_data m) = Inr e"
    using r(9) by fastforce
  have "\<exists>m \<in> set (y_trace q). unmarshal (jm_data m) = Inr (m14_event c)" if c: "c \<in> set kept" for c
  proof -
    from list_all2_left [OF r(6) c] obtain subject d mid where d: "(subject, d, mid) \<in> set ms" "marshal (m14_event c) = Inr d"
      by (auto simp: m14_message_def)
    have "unmarshal d = Inr (m14_event c)"
      using assms(4) m14_kept_in [OF r(4) c] all d(2) by (fastforce simp: m14_reads_back_def)
    with assms(8) r(7) d(1) show ?thesis by fastforce
  qed
  then have complete: "\<forall>e \<in> set (map m14_event kept). \<exists>(k, m) \<in> set (map (Pair (0::nat)) (y_trace q)). unmarshal (jm_data m) = Inr e"
    by fastforce
  from m14_welcome_each_once [OF r(8) ids sound complete]
  have once: "mset (g14_sent (y_cons q)) = mset (map m14_event kept)" "m14_accounts ((y_cons q)\<lparr>s14_js := j\<rparr>)" by auto
  have few: "length kept \<le> length posts"
  proof -
    have "length kept \<le> length cs" by (rule list_emb_length [OF r(4)])
    also have "\<dots> = length (m14_accepted posts)" using same by (metis size_mset)
    also have "\<dots> \<le> length posts" by (simp add: m14_accepted_eq map_filter_def)
    finally show ?thesis .
  qed
  have count: "length (g14_sent (y_cons q)) = length kept" using once(1) by (metis length_map size_mset)
  have lines: "mset (map m14_welcome (g14_sent (y_cons q))) = mset (map (m14_welcome \<circ> m14_event) kept)"
    using once(1) by (metis map_map mset_map)
  have unlost: "m14_refused pub marshal cs j = [] \<longrightarrow> kept = cs"
    using r(1,5) m14_kept_all [OF r(4)] by (auto simp: distinct_map)
  have replies: "\<forall>i < length posts. y_gos q ! i = PostAnswered (m14_reply (posts ! i))"
    using assms(7) m14_answered_reply [OF inv] by metis
  have sender: "ls_Sent (s14_world (y_cons q)) = int (length kept)"
    "mset (ls_lines (s14_world (y_cons q))) = mset (map (m14_welcome \<circ> m14_event) kept)"
    using once(2) count lines few assms(5) by (simp_all add: m14_accounts_def)
  show ?thesis
    by (rule exI [of _ cs], rule exI [of _ kept], intro conjI)
      (fact same r(3) r(4) r(5) unlost replies sender | use r(6,7) in simp)+
qed

text \<open>The two requests of \<open>M14_Serving\<close>, with a server that keeps a list of messages.\<close>

lemma demo14_reached: "(m14_run_step demo14_pub Inr Inr (\<lambda>j. j) demo14_two)\<^sup>*\<^sup>* (m14_run_init demo14_two []) demo14_end"
  by (rule m14_schedule_run [OF demo14_run])

lemma demo14_hyps:
  "jetstream_log demo14_pub (\<lambda>j. j)" "distinct (map m14_ID (m14_accepted demo14_two))"
  "\<forall>c \<in> set (m14_accepted demo14_two). m14_reads_back (Inr :: _ \<Rightarrow> (unit, _) go_result) (Inr :: _ \<Rightarrow> (unit, _) go_result) c"
  by (auto simp: jetstream_log_def msg_ids_def m14_reads_back_def demo14_pub_def demo14_two_accepted demo14_Ada_def demo14_Bob_def)

lemma demo14_unrefused: "m14_refused demo14_pub Inr cs j = []"
  by (rule m14_refused_none) (simp add: m14_PublishCustomerCreated_def demo14_pub_def)

theorem m14_welcomed_stored_witness:
  "map_of (y_byID demo14_end) (m14_ID demo14_Bob) = Some demo14_Bob
    \<and> (\<exists>m \<in> set (y_js demo14_end). m14_message (Inr :: _ \<Rightarrow> (unit, _) go_result) demo14_Bob m)"
proof -
  have two: "1 < length demo14_two" "m14_takes (demo14_two ! 1) = Some demo14_Bob"
    "y_gos demo14_end ! 1 = PostAnswered (Some 201, [CJson (m14_customerJSON demo14_Bob)])"
    using demo14_check by (simp_all add: demo14_two demo14_end_def m14_takes_check)
  from m14_welcomed_stored [OF demo14_hyps(1,2) refl demo14_hyps(3) demo14_reached, THEN conjunct2, THEN conjunct2, THEN conjunct2]
  obtain cs where answered: "\<forall>i < length demo14_two. \<forall>b. y_gos demo14_end ! i = PostAnswered (Some 201, b) \<longrightarrow>
      (\<exists>c \<in> set cs. m14_takes (demo14_two ! i) = Some c \<and> b = [CJson (m14_customerJSON c)]
         \<and> map_of (y_byID demo14_end) (m14_ID c) = Some c
         \<and> (c \<in> set (m14_refused demo14_pub (Inr :: _ \<Rightarrow> (unit, _) go_result) cs [])
            \<or> (\<exists>m \<in> set (y_js demo14_end). m14_message (Inr :: _ \<Rightarrow> (unit, _) go_result) c m)))" by blast
  from answered [rule_format, OF two(1,3)] two(2) show ?thesis by (auto simp: demo14_unrefused)
qed

theorem m14_running_welcomes_witness:
  "\<exists>q. (m14_run_step demo14_pub Inr Inr (\<lambda>j. j) demo14_two)\<^sup>*\<^sup>* demo14_end q
    \<and> ls_Sent (s14_world (y_cons q)) = 2
    \<and> mset (ls_lines (s14_world (y_cons q))) = mset (map (m14_welcome \<circ> m14_event) [demo14_Ada, demo14_Bob])"
proof -
  obtain q where q: "(m14_run_step demo14_pub Inr Inr (\<lambda>j. j) demo14_two)\<^sup>*\<^sup>* demo14_end q"
    "\<forall>i < length demo14_two. \<exists>a. y_gos q ! i = PostAnswered a"
    "\<forall>(subject, d, mid) \<in> set (y_js q). \<exists>m \<in> set (y_trace q). jm_data m = d"
    using m14_run_completes [OF demo14_hyps(1,2) refl demo14_hyps(3) demo14_reached] by auto
  have run: "(m14_run_step demo14_pub Inr Inr (\<lambda>j. j) demo14_two)\<^sup>*\<^sup>* (m14_run_init demo14_two []) q"
    using demo14_reached q(1) by (rule rtranclp_trans)
  have few: "length demo14_two \<le> 9223372036854775807" by (simp add: demo14_two)
  from m14_running_welcomes [OF demo14_hyps(1,2) refl demo14_hyps(3) few run q(2,3)]
  obtain cs where cs: "mset cs = mset [demo14_Ada, demo14_Bob]" "ls_Sent (s14_world (y_cons q)) = int (length cs)"
    "mset (ls_lines (s14_world (y_cons q))) = mset (map (m14_welcome \<circ> m14_event) cs)"
    by (auto simp: demo14_unrefused demo14_two_accepted)
  have "length cs = 2" using cs(1) by (metis One_nat_def Suc_1 length_Cons list.size(3) size_mset)
  moreover have "mset (map (m14_welcome \<circ> m14_event) cs) = mset (map (m14_welcome \<circ> m14_event) [demo14_Ada, demo14_Bob])"
    using cs(1) by (metis mset_map)
  ultimately show ?thesis using q(1) cs(2,3) by (intro exI [of _ q]) simp
qed

section \<open>A publish that fails\<close>

text \<open>
  The handler drops the error of the publish. When JetStream refuses it, or the request's context is
  cancelled meanwhile, the customer is stored and answered 201 like any other, but no message is ever
  delivered for it: whatever happens afterwards, nobody is welcomed.
\<close>

lemma m14_emit_fails:
  assumes "\<forall>subject d mid j. snd (pub subject d mid j) = j"
  shows "m14_emit pub marshal c j = j"
  using assms by (simp add: m14_emit_def m14_PublishCustomerCreated_def split: sum.split)

theorem m14_publish_lost:
  assumes "\<forall>subject d mid j. snd (pub subject d mid j) = j" and "msgs j = []"
    and "(m14_run_step pub marshal unmarshal msgs posts)\<^sup>*\<^sup>* (m14_run_init posts j) q"
  shows "g14_sent (y_cons q) = []
    \<and> (\<exists>q'. (m14_run_step pub marshal unmarshal msgs posts)\<^sup>*\<^sup>* q q'
         \<and> (\<forall>i < length posts. y_gos q' ! i = PostAnswered (m14_reply (posts ! i))) \<and> g14_sent (y_cons q') = [])"
proof -
  have unchanged: "y_js t = j \<and> g14_sent (y_cons t) = []"
    if "y_js s = j \<and> g14_sent (y_cons s) = []" "m14_run_step pub marshal unmarshal msgs posts s t" for s t
    using that(2) unfolding m14_run_step_def
  proof
    assume "m14_post_step pub marshal posts s t"
    then show ?thesis using that(1) by cases (simp_all add: y_set_def m14_emit_fails [OF assms(1)])
  next
    assume "m14_deliver_step pub unmarshal msgs s t"
    then show ?thesis using that(1) assms(2) by cases simp
  qed
  have quiet: "y_js t = j \<and> g14_sent (y_cons t) = []"
    if "(m14_run_step pub marshal unmarshal msgs posts)\<^sup>*\<^sup>* s t" "y_js s = j \<and> g14_sent (y_cons s) = []" for s t
    using that
  proof (induction rule: rtranclp_induct)
    case (step u v)
    then show ?case by (intro unchanged [of u v]) simp_all
  qed simp
  have start: "y_js (m14_run_init posts j) = j \<and> g14_sent (y_cons (m14_run_init posts j)) = []"
    by (simp add: m14_run_init_def m14_start_def)
  from m14_answer_all [OF assms(3)] obtain q' where q': "(m14_run_step pub marshal unmarshal msgs posts)\<^sup>*\<^sup>* q q'"
    "\<forall>i < length posts. y_gos q' ! i = PostAnswered (m14_reply (posts ! i))" by blast
  with quiet [OF assms(3) start] quiet [OF q'(1)] show ?thesis by blast
qed

end
