(* ===== verification/Spec2Isabelle.thy ===== *)
theory Spec2Isabelle
  imports M00_Start M01_Demo M02_Genx M02_Conc M02_Demo M03_Demo M03_Pipeline M04_Cmd M04_Serving M05_Cmd
    M05_Serving M06_Cmd M06_Customers M07_Demo M08_Workers M09_Race M09_Demo M10_Cmd M10_Serving M11_Notify M12_Main M13_Server M14_Main M14_Running
    Guarded_Stores
begin

text \<open>
  Verification of the Go course repository \<open>go-learning\<close>: the reference programs of its modules
  (the directories \<open>solution-*\<close>, the \<open>pulse\<close> service of M10, the service of M12 and the capstone
  M14), which grow one customer-notification system from first exercises to an event-driven
  slice. The learner's packages beside them hold comments only; the learner's commands (\<open>cmd/*\<close>)
  are the text of \<open>solution-cmd/*\<close> with those packages imported. Each command is modelled for any
  packages (\<open>l01_demo_main\<close> and so on, over a record of what it imports), the contract
  the exercise comments state is a locale or a predicate, what the command prints or the server it
  starts guarantees is proved from the contract, and the \<open>solution-cmd\<close> program is the instance with the reference packages, which are shown to
  keep it.

  \<^bold>\<open>How the system fits together.\<close> A customer API (M4 over chi, M10 and M14 over
  \<open>http.ServeMux\<close>) validates a request, stores the customer in a repository (M1, M4, M10 in memory,
  M6 in PostgreSQL) and maps errors to codes and HTTP statuses. Profiles are served over gRPC (M5)
  and kept in MongoDB (M7). Events go over NATS (M8) and JetStream (M9, M14) to an idempotent
  consumer whose send function is the notification dispatcher (M3).

  \<^bold>\<open>Go and its standard library.\<close> \<open>Go_Ints\<close> (64-bit wrap-around), \<open>Go_Strings\<close> (strings as
  bytes, \<open>strings\<close>, \<open>strconv\<close>, the verbs of \<open>fmt\<close>, slicing with its panic, \<open>hex\<close>), \<open>Go_Maps\<close> (maps
  as association lists with distinct keys; the order of a range loop is an argument), \<open>Go_Errors\<close>
  (\<open>errors.New/Is/As/Join\<close>, wrapping; a nil error is \<open>None\<close>), \<open>Go_Json\<close> (decoding trees into structs
  of strings), \<open>Go_Http\<close> (requests, responses, \<open>ServeMux\<close>, the slog levels), \<open>Go_Time\<close> (instants and
  durations in nanoseconds, RFC 3339), \<open>Go_Grpc\<close> (statuses and interceptors). A function that may
  panic returns \<open>panic + 'a\<close>; one that may fail returns \<open>('x, 'a) go_result = 'x go_error + 'a\<close>.
  The commands are programs of \<open>Go_Cmd\<close>: state passing whose outcome is a value, an exit with a
  status, a panic, or a loop that never ends, with deferred calls run on returns and panics but not
  on exits. \<open>Go_Serve\<close> has the servers' parameters and the part of a process that waits for a
  signal; \<open>Go_Fmt\<close> what \<open>fmt\<close> prints for maps.

  \<^bold>\<open>Interfaces.\<close> \<open>Repo_Interface\<close>: \<open>repository\<close>, \<open>serial_repository\<close> and the store of serial
  identifiers with unique e-mails, \<open>serial_store\<close>, instances M1, M4, M10.
  \<open>Error_Codes\<close>: \<open>error_codes\<close>, instances M1, M10. \<open>Step_System\<close>: \<open>step_system\<close> and
  \<open>terminating_system\<close>, instances the dispatcher, the worker pool, the merge, the two
  workers of the M8 demo, two concurrent consumers of M9, the running capstone and the server processes of M4 and M13 (there from the contract of the package). \<open>Event_Consumer\<close>:
  \<open>dedup_store\<close> and \<open>idempotent_consumer\<close>, instances M9, M14. \<open>Go_Mutex\<close>: \<open>guarded_object\<close>, an
  object whose methods lock a \<open>sync.RWMutex\<close>, instances the stores and repositories of M1, M2, M4,
  M5, M9, M10 and M14. \<open>Go_Serving\<close>: \<open>one_call_server\<close>, request handlers that call such an object at
  most once, instances the APIs of M4 and M10 and the gRPC service of M5. \<open>m01_exercise\<close> and its like for M2 to M5,
  M7 to M9 and M13: what the exercises ask of the packages, in the theories of the commands; where the
  reference relies on a client library, a locale states its laws (\<open>jetstream_up\<close>: for a run in which the server
  refuses nothing).
  The set and the store of M2 have theirs in their own theories.

  \<^bold>\<open>Modules.\<close> One theory per program, its definitions in the order of the source files:

  \<^item> \<open>M00_Start\<close>: \<open>m00-getting-started\<close>, greeter and stats. One pass computes count, sum, minimum and
    maximum.
  \<^item> \<open>M01_Customer\<close>: \<open>m01-interfaces-and-errors\<close>. What validation accepts, codes surviving any
    wrapping, get after create, the logging decorator changing nothing.
  \<^item> \<open>M02_Genx\<close>, \<open>M02_Store\<close>: \<open>m02-generics-and-idioms\<close>. Slices and sets against \<open>map\<close>, \<open>filter\<close> and
    finite sets; the pages partitioning the slice, and the panic of \<open>Paginate\<close> when its product
    overflows; the store refining a finite map; functional options.
  \<^item> \<open>M03_Dispatcher\<close>, \<open>M03_Pipeline\<close>: \<open>m03-concurrency\<close>. Every goroutine is an entry of a list of
    local states, a step of one of them a step of the system. Accounting and drain of the
    dispatcher, order and first error of \<open>Run\<close>, completeness of \<open>Merge\<close>, and termination and absence
    of deadlock by measures that every step decreases: no fairness or fuel is assumed, only that the functions
    given to them return. The dispatcher finishes when its input is closed or its context cancelled.
  \<^item> \<open>M04_Customer\<close>, \<open>M04_Api\<close>: \<open>m04-rest-api\<close>. Handlers and middlewares over the state of the
    server: authorization, create-then-get end to end, redaction, the list's window, the error
    envelope, the repository's invariant under every request. \<open>M04_Schema\<close>: every answer conforms to the schema
    of its status. \<open>M04_Cmd\<close>: the command, the exit statuses its process can end with, and its process
    with the requests it serves.
  \<^item> \<open>M05_Grpc\<close>, \<open>M05_Service\<close>: \<open>m05-grpc\<close>. The interceptor chain and the prefix a stream sends; the
    generated stubs and the service descriptor: which calls are guarded, and upsert-then-get from the
    generated client to the repository and back. \<open>M05_Serving\<close>: calls handled at the same time.
    \<open>M05_Cmd\<close>: the command.
  \<^item> \<open>M06_Postgres\<close>: \<open>m06-postgresql\<close>. The database is a parameter with the laws of its constraints: an
    \<open>UPDATE\<close> of an unknown campaign changes nothing and succeeds, a failed commit may have taken effect. An
    enrolment is all or nothing, and driver errors map to the domain's. \<open>M06_Customers\<close>: over the laws of the table of customers
    (primary key, unique e-mails, one time stamp per insert, windows of an order by time), the
    repository is a list of customers with unique keys; pages partition it if no two customers have
    one time stamp, and need not otherwise.
  \<^item> \<open>M07_Mongo\<close>: \<open>m07-mongodb\<close>. The documents, filters, updates and pipelines the code builds are data, what
    the collections do with them a parameter; what \<open>Get\<close> returns after \<open>Upsert\<close>, and
    the counts of the aggregation. \<open>M07_Demo\<close>: what the command prints, for any order of the map.
  \<^item> \<open>M08_Bus\<close>, \<open>M08_Demo\<close>: \<open>m08-nats-core\<close>. Connecting, publishing, subscribing and replying; the
    demo's queue group counts every message at exactly one worker. \<open>M08_Workers\<close>: its two callbacks
    interleaved access by access come to the same as the messages handled one at a time.
  \<^item> \<open>M09_Stream\<close>: \<open>m09-jetstream\<close>. For every trace of deliveries handled one at a time: a consumer sends no
    event twice, none is lost before its last attempt without a dead letter, replay is silent. \<open>M09_Race\<close>: concurrent
    deliveries interleaved between the check and the mark; the bound on sends they keep, and a
    schedule that sends an event twice. \<open>M09_Demo\<close>: what the command prints.
  \<^item> \<open>M10_Pulse\<close>: \<open>m10-project-structure/pulse\<close>. Create-then-get through the mux, and what refusals
    answer; \<open>itoa\<close> is the decimal numeral. \<open>M10_Cmd\<close>: the three commands.
  \<^item> \<open>M11_Notify\<close>: \<open>m11-testing\<close>, the retry loop. \<open>M12_Main\<close>: \<open>m12-cicd\<close>. \<open>M13_Obs\<close>:
    \<open>m13-observability\<close>, logger, metrics and instrumentation. \<open>M13_Server\<close>: the command, whose
    counters count the requests, and which keeps waiting for a signal when it could not listen.
  \<^item> \<open>M14_Capstone\<close>: \<open>m14-capstone\<close>. What a POST does, which of the published customers reach the stream, and
    one welcome per event whatever the queue does. \<open>M14_Main\<close>: the command returns, and what it prints.
    \<open>M14_Serving\<close>, \<open>M14_Running\<close>: requests and deliveries at the same time. A request is six steps
    (check, lock, store, unlock, publish, respond), between which the others and the consumer run;
    every request is answered, the answers, the stored customers and the stream are those of some order,
    whoever is welcomed is already stored, and in the end each accepted customer whose publish has not failed
    has been welcomed once. Of JetStream it is assumed (\<open>jetstream_log\<close>) that a publish adds its message or
    nothing, and adds it if it is acknowledged and the message ID is new; whether a publish is refused, and what
    becomes of a known ID, is left open. A refused publish costs its customer the welcome (\<open>m14_publish_lost\<close>).
  \<^item> \<open>M01_Demo\<close>, \<open>M02_Demo\<close>, \<open>M03_Demo\<close>, \<open>M06_Cmd\<close>: the other commands.

  The theory below relates the consumers of M9 and M14.

  \<^bold>\<open>Parameters.\<close> Code outside the repository is an argument of the definitions, and what is used of
  it a hypothesis: chi's router, gRPC's wire, PostgreSQL, MongoDB, NATS and JetStream, the JSON codec of
  event payloads, Prometheus and OpenTelemetry, the clock, random bytes, the order of range loops.

  \<^bold>\<open>Bounds.\<close> Identifiers are serial numbers of 64 bits: theorems about repeated creates ask for
  \<open>room\<close>, that is, fewer than \<open>2^63\<close> customers. Recursion that is not structural has a measure: the
  trimming loops the length of the string, \<open>itoa\<close> the number, the retry loop the attempts left.

  \<^bold>\<open>Mutexes.\<close> The theories of the modules take an operation under a mutex as one step. \<open>Go_Mutex\<close>
  justifies that: there a critical section is a sequence of reads and writes of the fields, the
  accesses of all goroutines interleave, the lock admits many readers or one writer, and every
  history of completed calls is one of atomic calls, provided no section under the read lock
  writes. \<open>M02_Conc\<close>, \<open>M04_Conc\<close> and \<open>Guarded_Stores\<close> write the methods of the objects above as such
  sections and show that they meet the condition; \<open>Repo_Conc\<close> derives what concurrent creates get:
  distinct identifiers, one customer each. \<open>M04_Serving\<close>, \<open>M05_Serving\<close> and \<open>M10_Serving\<close> put the handlers around those sections: a
  request is code before its call of the repository and code after it, and requests handled at the
  same time get the answers of some order of handling them one after another. The capstone's handler works on two
  shared objects, its map and the stream, and only the first is under the mutex: \<open>M14_Serving\<close> has its
  own step relation, and the same conclusion needs the identifiers to be distinct.

  \<^bold>\<open>Not modelled.\<close> The mutex of the demo of M3, around one
  statement of a larger step, is not interleaved access by access. The final read of the map in the demo of
  M8, which the code leaves outside the mutex, is one step. In \<open>M09_Stream\<close>,
  \<open>M14_Capstone\<close> and \<open>M14_Serving\<close> the handler of a consumer, which the client library calls for one message at a time,
  is one step too; the interleaving of two consumers of one process is the subject of \<open>M09_Race\<close>.
  A signal reaches a process as a step of its relation, and requests as one list or, in \<open>M04_Cmd\<close>, as
  steps. Left out: bytes to
  JSON trees and back, sockets and the graceful shutdown's waiting for connections in flight, the
  generated protobuf code beyond the messages and their getters, the migrations' SQL beyond the laws
  of its tables, build and deployment files.
\<close>

section \<open>The consumers of M9 and M14\<close>

text \<open>
  The capstone's consumer is the consumer of M9 without the guard for deliveries over the limit.
  As long as the server keeps to the limit it was configured with, the two are the same: reading
  the capstone's events and states as those of M9 commutes with every delivery.
\<close>

definition as_m09 :: "m14_CustomerEvent \<Rightarrow> m09_CustomerEvent" where
  "as_m09 e = \<lparr>e9_ID = e14_ID e, e9_Email = e14_Email e, e9_Name = e14_Name e,
     e9_OccurredAt = e14_OccurredAt e\<rparr>"

definition as_m09_state :: "('d, 'w, 'j) m14_state \<Rightarrow> ('d, 'w, 'j) m09_state" where
  "as_m09_state s = \<lparr>s9_dedup = \<lparr>m09_seen = m14_seen (s14_dedup s)\<rparr>, s9_world = s14_world s,
     s9_js = s14_js s, g9_sent = map as_m09 (g14_sent s), g9_dead = g14_dead s\<rparr>"

lemma handle_agrees:
  assumes "\<not> delivered_over n m"
    and "unmarshal9 (jm_data m) = (case unmarshal14 (jm_data m) of Inl err \<Rightarrow> Inl err | Inr e \<Rightarrow> Inr (as_m09 e))"
    and "\<forall>e w. send9 c (as_m09 e) w = send14 c e w"
  shows "m09_handlers pub unmarshal9 n send9 c m (as_m09_state s)
    = map_prod (\<lambda>v. v) as_m09_state (m14_handlers pub unmarshal14 n send14 c m s)"
proof (cases "unmarshal14 (jm_data m)")
  case (Inl err)
  with assms show ?thesis
    by (simp add: m09_handlers_def m09_handle_def m09_consumer_def m14_handlers_def m14_handle_def)
next
  case (Inr e)
  then have u: "unmarshal9 (jm_data m) = Inr (as_m09 e)" using assms(2) by simp
  have fields: "e9_ID (as_m09 e) = e14_ID e"
    "m09_Seen i (s9_dedup (as_m09_state s)) = m14_Seen i (s14_dedup s)"
    "s9_world (as_m09_state s) = s14_world s" for i
    by (simp_all add: as_m09_def as_m09_state_def m09_Seen_def m14_Seen_def)
  obtain err w where snd_: "send14 c e (s14_world s) = (err, w)" by (cases "send14 c e (s14_world s)")
  show ?thesis
    using assms(1,3) u Inr snd_ fields
    by (cases err)
      (simp_all add: m09_handlers_def m09_handle_def m09_consumer_def m14_handlers_def m14_handle_def
        m09_dead_letter_def m14_dead_letter_def m09_SubjectDLQ_def m14_SubjectDLQ_def
        m09_Mark_def m14_Mark_def as_m09_state_def Let_def)
qed

text \<open>C30 (refinement). For any trace of deliveries within the limit, the consumers of the capstone
  and of M9 give the same verdicts, make the same sends and dead-letter publishes, and end in
  the same state.\<close>

theorem consumers_agree:
  assumes "\<forall>(c, m) \<in> set trace. \<not> delivered_over n m"
    and "\<forall>d. unmarshal9 d = (case unmarshal14 d of Inl err \<Rightarrow> Inl err | Inr e \<Rightarrow> Inr (as_m09 e))"
    and "\<forall>c e w. send9 c (as_m09 e) w = send14 c e w"
  shows "deliver (m09_handlers pub unmarshal9 n send9) trace (as_m09_state s)
    = map_prod (\<lambda>vs. vs) as_m09_state (deliver (m14_handlers pub unmarshal14 n send14) trace s)"
  using assms(1)
proof (induction trace arbitrary: s)
  case (Cons p trace)
  obtain c m where p: "p = (c, m)" by (cases p)
  from Cons.prems p have h: "m09_handlers pub unmarshal9 n send9 c m (as_m09_state s)
      = map_prod (\<lambda>v. v) as_m09_state (m14_handlers pub unmarshal14 n send14 c m s)"
    using assms(2,3) by (intro handle_agrees) auto
  from Cons.prems p Cons.IH [of "snd (m14_handlers pub unmarshal14 n send14 c m s)"] show ?case
    by (simp add: h Let_def case_prod_beta)
qed simp

text \<open>One event, delivered twice to the capstone's consumer with its logging sender.\<close>

definition demo_both :: "(nat \<times> m14_CustomerEvent jmsg) list" where
  "demo_both = map (\<lambda>k. (0, \<lparr>jm_data = m14_event \<lparr>m14_ID = ''cus_01'', m14_Email = ''ada@pulse.dev'',
     m14_Name = ''Ada'', m14_CreatedAt = 0\<rparr>, jm_delivered = Some k\<rparr>)) [1, 2]"

lemma as_m09_back:
  "\<lparr>e14_ID = e9_ID (as_m09 e), e14_Email = e9_Email (as_m09 e), e14_Name = e9_Name (as_m09 e),
    e14_OccurredAt = e9_OccurredAt (as_m09 e)\<rparr> = e"
  by (cases e) (simp add: as_m09_def)

theorem consumers_agree_witness:
  "fst (deliver (m09_handlers demo14_pub (\<lambda>e. Inr (as_m09 e)) 5
       (\<lambda>c e. m14_Send \<lparr>e14_ID = e9_ID e, e14_Email = e9_Email e, e14_Name = e9_Name e,
          e14_OccurredAt = e9_OccurredAt e\<rparr>)) demo_both
     (as_m09_state (m14_start (m14_NewLoggingSender True) [])))
   = fst (deliver (m14_handlers demo14_pub Inr 5 (\<lambda>_. m14_Send)) demo_both
       (m14_start (m14_NewLoggingSender True) []))"
proof -
  have "\<forall>(c, m) \<in> set demo_both. \<not> delivered_over 5 m" by (simp add: demo_both_def delivered_over_def wrap64_def)
  moreover have "\<forall>d. (Inr (as_m09 d) :: (unit, m09_CustomerEvent) go_result)
      = (case Inr d of Inl err \<Rightarrow> Inl err | Inr e \<Rightarrow> Inr (as_m09 e))" by simp
  moreover have "\<forall>(c :: nat) e w. m14_Send \<lparr>e14_ID = e9_ID (as_m09 e), e14_Email = e9_Email (as_m09 e),
      e14_Name = e9_Name (as_m09 e), e14_OccurredAt = e9_OccurredAt (as_m09 e)\<rparr> w
      = (m14_Send e w :: unit go_error option \<times> m14_LoggingSender)"
    using as_m09_back by simp
  ultimately have "deliver (m09_handlers demo14_pub (\<lambda>e. Inr (as_m09 e)) 5
       (\<lambda>c e. m14_Send \<lparr>e14_ID = e9_ID e, e14_Email = e9_Email e, e14_Name = e9_Name e,
          e14_OccurredAt = e9_OccurredAt e\<rparr>)) demo_both
      (as_m09_state (m14_start (m14_NewLoggingSender True) []))
    = map_prod (\<lambda>vs. vs) as_m09_state (deliver (m14_handlers demo14_pub Inr 5 (\<lambda>_. m14_Send)) demo_both
        (m14_start (m14_NewLoggingSender True) []))"
    by (rule consumers_agree)
  then show ?thesis by (simp only: fst_map_prod)
qed

end
